(* ===== verification/Prelude.thy ===== *)
theory Prelude
  imports Complex_Main "HOL-Library.Char_ord" "HOL-Library.List_Lexorder" "HOL-Library.AList"
    "HOL-Library.Sublist"
begin

text \<open>
  The prelude of the development: the parts of Python's language and standard library that the
  PowerBlockade sources use (string methods, \<open>int()\<close>, \<open>dict.fromkeys\<close>, insertion-ordered
  dictionaries, \<open>datetime\<close> and \<open>timedelta\<close>), the error values handlers can end with, the shared
  lemma collections, and generic lemmas on lists and sums.

  Strings are lists of code points below 256; a string with a code point above that is outside
  the model.  Points in time are integers counting microseconds, the resolution of
  Python's \<open>datetime\<close>.  Floats are exact rationals.
\<close>

section \<open>Shared types, errors and lemma collections\<close>

named_theorems pystr_simps "facts on Python string operations"
named_theorems tbl_simps "facts on table operations"
named_theorems inv_intros "preservation of invariants by operations"

type_synonym instant = int

datatype py_error =
    ValueError
  | TypeError
  | IntegrityError
  | HTTPException nat string
  | RuntimeError string

type_synonym 'a py_result = "py_error + 'a"

text \<open>A \<open>datetime\<close> with or without \<open>tzinfo\<close>; the integer is the UTC instant it denotes.\<close>

datatype py_datetime = Naive instant | Aware instant

fun dt_instant :: "py_datetime \<Rightarrow> instant" where
  "dt_instant (Naive t) = t"
| "dt_instant (Aware t) = t"

text \<open>Python refuses to subtract a naive from an aware \<open>datetime\<close> (and conversely).\<close>

fun dt_sub :: "py_datetime \<Rightarrow> py_datetime \<Rightarrow> int py_result" where
  "dt_sub (Aware a) (Aware b) = Inr (a - b)"
| "dt_sub (Naive a) (Naive b) = Inr (a - b)"
| "dt_sub _ _ = Inl TypeError"

definition seconds :: "int \<Rightarrow> int" where
  "seconds n = n * 1000000"

definition minutes :: "int \<Rightarrow> int" where
  "minutes n = seconds (60 * n)"

definition hours :: "int \<Rightarrow> int" where
  "hours n = seconds (3600 * n)"

definition days :: "int \<Rightarrow> int" where
  "days n = seconds (86400 * n)"

lemmas duration_defs = seconds_def minutes_def hours_def days_def

section \<open>Python strings\<close>

definition is_space :: "char \<Rightarrow> bool" where
  "is_space c =
     (let n = (of_char c :: nat)
      in (9 \<le> n \<and> n \<le> 13) \<or> (28 \<le> n \<and> n \<le> 32) \<or> n = 133 \<or> n = 160)"

definition lower_char :: "char \<Rightarrow> char" where
  "lower_char c =
     (let n = (of_char c :: nat)
      in if (65 \<le> n \<and> n \<le> 90) \<or> (192 \<le> n \<and> n \<le> 222 \<and> n \<noteq> 215)
         then char_of (n + 32) else c)"

definition lower :: "string \<Rightarrow> string" where
  "lower s = map lower_char s"

definition lstrip_by :: "(char \<Rightarrow> bool) \<Rightarrow> string \<Rightarrow> string" where
  "lstrip_by p s = dropWhile p s"

definition rstrip_by :: "(char \<Rightarrow> bool) \<Rightarrow> string \<Rightarrow> string" where
  "rstrip_by p s = rev (dropWhile p (rev s))"

definition strip :: "string \<Rightarrow> string" where
  "strip s = rstrip_by is_space (lstrip_by is_space s)"

definition startswith :: "string \<Rightarrow> string \<Rightarrow> bool" where
  "startswith p s = (take (length p) s = p)"

text \<open>Python's \<open>p in s\<close> on strings.\<close>

fun substr_in :: "string \<Rightarrow> string \<Rightarrow> bool" where
  "substr_in p [] = (p = [])"
| "substr_in p (x # xs) = (startswith p (x # xs) \<or> substr_in p xs)"

text \<open>\<open>s.split(sep)\<close> for a one-character separator, and \<open>s.split()\<close> on runs of white space.\<close>

fun split_on :: "char \<Rightarrow> string \<Rightarrow> string list" where
  "split_on c [] = [[]]"
| "split_on c (x # xs) =
     (if x = c then [] # split_on c xs
      else (case split_on c xs of [] \<Rightarrow> [[x]] | w # ws \<Rightarrow> (x # w) # ws))"

fun split_ws_from :: "string \<Rightarrow> string \<Rightarrow> string list" where
  "split_ws_from w [] = (if w = [] then [] else [rev w])"
| "split_ws_from w (x # xs) =
     (if is_space x then (if w = [] then split_ws_from [] xs else rev w # split_ws_from [] xs)
      else split_ws_from (x # w) xs)"

definition split_ws :: "string \<Rightarrow> string list" where
  "split_ws s = split_ws_from [] s"

fun join :: "string \<Rightarrow> string list \<Rightarrow> string" where
  "join sep [] = []"
| "join sep [x] = x"
| "join sep (x # y # ys) = x @ sep @ join sep (y # ys)"

text \<open>Line boundaries of \<open>str.splitlines()\<close>; a carriage return followed by a line feed is one.\<close>

definition is_linebreak :: "char \<Rightarrow> bool" where
  "is_linebreak c =
     (let n = (of_char c :: nat) in (10 \<le> n \<and> n \<le> 13) \<or> (28 \<le> n \<and> n \<le> 30) \<or> n = 133)"

abbreviation newline :: char where
  "newline \<equiv> CHR 0x0A"

abbreviation carriage_return :: char where
  "carriage_return \<equiv> CHR 0x0D"

fun splitlines_from :: "string \<Rightarrow> string \<Rightarrow> string list" where
  "splitlines_from w [] = (if w = [] then [] else [rev w])"
| "splitlines_from w [x] = (if is_linebreak x then [rev w] else [rev (x # w)])"
| "splitlines_from w (x # y # ys) =
     (if x = carriage_return \<and> y = newline then rev w # splitlines_from [] ys
      else if is_linebreak x then rev w # splitlines_from [] (y # ys)
      else splitlines_from (x # w) (y # ys))"

definition splitlines :: "string \<Rightarrow> string list" where
  "splitlines s = splitlines_from [] s"

section \<open>Python integers as text\<close>

definition is_digit :: "char \<Rightarrow> bool" where
  "is_digit c = (let n = (of_char c :: nat) in 48 \<le> n \<and> n \<le> 57)"

definition digit_value :: "char \<Rightarrow> nat" where
  "digit_value c = of_char c - 48"

definition digit_char :: "nat \<Rightarrow> char" where
  "digit_char n = char_of (n + 48)"

text \<open>Digits, with single underscores allowed between them, as \<open>int()\<close> accepts.\<close>

fun digits_from :: "bool \<Rightarrow> nat \<Rightarrow> string \<Rightarrow> nat option" where
  "digits_from seen acc [] = (if seen then Some acc else None)"
| "digits_from seen acc (c # cs) =
     (if is_digit c then digits_from True (10 * acc + digit_value c) cs
      else if c = CHR ''_'' \<and> seen then digits_from False acc cs
      else None)"

text \<open>\<open>int(s)\<close>; \<open>None\<close> is the \<open>ValueError\<close>.\<close>

definition py_int :: "string \<Rightarrow> int option" where
  "py_int s =
     (case strip s of
        [] \<Rightarrow> None
      | c # cs \<Rightarrow>
          (if c = CHR ''-'' then map_option (\<lambda>n. - int n) (digits_from False 0 cs)
           else if c = CHR ''+'' then map_option int (digits_from False 0 cs)
           else map_option int (digits_from False 0 (c # cs))))"

fun show_nat :: "nat \<Rightarrow> string" where
  "show_nat n =
     (if n < 10 then [digit_char n] else show_nat (n div 10) @ [digit_char (n mod 10)])"

declare show_nat.simps [simp del]

definition show_int :: "int \<Rightarrow> string" where
  "show_int i = (if i < 0 then CHR ''-'' # show_nat (nat (- i)) else show_nat (nat i))"

text \<open>
  \<open>float(s)\<close> on decimal literals: a sign, digits with an optional fraction, an optional exponent.
  The spellings of infinity and NaN are outside the model and count as unparsable.
\<close>

definition sign_of :: "string \<Rightarrow> bool \<times> string" where
  "sign_of s =
     (case s of [] \<Rightarrow> (False, [])
      | c # cs \<Rightarrow> if c = CHR ''-'' then (True, cs) else if c = CHR ''+'' then (False, cs)
                  else (False, s))"

definition digits_opt :: "string \<Rightarrow> nat option" where
  "digits_opt s = (if s = [] then Some 0 else digits_from False 0 s)"

definition mantissa :: "string \<Rightarrow> rat option" where
  "mantissa s =
     (case split_on CHR ''.'' s of
        [a] \<Rightarrow> map_option of_nat (digits_from False 0 a)
      | [a, b] \<Rightarrow>
          (if a = [] \<and> b = [] then None
           else (case (digits_opt a, digits_opt b) of
                   (Some x, Some y) \<Rightarrow>
                     Some (of_nat x + of_nat y / 10 ^ length (filter is_digit b))
                 | _ \<Rightarrow> None))
      | _ \<Rightarrow> None)"

definition exponent :: "string \<Rightarrow> rat option" where
  "exponent s =
     (case sign_of s of (neg, ds) \<Rightarrow>
        map_option (\<lambda>n. if neg then 1 / 10 ^ n else 10 ^ n) (digits_from False 0 ds))"

definition py_float :: "string \<Rightarrow> rat option" where
  "py_float s =
     (case sign_of (lower (strip s)) of (neg, t) \<Rightarrow>
        (case (case split_on CHR ''e'' t of
                 [m] \<Rightarrow> mantissa m
               | [m, e] \<Rightarrow>
                   (case (mantissa m, exponent e) of (Some x, Some y) \<Rightarrow> Some (x * y) | _ \<Rightarrow> None)
               | _ \<Rightarrow> None) of
           None \<Rightarrow> None
         | Some x \<Rightarrow> Some (if neg then - x else x)))"

section \<open>Dictionaries and ordered deduplication\<close>

text \<open>
  A \<open>dict\<close> whose order is observed is an association list; \<open>AList.update\<close> keeps the position of
  a key that is present and appends a new one, as Python does.  \<open>dict.fromkeys\<close> keeps the first
  occurrence of each element.
\<close>

primrec fromkeys :: "'a list \<Rightarrow> 'a list" where
  "fromkeys [] = []"
| "fromkeys (x # xs) = x # removeAll x (fromkeys xs)"

definition clamp :: "'a::linorder \<Rightarrow> 'a \<Rightarrow> 'a \<Rightarrow> 'a" where
  "clamp lo hi x = max lo (min hi x)"

text \<open>Python truthiness of an optional string: \<open>None\<close> and the empty string are false.\<close>

fun truthy :: "string option \<Rightarrow> bool" where
  "truthy None = False"
| "truthy (Some s) = (s \<noteq> [])"

section \<open>Generic lemmas\<close>

lemma set_fromkeys [simp]: "set (fromkeys xs) = set xs"
  by (induction xs) auto

lemma distinct_fromkeys [simp]: "distinct (fromkeys xs)"
  by (induction xs) (auto simp: distinct_removeAll)

lemma length_fromkeys_le: "length (fromkeys xs) \<le> length xs"
  by (induction xs) (auto intro: le_trans [OF length_removeAll_less_eq])

lemma fromkeys_distinct: "distinct xs \<Longrightarrow> fromkeys xs = xs"
  by (induction xs) auto

lemma clamp_bounds: "lo \<le> hi \<Longrightarrow> lo \<le> clamp lo hi x \<and> clamp lo hi x \<le> hi"
  by (auto simp: clamp_def)

lemma clamp_clamp [simp]: "clamp lo hi (clamp lo hi x) = clamp lo hi x"
  by (auto simp: clamp_def max_def min_def)

lemma map_sum_eq_Inr [simp]: "map_sum id f x = Inr y \<longleftrightarrow> (\<exists>z. x = Inr z \<and> y = f z)"
  by (cases x) auto

lemma clamp_id: "lo \<le> x \<Longrightarrow> x \<le> hi \<Longrightarrow> clamp lo hi x = x"
  by (auto simp: clamp_def)

lemma set_lstrip_by: "set (lstrip_by p s) \<subseteq> set s"
  by (auto simp: lstrip_by_def dest: set_dropWhileD)

lemma set_rstrip_by: "set (rstrip_by p s) \<subseteq> set s"
  by (auto simp: rstrip_by_def dest: set_dropWhileD)

lemma set_strip: "set (strip s) \<subseteq> set s"
  unfolding strip_def using set_lstrip_by set_rstrip_by by blast

lemma hd_lstrip_by: "lstrip_by p s \<noteq> [] \<Longrightarrow> \<not> p (hd (lstrip_by p s))"
  by (simp add: lstrip_by_def hd_dropWhile)

lemma last_rstrip_by: "rstrip_by p s \<noteq> [] \<Longrightarrow> \<not> p (last (rstrip_by p s))"
  by (simp add: rstrip_by_def last_rev hd_dropWhile)

lemma rstrip_by_prefix: "\<exists>t. s = rstrip_by p s @ t"
proof -
  have "rev s = takeWhile p (rev s) @ dropWhile p (rev s)" by simp
  then have "s = rev (dropWhile p (rev s)) @ rev (takeWhile p (rev s))"
    by (metis rev_append rev_rev_ident)
  then show ?thesis unfolding rstrip_by_def by blast
qed

lemma hd_rstrip_by: "rstrip_by p s \<noteq> [] \<Longrightarrow> hd (rstrip_by p s) = hd s"
  using rstrip_by_prefix [of s p] by (metis hd_append2)

lemma lower_char_lower [simp]: "lower_char (lower_char c) = lower_char c"
  by (auto simp: lower_char_def Let_def of_char_of)

lemma lower_lower [simp]: "lower (lower s) = lower s"
  by (simp add: lower_def)

lemma lower_id_iff: "lower s = s \<longleftrightarrow> (\<forall>c \<in> set s. lower_char c = c)"
  by (induction s) (auto simp: lower_def)

lemma lower_id_subset: "lower s = s \<Longrightarrow> set t \<subseteq> set s \<Longrightarrow> lower t = t"
  by (auto simp: lower_id_iff)

lemma startswith_append [simp]: "startswith p (p @ s)"
  by (simp add: startswith_def)

lemma startswith_iff: "startswith p s \<longleftrightarrow> (\<exists>t. s = p @ t)"
  by (metis append_eq_conv_conj startswith_def)

section \<open>Printing and reading integers\<close>

lemma is_digit_digit_char [simp]: "n < 10 \<Longrightarrow> is_digit (digit_char n)"
  by (simp add: is_digit_def digit_char_def Let_def)

lemma digit_value_digit_char [simp]: "n < 10 \<Longrightarrow> digit_value (digit_char n) = n"
  by (simp add: digit_value_def digit_char_def)

lemma digits_from_append:
  "\<forall>c \<in> set xs. is_digit c \<Longrightarrow> xs \<noteq> [] \<Longrightarrow>
   digits_from b acc (xs @ ys) =
     digits_from True (fold (\<lambda>c a. 10 * a + digit_value c) xs acc) ys"
  by (induction xs arbitrary: b acc) (auto, metis append_self_conv2 fold_simps(1))

lemma show_nat_digits: "\<forall>c \<in> set (show_nat n). is_digit c"
proof (induction n rule: show_nat.induct)
  case (1 n)
  then show ?case by (subst show_nat.simps) auto
qed

lemma show_nat_nonempty [simp]: "show_nat n \<noteq> []"
  by (subst show_nat.simps) simp

lemma fold_show_nat: "fold (\<lambda>c a. 10 * a + digit_value c) (show_nat n) 0 = n"
proof (induction n rule: show_nat.induct)
  case (1 n)
  then show ?case by (subst show_nat.simps) auto
qed

lemma digits_from_show_nat: "digits_from False 0 (show_nat n) = Some n"
  using digits_from_append [OF show_nat_digits show_nat_nonempty, of False 0 n "[]"]
  by (simp add: fold_show_nat)

lemma strip_no_space: "\<forall>c \<in> set s. \<not> is_space c \<Longrightarrow> strip s = s"
proof -
  assume no_space: "\<forall>c \<in> set s. \<not> is_space c"
  have "dropWhile is_space t = t" if "set t = set s" for t
    using no_space that by (cases t) auto
  then show ?thesis by (simp add: strip_def lstrip_by_def rstrip_by_def)
qed

lemma is_digit_not_space: "is_digit c \<Longrightarrow> \<not> is_space c"
  by (auto simp: is_digit_def is_space_def Let_def)

lemma is_digit_not_sign: "is_digit c \<Longrightarrow> c \<noteq> CHR ''-'' \<and> c \<noteq> CHR ''+''"
  by (auto simp: is_digit_def Let_def)

lemma strip_show_int: "strip (show_int i) = show_int i"
proof (rule strip_no_space)
  have "\<not> is_space CHR ''-''" by (simp add: is_space_def)
  then show "\<forall>c \<in> set (show_int i). \<not> is_space c"
    using show_nat_digits is_digit_not_space by (auto simp: show_int_def)
qed

lemma py_int_show_int [simp]: "py_int (show_int i) = Some i"
proof (cases "i < 0")
  case True
  then show ?thesis
    unfolding py_int_def strip_show_int by (simp add: show_int_def digits_from_show_nat)
next
  case False
  obtain c cs where cs: "show_nat (nat i) = c # cs"
    using show_nat_nonempty by (meson neq_Nil_conv)
  have "is_digit c"
    using show_nat_digits [of "nat i"] by (simp add: cs)
  then have "c \<noteq> CHR ''-''" and "c \<noteq> CHR ''+''"
    using is_digit_not_sign by blast+
  then show ?thesis
    using False digits_from_show_nat [of "nat i"]
    unfolding py_int_def strip_show_int by (simp add: show_int_def cs)
qed

lemma show_int_nonempty [simp]: "show_int i \<noteq> []"
  by (simp add: show_int_def)

end
