(* ===== verification/Rpz.thy ===== *)
theory Rpz
  imports Prelude
begin

text \<open>
  Parsing of blocklists and rendering of response-policy zones
  (\<open>admin-ui/app/services/rpz.py\<close>): every function of the module, and a reader for the rendered
  zone text that serves as the specification of what a zone says.
\<close>

section \<open>Normalising a domain\<close>

text \<open>
  The module's regular expression: white space, a hash or a semicolon, then anything but a line
  feed up to the end of the string or to a final line feed.  \<open>comment_sub\<close> is
  \<open>_comment_re.sub("", s)\<close>: the leftmost match is removed; a final line feed is not part of it.
\<close>

definition is_comment_char :: "char \<Rightarrow> bool" where
  "is_comment_char c = (c = CHR ''#'' \<or> c = CHR '';'')"

definition drop_final_newline :: "string \<Rightarrow> string" where
  "drop_final_newline s = (if s \<noteq> [] \<and> last s = newline then butlast s else s)"

definition comment_matches_here :: "string \<Rightarrow> bool" where
  "comment_matches_here s =
     (case dropWhile is_space s of
        [] \<Rightarrow> False
      | c # rest \<Rightarrow> is_comment_char c \<and> newline \<notin> set (drop_final_newline rest))"

fun comment_sub :: "string \<Rightarrow> string" where
  "comment_sub [] = []"
| "comment_sub (c # cs) =
     (if comment_matches_here (c # cs)
      then (if last (c # cs) = newline then [newline] else [])
      else c # comment_sub cs)"

definition normalize_domain :: "string \<Rightarrow> string option" where
  "normalize_domain s0 =
     (let s1 = lower (strip s0);
          s2 = strip (comment_sub s1)
      in if s2 = [] then None
         else
           (let s3 = (if startswith ''||'' s2 then drop 2 s2 else s2)
            in if startswith ''http://'' s3 \<or> startswith ''https://'' s3 then None
               else
                 (let s4 = lstrip_by (\<lambda>c. c = CHR ''*'' \<or> c = CHR ''.'') s3;
                      s5 = rstrip_by (\<lambda>c. c = CHR ''.'') s4
                  in if s5 = [] then None
                     else if CHR '' '' \<in> set s5 \<or> CHR 0x09 \<in> set s5 then None
                     else if startswith ''['' s5 then None
                     else if CHR ''/'' \<in> set s5 then None
                     else Some s5)))"

section \<open>Parsing a blocklist\<close>

text \<open>One pass of the loop body: the domain a raw line contributes, if any.\<close>

definition parse_line :: "string \<Rightarrow> string \<Rightarrow> string option" where
  "parse_line fmt raw =
     (let line = strip raw
      in if line = [] \<or> startswith ''!'' line then None
         else if fmt = ''hosts'' then
           (case split_ws (comment_sub line) of
              _ # host # _ \<Rightarrow> normalize_domain host
            | _ \<Rightarrow> None)
         else normalize_domain line)"

fun parse_loop :: "string \<Rightarrow> string set \<Rightarrow> string list \<Rightarrow> string set" where
  "parse_loop fmt out [] = out"
| "parse_loop fmt out (raw # raws) =
     (case parse_line fmt raw of
        None \<Rightarrow> parse_loop fmt out raws
      | Some dn \<Rightarrow> parse_loop fmt (insert dn out) raws)"

definition parse_blocklist_lines :: "string list \<Rightarrow> string \<Rightarrow> string set" where
  "parse_blocklist_lines lines fmt = parse_loop (lower (strip fmt)) {} lines"

definition parse_blocklist_text :: "string \<Rightarrow> string \<Rightarrow> string set" where
  "parse_blocklist_text text fmt = parse_blocklist_lines (splitlines text) fmt"

section \<open>Rendering zones\<close>

text \<open>The clock's seconds are the zone's serial number.\<close>

definition rpz_header :: "int \<Rightarrow> string \<Rightarrow> string" where
  "rpz_header now comment =
     ''$TTL 300'' @ [newline] @
     ''@ IN SOA localhost. hostmaster.localhost. '' @ show_int now @ '' 3600 600 604800 300'' @ [newline] @
     ''@ IN NS localhost.'' @ [newline] @
     comment @ [newline]"

definition render_rpz_zone :: "int \<Rightarrow> string set \<Rightarrow> string \<Rightarrow> string" where
  "render_rpz_zone now domains policy_name =
     concat (rpz_header now (''; policy: '' @ policy_name) #
             map (\<lambda>d. d @ ''. CNAME .'' @ [newline]) (sorted_list_of_set domains))"

definition render_rpz_whitelist :: "int \<Rightarrow> string set \<Rightarrow> string" where
  "render_rpz_whitelist now domains =
     concat (rpz_header now ''; whitelist (rpz-passthru)'' #
             map (\<lambda>d. d @ ''. CNAME rpz-passthru.'' @ [newline]) (sorted_list_of_set domains))"

section \<open>Reading a zone\<close>

text \<open>
  A line is a policy record when it does not start with a directive, the apex or a comment and
  holds an owner, the type \<open>CNAME\<close> and a target, separated by single blanks; the owner's final
  dot is dropped.
\<close>

definition record_of_line :: "string \<Rightarrow> (string \<times> string) option" where
  "record_of_line line =
     (case line of
        [] \<Rightarrow> None
      | c # _ \<Rightarrow>
          if c = CHR ''$'' \<or> c = CHR ''@'' \<or> is_comment_char c then None
          else (case split_on CHR '' '' line of
                  [owner, ty, target] \<Rightarrow>
                    if ty = ''CNAME'' \<and> owner \<noteq> [] \<and> last owner = CHR ''.''
                    then Some (butlast owner, target) else None
                | _ \<Rightarrow> None))"

definition zone_records :: "string \<Rightarrow> (string \<times> string) list" where
  "zone_records zone = List.map_filter record_of_line (split_on newline zone)"

definition zone_owners :: "string \<Rightarrow> string \<Rightarrow> string set" where
  "zone_owners target zone = {d. (d, target) \<in> set (zone_records zone)}"

text \<open>What the renderer needs of a domain: one printable token that does not open a directive.\<close>

definition zone_safe :: "string \<Rightarrow> bool" where
  "zone_safe d \<longleftrightarrow>
     CHR '' '' \<notin> set d \<and> newline \<notin> set d \<and> d \<noteq> [] \<and>
     hd d \<noteq> CHR ''$'' \<and> hd d \<noteq> CHR ''@'' \<and> \<not> is_comment_char (hd d)"

section \<open>Facts on the parser\<close>

lemma parse_loop_eq:
  "parse_loop fmt out raws = out \<union> {d. \<exists>raw \<in> set raws. parse_line fmt raw = Some d}"
  by (induction fmt out raws rule: parse_loop.induct) (auto split: option.splits)

lemma finite_parse_loop: "finite out \<Longrightarrow> finite (parse_loop fmt out raws)"
  by (induction fmt out raws rule: parse_loop.induct) (auto split: option.splits)

lemma set_comment_sub: "set (comment_sub s) \<subseteq> set s"
proof (induction s)
  case (Cons c cs)
  then show ?case by (auto dest: last_in_set)
qed simp

lemma comment_sub_no_comment:
  "newline \<notin> set s \<Longrightarrow> c \<in> set (comment_sub s) \<Longrightarrow> \<not> is_comment_char c"
proof (induction s)
  case (Cons x xs)
  have tail: "set (drop_final_newline xs) \<subseteq> set xs"
    by (auto simp: drop_final_newline_def dest: in_set_butlastD)
  show ?case
  proof (cases "comment_matches_here (x # xs)")
    case True
    with Cons.prems show ?thesis by (auto split: if_splits dest: last_in_set)
  next
    case False
    moreover have "\<not> is_space x" if "is_comment_char x"
      using that by (auto simp: is_comment_char_def is_space_def)
    ultimately have "\<not> is_comment_char x"
      using Cons.prems(1) tail by (auto simp: comment_matches_here_def)
    with False Cons show ?thesis by auto
  qed
qed simp

lemma set_split_ws_from: "w' \<in> set (split_ws_from w s) \<Longrightarrow> set w' \<subseteq> set w \<union> set s"
  by (induction w s rule: split_ws_from.induct) (auto split: if_splits)

lemma split_ws_subset: "w \<in> set (split_ws s) \<Longrightarrow> set w \<subseteq> set s"
  using set_split_ws_from [of w "[]" s] by (simp add: split_ws_def)

lemma lower_char_newline: "lower_char c = newline \<Longrightarrow> c = newline"
proof -
  assume "lower_char c = newline"
  then have "(of_char (lower_char c) :: nat) = of_char newline" by simp
  then have "(of_char c :: nat) = of_char newline"
    by (auto simp: lower_char_def Let_def split: if_splits)
  then show ?thesis by (simp only: of_char_eq_iff)
qed

lemma lower_newline: "newline \<in> set (lower s) \<Longrightarrow> newline \<in> set s"
  using lower_char_newline by (fastforce simp: lower_def)

lemma parse_line_SomeD:
  assumes "parse_line f l = Some d"
  obtains s where "normalize_domain s = Some d" and "set s \<subseteq> set (strip l)"
proof (cases "f = ''hosts''")
  case True
  then obtain w h ws where ws: "split_ws (comment_sub (strip l)) = w # h # ws"
    and norm: "normalize_domain h = Some d"
    using assms by (auto simp: parse_line_def Let_def split: if_splits list.splits)
  then have "set h \<subseteq> set (comment_sub (strip l))"
    using split_ws_subset [of h "comment_sub (strip l)"] by simp
  then show thesis using that norm set_comment_sub by (meson subset_trans)
next
  case False
  then show thesis using that assms by (auto simp: parse_line_def Let_def split: if_splits)
qed

lemma normalize_domain_SomeD:
  assumes "normalize_domain s = Some d"
  obtains t where "set t \<subseteq> set (comment_sub (lower (strip s)))"
    and "d = rstrip_by (\<lambda>c. c = CHR ''.'') (lstrip_by (\<lambda>c. c = CHR ''*'' \<or> c = CHR ''.'') t)"
    and "d \<noteq> []" and "CHR '' '' \<notin> set d" and "CHR 0x09 \<notin> set d" and "hd d \<noteq> CHR ''[''"
    and "CHR ''/'' \<notin> set d"
proof -
  define s2 where "s2 = strip (comment_sub (lower (strip s)))"
  define s3 where "s3 = (if startswith ''||'' s2 then drop 2 s2 else s2)"
  define s5 where
    "s5 = rstrip_by (\<lambda>c. c = CHR ''.'') (lstrip_by (\<lambda>c. c = CHR ''*'' \<or> c = CHR ''.'') s3)"
  have "normalize_domain s =
      (if s2 = [] then None
       else if startswith ''http://'' s3 \<or> startswith ''https://'' s3 then None
       else if s5 = [] then None
       else if CHR '' '' \<in> set s5 \<or> CHR 0x09 \<in> set s5 then None
       else if startswith ''['' s5 then None
       else if CHR ''/'' \<in> set s5 then None
       else Some s5)"
    by (simp only: normalize_domain_def Let_def s2_def s3_def s5_def)
  with assms have d: "d = s5" "s5 \<noteq> []" "CHR '' '' \<notin> set s5" "CHR 0x09 \<notin> set s5"
    "\<not> startswith ''['' s5" "CHR ''/'' \<notin> set s5"
    by (simp_all split: if_splits)
  have "set s3 \<subseteq> set (comment_sub (lower (strip s)))"
    using set_strip [of "comment_sub (lower (strip s))"] set_drop_subset [of 2 s2]
    unfolding s3_def s2_def by (auto split: if_splits)
  moreover have "hd s5 \<noteq> CHR ''[''"
    using d(2,5) by (cases s5) (auto simp: startswith_def)
  ultimately show thesis
    using that [of s3] d by (simp add: s5_def)
qed

lemma normalize_domain_hd_last:
  assumes "d = rstrip_by (\<lambda>c. c = CHR ''.'') (lstrip_by (\<lambda>c. c = CHR ''*'' \<or> c = CHR ''.'') t)"
    and "d \<noteq> []"
  shows "hd d \<noteq> CHR ''*''" and "hd d \<noteq> CHR ''.''" and "last d \<noteq> CHR ''.''"
proof -
  let ?l = "lstrip_by (\<lambda>c. c = CHR ''*'' \<or> c = CHR ''.'') t"
  have "?l \<noteq> []" using assms by (auto simp: rstrip_by_def)
  then have "\<not> (hd ?l = CHR ''*'' \<or> hd ?l = CHR ''.'')" by (rule hd_lstrip_by)
  moreover have "hd d = hd ?l" using assms hd_rstrip_by by blast
  ultimately show "hd d \<noteq> CHR ''*''" and "hd d \<noteq> CHR ''.''" by auto
  show "last d \<noteq> CHR ''.''" using assms last_rstrip_by by blast
qed

section \<open>Facts on rendered zones\<close>

lemma split_on_no_sep: "c \<notin> set s \<Longrightarrow> split_on c s = [s]"
  by (induction s) auto

lemma split_on_append_sep:
  "c \<notin> set s \<Longrightarrow> split_on c (s @ c # t) = s # split_on c t"
  by (induction s) auto

lemma split_on_concat_lines:
  "\<forall>l \<in> set ls. c \<notin> set l \<Longrightarrow> split_on c (concat (map (\<lambda>l. l @ [c]) ls)) = ls @ [[]]"
  by (induction ls) (auto simp: split_on_append_sep)

lemma split_on_join: "ls \<noteq> [] \<Longrightarrow> \<forall>l \<in> set ls. c \<notin> set l \<Longrightarrow> split_on c (join [c] ls) = ls"
  by (induction "[c]" ls rule: join.induct) (simp_all add: split_on_no_sep split_on_append_sep)

lemma newline_not_digit: "is_digit c \<Longrightarrow> c \<noteq> newline"
  by (auto simp: is_digit_def)

lemma newline_notin_show_int: "newline \<notin> set (show_int i)"
  using show_nat_digits [of "nat (- i)"] show_nat_digits [of "nat i"] newline_not_digit
  by (auto simp: show_int_def)

lemma map_filter_append:
  "List.map_filter f (xs @ ys) = List.map_filter f xs @ List.map_filter f ys"
  by (simp add: List.map_filter_def)

text \<open>The header's lines are no policy records.\<close>

definition header_lines :: "int \<Rightarrow> string \<Rightarrow> string list" where
  "header_lines now comment =
     [''$TTL 300'',
      ''@ IN SOA localhost. hostmaster.localhost. '' @ show_int now @ '' 3600 600 604800 300'',
      ''@ IN NS localhost.'', comment]"

lemma rpz_header_lines: "rpz_header now comment = concat (map (\<lambda>l. l @ [newline]) (header_lines now comment))"
  by (simp add: rpz_header_def header_lines_def)

lemma map_filter_header:
  "is_comment_char (hd comment) \<Longrightarrow> comment \<noteq> [] \<Longrightarrow>
   List.map_filter record_of_line (header_lines now comment) = []"
  by (cases comment) (auto simp: header_lines_def map_filter_simps record_of_line_def)

lemma record_of_rendered_line:
  assumes "zone_safe d" and "CHR '' '' \<notin> set target"
  shows "record_of_line (d @ ''. CNAME '' @ target) = Some (d, target)"
proof -
  have "split_on CHR '' '' ((d @ ''.'') @ CHR '' '' # ''CNAME'' @ CHR '' '' # target) =
      [d @ ''.'', ''CNAME'', target]"
    using assms by (simp add: zone_safe_def split_on_append_sep split_on_no_sep
        del: append_assoc append_Cons)
  moreover obtain c cs where "d = c # cs" using assms by (cases d) (auto simp: zone_safe_def)
  ultimately show ?thesis
    using assms(1) by (auto simp: record_of_line_def zone_safe_def)
qed

lemma zone_records_rendered:
  assumes ds: "\<forall>d \<in> set ds. zone_safe d"
    and target: "CHR '' '' \<notin> set target" "newline \<notin> set target"
    and comment: "is_comment_char (hd comment)" "comment \<noteq> []" "newline \<notin> set comment"
  shows "zone_records (concat (rpz_header now comment #
           map (\<lambda>d. d @ ''. CNAME '' @ target @ [newline]) ds)) = map (\<lambda>d. (d, target)) ds"
proof -
  define body where "body = map (\<lambda>d. d @ ''. CNAME '' @ target) ds"
  have zone_text: "concat (rpz_header now comment # map (\<lambda>d. d @ ''. CNAME '' @ target @ [newline]) ds) =
      concat (map (\<lambda>l. l @ [newline]) (header_lines now comment @ body))"
    by (simp add: rpz_header_lines comp_def body_def)
  have no_newline: "\<forall>l \<in> set (header_lines now comment @ body). newline \<notin> set l"
    using ds target comment newline_notin_show_int
    by (auto simp: header_lines_def zone_safe_def body_def)
  have records: "List.map_filter record_of_line body = map (\<lambda>d. (d, target)) ds"
    unfolding body_def using ds target(1) record_of_rendered_line
    by (induction ds) (auto simp: map_filter_simps)
  have "record_of_line [] = None"
    by (simp add: record_of_line_def)
  then show ?thesis
    unfolding zone_records_def zone_text split_on_concat_lines [OF no_newline]
    by (simp add: map_filter_append map_filter_header [OF comment(1,2)] records map_filter_simps)
qed

lemma zone_owners_render:
  assumes "finite ds" and "\<forall>d \<in> ds. zone_safe d" and "newline \<notin> set policy"
  shows "zone_owners ''.'' (render_rpz_zone now ds policy) = ds"
    and "zone_owners ''rpz-passthru.'' (render_rpz_whitelist now ds) = ds"
    and "zone_owners ''rpz-passthru.'' (render_rpz_zone now ds policy) = {}"
proof -
  have owners: "zone_owners target (concat (rpz_header now comment #
      map (\<lambda>d. d @ ''. CNAME '' @ target' @ [newline]) (sorted_list_of_set ds))) =
      (if target = target' then ds else {})"
    if "CHR '' '' \<notin> set target'" "newline \<notin> set target'" "newline \<notin> set comment"
      "is_comment_char (hd comment)" "comment \<noteq> []" for target target' comment
  proof -
    have "\<forall>d \<in> set (sorted_list_of_set ds). zone_safe d" using assms(1,2) by simp
    from zone_records_rendered [OF this that(1,2,4,5,3)] assms(1) show ?thesis
      unfolding zone_owners_def by auto
  qed
  show "zone_owners ''.'' (render_rpz_zone now ds policy) = ds"
    using owners [of "''.''" "''; policy: '' @ policy" "''.''"] assms(3)
    by (simp add: render_rpz_zone_def is_comment_char_def)
  show "zone_owners ''rpz-passthru.'' (render_rpz_whitelist now ds) = ds"
    using owners [of "''rpz-passthru.''" "''; whitelist (rpz-passthru)''" "''rpz-passthru.''"]
    by (simp add: render_rpz_whitelist_def is_comment_char_def)
  show "zone_owners ''rpz-passthru.'' (render_rpz_zone now ds policy) = {}"
    using owners [of "''.''" "''; policy: '' @ policy" "''rpz-passthru.''"] assms(3)
    by (simp add: render_rpz_zone_def is_comment_char_def)
qed

section \<open>Host names survive normalisation\<close>

definition is_host_char :: "char \<Rightarrow> bool" where
  "is_host_char c =
     (let n = (of_char c :: nat) in (97 \<le> n \<and> n \<le> 122) \<or> (48 \<le> n \<and> n \<le> 57) \<or> n = 45 \<or> n = 46)"

definition host_name :: "string \<Rightarrow> bool" where
  "host_name h \<longleftrightarrow> h \<noteq> [] \<and> (\<forall>c \<in> set h. is_host_char c) \<and> hd h \<noteq> CHR ''.'' \<and> last h \<noteq> CHR ''.''"

lemma host_char_facts:
  assumes "is_host_char c"
  shows "\<not> is_space c" "\<not> is_comment_char c" "lower_char c = c" "c \<noteq> CHR ''/''" "c \<noteq> CHR ''*''"
    "c \<noteq> CHR ''|''" "c \<noteq> CHR ''[''" "c \<noteq> CHR ''!''" "c \<noteq> CHR '' ''" "c \<noteq> CHR 0x09" "c \<noteq> newline"
    "c \<noteq> CHR ''$''" "c \<noteq> CHR ''@''"
  using assms
  by (auto simp: is_host_char_def is_space_def is_comment_char_def lower_char_def Let_def)

lemma not_host_char [simp]:
  "\<not> is_host_char CHR '' ''" "\<not> is_host_char newline" "\<not> is_host_char CHR ''$''"
  "\<not> is_host_char CHR ''@''" "\<not> is_host_char CHR ''#''" "\<not> is_host_char CHR '';''"
  "\<not> is_host_char CHR ''*''" "\<not> is_host_char CHR ''[''" "\<not> is_host_char CHR ''/''"
  "\<not> is_host_char CHR ''|''" "\<not> is_host_char CHR ''!''"
  by (simp_all add: is_host_char_def)

lemma comment_sub_id: "\<forall>c \<in> set s. \<not> is_comment_char c \<Longrightarrow> comment_sub s = s"
proof (induction s)
  case (Cons c cs)
  have "\<not> comment_matches_here (c # cs)"
  proof (cases "dropWhile is_space (c # cs)")
    case (Cons x xs)
    then have "x \<in> set (c # cs)" by (metis list.set_intros(1) set_dropWhileD)
    then have "\<not> is_comment_char x" using \<open>\<forall>c \<in> set (c # cs). \<not> is_comment_char c\<close> by blast
    then show ?thesis unfolding comment_matches_here_def Cons by simp
  qed (simp add: comment_matches_here_def)
  with Cons show ?case by simp
qed simp

lemma lower_idI: "\<forall>c \<in> set s. lower_char c = c \<Longrightarrow> lower s = s"
  by (simp add: lower_id_iff)

lemma startswith_mem: "startswith p s \<Longrightarrow> set p \<subseteq> set s"
  by (auto simp: startswith_iff)

lemma dropWhile_hd: "s = [] \<or> \<not> p (hd s) \<Longrightarrow> dropWhile p s = s"
  by (cases s) auto

lemma rstrip_by_last: "s \<noteq> [] \<Longrightarrow> \<not> p (last s) \<Longrightarrow> rstrip_by p s = s"
  by (simp add: rstrip_by_def dropWhile_hd hd_rev)

lemma strip_ends: "s \<noteq> [] \<Longrightarrow> \<not> is_space (hd s) \<Longrightarrow> \<not> is_space (last s) \<Longrightarrow> strip s = s"
  by (simp add: strip_def lstrip_by_def dropWhile_hd rstrip_by_last)

text \<open>
  The core of \<open>normalize_domain\<close> on a token that needs no stripping, behind an optional anchor.
\<close>

lemma normalize_domain_token:
  assumes plain: "\<forall>c \<in> set t. \<not> is_space c \<and> \<not> is_comment_char c \<and> lower_char c = c \<and>
      c \<noteq> CHR ''/'' \<and> c \<noteq> CHR ''|''"
    and t: "t \<noteq> []" "hd t \<noteq> CHR ''*''" "hd t \<noteq> CHR ''.''" "hd t \<noteq> CHR ''[''" "last t \<noteq> CHR ''.''"
    and anchor: "a = [] \<or> a = ''||''"
  shows "normalize_domain (a @ t) = Some t"
proof -
  have "\<not> is_space CHR ''|''" "\<not> is_comment_char CHR ''|''" "lower_char CHR ''|'' = CHR ''|''"
    by (simp_all add: is_space_def is_comment_char_def lower_char_def)
  moreover have "c = CHR ''|'' \<or> c \<in> set t" if "c \<in> set (a @ t)" for c
    using that anchor by auto
  ultimately have "\<forall>c \<in> set (a @ t). \<not> is_space c \<and> \<not> is_comment_char c \<and> lower_char c = c"
    using plain by blast
  then have "strip (a @ t) = a @ t" "lower (a @ t) = a @ t" "comment_sub (a @ t) = a @ t"
    by (blast intro: strip_no_space lower_idI comment_sub_id)+
  then have s: "strip (comment_sub (lower (strip (a @ t)))) = a @ t"
    by metis
  have cut: "(if startswith ''||'' (a @ t) then drop 2 (a @ t) else a @ t) = t"
  proof (cases "a = []")
    case True
    have "CHR ''|'' \<notin> set t" using plain by blast
    then have "\<not> startswith ''||'' t" using startswith_mem [of "''||''" t] by auto
    with True show ?thesis by simp
  next
    case False
    then have "a = ''||''" using anchor by blast
    then show ?thesis by (simp add: startswith_def)
  qed
  have "is_space CHR '' ''" "is_space CHR 0x09" by (simp_all add: is_space_def)
  then have slash: "CHR ''/'' \<notin> set t" and blank: "CHR '' '' \<notin> set t" "CHR 0x09 \<notin> set t"
    using plain by blast+
  have no_scheme: "\<not> startswith ''http://'' t" "\<not> startswith ''https://'' t"
    using slash startswith_mem [of "''http://''" t] startswith_mem [of "''https://''" t] by auto
  have "\<not> startswith ''['' t" using t by (cases t) (auto simp: startswith_def)
  moreover have "rstrip_by (\<lambda>c. c = CHR ''.'') (lstrip_by (\<lambda>c. c = CHR ''*'' \<or> c = CHR ''.'') t) = t"
    using t by (simp add: lstrip_by_def dropWhile_hd rstrip_by_last)
  ultimately show ?thesis
    using t(1) no_scheme slash blank unfolding normalize_domain_def Let_def s cut by simp
qed

lemma host_name_token:
  assumes "host_name h"
  shows "\<forall>c \<in> set h. \<not> is_space c \<and> \<not> is_comment_char c \<and> lower_char c = c \<and>
      c \<noteq> CHR ''/'' \<and> c \<noteq> CHR ''|''"
    and "h \<noteq> []" "hd h \<noteq> CHR ''*''" "hd h \<noteq> CHR ''.''" "hd h \<noteq> CHR ''[''" "last h \<noteq> CHR ''.''"
proof -
  show "\<forall>c \<in> set h. \<not> is_space c \<and> \<not> is_comment_char c \<and> lower_char c = c \<and>
      c \<noteq> CHR ''/'' \<and> c \<noteq> CHR ''|''"
    using assms host_char_facts(1-4,6) by (auto simp: host_name_def)
  show "h \<noteq> []" "hd h \<noteq> CHR ''.''" "last h \<noteq> CHR ''.''" using assms by (auto simp: host_name_def)
  show "hd h \<noteq> CHR ''*''" "hd h \<noteq> CHR ''[''"
    using assms hd_in_set [of h] by (force simp: host_name_def)+
qed

lemma normalize_host_name: "host_name h \<Longrightarrow> normalize_domain h = Some h"
  using normalize_domain_token [where a = "[]", OF host_name_token] by simp

lemma host_name_zone_safe: "host_name h \<Longrightarrow> zone_safe h"
proof -
  assume h: "host_name h"
  then have "is_host_char (hd h)" by (auto simp: host_name_def)
  then show ?thesis
    using h host_char_facts(2,12,13) [of "hd h"] by (auto simp: host_name_def zone_safe_def)
qed

lemma split_ws_from_token:
  "\<forall>c \<in> set t. \<not> is_space c \<Longrightarrow> split_ws_from w (t @ s) = split_ws_from (rev t @ w) s"
  by (induction t arbitrary: w) auto

section \<open>Properties\<close>

text \<open>
  C15: the domains a parsed list contributes are clean.  For input lines without an inner line
  feed (both callers split at line ends first), a domain in the result is not empty, is lower
  case, holds no blank, tab, line feed, slash or comment character, starts neither with a
  wildcard nor with a dot nor with a bracket, and does not end with a dot.
\<close>

theorem parsed_domains_clean:
  assumes "d \<in> parse_blocklist_lines lines fmt"
    and "\<forall>l \<in> set lines. newline \<notin> set (strip l)"
  shows "d \<noteq> [] \<and> lower d = d \<and>
    set d \<inter> {CHR '' '', CHR 0x09, newline, CHR ''/'', CHR ''#'', CHR '';''} = {} \<and>
    hd d \<notin> {CHR ''*'', CHR ''.'', CHR ''[''} \<and> last d \<noteq> CHR ''.''"
proof -
  obtain l f where l: "l \<in> set lines" and "parse_line f l = Some d"
    using assms(1) by (auto simp: parse_blocklist_lines_def parse_loop_eq)
  then obtain s where norm: "normalize_domain s = Some d" and s: "set s \<subseteq> set (strip l)"
    using parse_line_SomeD by metis
  obtain t where t: "set t \<subseteq> set (comment_sub (lower (strip s)))"
    and d: "d = rstrip_by (\<lambda>c. c = CHR ''.'') (lstrip_by (\<lambda>c. c = CHR ''*'' \<or> c = CHR ''.'') t)"
    and shape: "d \<noteq> []" "CHR '' '' \<notin> set d" "CHR 0x09 \<notin> set d" "hd d \<noteq> CHR ''[''" "CHR ''/'' \<notin> set d"
    by (rule normalize_domain_SomeD [OF norm])
  have d_sub: "set d \<subseteq> set (comment_sub (lower (strip s)))"
    unfolding d by (rule subset_trans [OF set_rstrip_by subset_trans [OF set_lstrip_by t]])
  then have d_low: "set d \<subseteq> set (lower (strip s))" using set_comment_sub by blast
  have "newline \<notin> set (lower (strip s))"
    using assms(2) l s set_strip lower_newline by blast
  then have "newline \<notin> set d" and "\<forall>c \<in> set d. \<not> is_comment_char c"
    using d_sub d_low comment_sub_no_comment by blast+
  moreover have "lower d = d"
    using lower_id_subset [OF _ d_low] by simp
  ultimately show ?thesis
    using shape normalize_domain_hd_last [OF d shape(1)] by (auto simp: is_comment_char_def)
qed

theorem parsed_domains_clean_witness:
  "lower ''ads.example.com'' = ''ads.example.com'' \<and> last ''ads.example.com'' \<noteq> CHR ''.''"
proof -
  have "''ads.example.com'' \<in> parse_blocklist_lines ['' *.ADS.example.com. # x''] ''domains''"
    by code_simp
  moreover have "\<forall>l \<in> set ['' *.ADS.example.com. # x'']. newline \<notin> set (strip l)"
    by code_simp
  ultimately show ?thesis using parsed_domains_clean by blast
qed

text \<open>
  C14: every host name in a list is blocked.  A line that is a host name, in any format but
  \<open>hosts\<close>, and a line with an address, a blank and a host name in the \<open>hosts\<close> format both put
  exactly that name into the parsed set.
\<close>

theorem parse_keeps_host_names:
  assumes "host_name h"
    and "addr \<noteq> []" and "\<forall>c \<in> set addr. is_host_char c \<or> c = CHR '':''"
    and "lower (strip fmt) \<noteq> ''hosts''"
  shows "h \<in> parse_blocklist_lines (ls @ h # ls') fmt \<and>
    h \<in> parse_blocklist_lines (ls @ (addr @ '' '' @ h) # ls') ''hosts''"
proof (rule conjI)
  have plain: "\<forall>c \<in> set (addr @ h). \<not> is_space c \<and> \<not> is_comment_char c \<and> c \<noteq> CHR ''!''"
    using assms(1,3) host_char_facts
    by (auto simp: host_name_def is_space_def is_comment_char_def)
  have h: "h \<noteq> []" and norm: "normalize_domain h = Some h"
    using assms(1) normalize_host_name by (auto simp: host_name_def)
  have bang: "\<not> startswith ''!'' (addr @ x)" "\<not> startswith ''!'' h" for x
    using plain assms(2) h by (cases addr; cases h; auto simp: startswith_def)+
  have "strip h = h" using plain by (auto intro: strip_no_space)
  then have "parse_line (lower (strip fmt)) h = Some h"
    using assms(4) h norm bang by (auto simp: parse_line_def)
  then show "h \<in> parse_blocklist_lines (ls @ h # ls') fmt"
    by (auto simp: parse_blocklist_lines_def parse_loop_eq)
  let ?l = "addr @ '' '' @ h"
  have line: "strip ?l = ?l"
  proof (rule strip_ends)
    show "\<not> is_space (hd ?l)" using plain assms(2) by (cases addr) auto
    show "\<not> is_space (last ?l)" using plain h last_in_set [OF h] by simp
  qed (use h in simp)
  have "comment_sub ?l = ?l"
    using plain by (intro comment_sub_id) (auto simp: is_comment_char_def)
  moreover have "split_ws ?l = [addr, h]"
    using plain assms(2) h split_ws_from_token [of addr "[]" "'' '' @ h"] split_ws_from_token [of h "[]" "[]"]
    by (simp add: split_ws_def is_space_def)
  ultimately have "parse_line ''hosts'' ?l = Some h"
    using line bang assms(2) norm by (auto simp: parse_line_def Let_def)
  moreover have "lower (strip ''hosts'') = ''hosts''" by code_simp
  ultimately show "h \<in> parse_blocklist_lines (ls @ ?l # ls') ''hosts''"
    unfolding parse_blocklist_lines_def parse_loop_eq by auto
qed

theorem parse_keeps_host_names_witness:
  "''a.example'' \<in> parse_blocklist_lines ([''! title''] @ ''a.example'' # []) ''domains'' \<and>
   ''a.example'' \<in> parse_blocklist_lines ([] @ (''0.0.0.0'' @ '' '' @ ''a.example'') # []) ''hosts''"
proof -
  have "host_name ''a.example''" and "\<forall>c \<in> set ''0.0.0.0''. is_host_char c \<or> c = CHR '':''"
    and "lower (strip ''domains'') \<noteq> ''hosts''"
    by code_simp+
  then show ?thesis using parse_keeps_host_names [of "''a.example''" "''0.0.0.0''" "''domains''"] by blast
qed

text \<open>
  C13: a rendered zone says exactly what it was rendered from.  Reading the text of
  \<open>render_rpz_zone\<close> (\<open>render_rpz_whitelist\<close>) back gives the set of domains, each with the target
  that blocks (passes) it, and nothing else, for domains that are single tokens.
\<close>

theorem rendered_zone_round_trip:
  assumes "finite ds" and "\<forall>d \<in> ds. zone_safe d" and "newline \<notin> set policy"
  shows "zone_owners ''.'' (render_rpz_zone now ds policy) = ds \<and>
    zone_owners ''rpz-passthru.'' (render_rpz_whitelist now ds) = ds \<and>
    zone_owners ''rpz-passthru.'' (render_rpz_zone now ds policy) = {}"
  using zone_owners_render [OF assms] by blast

theorem rendered_zone_round_trip_witness:
  "zone_owners ''.'' (render_rpz_zone 0 {''a.example''} ''p'') = {''a.example''}"
proof -
  have "\<forall>d \<in> {''a.example''}. zone_safe d" by code_simp
  then show ?thesis using rendered_zone_round_trip [of "{''a.example''}" "''p''" 0] by simp
qed

text \<open>
  An AdBlock rule does not block its host.  The documentation offers AdBlock-style lists, but
  the rule \<open>||host^\<close> is normalised to the name with the separator kept at its end, in every
  format but \<open>hosts\<close>, so the host itself is not in the parsed set of such a list.
\<close>

theorem adblock_rule_keeps_separator:
  assumes "host_name h" and "lower (strip fmt) \<noteq> ''hosts''"
  shows "parse_blocklist_lines [''||'' @ h @ ''^''] fmt = {h @ ''^''}"
proof -
  let ?t = "h @ ''^''"
  have "normalize_domain (''||'' @ ?t) = Some ?t"
    using host_name_token [OF assms(1)]
    by (intro normalize_domain_token) (auto simp: is_space_def is_comment_char_def lower_char_def)
  moreover have "strip (''||'' @ ?t) = ''||'' @ ?t"
    using host_name_token [OF assms(1)] by (intro strip_no_space) (auto simp: is_space_def)
  ultimately have "parse_line (lower (strip fmt)) (''||'' @ ?t) = Some ?t"
    using assms(2) by (simp add: parse_line_def startswith_def Let_def)
  then show ?thesis by (simp add: parse_blocklist_lines_def)
qed

theorem adblock_rule_keeps_separator_witness:
  "parse_blocklist_lines [''||'' @ ''ad.example.com'' @ ''^''] ''adblock'' = {''ad.example.com^''}"
proof -
  have "host_name ''ad.example.com''" and "lower (strip ''adblock'') \<noteq> ''hosts''"
    by code_simp+
  then show ?thesis
    using adblock_rule_keeps_separator [of "''ad.example.com''" "''adblock''"] by simp
qed

end
