(* ===== verification/Store.thy ===== *)
theory Store
  imports Prelude
begin

text \<open>
  Database tables.  SQLAlchemy sessions and PostgreSQL are outside the repository; what the code
  relies on is the relational reading of its queries.  A table is the list of its rows together
  with the next value of its primary-key sequence.  A query is a filter on the rows, \<open>.first()\<close>
  and \<open>.one_or_none()\<close> are \<open>tbl_find\<close>, a bulk \<open>update\<close> or \<open>delete\<close> maps or filters, and
  \<open>db.add\<close> followed by a flush is \<open>tbl_insert\<close>, which draws the key.
\<close>

section \<open>Tables\<close>

record 'r table =
  rows :: "'r list"
  next_id :: int

definition empty_table :: "'r table" where
  "empty_table = \<lparr>rows = [], next_id = 1\<rparr>"

definition tbl_insert :: "(int \<Rightarrow> 'r) \<Rightarrow> 'r table \<Rightarrow> 'r table" where
  "tbl_insert mk t = t\<lparr>rows := rows t @ [mk (next_id t)], next_id := next_id t + 1\<rparr>"

definition tbl_update :: "('r \<Rightarrow> bool) \<Rightarrow> ('r \<Rightarrow> 'r) \<Rightarrow> 'r table \<Rightarrow> 'r table" where
  "tbl_update P f t = t\<lparr>rows := map (\<lambda>r. if P r then f r else r) (rows t)\<rparr>"

definition tbl_delete :: "('r \<Rightarrow> bool) \<Rightarrow> 'r table \<Rightarrow> 'r table" where
  "tbl_delete P t = t\<lparr>rows := filter (\<lambda>r. \<not> P r) (rows t)\<rparr>"

definition tbl_select :: "('r \<Rightarrow> bool) \<Rightarrow> 'r table \<Rightarrow> 'r list" where
  "tbl_select P t = filter P (rows t)"

definition tbl_find :: "('r \<Rightarrow> bool) \<Rightarrow> 'r table \<Rightarrow> 'r option" where
  "tbl_find P t = find P (rows t)"

text \<open>Primary keys are distinct, positive and below the sequence.\<close>

definition table_wf :: "('r \<Rightarrow> int) \<Rightarrow> 'r table \<Rightarrow> bool" where
  "table_wf key t \<longleftrightarrow>
     distinct (map key (rows t)) \<and> (\<forall>r \<in> set (rows t). 0 < key r \<and> key r < next_id t) \<and>
     0 < next_id t"

section \<open>Generic facts\<close>

lemma rows_tbl_insert [simp, tbl_simps]: "rows (tbl_insert mk t) = rows t @ [mk (next_id t)]"
  by (simp add: tbl_insert_def)

lemma rows_tbl_update [simp, tbl_simps]:
  "rows (tbl_update P f t) = map (\<lambda>r. if P r then f r else r) (rows t)"
  by (simp add: tbl_update_def)

lemma rows_tbl_delete [simp, tbl_simps]: "rows (tbl_delete P t) = filter (\<lambda>r. \<not> P r) (rows t)"
  by (simp add: tbl_delete_def)

lemma next_id_ops [simp, tbl_simps]:
  "next_id (tbl_insert mk t) = next_id t + 1"
  "next_id (tbl_update P f t) = next_id t"
  "next_id (tbl_delete P t) = next_id t"
  by (simp_all add: tbl_insert_def tbl_update_def tbl_delete_def)

lemma tbl_find_SomeD: "tbl_find P t = Some r \<Longrightarrow> r \<in> set (rows t) \<and> P r"
  by (auto simp: tbl_find_def find_Some_iff)

lemma tbl_find_None_iff: "tbl_find P t = None \<longleftrightarrow> (\<forall>r \<in> set (rows t). \<not> P r)"
  by (auto simp: tbl_find_def find_None_iff)

lemma table_wf_empty [inv_intros]: "table_wf key empty_table"
  by (simp add: table_wf_def empty_table_def)

lemma table_wf_delete [inv_intros]: "table_wf key t \<Longrightarrow> table_wf key (tbl_delete P t)"
  by (auto simp: table_wf_def distinct_map inj_on_def)

lemma table_wf_insert [inv_intros]:
  "table_wf key t \<Longrightarrow> (\<And>i. key (mk i) = i) \<Longrightarrow> table_wf key (tbl_insert mk t)"
  by (fastforce simp: table_wf_def)

text \<open>A keyed lookup in a well-formed table finds the row with that key.\<close>

lemma table_wf_key_inj:
  assumes "table_wf key t" and "r \<in> set (rows t)" and "r' \<in> set (rows t)" and "key r = key r'"
  shows "r = r'"
  using assms by (auto simp: table_wf_def distinct_map inj_on_def)

lemma tbl_find_key:
  assumes wf: "table_wf key t" and r: "r \<in> set (rows t)"
  shows "tbl_find (\<lambda>x. key x = key r) t = Some r"
proof (cases "tbl_find (\<lambda>x. key x = key r) t")
  case None
  with r show ?thesis by (auto simp: tbl_find_None_iff)
next
  case (Some x)
  then have "x \<in> set (rows t)" and "key x = key r"
    using tbl_find_SomeD by fastforce+
  with wf r have "x = r" using table_wf_key_inj by metis
  with Some show ?thesis by simp
qed

lemma find_map_upd:
  "find P xs \<noteq> None \<Longrightarrow> (\<And>r. P r \<Longrightarrow> P (f r)) \<Longrightarrow>
   \<exists>r. P r \<and> find P (map (\<lambda>r. if P r then f r else r) xs) = Some (f r)"
  by (induction xs) auto

lemma find_map_other:
  "(\<And>r. P r \<Longrightarrow> \<not> Q r) \<Longrightarrow> (\<And>r. P r \<Longrightarrow> \<not> Q (f r)) \<Longrightarrow>
   find Q (map (\<lambda>r. if P r then f r else r) xs) = find Q xs"
  by (induction xs) auto

lemma find_append: "find P (xs @ ys) = (case find P xs of Some r \<Rightarrow> Some r | None \<Rightarrow> find P ys)"
  by (induction xs) auto

section \<open>The contract of an update that keeps the key\<close>

text \<open>
  Every attribute assignment of the code leaves the primary key alone.  A client of this contract
  gets well-formedness of the updated table, the update seen through a keyed lookup, and the
  frame: rows with another key are untouched.
\<close>

locale key_preserving =
  fixes key :: "'r \<Rightarrow> int" and f :: "'r \<Rightarrow> 'r"
  assumes key_kept: "key (f r) = key r"
begin

lemma update_keys: "map key (rows (tbl_update P f t)) = map key (rows t)"
  by (simp add: key_kept)

lemma update_wf: "table_wf key t \<Longrightarrow> table_wf key (tbl_update P f t)"
proof -
  assume wf: "table_wf key t"
  have "\<forall>r \<in> set (rows (tbl_update P f t)). 0 < key r \<and> key r < next_id t"
    using wf by (auto simp: table_wf_def key_kept)
  with wf show ?thesis
    unfolding table_wf_def update_keys by simp
qed

lemma update_row:
  assumes "table_wf key t" and "r \<in> set (rows t)" and "P r"
  shows "tbl_find (\<lambda>x. key x = key r) (tbl_update P f t) = Some (f r)"
proof -
  have "f r \<in> set (rows (tbl_update P f t))"
    using assms by force
  then have "tbl_find (\<lambda>x. key x = key (f r)) (tbl_update P f t) = Some (f r)"
    by (rule tbl_find_key [OF update_wf [OF assms(1)]])
  then show ?thesis by (simp add: key_kept)
qed

lemma update_frame:
  assumes "\<And>r. P r \<Longrightarrow> key r = k" and "i \<noteq> k"
  shows "tbl_find (\<lambda>x. key x = i) (tbl_update P f t) = tbl_find (\<lambda>x. key x = i) t"
proof -
  have "find (\<lambda>x. key x = i) (map (\<lambda>r. if P r then f r else r) xs) = find (\<lambda>x. key x = i) xs"
    for xs
    using assms by (induction xs) (auto simp: key_kept)
  then show ?thesis by (simp add: tbl_find_def)
qed

end

end
