(* ===== verification/Models.thy ===== *)
theory Models
  imports Store
begin

text \<open>
  The data model of the admin UI (\<open>admin-ui/app/models\<close>): one record per SQLAlchemy class, with
  the class's columns in their order, and the database as the record of all tables.  The
  bookkeeping columns \<open>created_at\<close> and \<open>updated_at\<close> are kept only where the code reads them.  Field names
  carry a prefix because Isabelle's record selectors share one name space.

  The columns of \<open>nodes\<close> that hold times are declared \<open>sa.DateTime()\<close> without a time zone, so a
  value read back from them is a naive \<open>datetime\<close>; they are \<open>py_datetime option\<close>.  All other time
  columns are \<open>DateTime(timezone=True)\<close>, come back aware, and are plain instants.
\<close>

section \<open>Nodes\<close>

datatype node_status = PENDING | ACTIVE | STALE | OFFLINE | QUARANTINE | ERROR

fun status_value :: "node_status \<Rightarrow> string" where
  "status_value PENDING = ''pending''"
| "status_value ACTIVE = ''active''"
| "status_value STALE = ''stale''"
| "status_value OFFLINE = ''offline''"
| "status_value QUARANTINE = ''quarantine''"
| "status_value ERROR = ''error''"

record node =
  n_id :: int
  n_name :: string
  n_api_key :: string
  n_ip_address :: "string option"
  n_version :: "string option"
  n_status :: node_status
  n_last_seen :: "py_datetime option"
  n_last_heartbeat :: "py_datetime option"
  n_last_error :: "string option"
  n_quarantine_entry_time :: "py_datetime option"
  n_quarantine_reason :: "string option"
  n_approved_by :: "int option"
  n_approved_at :: "py_datetime option"
  n_config_version :: int
  n_queries_total :: int
  n_queries_blocked :: int
  n_created_at :: instant

record node_metrics =
  nm_id :: int
  nm_node_id :: int
  nm_ts :: instant
  nm_cache_hits :: int
  nm_cache_misses :: int
  nm_cache_entries :: int
  nm_packetcache_hits :: int
  nm_packetcache_misses :: int
  nm_answers_0_1 :: int
  nm_answers_1_10 :: int
  nm_answers_10_100 :: int
  nm_answers_100_1000 :: int
  nm_answers_slow :: int
  nm_concurrent_queries :: int
  nm_outgoing_timeouts :: int
  nm_servfail_answers :: int
  nm_nxdomain_answers :: int
  nm_questions :: int
  nm_all_outqueries :: int
  nm_uptime_seconds :: int

record node_command =
  nc_id :: int
  nc_node_id :: "int option"
  nc_command :: string
  nc_params :: "string option"
  nc_created_at :: instant
  nc_executed_at :: "instant option"
  nc_result :: "string option"

section \<open>Query events, roll-ups and clients\<close>

record dns_query_event =
  ev_id :: int
  ev_event_id :: "string option"
  ev_event_seq :: "int option"
  ev_ts :: instant
  ev_node_id :: "int option"
  ev_client_ip :: string
  ev_client_id :: "int option"
  ev_is_internal :: bool
  ev_qname :: string
  ev_qtype :: int
  ev_rcode :: int
  ev_blocked :: bool
  ev_block_reason :: "string option"
  ev_blocklist_name :: "string option"
  ev_latency_ms :: "int option"

datatype granularity = Hourly | Daily

record query_rollup =
  qr_id :: int
  qr_bucket_start :: instant
  qr_granularity :: granularity
  qr_client_id :: "int option"
  qr_node_id :: "int option"
  qr_total_queries :: int
  qr_blocked_queries :: int
  qr_nxdomain_count :: int
  qr_servfail_count :: int
  qr_cache_hits :: int
  qr_avg_latency_ms :: "int option"
  qr_unique_domains :: int

record client =
  c_id :: int
  c_ip :: string
  c_display_name :: "string option"
  c_rdns_name :: "string option"
  c_rdns_last_resolved_at :: "instant option"
  c_rdns_last_error :: "string option"
  c_group_id :: "int option"
  c_created_at :: instant
  c_last_seen :: "instant option"

record client_group =
  g_id :: int
  g_name :: string
  g_description :: "string option"
  g_cidr :: "string option"
  g_color :: string

record client_resolver_rule =
  rr_id :: int
  rr_subnet :: string
  rr_nameserver :: string
  rr_enabled :: bool
  rr_priority :: int
  rr_description :: "string option"

section \<open>Blocklists, manual entries and forward zones\<close>

record blocklist =
  bl_id :: int
  bl_name :: string
  bl_url :: string
  bl_format :: string
  bl_list_type :: string
  bl_enabled :: bool
  bl_update_frequency_hours :: int
  bl_last_updated :: "instant option"
  bl_last_update_status :: "string option"
  bl_last_error :: "string option"
  bl_entry_count :: int
  bl_etag :: "string option"
  bl_last_modified :: "string option"
  bl_schedule_enabled :: bool
  bl_schedule_start :: "string option"
  bl_schedule_end :: "string option"
  bl_schedule_days :: "string option"
  bl_created_at :: instant

record blocklist_entry =
  be_id :: int
  be_domain :: string
  be_blocklist_id :: int

record manual_entry =
  me_id :: int
  me_domain :: string
  me_entry_type :: string
  me_comment :: "string option"
  me_created_at :: instant

record forward_zone =
  fz_id :: int
  fz_domain :: string
  fz_servers :: string
  fz_description :: "string option"
  fz_enabled :: bool
  fz_node_id :: "int option"
  fz_created_at :: instant
  fz_updated_at :: instant

section \<open>Users, settings and the audit log\<close>

record user =
  u_id :: int
  u_username :: string
  u_password_hash :: string

record setting =
  s_id :: int
  s_key :: string
  s_value :: string

text \<open>JSON values, as \<open>model_to_dict\<close> produces them, and the dictionaries they form.\<close>

datatype pyval =
    PNone
  | PBool bool
  | PInt int
  | PStr string
  | PTime instant
  | PList "pyval list"
  | PDict "(string \<times> pyval) list"

type_synonym pydict = "(string \<times> pyval) list"

record config_change =
  cc_id :: int
  cc_entity_type :: string
  cc_entity_id :: "int option"
  cc_action :: string
  cc_actor_user_id :: "int option"
  cc_before_data :: "pydict option"
  cc_after_data :: "pydict option"
  cc_comment :: "string option"
  cc_created_at :: instant

section \<open>The database and the files it is rendered to\<close>

record db =
  db_nodes :: "node table"
  db_node_metrics :: "node_metrics table"
  db_node_commands :: "node_command table"
  db_events :: "dns_query_event table"
  db_rollups :: "query_rollup table"
  db_clients :: "client table"
  db_groups :: "client_group table"
  db_rules :: "client_resolver_rule table"
  db_blocklists :: "blocklist table"
  db_entries :: "blocklist_entry table"
  db_manual :: "manual_entry table"
  db_zones :: "forward_zone table"
  db_users :: "user table"
  db_settings :: "setting table"
  db_changes :: "config_change table"

definition empty_db :: db where
  "empty_db = \<lparr>db_nodes = empty_table, db_node_metrics = empty_table,
     db_node_commands = empty_table, db_events = empty_table, db_rollups = empty_table,
     db_clients = empty_table, db_groups = empty_table, db_rules = empty_table,
     db_blocklists = empty_table, db_entries = empty_table, db_manual = empty_table,
     db_zones = empty_table, db_users = empty_table, db_settings = empty_table,
     db_changes = empty_table\<rparr>"

text \<open>
  The files below the shared directory, by path, and the paths where a write succeeds (a full
  disk or a read-only mount makes the others raise \<open>OSError\<close>).
\<close>

type_synonym files = "string \<Rightarrow> string option"

record world =
  w_db :: db
  w_files :: files
  w_writable :: "string \<Rightarrow> bool"

section \<open>Responses of the request handlers\<close>

datatype response =
    RedirectResponse string
  | JSONError nat string
  | JSONOk

end
