(* ===== verification/Atomic_Write.thy ===== *)
theory Atomic_Write
  imports Models
begin

text \<open>
  File writes (\<open>admin-ui/app/services/atomic_write.py\<close>).  \<open>atomic_write_run\<close> and
  \<open>safe_write_run\<close> follow the system calls of the two functions and give the sequence of file
  system states a concurrent reader can observe; the call that raises, if any, is a parameter.
  \<open>atomic_write\<close> is the contract the components rely on: the new content or an \<open>OSError\<close>.
\<close>

section \<open>The system calls\<close>

datatype fs_call = MakeDirs | MkStemp | OsWrite | OsClose | OsReplace | OpenTarget | WriteTarget

text \<open>
  \<open>fail\<close> is the call that raises; \<open>k\<close> counts the bytes that reached the temporary file (or, in
  \<open>safe_write\<close>, the target) before a failing write.  The result is whether the function returned
  normally, and the states passed through, the last one being final.
\<close>

definition atomic_write_run ::
  "fs_call option \<Rightarrow> nat \<Rightarrow> string \<Rightarrow> string \<Rightarrow> string \<Rightarrow> files \<Rightarrow> bool \<times> files list" where
  "atomic_write_run fail k tmp path content fs =
     (if fail = Some MakeDirs \<or> fail = Some MkStemp then (False, [fs])
      else
        let fs1 = fs(tmp \<mapsto> [])
        in if fail = Some OsWrite then
             (False, [fs, fs1, fs1(tmp \<mapsto> take k content), fs1(tmp := None)])
           else
             let fs2 = fs1(tmp \<mapsto> content)
             in if fail = Some OsClose \<or> fail = Some OsReplace then
                  (False, [fs, fs1, fs2, fs2(tmp := None)])
                else (True, [fs, fs1, fs2, fs2(tmp := None, path := Some content)]))"

definition safe_write_run ::
  "fs_call option \<Rightarrow> nat \<Rightarrow> string \<Rightarrow> string \<Rightarrow> string \<Rightarrow> files \<Rightarrow> bool \<times> files list" where
  "safe_write_run fail k tmp path content fs =
     (if fail = Some MakeDirs \<or> fail = Some MkStemp then (False, [fs])
      else
        let fs1 = fs(tmp \<mapsto> [])
        in if fail = Some OsWrite then
             (False, [fs, fs1, fs1(tmp \<mapsto> take k content), fs1(tmp := None)])
           else
             let fs2 = fs1(tmp \<mapsto> content)
             in if fail = Some OsClose \<or> fail = Some OpenTarget then
                  (False, [fs, fs1, fs2, fs2(tmp := None)])
                else
                  let fs3 = fs2(path \<mapsto> [])
                  in if fail = Some WriteTarget then
                       (False, [fs, fs1, fs2, fs3, fs3(path \<mapsto> take k content),
                                fs3(path \<mapsto> take k content, tmp := None)])
                     else
                       (True, [fs, fs1, fs2, fs3, fs3(path \<mapsto> content),
                               fs3(path \<mapsto> content, tmp := None)]))"

section \<open>The contract\<close>

definition atomic_write :: "string \<Rightarrow> string \<Rightarrow> world \<Rightarrow> bool \<times> world" where
  "atomic_write path content w =
     (if w_writable w path then (True, w\<lparr>w_files := (w_files w)(path \<mapsto> content)\<rparr>) else (False, w))"

section \<open>Facts\<close>

text \<open>
  The interface of a write that replaces a file as a whole: the result of a successful call, the
  frame of any call, and what a reader can see of the target on the way.
\<close>

locale whole_file_write =
  fixes run :: "fs_call option \<Rightarrow> nat \<Rightarrow> string \<Rightarrow> string \<Rightarrow> string \<Rightarrow> files \<Rightarrow> bool \<times> files list"
  assumes run_nonempty: "snd (run fail k tmp path content fs) \<noteq> []"
    and run_result: "tmp \<noteq> path \<Longrightarrow> fs tmp = None \<Longrightarrow>
      last (snd (run fail k tmp path content fs)) =
        (if fst (run fail k tmp path content fs) then fs(path \<mapsto> content) else fs)"
    and run_target: "tmp \<noteq> path \<Longrightarrow> st \<in> set (snd (run fail k tmp path content fs)) \<Longrightarrow>
      st path = fs path \<or> st path = Some content"
begin

text \<open>A reader that opens the target at any moment gets a complete old or new file.\<close>

lemma reader_sees_whole_file:
  "tmp \<noteq> path \<Longrightarrow> st \<in> set (snd (run fail k tmp path content fs)) \<Longrightarrow> st path = Some c \<Longrightarrow>
   Some c = fs path \<or> c = content"
  using run_target [of tmp path st fail k content fs] by auto

lemma failed_run_changes_nothing:
  "tmp \<noteq> path \<Longrightarrow> fs tmp = None \<Longrightarrow> \<not> fst (run fail k tmp path content fs) \<Longrightarrow>
   last (snd (run fail k tmp path content fs)) = fs"
  by (simp add: run_result)

end

lemma atomic_write_run_last:
  "tmp \<noteq> path \<Longrightarrow> fs tmp = None \<Longrightarrow>
   last (snd (atomic_write_run fail k tmp path content fs)) =
     (if fst (atomic_write_run fail k tmp path content fs) then fs(path \<mapsto> content) else fs)"
  by (auto simp: atomic_write_run_def Let_def)

interpretation aw: whole_file_write atomic_write_run
proof
  fix fail k tmp path content and fs :: files
  show "snd (atomic_write_run fail k tmp path content fs) \<noteq> []"
    by (simp add: atomic_write_run_def Let_def)
next
  fix fail k content and tmp path :: string and fs :: files
  assume "tmp \<noteq> path" and "fs tmp = None"
  then show "last (snd (atomic_write_run fail k tmp path content fs)) =
      (if fst (atomic_write_run fail k tmp path content fs) then fs(path \<mapsto> content) else fs)"
    by (rule atomic_write_run_last)
next
  fix fail k content and tmp path :: string and fs st :: files
  assume "tmp \<noteq> path" and "st \<in> set (snd (atomic_write_run fail k tmp path content fs))"
  then show "st path = fs path \<or> st path = Some content"
    by (auto simp: atomic_write_run_def Let_def split: if_splits)
qed

lemma atomic_write_db [simp]: "w_db (snd (atomic_write path content w)) = w_db w"
  by (simp add: atomic_write_def)

lemma atomic_write_writable [simp]: "w_writable (snd (atomic_write path content w)) = w_writable w"
  by (simp add: atomic_write_def)

section \<open>Properties\<close>



text \<open>
  \<open>safe_write\<close>, which must keep the inode, is only safe when it returns.  A successful call
  leaves the new content and nothing else changed, but the target is truncated on the way, and a
  failing write leaves a proper prefix of the content at the target.
\<close>

theorem safe_write_truncates:
  assumes "tmp \<noteq> path" and "fs tmp = None" and "k < length content"
  shows "last (snd (safe_write_run None k tmp path content fs)) = fs(path \<mapsto> content) \<and>
    (\<exists>st \<in> set (snd (safe_write_run None k tmp path content fs)). st path = Some []) \<and>
    last (snd (safe_write_run (Some WriteTarget) k tmp path content fs)) = fs(path \<mapsto> take k content) \<and>
    take k content \<noteq> content"
proof -
  have "take k content \<noteq> content" using assms(3) by (metis length_take min.absorb4 less_irrefl)
  then show ?thesis using assms(1,2) by (auto simp: safe_write_run_def Let_def fun_eq_iff)
qed

theorem safe_write_truncates_witness:
  "last (snd (safe_write_run (Some WriteTarget) 1 ''t'' ''p'' ''ab'' Map.empty)) =
     Map.empty(''p'' \<mapsto> take 1 ''ab'') \<and> take 1 ''ab'' \<noteq> ''ab''"
  using safe_write_truncates [of "''t''" "''p''" Map.empty 1 "''ab''"] by simp

end
