(* ===== verification/Settings_Store.thy ===== *)
theory Settings_Store
  imports Models
begin

text \<open>
  The settings table and its typed readers: \<open>admin-ui/app/models/settings.py\<close>, and the handlers
  that write settings, \<open>admin-ui/app/routers/settings.py\<close> and \<open>update_precache_settings\<close> of
  \<open>admin-ui/app/routers/precache.py\<close>.  The contract of the key-value store is the locale
  \<open>settings_kv\<close>, interpreted by \<open>get_setting\<close> and \<open>set_setting\<close>.
\<close>

section \<open>The store\<close>

definition DEFAULTS :: "(string \<times> string) list" where
  "DEFAULTS =
    [(''retention_events_days'', ''15''),
     (''retention_rollups_days'', ''365''),
     (''retention_node_metrics_days'', ''365''),
     (''rollup_enabled'', ''true''),
     (''ptr_resolution_enabled'', ''true''),
     (''precache_enabled'', ''true''),
     (''precache_domain_count'', ''5000''),
     (''precache_refresh_minutes'', ''30''),
     (''precache_ignore_ttl'', ''false''),
     (''precache_custom_refresh_minutes'', ''60''),
     (''precache_dns_server'', ''dnsdist''),
     (''precache_dns_port'', ''53''),
     (''precache_max_queries_per_pass'', ''2000''),
     (''precache_boot_burst_enabled'', ''true''),
     (''precache_boot_burst_concurrency'', ''8''),
     (''precache_boot_burst_qps'', ''50''),
     (''timezone'', ''UTC''),
     (''health_cache_hit_warning'', ''50''),
     (''health_cache_hit_critical'', ''20''),
     (''health_servfail_warning'', ''5''),
     (''health_timeout_warning'', ''2''),
     (''health_slow_warning'', ''10''),
     (''health_stale_minutes'', ''5''),
     (''health_offline_minutes'', ''30''),
     (''health_quarantine_threshold_minutes'', ''1440''),
     (''blocking_state'', ''enabled'')]"

definition get_setting :: "db \<Rightarrow> string \<Rightarrow> string" where
  "get_setting d key =
     (case tbl_find (\<lambda>r. s_key r = key) (db_settings d) of
        Some row \<Rightarrow> s_value row
      | None \<Rightarrow> (case map_of DEFAULTS key of Some v \<Rightarrow> v | None \<Rightarrow> []))"

definition set_setting :: "string \<Rightarrow> string \<Rightarrow> db \<Rightarrow> db" where
  "set_setting key v d =
     (case tbl_find (\<lambda>r. s_key r = key) (db_settings d) of
        Some row \<Rightarrow>
          d\<lparr>db_settings := tbl_update (\<lambda>r. s_key r = key) (\<lambda>r. r\<lparr>s_value := v\<rparr>) (db_settings d)\<rparr>
      | None \<Rightarrow>
          d\<lparr>db_settings := tbl_insert (\<lambda>i. \<lparr>s_id = i, s_key = key, s_value = v\<rparr>) (db_settings d)\<rparr>)"

section \<open>Typed readers\<close>

text \<open>\<open>get_setting(db, key) or "default"\<close>, then a conversion that may raise \<open>ValueError\<close>.\<close>

definition setting_or :: "db \<Rightarrow> string \<Rightarrow> string \<Rightarrow> string" where
  "setting_or d key dflt = (let v = get_setting d key in if v = [] then dflt else v)"

definition int_setting :: "db \<Rightarrow> string \<Rightarrow> string \<Rightarrow> int py_result" where
  "int_setting d key dflt =
     (case py_int (setting_or d key dflt) of None \<Rightarrow> Inl ValueError | Some n \<Rightarrow> Inr n)"

definition float_setting :: "db \<Rightarrow> string \<Rightarrow> string \<Rightarrow> rat py_result" where
  "float_setting d key dflt =
     (case py_float (setting_or d key dflt) of None \<Rightarrow> Inl ValueError | Some x \<Rightarrow> Inr x)"

definition bool_setting :: "db \<Rightarrow> string \<Rightarrow> bool" where
  "bool_setting d key = (lower (get_setting d key) = ''true'')"

definition get_retention_events_days :: "db \<Rightarrow> int py_result" where
  "get_retention_events_days d = int_setting d ''retention_events_days'' ''15''"

definition get_retention_rollups_days :: "db \<Rightarrow> int py_result" where
  "get_retention_rollups_days d = int_setting d ''retention_rollups_days'' ''365''"

definition get_retention_node_metrics_days :: "db \<Rightarrow> int py_result" where
  "get_retention_node_metrics_days d = int_setting d ''retention_node_metrics_days'' ''365''"

definition get_precache_enabled :: "db \<Rightarrow> bool" where
  "get_precache_enabled d = bool_setting d ''precache_enabled''"

definition get_precache_domain_count :: "db \<Rightarrow> int py_result" where
  "get_precache_domain_count d = int_setting d ''precache_domain_count'' ''5000''"

definition get_precache_refresh_minutes :: "db \<Rightarrow> int py_result" where
  "get_precache_refresh_minutes d = int_setting d ''precache_refresh_minutes'' ''30''"

definition get_precache_ignore_ttl :: "db \<Rightarrow> bool" where
  "get_precache_ignore_ttl d = bool_setting d ''precache_ignore_ttl''"

definition get_precache_custom_refresh_minutes :: "db \<Rightarrow> int py_result" where
  "get_precache_custom_refresh_minutes d =
     int_setting d ''precache_custom_refresh_minutes'' ''60''"

definition get_precache_dns_server :: "db \<Rightarrow> string" where
  "get_precache_dns_server d = setting_or d ''precache_dns_server'' ''dnsdist''"

definition get_precache_dns_port :: "db \<Rightarrow> int py_result" where
  "get_precache_dns_port d = int_setting d ''precache_dns_port'' ''53''"

definition get_precache_max_queries_per_pass :: "db \<Rightarrow> int py_result" where
  "get_precache_max_queries_per_pass d =
     map_sum id (\<lambda>n. max 1 n) (int_setting d ''precache_max_queries_per_pass'' ''2000'')"

definition get_precache_boot_burst_enabled :: "db \<Rightarrow> bool" where
  "get_precache_boot_burst_enabled d = bool_setting d ''precache_boot_burst_enabled''"

definition get_precache_boot_burst_concurrency :: "db \<Rightarrow> int py_result" where
  "get_precache_boot_burst_concurrency d =
     map_sum id (clamp 1 64) (int_setting d ''precache_boot_burst_concurrency'' ''8'')"

definition get_precache_boot_burst_qps :: "db \<Rightarrow> rat py_result" where
  "get_precache_boot_burst_qps d =
     map_sum id (clamp 1 1000) (float_setting d ''precache_boot_burst_qps'' ''50'')"

definition get_timezone :: "db \<Rightarrow> string" where
  "get_timezone d = setting_or d ''timezone'' ''UTC''"

definition get_health_cache_hit_warning :: "db \<Rightarrow> rat py_result" where
  "get_health_cache_hit_warning d = float_setting d ''health_cache_hit_warning'' ''50''"

definition get_health_cache_hit_critical :: "db \<Rightarrow> rat py_result" where
  "get_health_cache_hit_critical d = float_setting d ''health_cache_hit_critical'' ''20''"

definition get_health_servfail_warning :: "db \<Rightarrow> rat py_result" where
  "get_health_servfail_warning d = float_setting d ''health_servfail_warning'' ''5''"

definition get_health_timeout_warning :: "db \<Rightarrow> rat py_result" where
  "get_health_timeout_warning d = float_setting d ''health_timeout_warning'' ''2''"

definition get_health_slow_warning :: "db \<Rightarrow> rat py_result" where
  "get_health_slow_warning d = float_setting d ''health_slow_warning'' ''10''"

definition get_health_stale_minutes :: "db \<Rightarrow> int py_result" where
  "get_health_stale_minutes d = int_setting d ''health_stale_minutes'' ''5''"

definition get_health_offline_minutes :: "db \<Rightarrow> int py_result" where
  "get_health_offline_minutes d = int_setting d ''health_offline_minutes'' ''30''"

definition get_health_quarantine_threshold_minutes :: "db \<Rightarrow> int py_result" where
  "get_health_quarantine_threshold_minutes d =
     int_setting d ''health_quarantine_threshold_minutes'' ''1440''"

definition get_blocking_state :: "db \<Rightarrow> string" where
  "get_blocking_state d = setting_or d ''blocking_state'' ''enabled''"

definition set_blocking_state :: "string \<Rightarrow> db \<Rightarrow> db" where
  "set_blocking_state state d = set_setting ''blocking_state'' state d"

section \<open>Handlers that write settings\<close>

text \<open>\<open>get_current_user\<close>: the session's user id, looked up in the users table.\<close>

definition get_current_user :: "int option \<Rightarrow> db \<Rightarrow> user option" where
  "get_current_user session_user_id d =
     (case session_user_id of
        None \<Rightarrow> None
      | Some i \<Rightarrow> if i = 0 then None else tbl_find (\<lambda>u. u_id u = i) (db_users d))"

definition settings_update_timezone ::
  "(string \<Rightarrow> bool) \<Rightarrow> int option \<Rightarrow> string \<Rightarrow> db \<Rightarrow> response \<times> db" where
  "settings_update_timezone available sid tz d =
     (case get_current_user sid d of
        None \<Rightarrow> (RedirectResponse ''/login'', d)
      | Some _ \<Rightarrow>
          (RedirectResponse ''/settings'', if available tz then set_setting ''timezone'' tz d else d))"

definition settings_update_retention ::
  "int option \<Rightarrow> int \<Rightarrow> int \<Rightarrow> int \<Rightarrow> db \<Rightarrow> response \<times> db" where
  "settings_update_retention sid events_days rollups_days node_metrics_days d =
     (case get_current_user sid d of
        None \<Rightarrow> (RedirectResponse ''/login'', d)
      | Some _ \<Rightarrow>
          (let d1 = (if 1 \<le> events_days
                     then set_setting ''retention_events_days'' (show_int events_days) d else d);
               d2 = (if 1 \<le> rollups_days
                     then set_setting ''retention_rollups_days'' (show_int rollups_days) d1 else d1);
               d3 = (if 1 \<le> node_metrics_days
                     then set_setting ''retention_node_metrics_days'' (show_int node_metrics_days) d2
                     else d2)
           in (RedirectResponse ''/settings'', d3)))"

text \<open>\<open>float_str\<close> is Python's \<open>str\<close> on floats.\<close>

definition set_percentage :: "(rat \<Rightarrow> string) \<Rightarrow> string \<Rightarrow> rat \<Rightarrow> db \<Rightarrow> db" where
  "set_percentage float_str key v d =
     (if 0 \<le> v \<and> v \<le> 100 then set_setting key (float_str v) d else d)"

definition settings_update_health_thresholds ::
  "(rat \<Rightarrow> string) \<Rightarrow> int option \<Rightarrow> rat \<Rightarrow> rat \<Rightarrow> rat \<Rightarrow> rat \<Rightarrow> rat \<Rightarrow> int \<Rightarrow> db \<Rightarrow> response \<times> db" where
  "settings_update_health_thresholds float_str sid hit_warning hit_critical servfail timeout slow
     stale_minutes d =
     (case get_current_user sid d of
        None \<Rightarrow> (RedirectResponse ''/login'', d)
      | Some _ \<Rightarrow>
          (let d1 = set_percentage float_str ''health_cache_hit_warning'' hit_warning d;
               d2 = set_percentage float_str ''health_cache_hit_critical'' hit_critical d1;
               d3 = set_percentage float_str ''health_servfail_warning'' servfail d2;
               d4 = set_percentage float_str ''health_timeout_warning'' timeout d3;
               d5 = set_percentage float_str ''health_slow_warning'' slow d4;
               d6 = (if 1 \<le> stale_minutes
                     then set_setting ''health_stale_minutes'' (show_int stale_minutes) d5 else d5)
           in (RedirectResponse ''/settings'', d6)))"

record precache_form =
  pf_enabled :: string
  pf_domain_count :: int
  pf_refresh_minutes :: int
  pf_ignore_ttl :: string
  pf_custom_refresh :: int
  pf_dns_server :: string
  pf_max_queries_per_pass :: int
  pf_boot_burst_enabled :: string
  pf_boot_burst_concurrency :: int
  pf_boot_burst_qps :: rat

definition bool_text :: "string \<Rightarrow> string" where
  "bool_text s = (if s = ''true'' then ''true'' else ''false'')"

definition update_precache_settings ::
  "(rat \<Rightarrow> string) \<Rightarrow> int option \<Rightarrow> precache_form \<Rightarrow> db \<Rightarrow> response \<times> db" where
  "update_precache_settings float_str sid f d =
     (case get_current_user sid d of
        None \<Rightarrow> (RedirectResponse ''/login'', d)
      | Some _ \<Rightarrow>
          (let domain_count = clamp 100 100000 (pf_domain_count f);
               refresh_minutes = clamp 5 1440 (pf_refresh_minutes f);
               custom_refresh = clamp 5 1440 (pf_custom_refresh f);
               max_queries_per_pass = clamp 100 100000 (pf_max_queries_per_pass f);
               dns_server = (let s = strip (pf_dns_server f) in if s = [] then ''dnsdist'' else s);
               concurrency = clamp 1 64 (pf_boot_burst_concurrency f);
               qps = clamp 1 1000 (pf_boot_burst_qps f);
               d1 = set_setting ''precache_enabled'' (bool_text (pf_enabled f)) d;
               d2 = set_setting ''precache_domain_count'' (show_int domain_count) d1;
               d3 = set_setting ''precache_refresh_minutes'' (show_int refresh_minutes) d2;
               d4 = set_setting ''precache_ignore_ttl'' (bool_text (pf_ignore_ttl f)) d3;
               d5 = set_setting ''precache_custom_refresh_minutes'' (show_int custom_refresh) d4;
               d6 = set_setting ''precache_dns_server'' dns_server d5;
               d7 = set_setting ''precache_max_queries_per_pass'' (show_int max_queries_per_pass) d6;
               d8 = set_setting ''precache_boot_burst_enabled'' (bool_text (pf_boot_burst_enabled f)) d7;
               d9 = set_setting ''precache_boot_burst_concurrency'' (show_int concurrency) d8;
               d10 = set_setting ''precache_boot_burst_qps'' (float_str qps) d9
           in (RedirectResponse ''/precache?warmed=Settings+saved'', d10)))"

section \<open>The key-value contract\<close>

locale settings_kv =
  fixes get :: "'s \<Rightarrow> string \<Rightarrow> string" and put :: "string \<Rightarrow> string \<Rightarrow> 's \<Rightarrow> 's"
  assumes get_put: "get (put k v s) k = v"
    and get_put_other: "k \<noteq> k' \<Longrightarrow> get (put k v s) k' = get s k'"
begin

lemma get_put_if: "get (put k v s) k' = (if k = k' then v else get s k')"
  by (simp add: get_put get_put_other)

lemma get_fold_put:
  "get (fold (\<lambda>(k, v). put k v) kvs s) k =
     (case map_of (rev kvs) k of Some v \<Rightarrow> v | None \<Rightarrow> get s k)"
  by (induction kvs rule: rev_induct) (auto simp: get_put_if)

lemma put_same_key: "get (put k v (put k w s)) k' = get (put k v s) k'"
  by (simp add: get_put_if)

end

interpretation kv: settings_kv get_setting set_setting
proof
  fix k v s
  show "get_setting (set_setting k v s) k = v"
  proof (cases "tbl_find (\<lambda>r. s_key r = k) (db_settings s)")
    case None
    then show ?thesis
      by (simp add: set_setting_def get_setting_def tbl_find_def find_append)
  next
    case (Some row)
    with find_map_upd [of "\<lambda>r. s_key r = k" "rows (db_settings s)" "\<lambda>r. r\<lparr>s_value := v\<rparr>"]
    show ?thesis
      by (auto simp: set_setting_def get_setting_def tbl_find_def)
  qed
next
  fix k k' v s
  assume neq: "k \<noteq> (k' :: string)"
  have "find (\<lambda>r. s_key r = k') (map (\<lambda>r. if s_key r = k then r\<lparr>s_value := v\<rparr> else r) xs) =
      find (\<lambda>r. s_key r = k') xs" for xs :: "setting list"
    using neq by (induction xs) auto
  with neq show "get_setting (set_setting k v s) k' = get_setting s k'"
    by (auto simp: set_setting_def get_setting_def tbl_find_def find_append split: option.splits)
qed

lemma set_setting_frame [simp]:
  "db_users (set_setting k v d) = db_users d"
  "db_nodes (set_setting k v d) = db_nodes d"
  "db_blocklists (set_setting k v d) = db_blocklists d"
  "db_entries (set_setting k v d) = db_entries d"
  "db_manual (set_setting k v d) = db_manual d"
  "db_changes (set_setting k v d) = db_changes d"
  by (simp_all add: set_setting_def split: option.splits)

lemma bool_text_true [simp]: "lower (bool_text s) = ''true'' \<longleftrightarrow> s = ''true''"
  by (simp add: bool_text_def lower_def lower_char_def)

lemmas setting_readers =
  int_setting_def float_setting_def bool_setting_def setting_or_def Let_def
  get_retention_events_days_def get_retention_rollups_days_def get_retention_node_metrics_days_def
  get_precache_enabled_def get_precache_domain_count_def get_precache_refresh_minutes_def
  get_precache_ignore_ttl_def get_precache_custom_refresh_minutes_def get_precache_dns_server_def
  get_precache_dns_port_def get_precache_max_queries_per_pass_def
  get_precache_boot_burst_enabled_def get_precache_boot_burst_concurrency_def
  get_precache_boot_burst_qps_def

text \<open>The ten writes of \<open>update_precache_settings\<close> as one list, last write last.\<close>

definition precache_writes :: "(rat \<Rightarrow> string) \<Rightarrow> precache_form \<Rightarrow> (string \<times> string) list" where
  "precache_writes float_str f =
    [(''precache_enabled'', bool_text (pf_enabled f)),
     (''precache_domain_count'', show_int (clamp 100 100000 (pf_domain_count f))),
     (''precache_refresh_minutes'', show_int (clamp 5 1440 (pf_refresh_minutes f))),
     (''precache_ignore_ttl'', bool_text (pf_ignore_ttl f)),
     (''precache_custom_refresh_minutes'', show_int (clamp 5 1440 (pf_custom_refresh f))),
     (''precache_dns_server'',
        if strip (pf_dns_server f) = [] then ''dnsdist'' else strip (pf_dns_server f)),
     (''precache_max_queries_per_pass'', show_int (clamp 100 100000 (pf_max_queries_per_pass f))),
     (''precache_boot_burst_enabled'', bool_text (pf_boot_burst_enabled f)),
     (''precache_boot_burst_concurrency'', show_int (clamp 1 64 (pf_boot_burst_concurrency f))),
     (''precache_boot_burst_qps'', float_str (clamp 1 1000 (pf_boot_burst_qps f)))]"

lemma update_precache_settings_writes:
  "get_current_user sid d = Some u \<Longrightarrow>
   snd (update_precache_settings float_str sid f d) =
     fold (\<lambda>(k, v). set_setting k v) (precache_writes float_str f) d"
  by (simp add: update_precache_settings_def precache_writes_def Let_def)

lemma get_precache_written:
  "map_of (rev (precache_writes float_str f)) k = Some v \<Longrightarrow>
   get_setting (fold (\<lambda>(k, v). set_setting k v) (precache_writes float_str f) d) k = v"
  by (simp add: kv.get_fold_put)

lemma max_clamp: "lo \<le> hi \<Longrightarrow> k \<le> lo \<Longrightarrow> max k (clamp lo hi x) = clamp lo hi x"
  by (auto simp: clamp_def max_def min_def)

section \<open>Properties\<close>

text \<open>
  What \<open>update_precache_settings\<close> saves is what the readers return.  The comment in the
  handler promises that \<open>a saved value can never be read back differently than it was written\<close>:
  after the request of a logged-in user every reader of a precache setting returns the clamped
  form value, whatever the form held.  \<open>float_str\<close> stands for \<open>str\<close> on floats; Python documents
  that \<open>float()\<close> reads its output back exactly, which is assumed of the one value written.
\<close>

theorem precache_settings_round_trip:
  assumes "get_current_user sid d \<noteq> None"
    and "py_float (float_str (clamp 1 1000 (pf_boot_burst_qps f))) =
      Some (clamp 1 1000 (pf_boot_burst_qps f))"
    and "float_str (clamp 1 1000 (pf_boot_burst_qps f)) \<noteq> []"
  shows
    "let d' = snd (update_precache_settings float_str sid f d) in
       get_precache_enabled d' = (pf_enabled f = ''true'') \<and>
       get_precache_domain_count d' = Inr (clamp 100 100000 (pf_domain_count f)) \<and>
       get_precache_refresh_minutes d' = Inr (clamp 5 1440 (pf_refresh_minutes f)) \<and>
       get_precache_ignore_ttl d' = (pf_ignore_ttl f = ''true'') \<and>
       get_precache_custom_refresh_minutes d' = Inr (clamp 5 1440 (pf_custom_refresh f)) \<and>
       get_precache_dns_server d' =
         (if strip (pf_dns_server f) = [] then ''dnsdist'' else strip (pf_dns_server f)) \<and>
       get_precache_max_queries_per_pass d' = Inr (clamp 100 100000 (pf_max_queries_per_pass f)) \<and>
       get_precache_boot_burst_enabled d' = (pf_boot_burst_enabled f = ''true'') \<and>
       get_precache_boot_burst_concurrency d' = Inr (clamp 1 64 (pf_boot_burst_concurrency f)) \<and>
       get_precache_boot_burst_qps d' = Inr (clamp 1 1000 (pf_boot_burst_qps f))"
proof -
  let ?d = "fold (\<lambda>(k, v). set_setting k v) (precache_writes float_str f) d"
  have "snd (update_precache_settings float_str sid f d) = ?d"
    using assms(1) update_precache_settings_writes by auto
  moreover note written = get_precache_written [of float_str f _ _ d]
  have "get_setting ?d ''precache_enabled'' = bool_text (pf_enabled f)"
    by (rule written) (simp add: precache_writes_def)
  moreover have "get_setting ?d ''precache_domain_count'' =
      show_int (clamp 100 100000 (pf_domain_count f))"
    by (rule written) (simp add: precache_writes_def)
  moreover have "get_setting ?d ''precache_refresh_minutes'' =
      show_int (clamp 5 1440 (pf_refresh_minutes f))"
    by (rule written) (simp add: precache_writes_def)
  moreover have "get_setting ?d ''precache_ignore_ttl'' = bool_text (pf_ignore_ttl f)"
    by (rule written) (simp add: precache_writes_def)
  moreover have "get_setting ?d ''precache_custom_refresh_minutes'' =
      show_int (clamp 5 1440 (pf_custom_refresh f))"
    by (rule written) (simp add: precache_writes_def)
  moreover have "get_setting ?d ''precache_dns_server'' =
      (if strip (pf_dns_server f) = [] then ''dnsdist'' else strip (pf_dns_server f))"
    by (rule written) (simp add: precache_writes_def)
  moreover have "get_setting ?d ''precache_max_queries_per_pass'' =
      show_int (clamp 100 100000 (pf_max_queries_per_pass f))"
    by (rule written) (simp add: precache_writes_def)
  moreover have "get_setting ?d ''precache_boot_burst_enabled'' = bool_text (pf_boot_burst_enabled f)"
    by (rule written) (simp add: precache_writes_def)
  moreover have "get_setting ?d ''precache_boot_burst_concurrency'' =
      show_int (clamp 1 64 (pf_boot_burst_concurrency f))"
    by (rule written) (simp add: precache_writes_def)
  moreover have "get_setting ?d ''precache_boot_burst_qps'' =
      float_str (clamp 1 1000 (pf_boot_burst_qps f))"
    by (rule written) (simp add: precache_writes_def)
  ultimately show ?thesis
    using assms(2,3) by (simp add: setting_readers max_clamp)
qed

theorem precache_settings_round_trip_witness:
  "get_precache_boot_burst_qps
     (snd (update_precache_settings (\<lambda>_. ''50.0'') (Some 1)
        \<lparr>pf_enabled = ''true'', pf_domain_count = 7, pf_refresh_minutes = 30,
         pf_ignore_ttl = ''false'', pf_custom_refresh = 60, pf_dns_server = '' '',
         pf_max_queries_per_pass = 2000, pf_boot_burst_enabled = ''true'',
         pf_boot_burst_concurrency = 100, pf_boot_burst_qps = 50\<rparr>
        (empty_db\<lparr>db_users := \<lparr>rows = [\<lparr>u_id = 1, u_username = ''admin'', u_password_hash = []\<rparr>],
                              next_id = 2\<rparr>\<rparr>))) = Inr 50"
proof -
  let ?f = "\<lparr>pf_enabled = ''true'', pf_domain_count = 7, pf_refresh_minutes = 30,
         pf_ignore_ttl = ''false'', pf_custom_refresh = 60, pf_dns_server = '' '',
         pf_max_queries_per_pass = 2000, pf_boot_burst_enabled = ''true'',
         pf_boot_burst_concurrency = 100, pf_boot_burst_qps = 50\<rparr>"
  let ?d = "empty_db\<lparr>db_users := \<lparr>rows = [\<lparr>u_id = 1, u_username = ''admin'', u_password_hash = []\<rparr>],
                              next_id = 2\<rparr>\<rparr>"
  have user: "get_current_user (Some 1) ?d \<noteq> None"
    by (simp add: get_current_user_def tbl_find_def)
  have float: "py_float ((\<lambda>_. ''50.0'') (clamp 1 1000 (pf_boot_burst_qps ?f))) =
      Some (clamp 1 1000 (pf_boot_burst_qps ?f))"
    by code_simp
  show ?thesis
    using precache_settings_round_trip [OF user float] by (simp add: clamp_def Let_def)
qed

text \<open>
  The safety rails of the warming jobs cannot be configured away.  Whatever text the settings
  table holds, a per-pass ceiling that can be read at all is at least one query, a burst
  concurrency lies between 1 and 64 and a burst rate between 1 and 1000 queries per second.
\<close>

theorem warming_rails_bounded:
  "get_precache_max_queries_per_pass d = Inr n \<Longrightarrow>
   get_precache_boot_burst_concurrency d = Inr w \<Longrightarrow>
   get_precache_boot_burst_qps d = Inr q \<Longrightarrow>
   1 \<le> n \<and> 1 \<le> w \<and> w \<le> 64 \<and> 1 \<le> q \<and> q \<le> 1000"
  using clamp_bounds [of 1 "64::int"] clamp_bounds [of 1 "1000::rat"]
  by (auto simp: get_precache_max_queries_per_pass_def get_precache_boot_burst_concurrency_def
      get_precache_boot_burst_qps_def)

theorem warming_rails_bounded_witness:
  "(1::int) \<le> 2000 \<and> (1::int) \<le> 8 \<and> (8::int) \<le> 64 \<and> (1::rat) \<le> 50 \<and> (50::rat) \<le> 1000"
proof (rule warming_rails_bounded [of empty_db])
  show "get_precache_max_queries_per_pass empty_db = Inr 2000" by code_simp
  show "get_precache_boot_burst_concurrency empty_db = Inr 8" by code_simp
  show "get_precache_boot_burst_qps empty_db = Inr 50" by code_simp
qed

end
