(* ===== verification/Config_Audit.thy ===== *)
theory Config_Audit
  imports Settings_Store
begin

text \<open>
  The configuration audit log (\<open>admin-ui/app/services/config_audit.py\<close>): recording a change,
  the two history queries, and \<open>model_to_dict\<close> for the three models that are audited.
\<close>

section \<open>Recording changes\<close>

definition record_change ::
  "instant \<Rightarrow> string \<Rightarrow> int option \<Rightarrow> string \<Rightarrow> int option \<Rightarrow> pydict option \<Rightarrow> pydict option \<Rightarrow>
   string option \<Rightarrow> db \<Rightarrow> db" where
  "record_change now entity_type entity_id action actor before after comment d =
     d\<lparr>db_changes := tbl_insert (\<lambda>i. \<lparr>cc_id = i, cc_entity_type = entity_type,
          cc_entity_id = entity_id, cc_action = action, cc_actor_user_id = actor,
          cc_before_data = before, cc_after_data = after, cc_comment = comment,
          cc_created_at = now\<rparr>) (db_changes d)\<rparr>"

text \<open>\<open>ORDER BY created_at DESC LIMIT n\<close>.\<close>

definition newest_first :: "nat \<Rightarrow> config_change list \<Rightarrow> config_change list" where
  "newest_first n cs = take n (sort_key (\<lambda>c. - cc_created_at c) cs)"

definition get_entity_history :: "db \<Rightarrow> string \<Rightarrow> int option \<Rightarrow> nat \<Rightarrow> config_change list" where
  "get_entity_history d entity_type entity_id limit =
     newest_first limit
       (tbl_select (\<lambda>c. cc_entity_type c = entity_type \<and>
          (entity_id \<noteq> None \<longrightarrow> cc_entity_id c = entity_id)) (db_changes d))"

definition get_recent_changes :: "db \<Rightarrow> nat \<Rightarrow> config_change list" where
  "get_recent_changes d limit = newest_first limit (rows (db_changes d))"

section \<open>Rows as dictionaries\<close>

definition opt_str :: "string option \<Rightarrow> pyval" where
  "opt_str x = (case x of None \<Rightarrow> PNone | Some s \<Rightarrow> PStr s)"

definition opt_int :: "int option \<Rightarrow> pyval" where
  "opt_int x = (case x of None \<Rightarrow> PNone | Some i \<Rightarrow> PInt i)"

definition opt_time :: "instant option \<Rightarrow> pyval" where
  "opt_time x = (case x of None \<Rightarrow> PNone | Some t \<Rightarrow> PTime t)"

definition blocklist_to_dict :: "blocklist \<Rightarrow> pydict" where
  "blocklist_to_dict b =
    [(''id'', PInt (bl_id b)), (''name'', PStr (bl_name b)), (''url'', PStr (bl_url b)),
     (''format'', PStr (bl_format b)), (''list_type'', PStr (bl_list_type b)),
     (''enabled'', PBool (bl_enabled b)),
     (''update_frequency_hours'', PInt (bl_update_frequency_hours b)),
     (''last_updated'', opt_time (bl_last_updated b)),
     (''last_update_status'', opt_str (bl_last_update_status b)),
     (''last_error'', opt_str (bl_last_error b)), (''entry_count'', PInt (bl_entry_count b)),
     (''etag'', opt_str (bl_etag b)), (''last_modified'', opt_str (bl_last_modified b)),
     (''schedule_enabled'', PBool (bl_schedule_enabled b)),
     (''schedule_start'', opt_str (bl_schedule_start b)),
     (''schedule_end'', opt_str (bl_schedule_end b)),
     (''schedule_days'', opt_str (bl_schedule_days b)),
     (''created_at'', PTime (bl_created_at b))]"

definition manual_entry_to_dict :: "manual_entry \<Rightarrow> pydict" where
  "manual_entry_to_dict e =
    [(''id'', PInt (me_id e)), (''domain'', PStr (me_domain e)),
     (''entry_type'', PStr (me_entry_type e)), (''comment'', opt_str (me_comment e)),
     (''created_at'', PTime (me_created_at e))]"

definition forward_zone_to_dict :: "forward_zone \<Rightarrow> pydict" where
  "forward_zone_to_dict z =
    [(''id'', PInt (fz_id z)), (''domain'', PStr (fz_domain z)),
     (''servers'', PStr (fz_servers z)), (''description'', opt_str (fz_description z)),
     (''enabled'', PBool (fz_enabled z)), (''node_id'', opt_int (fz_node_id z)),
     (''created_at'', PTime (fz_created_at z)), (''updated_at'', PTime (fz_updated_at z))]"

section \<open>Facts\<close>

lemma record_change_frame [simp]:
  "db_blocklists (record_change now t i a u b af c d) = db_blocklists d"
  "db_entries (record_change now t i a u b af c d) = db_entries d"
  "db_manual (record_change now t i a u b af c d) = db_manual d"
  "db_zones (record_change now t i a u b af c d) = db_zones d"
  "db_nodes (record_change now t i a u b af c d) = db_nodes d"
  "db_settings (record_change now t i a u b af c d) = db_settings d"
  "db_users (record_change now t i a u b af c d) = db_users d"
  "db_node_commands (record_change now t i a u b af c d) = db_node_commands d"
  by (simp_all add: record_change_def)

lemma get_setting_record_change [simp]:
  "get_setting (record_change now t i a u b af c d) k = get_setting d k"
  by (simp add: get_setting_def)

end
