(* ===== verification/Blocklists.thy ===== *)
theory Blocklists
  imports Rpz Atomic_Write Config_Audit
begin

text \<open>
  Blocklists from download to zone file: \<open>admin-ui/app/services/blocklist_manager.py\<close>, the jobs
  \<open>update_blocklists_job\<close> and \<open>regenerate_rpz\<close> of \<open>services/scheduler.py\<close>, the schedule checks
  of \<open>services/blocklist_scheduler.py\<close>, and the handlers of \<open>routers/blocklists.py\<close> and
  \<open>routers/entries.py\<close> that change state.

  The download is the parameter \<open>fetch\<close>: for a URL, an error text or the decoded body.  The clock
  is a parameter in microseconds.  A handler that raises leaves the database as it was, because
  its session is never committed; files already written stay.
\<close>

section \<open>Downloading and parsing\<close>

type_synonym fetcher = "string \<Rightarrow> string + string"

text \<open>
  Iterating over a text file splits at line feeds, carriage returns and their pair.  The line ends
  Python keeps are white space that the parser strips.
\<close>

fun file_lines_from :: "string \<Rightarrow> string \<Rightarrow> string list" where
  "file_lines_from w [] = (if w = [] then [] else [rev w])"
| "file_lines_from w (x # xs) =
     (if x = newline \<or> x = carriage_return then rev w # file_lines_from [] xs
      else file_lines_from (x # w) xs)"

definition file_lines :: "string \<Rightarrow> string list" where
  "file_lines s = file_lines_from [] s"

definition fetch_and_parse_blocklist :: "fetcher \<Rightarrow> string \<Rightarrow> string \<Rightarrow> string + string set" where
  "fetch_and_parse_blocklist fetch url fmt =
     (case fetch url of
        Inl e \<Rightarrow> Inl e
      | Inr body \<Rightarrow> Inr (parse_blocklist_lines (file_lines body) fmt))"

section \<open>Regenerating the zones\<close>

definition combined_path :: string where
  "combined_path = ''/shared/rpz/blocklist-combined.rpz''"

definition whitelist_path :: string where
  "whitelist_path = ''/shared/rpz/whitelist.rpz''"

definition manual_domains :: "string \<Rightarrow> db \<Rightarrow> string set" where
  "manual_domains entry_type d =
     set (map me_domain (tbl_select (\<lambda>e. me_entry_type e = entry_type) (db_manual d)))"

definition enabled_blocklists :: "db \<Rightarrow> blocklist list" where
  "enabled_blocklists d = tbl_select bl_enabled (db_blocklists d)"

definition stored_domains :: "db \<Rightarrow> blocklist \<Rightarrow> string set" where
  "stored_domains d bl =
     set (map be_domain (tbl_select (\<lambda>e. be_blocklist_id e = bl_id bl) (db_entries d)))"

text \<open>The loop over the enabled lists: (blocked, allowed) so far.\<close>

fun collect_domains ::
  "(blocklist \<Rightarrow> string set) \<Rightarrow> blocklist list \<Rightarrow> string set \<times> string set \<Rightarrow> string set \<times> string set" where
  "collect_domains doms [] acc = acc"
| "collect_domains doms (bl # bls) (blocked, allow) =
     (if bl_list_type bl = ''allow''
      then collect_domains doms bls (blocked, allow \<union> doms bl)
      else collect_domains doms bls (blocked \<union> doms bl, allow))"

text \<open>The two writes at the end of \<open>regenerate_rpz\<close> and of \<open>blocklists_apply\<close>.\<close>

definition write_rpz :: "instant \<Rightarrow> string set \<Rightarrow> string set \<Rightarrow> world \<Rightarrow> bool \<times> world" where
  "write_rpz now blocked allow w =
     (let serial = now div 1000000;
          effective_blocked = blocked - allow;
          (ok1, w1) = atomic_write combined_path
             (render_rpz_zone serial effective_blocked ''blocklist-combined'') w
      in if \<not> ok1 then (False, w1)
         else atomic_write whitelist_path (render_rpz_whitelist serial allow) w1)"

definition regenerate_rpz :: "instant \<Rightarrow> world \<Rightarrow> bool \<times> world" where
  "regenerate_rpz now w =
     (let d = w_db w;
          (blocked, allow) = collect_domains (stored_domains d) (enabled_blocklists d)
             (manual_domains ''block'' d, manual_domains ''allow'' d)
      in write_rpz now blocked allow w)"

section \<open>The update job\<close>

definition list_due :: "instant \<Rightarrow> blocklist \<Rightarrow> bool" where
  "list_due now bl =
     (case bl_last_updated bl of
        None \<Rightarrow> True
      | Some last_upd \<Rightarrow> \<not> now < last_upd + hours (bl_update_frequency_hours bl))"

definition add_entry :: "int \<Rightarrow> string \<Rightarrow> db \<Rightarrow> db" where
  "add_entry i domain d =
     d\<lparr>db_entries := tbl_insert (\<lambda>k. \<lparr>be_id = k, be_domain = domain, be_blocklist_id = i\<rparr>) (db_entries d)\<rparr>"

definition delete_entries :: "int \<Rightarrow> db \<Rightarrow> db" where
  "delete_entries i d = d\<lparr>db_entries := tbl_delete (\<lambda>e. be_blocklist_id e = i) (db_entries d)\<rparr>"

definition update_blocklist :: "int \<Rightarrow> (blocklist \<Rightarrow> blocklist) \<Rightarrow> db \<Rightarrow> db" where
  "update_blocklist i f d =
     d\<lparr>db_blocklists := tbl_update (\<lambda>b. bl_id b = i) f (db_blocklists d)\<rparr>"

definition mark_success :: "instant \<Rightarrow> nat \<Rightarrow> blocklist \<Rightarrow> blocklist" where
  "mark_success now n b =
     b\<lparr>bl_last_update_status := Some ''success'', bl_last_error := None,
       bl_entry_count := int n, bl_last_updated := Some now\<rparr>"

definition mark_failed :: "instant \<Rightarrow> string \<Rightarrow> blocklist \<Rightarrow> blocklist" where
  "mark_failed now msg b =
     b\<lparr>bl_last_update_status := Some ''failed'', bl_last_error := Some msg,
       bl_last_updated := Some now\<rparr>"

text \<open>One pass of the job's loop body on a list that is due; the flag counts the update.\<close>

definition update_one :: "fetcher \<Rightarrow> instant \<Rightarrow> blocklist \<Rightarrow> db \<Rightarrow> nat \<times> db" where
  "update_one fetch now bl d =
     (case fetch_and_parse_blocklist fetch (bl_url bl) (bl_format bl) of
        Inr domains \<Rightarrow>
          (1, update_blocklist (bl_id bl) (mark_success now (card domains))
                (fold (add_entry (bl_id bl)) (sorted_list_of_set domains)
                   (delete_entries (bl_id bl) d)))
      | Inl ex \<Rightarrow> (0, update_blocklist (bl_id bl) (mark_failed now (take 500 ex)) d))"

fun update_loop :: "fetcher \<Rightarrow> instant \<Rightarrow> blocklist list \<Rightarrow> nat \<times> db \<Rightarrow> nat \<times> db" where
  "update_loop fetch now [] acc = acc"
| "update_loop fetch now (bl # bls) (n, d) =
     (if \<not> list_due now bl then update_loop fetch now bls (n, d)
      else (let (k, d') = update_one fetch now bl d
            in update_loop fetch now bls (n + k, d')))"

definition update_blocklists_job :: "fetcher \<Rightarrow> instant \<Rightarrow> world \<Rightarrow> world" where
  "update_blocklists_job fetch now w =
     (let d = w_db w;
          bls = tbl_select (\<lambda>b. bl_enabled b \<and> bl_update_frequency_hours b > 0) (db_blocklists d);
          (updated_count, d') = update_loop fetch now bls (0, d)
      in if updated_count > 0 then
           (let (ok, w') = regenerate_rpz now (w\<lparr>w_db := d'\<rparr>)
            in if ok then w' else w'\<lparr>w_db := d\<rparr>)
         else w\<lparr>w_db := d'\<rparr>)"

section \<open>Applying the lists from the UI\<close>

text \<open>
  The loop of \<open>blocklists_apply\<close>: the domains so far, the entries to add at the end, the database
  with the old entries deleted and the status columns set.
\<close>

fun apply_loop ::
  "fetcher \<Rightarrow> instant \<Rightarrow> blocklist list \<Rightarrow>
   (string set \<times> string set) \<times> (int \<times> string) list \<times> db \<Rightarrow>
   (string set \<times> string set) \<times> (int \<times> string) list \<times> db" where
  "apply_loop fetch now [] acc = acc"
| "apply_loop fetch now (bl # bls) ((blocked, allow), to_add, d) =
     (case fetch_and_parse_blocklist fetch (bl_url bl) (bl_format bl) of
        Inr domains \<Rightarrow>
          apply_loop fetch now bls
            (if bl_list_type bl = ''allow'' then (blocked, allow \<union> domains)
             else (blocked \<union> domains, allow),
             to_add @ map (Pair (bl_id bl)) (sorted_list_of_set domains),
             update_blocklist (bl_id bl) (mark_success now (card domains)) (delete_entries (bl_id bl) d))
      | Inl ex \<Rightarrow>
          apply_loop fetch now bls
            ((blocked, allow), to_add, update_blocklist (bl_id bl) (mark_failed now ex) d))"

definition blocklists_apply :: "fetcher \<Rightarrow> instant \<Rightarrow> int option \<Rightarrow> world \<Rightarrow> response \<times> world" where
  "blocklists_apply fetch now sid w =
     (let d = w_db w
      in case get_current_user sid d of
           None \<Rightarrow> (RedirectResponse ''/login'', w)
         | Some _ \<Rightarrow>
             (let ((blocked, allow), to_add, d') =
                    apply_loop fetch now (enabled_blocklists d)
                      ((manual_domains ''block'' d, manual_domains ''allow'' d), [], d);
                  (ok, w') = write_rpz now blocked allow w
              in if ok
                 then (JSONOk, w'\<lparr>w_db := fold (\<lambda>(i, dn). add_entry i dn) to_add d'\<rparr>)
                 else (JSONError 500 ''Internal Server Error'', w')))"

section \<open>Editing lists and entries\<close>

definition new_blocklist ::
  "instant \<Rightarrow> string \<Rightarrow> string \<Rightarrow> string \<Rightarrow> string \<Rightarrow> bool \<Rightarrow> int \<Rightarrow> int \<Rightarrow> blocklist" where
  "new_blocklist now name url fmt list_type enabled freq i =
     \<lparr>bl_id = i, bl_name = name, bl_url = url, bl_format = fmt, bl_list_type = list_type,
      bl_enabled = enabled, bl_update_frequency_hours = freq, bl_last_updated = None,
      bl_last_update_status = None, bl_last_error = None, bl_entry_count = 0, bl_etag = None,
      bl_last_modified = None, bl_schedule_enabled = False, bl_schedule_start = None,
      bl_schedule_end = None, bl_schedule_days = None, bl_created_at = now\<rparr>"

text \<open>\<open>db.add\<close> and a flush, refused by the unique constraint on \<open>url\<close>.\<close>

definition insert_blocklist :: "(int \<Rightarrow> blocklist) \<Rightarrow> db \<Rightarrow> (blocklist \<times> db) option" where
  "insert_blocklist mk d =
     (let b = mk (next_id (db_blocklists d))
      in if tbl_find (\<lambda>x. bl_url x = bl_url b) (db_blocklists d) \<noteq> None then None
         else Some (b, d\<lparr>db_blocklists := tbl_insert mk (db_blocklists d)\<rparr>))"

definition get_blocklist :: "db \<Rightarrow> int \<Rightarrow> blocklist option" where
  "get_blocklist d i = tbl_find (\<lambda>b. bl_id b = i) (db_blocklists d)"

definition server_error :: response where
  "server_error = JSONError 500 ''Internal Server Error''"

definition blocklists_add ::
  "instant \<Rightarrow> int option \<Rightarrow> string \<Rightarrow> string \<Rightarrow> string \<Rightarrow> string \<Rightarrow> int \<Rightarrow> db \<Rightarrow> response \<times> db" where
  "blocklists_add now sid name url fmt list_type freq d =
     (case get_current_user sid d of
        None \<Rightarrow> (RedirectResponse ''/login'', d)
      | Some u \<Rightarrow>
          (case insert_blocklist (new_blocklist now (strip name) (strip url) (strip fmt)
                  (strip list_type) True freq) d of
             None \<Rightarrow> (server_error, d)
           | Some (b, d1) \<Rightarrow>
               (RedirectResponse ''/blocklists'',
                record_change now ''blocklist'' (Some (bl_id b)) ''create'' (Some (u_id u)) None
                  (Some (blocklist_to_dict b)) None d1)))"

definition blocklists_add_preset ::
  "instant \<Rightarrow> int option \<Rightarrow> string \<Rightarrow> string \<Rightarrow> string \<Rightarrow> string \<Rightarrow> db \<Rightarrow> response \<times> db" where
  "blocklists_add_preset now sid name url fmt list_type d =
     (case get_current_user sid d of
        None \<Rightarrow> (RedirectResponse ''/login'', d)
      | Some u \<Rightarrow>
          (case insert_blocklist (new_blocklist now (strip name) (strip url) (strip fmt)
                  (strip list_type) True 24) d of
             None \<Rightarrow> (RedirectResponse ''/blocklists'', d)
           | Some (b, d1) \<Rightarrow> (RedirectResponse ''/blocklists'', d1)))"

text \<open>The shape shared by the three handlers that modify one list and record the change.\<close>

definition edit_blocklist ::
  "instant \<Rightarrow> int option \<Rightarrow> int \<Rightarrow> string \<Rightarrow> (blocklist \<Rightarrow> blocklist) \<Rightarrow> db \<Rightarrow> response \<times> db" where
  "edit_blocklist now sid i action f d =
     (case get_current_user sid d of
        None \<Rightarrow> (RedirectResponse ''/login'', d)
      | Some u \<Rightarrow>
          (case get_blocklist d i of
             None \<Rightarrow> (RedirectResponse ''/blocklists'', d)
           | Some b \<Rightarrow>
               (RedirectResponse ''/blocklists'',
                record_change now ''blocklist'' (Some (bl_id b)) action (Some (u_id u))
                  (Some (blocklist_to_dict b)) (Some (blocklist_to_dict (f b))) None
                  (update_blocklist i f d))))"

definition blocklists_update_frequency ::
  "instant \<Rightarrow> int option \<Rightarrow> int \<Rightarrow> int \<Rightarrow> db \<Rightarrow> response \<times> db" where
  "blocklists_update_frequency now sid i freq d =
     edit_blocklist now sid i ''update_frequency'' (\<lambda>b. b\<lparr>bl_update_frequency_hours := freq\<rparr>) d"

definition blocklists_toggle :: "instant \<Rightarrow> int option \<Rightarrow> int \<Rightarrow> db \<Rightarrow> response \<times> db" where
  "blocklists_toggle now sid i d =
     edit_blocklist now sid i ''toggle'' (\<lambda>b. b\<lparr>bl_enabled := \<not> bl_enabled b\<rparr>) d"

definition blocklists_update_schedule ::
  "instant \<Rightarrow> int option \<Rightarrow> int \<Rightarrow> bool \<Rightarrow> string \<Rightarrow> string \<Rightarrow> string list \<Rightarrow> db \<Rightarrow> response \<times> db" where
  "blocklists_update_schedule now sid i on start stop day_list d =
     edit_blocklist now sid i ''update_schedule''
       (\<lambda>b. b\<lparr>bl_schedule_enabled := on,
              bl_schedule_start := (if start = [] then None else Some (strip start)),
              bl_schedule_end := (if stop = [] then None else Some (strip stop)),
              bl_schedule_days := (if day_list = [] then None else Some (join '','' day_list))\<rparr>) d"

text \<open>Deleting a list also deletes its entries, by the foreign key's \<open>ON DELETE CASCADE\<close>.\<close>

definition delete_blocklist :: "int \<Rightarrow> db \<Rightarrow> db" where
  "delete_blocklist i d =
     (delete_entries i d)\<lparr>db_blocklists := tbl_delete (\<lambda>b. bl_id b = i) (db_blocklists d)\<rparr>"

definition blocklists_delete :: "instant \<Rightarrow> int option \<Rightarrow> int \<Rightarrow> db \<Rightarrow> response \<times> db" where
  "blocklists_delete now sid i d =
     (case get_current_user sid d of
        None \<Rightarrow> (RedirectResponse ''/login'', d)
      | Some u \<Rightarrow>
          (case get_blocklist d i of
             None \<Rightarrow> (RedirectResponse ''/blocklists'', d)
           | Some b \<Rightarrow>
               (RedirectResponse ''/blocklists'',
                delete_blocklist i
                  (record_change now ''blocklist'' (Some (bl_id b)) ''delete'' (Some (u_id u))
                     (Some (blocklist_to_dict b)) None None d))))"

definition entries_add ::
  "instant \<Rightarrow> int option \<Rightarrow> string \<Rightarrow> string \<Rightarrow> string \<Rightarrow> string \<Rightarrow> db \<Rightarrow> response \<times> db" where
  "entries_add now sid domain entry_type comment referer d =
     (case get_current_user sid d of
        None \<Rightarrow> (RedirectResponse ''/login'', d)
      | Some u \<Rightarrow>
          (let mk = (\<lambda>i. \<lparr>me_id = i,
                 me_domain = rstrip_by (\<lambda>c. c = CHR ''.'') (lower (strip domain)),
                 me_entry_type = entry_type,
                 me_comment = (if comment = [] then None else Some (strip comment)),
                 me_created_at = now\<rparr>);
               e = mk (next_id (db_manual d))
           in if tbl_find (\<lambda>x. me_domain x = me_domain e) (db_manual d) \<noteq> None then (server_error, d)
              else (if substr_in ''/entries'' referer then RedirectResponse ''/entries''
                    else if substr_in ''/logs'' referer then RedirectResponse referer
                    else RedirectResponse ''/blocklists'',
                    record_change now ''manual_entry'' (Some (me_id e)) ''create'' (Some (u_id u)) None
                      (Some (manual_entry_to_dict e)) None
                      (d\<lparr>db_manual := tbl_insert mk (db_manual d)\<rparr>))))"

definition entries_delete :: "instant \<Rightarrow> int option \<Rightarrow> int \<Rightarrow> db \<Rightarrow> response \<times> db" where
  "entries_delete now sid i d =
     (case get_current_user sid d of
        None \<Rightarrow> (RedirectResponse ''/login'', d)
      | Some u \<Rightarrow>
          (case tbl_find (\<lambda>e. me_id e = i) (db_manual d) of
             None \<Rightarrow> (RedirectResponse ''/entries'', d)
           | Some e \<Rightarrow>
               (RedirectResponse ''/entries'',
                record_change now ''manual_entry'' (Some i) ''delete'' (Some (u_id u))
                  (Some (manual_entry_to_dict e)) None None
                  (d\<lparr>db_manual := tbl_delete (\<lambda>x. me_id x = i) (db_manual d)\<rparr>))))"

section \<open>Schedules\<close>

definition parse_time :: "string \<Rightarrow> (int \<times> int) option" where
  "parse_time time_str =
     (if time_str = [] \<or> CHR '':'' \<notin> set time_str then None
      else (case split_on CHR '':'' time_str of
              h # m # _ \<Rightarrow>
                (case (py_int h, py_int m) of (Some x, Some y) \<Rightarrow> Some (x, y) | _ \<Rightarrow> None)
            | _ \<Rightarrow> None))"

definition is_time_in_range :: "int \<Rightarrow> int \<Rightarrow> int \<Rightarrow> int \<Rightarrow> int \<Rightarrow> int \<Rightarrow> bool" where
  "is_time_in_range current_hour current_minute start_hour start_minute end_hour end_minute =
     (let current = current_hour * 60 + current_minute;
          start = start_hour * 60 + start_minute;
          stop = end_hour * 60 + end_minute
      in if start \<le> stop then start \<le> current \<and> current < stop
         else current \<ge> start \<or> current < stop)"

definition day_map :: "(int \<times> string) list" where
  "day_map = [(0, ''mon''), (1, ''tue''), (2, ''wed''), (3, ''thu''), (4, ''fri''), (5, ''sat''),
     (6, ''sun'')]"

text \<open>The wall clock a time zone shows at an instant: week day from 0, hour and minute.\<close>

record wall_clock =
  wc_weekday :: int
  wc_hour :: int
  wc_minute :: int

definition str_or_empty :: "string option \<Rightarrow> string" where
  "str_or_empty s = (case s of None \<Rightarrow> [] | Some x \<Rightarrow> x)"

definition is_blocklist_active :: "blocklist \<Rightarrow> wall_clock \<Rightarrow> bool" where
  "is_blocklist_active bl now =
     (if \<not> bl_schedule_enabled bl then True
      else
        (case (parse_time (str_or_empty (bl_schedule_start bl)),
               parse_time (str_or_empty (bl_schedule_end bl))) of
           (Some start, Some stop) \<Rightarrow>
             (let schedule_days = lower (str_or_empty (bl_schedule_days bl));
                  current_day = (case map_of day_map (wc_weekday now) of Some x \<Rightarrow> x | None \<Rightarrow> [])
              in if schedule_days \<noteq> [] \<and> current_day \<noteq> [] \<and> \<not> substr_in current_day schedule_days
                 then False
                 else is_time_in_range (wc_hour now) (wc_minute now) (fst start) (snd start)
                        (fst stop) (snd stop))
         | _ \<Rightarrow> True))"

text \<open>\<open>zone_known\<close> and \<open>wall\<close> stand for the time zone database behind \<open>ZoneInfo\<close>.\<close>

definition schedule_timezone :: "(string \<Rightarrow> bool) \<Rightarrow> db \<Rightarrow> string" where
  "schedule_timezone zone_known d =
     (let tz = setting_or d ''timezone'' ''UTC'' in if zone_known tz then tz else ''UTC'')"

fun schedule_loop :: "wall_clock \<Rightarrow> blocklist list \<Rightarrow> nat \<times> nat \<times> db \<Rightarrow> nat \<times> nat \<times> db" where
  "schedule_loop now [] acc = acc"
| "schedule_loop now (bl # bls) (on, off, d) =
     (if is_blocklist_active bl now \<and> \<not> bl_enabled bl then
        schedule_loop now bls (on + 1, off, update_blocklist (bl_id bl) (bl_enabled_update (\<lambda>_. True)) d)
      else if \<not> is_blocklist_active bl now \<and> bl_enabled bl then
        schedule_loop now bls (on, off + 1, update_blocklist (bl_id bl) (bl_enabled_update (\<lambda>_. False)) d)
      else schedule_loop now bls (on, off, d))"

text \<open>
  The counts returned and the state; the change of the \<open>enabled\<close> columns is committed before the
  zones are regenerated, so it stays when that raises, and the counts are then reported as zero.
\<close>

definition run_schedule_check ::
  "(string \<Rightarrow> bool) \<Rightarrow> (string \<Rightarrow> instant \<Rightarrow> wall_clock) \<Rightarrow> instant \<Rightarrow> world \<Rightarrow> (nat \<times> nat) \<times> world" where
  "run_schedule_check zone_known wall now w =
     (let d = w_db w;
          local_now = wall (schedule_timezone zone_known d) now;
          bls = tbl_select bl_schedule_enabled (db_blocklists d);
          (enabled_count, disabled_count, d') = schedule_loop local_now bls (0, 0, d)
      in if enabled_count + disabled_count > 0 then
           (let (ok, w') = regenerate_rpz now (w\<lparr>w_db := d'\<rparr>)
            in if ok then ((enabled_count, disabled_count), w') else ((0, 0), w'))
         else ((enabled_count, disabled_count), w))"

section \<open>What the zones should say\<close>

text \<open>
  The policy the database expresses: every domain of an enabled allow list or of a manual allow
  entry is let through, every domain of another enabled list or of a manual block entry is
  blocked unless it is let through.
\<close>

definition policy_allowed :: "db \<Rightarrow> string set" where
  "policy_allowed d =
     manual_domains ''allow'' d \<union>
     (\<Union>bl \<in> {bl \<in> set (enabled_blocklists d). bl_list_type bl = ''allow''}. stored_domains d bl)"

definition policy_blocked :: "db \<Rightarrow> string set" where
  "policy_blocked d =
     (manual_domains ''block'' d \<union>
      (\<Union>bl \<in> {bl \<in> set (enabled_blocklists d). bl_list_type bl \<noteq> ''allow''}. stored_domains d bl))
     - policy_allowed d"

definition blocked_by_files :: "world \<Rightarrow> string set" where
  "blocked_by_files w =
     (case w_files w combined_path of None \<Rightarrow> {} | Some z \<Rightarrow> zone_owners ''.'' z)"

definition allowed_by_files :: "world \<Rightarrow> string set" where
  "allowed_by_files w =
     (case w_files w whitelist_path of None \<Rightarrow> {} | Some z \<Rightarrow> zone_owners ''rpz-passthru.'' z)"

section \<open>Facts on the zones\<close>

lemma collect_domains_eq:
  "collect_domains doms bls (blocked, allow) =
     (blocked \<union> (\<Union>bl \<in> {bl \<in> set bls. bl_list_type bl \<noteq> ''allow''}. doms bl),
      allow \<union> (\<Union>bl \<in> {bl \<in> set bls. bl_list_type bl = ''allow''}. doms bl))"
  by (induction doms bls "(blocked, allow)" arbitrary: blocked allow rule: collect_domains.induct) auto

lemma finite_manual [simp]: "finite (manual_domains t d)"
  by (simp add: manual_domains_def)

lemma finite_stored [simp]: "finite (stored_domains d bl)"
  by (simp add: stored_domains_def)

lemma paths_distinct [simp]: "combined_path \<noteq> whitelist_path" "whitelist_path \<noteq> combined_path"
  by (simp_all add: combined_path_def whitelist_path_def)

lemma newline_policy_name: "newline \<notin> set ''blocklist-combined''"
  by simp

lemma write_rpz_db [simp]: "w_db (snd (write_rpz now blocked allow w)) = w_db w"
  by (simp add: write_rpz_def Let_def atomic_write_def)

lemma regenerate_rpz_db [simp]: "w_db (snd (regenerate_rpz now w)) = w_db w"
  by (simp add: regenerate_rpz_def collect_domains_eq Let_def)

lemma write_rpz_ok:
  "fst (write_rpz now blocked allow w) \<longleftrightarrow> w_writable w combined_path \<and> w_writable w whitelist_path"
  by (simp add: write_rpz_def Let_def atomic_write_def)

text \<open>Both callers of \<open>write_rpz\<close> rest on this lemma.\<close>

lemma write_rpz_files:
  assumes ok: "fst (write_rpz now blocked allow w)"
    and fin: "finite blocked" "finite allow" and safe: "\<forall>d \<in> blocked \<union> allow. zone_safe d"
  shows "blocked_by_files (snd (write_rpz now blocked allow w)) = blocked - allow"
    and "allowed_by_files (snd (write_rpz now blocked allow w)) = allow"
proof -
  let ?w = "snd (write_rpz now blocked allow w)" and ?serial = "now div 1000000"
  from ok have "w_writable w combined_path" and "w_writable w whitelist_path"
    by (simp_all add: write_rpz_ok)
  then have files: "w_files ?w combined_path = Some (render_rpz_zone ?serial (blocked - allow) ''blocklist-combined'')"
    "w_files ?w whitelist_path = Some (render_rpz_whitelist ?serial allow)"
    by (simp_all add: write_rpz_def Let_def atomic_write_def)
  have "finite (blocked - allow)" and "\<forall>d \<in> blocked - allow. zone_safe d"
    and "\<forall>d \<in> allow. zone_safe d"
    using fin safe by auto
  then show "blocked_by_files ?w = blocked - allow" and "allowed_by_files ?w = allow"
    using zone_owners_render(1) [OF _ _ newline_policy_name] zone_owners_render(2) [OF fin(2), of "''p''"]
    by (simp_all add: blocked_by_files_def allowed_by_files_def files)
qed

lemma regenerate_rpz_files:
  assumes "fst (regenerate_rpz now w)"
    and "\<forall>d \<in> policy_blocked (w_db w) \<union> policy_allowed (w_db w). zone_safe d"
  shows "blocked_by_files (snd (regenerate_rpz now w)) = policy_blocked (w_db w)"
    and "allowed_by_files (snd (regenerate_rpz now w)) = policy_allowed (w_db w)"
proof -
  let ?d = "w_db w"
  let ?b = "manual_domains ''block'' ?d \<union>
    (\<Union>bl \<in> {bl \<in> set (enabled_blocklists ?d). bl_list_type bl \<noteq> ''allow''}. stored_domains ?d bl)"
  have regen: "regenerate_rpz now w = write_rpz now ?b (policy_allowed ?d) w"
    by (simp add: regenerate_rpz_def collect_domains_eq policy_allowed_def Let_def)
  have "finite ?b" and "finite (policy_allowed ?d)"
    by (auto simp: policy_allowed_def)
  moreover have "\<forall>d \<in> ?b \<union> policy_allowed ?d. zone_safe d"
    using assms(2) by (auto simp: policy_blocked_def)
  ultimately show "blocked_by_files (snd (regenerate_rpz now w)) = policy_blocked ?d"
    and "allowed_by_files (snd (regenerate_rpz now w)) = policy_allowed ?d"
    using write_rpz_files [of now ?b "policy_allowed ?d" w] assms(1)
    unfolding regen by (simp_all add: policy_blocked_def)
qed

section \<open>Facts on the update job\<close>

lemma stored_domains_add_entry:
  "stored_domains (add_entry i dn d) bl =
     (if bl_id bl = i then insert dn (stored_domains d bl) else stored_domains d bl)"
  by (auto simp: stored_domains_def add_entry_def tbl_select_def)

lemma stored_domains_fold_add:
  "stored_domains (fold (add_entry i) xs d) bl =
     (if bl_id bl = i then set xs \<union> stored_domains d bl else stored_domains d bl)"
  by (induction xs arbitrary: d) (auto simp: stored_domains_add_entry)

lemma stored_domains_delete:
  "stored_domains (delete_entries i d) bl = (if bl_id bl = i then {} else stored_domains d bl)"
  by (auto simp: stored_domains_def delete_entries_def tbl_select_def)

lemma stored_domains_update_blocklist [simp]:
  "stored_domains (update_blocklist i f d) bl = stored_domains d bl"
  by (simp add: stored_domains_def update_blocklist_def)

lemma finite_fetched:
  "fetch_and_parse_blocklist fetch url fmt = Inr ds \<Longrightarrow> finite ds"
  by (auto simp: fetch_and_parse_blocklist_def parse_blocklist_lines_def finite_parse_loop
      split: sum.splits)

lemma stored_domains_update_one:
  "stored_domains (snd (update_one fetch now bl d)) b =
     (case fetch_and_parse_blocklist fetch (bl_url bl) (bl_format bl) of
        Inr ds \<Rightarrow> if bl_id b = bl_id bl then ds else stored_domains d b
      | Inl _ \<Rightarrow> stored_domains d b)"
  by (auto simp: update_one_def stored_domains_fold_add stored_domains_delete finite_fetched
      split: sum.splits)

text \<open>What a list's stored domains become in a pass of the job.\<close>

definition refreshed_domains :: "fetcher \<Rightarrow> instant \<Rightarrow> db \<Rightarrow> blocklist \<Rightarrow> string set" where
  "refreshed_domains fetch now d bl =
     (if list_due now bl then
        (case fetch_and_parse_blocklist fetch (bl_url bl) (bl_format bl) of
           Inr ds \<Rightarrow> ds | Inl _ \<Rightarrow> stored_domains d bl)
      else stored_domains d bl)"

lemma update_loop_step:
  "update_loop fetch now (bl # bls) (n, d) =
     (if list_due now bl
      then update_loop fetch now bls (n + fst (update_one fetch now bl d), snd (update_one fetch now bl d))
      else update_loop fetch now bls (n, d))"
  by (simp add: Let_def case_prod_beta)

declare update_loop.simps(2) [simp del]

lemma update_loop_other:
  "bl_id b \<notin> bl_id ` set bls \<Longrightarrow>
   stored_domains (snd (update_loop fetch now bls (n, d))) b = stored_domains d b"
  by (induction bls arbitrary: n d)
    (auto simp: update_loop_step stored_domains_update_one split: sum.splits)

lemma refreshed_domains_cong:
  "stored_domains d b = stored_domains d' b \<Longrightarrow>
   refreshed_domains fetch now d b = refreshed_domains fetch now d' b"
  by (simp add: refreshed_domains_def split: sum.splits)

lemma update_loop_stored:
  "distinct (map bl_id bls) \<Longrightarrow> b \<in> set bls \<Longrightarrow>
   stored_domains (snd (update_loop fetch now bls (n, d))) b = refreshed_domains fetch now d b"
proof (induction bls arbitrary: n d)
  case (Cons bl bls)
  define d' where "d' = (if list_due now bl then snd (update_one fetch now bl d) else d)"
  have step: "update_loop fetch now (bl # bls) (n, d) =
      update_loop fetch now bls (if list_due now bl then n + fst (update_one fetch now bl d) else n, d')"
    by (simp add: d'_def update_loop_step)
  show ?case
  proof (cases "b = bl")
    case True
    then have "bl_id b \<notin> bl_id ` set bls" using Cons.prems(1) by auto
    then show ?thesis
      unfolding step using True
      by (simp add: update_loop_other d'_def stored_domains_update_one refreshed_domains_def
          split: sum.splits)
  next
    case False
    then have b: "b \<in> set bls" and "bl_id b \<noteq> bl_id bl" using Cons.prems by (auto intro: rev_image_eqI)
    then have "stored_domains d' b = stored_domains d b"
      by (simp add: d'_def stored_domains_update_one split: sum.splits)
    with Cons b show ?thesis
      unfolding step by (metis distinct.simps(2) list.simps(9) refreshed_domains_cong)
  qed
qed simp

lemma regenerate_rpz_ok:
  "fst (regenerate_rpz now w) \<longleftrightarrow> w_writable w combined_path \<and> w_writable w whitelist_path"
  by (simp add: regenerate_rpz_def collect_domains_eq write_rpz_ok Let_def)

lemma update_job_db:
  assumes "w_writable w combined_path" and "w_writable w whitelist_path"
  shows "w_db (update_blocklists_job fetch now w) =
    snd (update_loop fetch now
      (tbl_select (\<lambda>b. bl_enabled b \<and> bl_update_frequency_hours b > 0) (db_blocklists (w_db w)))
      (0, w_db w))"
proof -
  have "w_db (snd (regenerate_rpz now (w\<lparr>w_db := d\<rparr>))) = d"
    and "fst (regenerate_rpz now (w\<lparr>w_db := d\<rparr>))" for d
    using assms by (simp_all add: regenerate_rpz_ok)
  then show ?thesis
    by (simp add: update_blocklists_job_def Let_def case_prod_beta)
qed

section \<open>Facts on applying from the UI\<close>

definition fetched :: "fetcher \<Rightarrow> blocklist \<Rightarrow> string set" where
  "fetched fetch bl =
     (case fetch_and_parse_blocklist fetch (bl_url bl) (bl_format bl) of Inr ds \<Rightarrow> ds | Inl _ \<Rightarrow> {})"

lemma finite_fetched_set [simp]: "finite (fetched fetch bl)"
  using finite_fetched by (auto simp: fetched_def split: sum.splits)

lemma apply_loop_sets:
  "fst (apply_loop fetch now bls ((blocked, allow), to_add, d)) =
     collect_domains (fetched fetch) bls (blocked, allow)"
  by (induction bls arbitrary: blocked allow to_add d) (auto simp: fetched_def split: sum.splits)

definition fetch_fails :: "fetcher \<Rightarrow> blocklist \<Rightarrow> bool" where
  "fetch_fails fetch bl = (\<exists>e. fetch (bl_url bl) = Inl e)"

text \<open>Entries are deleted and added for lists whose download succeeded only.\<close>

lemma apply_loop_keeps:
  "bl_id b \<notin> bl_id ` {bl \<in> set bls. \<not> fetch_fails fetch bl} \<Longrightarrow>
   apply_loop fetch now bls (acc, to_add, d) = (acc', to_add', d') \<Longrightarrow>
   bl_id b \<notin> fst ` set to_add \<Longrightarrow>
   stored_domains d' b = stored_domains d b \<and> bl_id b \<notin> fst ` set to_add'"
proof (induction bls arbitrary: acc to_add d)
  case (Cons bl bls)
  obtain blocked allow where acc: "acc = (blocked, allow)" by (cases acc)
  show ?case
  proof (cases "fetch (bl_url bl)")
    case (Inl e)
    with Cons.prems acc show ?thesis
      using Cons.IH [of acc to_add "update_blocklist (bl_id bl) (mark_failed now e) d"]
      by (auto simp: fetch_and_parse_blocklist_def)
  next
    case (Inr body)
    let ?ds = "parse_blocklist_lines (file_lines body) (bl_format bl)"
    let ?d = "update_blocklist (bl_id bl) (mark_success now (card ?ds)) (delete_entries (bl_id bl) d)"
    let ?acc = "if bl_list_type bl = ''allow'' then (blocked, allow \<union> ?ds) else (blocked \<union> ?ds, allow)"
    let ?add = "to_add @ map (Pair (bl_id bl)) (sorted_list_of_set ?ds)"
    have id: "bl_id b \<noteq> bl_id bl" using Cons.prems(1) Inr by (auto simp: fetch_fails_def)
    then have "bl_id b \<notin> fst ` set ?add" using Cons.prems(3) by auto
    moreover have "apply_loop fetch now bls (?acc, ?add, ?d) = (acc', to_add', d')"
      using Cons.prems(2) Inr acc by (simp add: fetch_and_parse_blocklist_def)
    ultimately have "stored_domains d' b = stored_domains ?d b \<and> bl_id b \<notin> fst ` set to_add'"
      using Cons.prems(1) by (intro Cons.IH) auto
    then show ?thesis using id by (simp add: stored_domains_delete)
  qed
qed auto

lemma stored_domains_fold_pairs:
  "bl_id b \<notin> fst ` set ps \<Longrightarrow>
   stored_domains (fold (\<lambda>(i, dn). add_entry i dn) ps d) b = stored_domains d b"
  by (induction ps arbitrary: d) (auto simp: stored_domains_add_entry)

lemma blocklists_apply_zone:
  assumes user: "get_current_user sid (w_db w) = Some u"
    and ok: "w_writable w combined_path" "w_writable w whitelist_path"
    and safe: "\<forall>d \<in> manual_domains ''block'' (w_db w) \<union> manual_domains ''allow'' (w_db w) \<union>
      (\<Union>bl \<in> set (enabled_blocklists (w_db w)). fetched fetch bl). zone_safe d"
  shows "blocked_by_files (snd (blocklists_apply fetch now sid w)) =
    (manual_domains ''block'' (w_db w) \<union>
     (\<Union>bl \<in> {bl \<in> set (enabled_blocklists (w_db w)). bl_list_type bl \<noteq> ''allow''}. fetched fetch bl))
    - (manual_domains ''allow'' (w_db w) \<union>
     (\<Union>bl \<in> {bl \<in> set (enabled_blocklists (w_db w)). bl_list_type bl = ''allow''}. fetched fetch bl))"
    (is "_ = ?b - ?a")
proof -
  let ?run = "apply_loop fetch now (enabled_blocklists (w_db w))
      ((manual_domains ''block'' (w_db w), manual_domains ''allow'' (w_db w)), [], w_db w)"
  have "fst ?run = (?b, ?a)" by (simp only: apply_loop_sets collect_domains_eq)
  then obtain to_add d' where loop: "?run = ((?b, ?a), to_add, d')"
    by (cases ?run) auto
  have written: "fst (write_rpz now ?b ?a w)" using ok by (simp add: write_rpz_ok)
  have "\<forall>d \<in> ?b \<union> ?a. zone_safe d" using safe by blast
  then have "blocked_by_files (snd (write_rpz now ?b ?a w)) = ?b - ?a"
    using write_rpz_files(1) [OF written] by simp
  moreover have "blocked_by_files (w'\<lparr>w_db := x\<rparr>) = blocked_by_files w'" for w' x
    by (simp add: blocked_by_files_def)
  ultimately show ?thesis
    using written unfolding blocklists_apply_def user Let_def loop option.case
    by (simp add: case_prod_beta)
qed

section \<open>Facts on schedules\<close>

definition scheduled :: "wall_clock \<Rightarrow> blocklist \<Rightarrow> blocklist" where
  "scheduled now b = b\<lparr>bl_enabled := is_blocklist_active b now\<rparr>"

lemma scheduled_same: "is_blocklist_active b now = bl_enabled b \<Longrightarrow> scheduled now b = b"
  by (simp add: scheduled_def)

lemma active_ignores_enabled [simp]:
  "is_blocklist_active (b\<lparr>bl_enabled := x\<rparr>) now' = is_blocklist_active b now'"
  by (simp add: is_blocklist_active_def split: option.split)

lemma scheduled_active [simp]: "is_blocklist_active (scheduled now b) now' = is_blocklist_active b now'"
  by (simp only: scheduled_def active_ignores_enabled)

lemma scheduled_enabled: "bl_enabled (scheduled now b) = is_blocklist_active b now"
  by (simp add: scheduled_def)

lemma schedule_loop_rows:
  "distinct (map bl_id (rows (db_blocklists d))) \<Longrightarrow> distinct bls \<Longrightarrow>
   set bls \<subseteq> set (rows (db_blocklists d)) \<Longrightarrow>
   rows (db_blocklists (snd (snd (schedule_loop now bls (on, off, d))))) =
     map (\<lambda>b. if b \<in> set bls then scheduled now b else b) (rows (db_blocklists d))"
proof (induction bls arbitrary: on off d)
  case (Cons bl bls)
  let ?R = "rows (db_blocklists d)"
  define d' where "d' = update_blocklist (bl_id bl) (scheduled now) d"
  have same_id: "b = bl" if "b \<in> set ?R" "bl_id b = bl_id bl" for b
    using Cons.prems that by (auto simp: distinct_map inj_on_def)
  have rows': "rows (db_blocklists d') = map (\<lambda>b. if b = bl then scheduled now b else b) ?R"
    using same_id by (auto simp: d'_def update_blocklist_def)
  have "\<exists>on' off'. schedule_loop now (bl # bls) (on, off, d) = schedule_loop now bls (on', off', d'')"
    if "d'' = (if is_blocklist_active bl now = bl_enabled bl then d
               else update_blocklist (bl_id bl) (bl_enabled_update (\<lambda>_. is_blocklist_active bl now)) d)" for d''
    using that by auto
  then obtain on' off' d'' where step:
      "schedule_loop now (bl # bls) (on, off, d) = schedule_loop now bls (on', off', d'')"
    and d'': "d'' = (if is_blocklist_active bl now = bl_enabled bl then d
               else update_blocklist (bl_id bl) (bl_enabled_update (\<lambda>_. is_blocklist_active bl now)) d)"
    by blast
  have rows'': "rows (db_blocklists d'') = map (\<lambda>b. if b = bl then scheduled now b else b) ?R"
    using same_id scheduled_same [of bl now]
    by (auto simp: d'' update_blocklist_def scheduled_def intro: map_idI [symmetric])
  have ids: "map bl_id (rows (db_blocklists d'')) = map bl_id ?R"
    by (simp add: rows'' scheduled_def)
  have sub: "set bls \<subseteq> set (rows (db_blocklists d''))"
    using Cons.prems(2,3) by (auto simp: rows'')
  have not_in: "scheduled now bl \<notin> set bls"
  proof
    assume "scheduled now bl \<in> set bls"
    then have "scheduled now bl = bl"
      using Cons.prems(3) by (intro same_id) (auto simp: scheduled_def)
    with \<open>scheduled now bl \<in> set bls\<close> Cons.prems(2) show False by simp
  qed
  have "rows (db_blocklists (snd (snd (schedule_loop now bls (on', off', d''))))) =
      map (\<lambda>b. if b \<in> set bls then scheduled now b else b) (rows (db_blocklists d''))"
    using Cons.prems ids sub by (intro Cons.IH) auto
  then show ?case
    unfolding step rows'' using not_in Cons.prems(2) by auto
qed simp

lemma schedule_loop_unchanged:
  "(\<forall>b \<in> set bls. is_blocklist_active b now = bl_enabled b) \<Longrightarrow>
   schedule_loop now bls (on, off, d) = (on, off, d)"
  by (induction bls) auto

lemma schedule_loop_counts:
  "fst (schedule_loop now bls (on, off, d)) =
     on + length (filter (\<lambda>b. is_blocklist_active b now \<and> \<not> bl_enabled b) bls) \<and>
   fst (snd (schedule_loop now bls (on, off, d))) =
     off + length (filter (\<lambda>b. \<not> is_blocklist_active b now \<and> bl_enabled b) bls)"
  by (induction bls arbitrary: on off d) auto

lemma schedule_loop_settings:
  "db_settings (snd (snd (schedule_loop now bls (on, off, d)))) = db_settings d"
  by (induction bls arbitrary: on off d) (auto simp: update_blocklist_def)

lemma regenerate_rpz_writable: "w_writable (snd (regenerate_rpz now w)) = w_writable w"
  by (simp add: regenerate_rpz_def collect_domains_eq write_rpz_def atomic_write_def Let_def)

section \<open>Properties\<close>

text \<open>
  C2: \<open>regenerate_rpz\<close> renders the policy of the database.  When both files can be written, the
  blocking zone then blocks exactly the domains the enabled lists and manual entries block and no
  allow entry lets through, the whitelist zone passes exactly the allowed domains, no domain is in
  both, and the database is unchanged.
\<close>

theorem regenerate_zones_match_policy:
  assumes "w_writable w combined_path" and "w_writable w whitelist_path"
    and "\<forall>d \<in> policy_blocked (w_db w) \<union> policy_allowed (w_db w). zone_safe d"
    and "(ok, w') = regenerate_rpz now w"
  shows "ok \<and> blocked_by_files w' = policy_blocked (w_db w) \<and>
    allowed_by_files w' = policy_allowed (w_db w) \<and>
    blocked_by_files w' \<inter> allowed_by_files w' = {} \<and> w_db w' = w_db w"
proof -
  have r: "ok = fst (regenerate_rpz now w)" "w' = snd (regenerate_rpz now w)"
    using assms(4) by (metis fst_conv, metis snd_conv)
  then have ok: "ok" using assms(1,2) by (simp add: regenerate_rpz_ok)
  then show ?thesis
    using regenerate_rpz_files [OF _ assms(3), of now] unfolding r
    by (auto simp: policy_blocked_def)
qed

definition sample_list :: blocklist where
  "sample_list = (new_blocklist 0 ''ads'' ''http://x'' ''domains'' ''block'' True 24 1)"

definition sample_world :: world where
  "sample_world =
     \<lparr>w_db = empty_db\<lparr>db_blocklists := \<lparr>rows = [sample_list], next_id = 2\<rparr>,
        db_entries := \<lparr>rows = [\<lparr>be_id = 1, be_domain = ''a.example'', be_blocklist_id = 1\<rparr>,
                              \<lparr>be_id = 2, be_domain = ''b.example'', be_blocklist_id = 1\<rparr>], next_id = 3\<rparr>,
        db_manual := \<lparr>rows = [\<lparr>me_id = 1, me_domain = ''b.example'', me_entry_type = ''allow'',
                             me_comment = None, me_created_at = 0\<rparr>], next_id = 2\<rparr>,
        db_users := \<lparr>rows = [\<lparr>u_id = 1, u_username = ''admin'', u_password_hash = []\<rparr>], next_id = 2\<rparr>\<rparr>,
      w_files = Map.empty, w_writable = (\<lambda>_. True)\<rparr>"

lemmas sample_defs =
  sample_world_def sample_list_def new_blocklist_def empty_db_def empty_table_def

lemma sample_policy:
  "policy_allowed (w_db sample_world) = {''b.example''}"
  "policy_blocked (w_db sample_world) = {''a.example''}"
  by (auto simp: policy_allowed_def policy_blocked_def manual_domains_def enabled_blocklists_def
      stored_domains_def tbl_select_def sample_defs)

lemma sample_zone_safe: "zone_safe ''a.example''" "zone_safe ''b.example''"
  by (simp_all add: zone_safe_def is_comment_char_def)

theorem regenerate_zones_match_policy_witness:
  "blocked_by_files (snd (regenerate_rpz 0 sample_world)) = {''a.example''}"
proof -
  have "\<forall>d \<in> policy_blocked (w_db sample_world) \<union> policy_allowed (w_db sample_world). zone_safe d"
    using sample_zone_safe by (simp add: sample_policy)
  moreover have "w_writable sample_world p" for p by (simp add: sample_world_def)
  ultimately show ?thesis
    using regenerate_zones_match_policy [of sample_world "fst (regenerate_rpz 0 sample_world)"
        "snd (regenerate_rpz 0 sample_world)" 0]
    by (simp add: sample_policy)
qed



text \<open>
  \<open>blocklists_apply\<close>, unlike the job, stops blocking a list whose download fails.  The zone
  it writes holds only domains of manual entries and of successful downloads, although the stored
  entries of the failed list are kept: a domain that only this list blocks is no longer blocked.
\<close>

theorem failed_download_unblocks:
  assumes user: "get_current_user sid (w_db w) = Some u"
    and ok: "w_writable w combined_path" "w_writable w whitelist_path"
    and safe: "\<forall>d \<in> manual_domains ''block'' (w_db w) \<union> manual_domains ''allow'' (w_db w) \<union>
      (\<Union>bl \<in> set (enabled_blocklists (w_db w)). fetched fetch bl). zone_safe d"
    and wf: "table_wf bl_id (db_blocklists (w_db w))"
    and b: "b \<in> set (enabled_blocklists (w_db w))" "fetch_fails fetch b"
    and x: "x \<in> stored_domains (w_db w) b" "x \<notin> manual_domains ''block'' (w_db w)"
    and only: "\<forall>bl \<in> set (enabled_blocklists (w_db w)). x \<notin> fetched fetch bl"
  shows "x \<in> stored_domains (w_db (snd (blocklists_apply fetch now sid w))) b \<and>
    x \<notin> blocked_by_files (snd (blocklists_apply fetch now sid w))"
proof
  let ?run = "apply_loop fetch now (enabled_blocklists (w_db w))
      ((manual_domains ''block'' (w_db w), manual_domains ''allow'' (w_db w)), [], w_db w)"
  obtain acc to_add d' where run: "?run = (acc, to_add, d')" by (cases ?run) auto
  have "bl_id b \<notin> bl_id ` {bl \<in> set (enabled_blocklists (w_db w)). \<not> fetch_fails fetch bl}"
    using wf b by (auto simp: enabled_blocklists_def tbl_select_def dest: table_wf_key_inj)
  from apply_loop_keeps [OF this run] have kept:
    "stored_domains d' b = stored_domains (w_db w) b" "bl_id b \<notin> fst ` set to_add"
    by simp_all
  obtain blocked allow where acc: "acc = (blocked, allow)" by (cases acc)
  have written: "fst (write_rpz now blocked allow w)" using ok by (simp add: write_rpz_ok)
  have "w_db (snd (blocklists_apply fetch now sid w)) = fold (\<lambda>(i, dn). add_entry i dn) to_add d'"
    using written unfolding blocklists_apply_def user Let_def run option.case acc
    by (simp add: case_prod_beta)
  then show "x \<in> stored_domains (w_db (snd (blocklists_apply fetch now sid w))) b"
    using x(1) kept by (simp add: stored_domains_fold_pairs)
  show "x \<notin> blocked_by_files (snd (blocklists_apply fetch now sid w))"
    using blocklists_apply_zone [OF user ok safe] x(2) only by blast
qed

theorem failed_download_unblocks_witness:
  "''a.example'' \<notin> blocked_by_files (snd (blocklists_apply (\<lambda>_. Inl ''timeout'') 0 (Some 1) sample_world))"
proof -
  have user: "get_current_user (Some 1) (w_db sample_world) =
      Some \<lparr>u_id = 1, u_username = ''admin'', u_password_hash = []\<rparr>"
    and wf: "table_wf bl_id (db_blocklists (w_db sample_world))"
    and b: "sample_list \<in> set (enabled_blocklists (w_db sample_world))"
    and fails: "fetch_fails (\<lambda>_. Inl ''timeout'') sample_list"
    and x: "''a.example'' \<in> stored_domains (w_db sample_world) sample_list"
    and no_manual: "''a.example'' \<notin> manual_domains ''block'' (w_db sample_world)"
    and only: "\<forall>bl \<in> set (enabled_blocklists (w_db sample_world)). ''a.example'' \<notin> fetched (\<lambda>_. Inl ''timeout'') bl"
    and ok: "w_writable sample_world p" for p
    by (simp_all add: get_current_user_def tbl_find_def table_wf_def enabled_blocklists_def
        tbl_select_def fetch_fails_def stored_domains_def manual_domains_def fetched_def
        fetch_and_parse_blocklist_def sample_defs)
  have safe: "\<forall>d \<in> manual_domains ''block'' (w_db sample_world) \<union> manual_domains ''allow'' (w_db sample_world) \<union>
      (\<Union>bl \<in> set (enabled_blocklists (w_db sample_world)). fetched (\<lambda>_. Inl ''timeout'') bl). zone_safe d"
    using sample_zone_safe
    by (simp add: manual_domains_def tbl_select_def fetched_def fetch_and_parse_blocklist_def
        enabled_blocklists_def sample_defs)
  show ?thesis
    using failed_download_unblocks [OF user ok ok safe wf b fails x no_manual only] by blast
qed

text \<open>
  The schedule window is the cyclic interval of the day.  For clock times, a moment is in the
  range exactly when the minutes since the start, counted around midnight, are fewer than the
  length of the window; an overnight window wraps and a window with equal ends is empty.
\<close>

theorem time_range_is_cyclic:
  assumes "0 \<le> ch" "ch < 24" "0 \<le> cm" "cm < 60" "0 \<le> sh" "sh < 24" "0 \<le> sm" "sm < 60"
    and "0 \<le> eh" "eh < 24" "0 \<le> em" "em < 60"
  shows "is_time_in_range ch cm sh sm eh em \<longleftrightarrow>
    ((ch * 60 + cm) - (sh * 60 + sm)) mod 1440 < ((eh * 60 + em) - (sh * 60 + sm)) mod 1440"
proof -
  define c s e where "c = ch * 60 + cm" and "s = sh * 60 + sm" and "e = eh * 60 + em"
  have bounds: "0 \<le> c" "c < 1440" "0 \<le> s" "s < 1440" "0 \<le> e" "e < 1440"
    using assms by (simp_all add: c_def s_def e_def)
  have wrap: "x mod 1440 = (if x < 0 then x + 1440 else x)" if "-1440 < x" "x < 1440" for x :: int
  proof (cases "x < 0")
    case True
    then have "(x + 1440) mod 1440 = x + 1440" using that by (intro mod_pos_pos_trivial) auto
    with True show ?thesis by simp
  qed (use that in \<open>simp add: mod_pos_pos_trivial\<close>)
  have "(c - s) mod 1440 = (if c < s then c - s + 1440 else c - s)"
    and "(e - s) mod 1440 = (if e < s then e - s + 1440 else e - s)"
    using wrap [of "c - s"] wrap [of "e - s"] bounds by auto
  then show ?thesis
    using bounds unfolding is_time_in_range_def Let_def c_def [symmetric] s_def [symmetric] e_def [symmetric]
    by auto
qed

theorem time_range_is_cyclic_witness:
  "is_time_in_range 23 30 22 0 6 0 \<and> \<not> is_time_in_range 12 0 22 0 6 0"
  using time_range_is_cyclic [of 23 30 22 0 6 0] time_range_is_cyclic [of 12 0 22 0 6 0] by simp

text \<open>
  C8: the schedule check enforces the schedules and settles.  After it every list with a schedule
  is enabled exactly when its schedule makes it active at that moment, every other list is as it
  was, and, when the zones could be written, a second check at the same moment changes nothing and
  reports no change.
\<close>

theorem schedule_check_enforces:
  assumes wf: "table_wf bl_id (db_blocklists (w_db w))"
    and ok: "w_writable w combined_path" "w_writable w whitelist_path"
    and now: "clock = wall (schedule_timezone zone_known (w_db w)) now"
    and run: "(counts, w') = run_schedule_check zone_known wall now w"
  shows "rows (db_blocklists (w_db w')) =
      map (\<lambda>b. if bl_schedule_enabled b then scheduled clock b else b) (rows (db_blocklists (w_db w))) \<and>
    run_schedule_check zone_known wall now w' = ((0, 0), w')"
proof -
  let ?d = "w_db w" and ?sel = "\<lambda>d. tbl_select bl_schedule_enabled (db_blocklists d)"
  obtain on off d' where loop: "schedule_loop clock (?sel ?d) (0, 0, ?d) = (on, off, d')"
    by (cases "schedule_loop clock (?sel ?d) (0, 0, ?d)") auto
  have "distinct (rows (db_blocklists ?d))" using wf by (auto simp: table_wf_def distinct_map)
  then have rows': "rows (db_blocklists d') =
      map (\<lambda>b. if bl_schedule_enabled b then scheduled clock b else b) (rows (db_blocklists ?d))"
    using schedule_loop_rows [of ?d "?sel ?d" clock 0 0] wf loop
    by (auto simp: table_wf_def tbl_select_def)
  have w': "w_db w' = (if on + off > 0 then d' else ?d)"
    and writable: "w_writable w' = w_writable w"
    using run ok loop now
    by (auto simp: run_schedule_check_def Let_def case_prod_beta regenerate_rpz_ok
        regenerate_rpz_writable split: if_splits)
  have quiet: "rows (db_blocklists d') = rows (db_blocklists ?d)" if "on + off = 0"
  proof -
    have "is_blocklist_active b clock = bl_enabled b" if "b \<in> set (?sel ?d)" for b
      using schedule_loop_counts [of clock "?sel ?d" 0 0 ?d] loop \<open>on + off = 0\<close> that
      by (auto simp: filter_empty_conv)
    then have "schedule_loop clock (?sel ?d) (0, 0, ?d) = (0, 0, ?d)"
      using schedule_loop_unchanged by blast
    with loop show ?thesis by simp
  qed
  have first: "rows (db_blocklists (w_db w')) =
      map (\<lambda>b. if bl_schedule_enabled b then scheduled clock b else b) (rows (db_blocklists ?d))"
    using quiet rows' w' by (cases "on + off > 0") auto
  have "get_setting (w_db w') k = get_setting ?d k" for k
    using w' loop schedule_loop_settings [of clock "?sel ?d" 0 0 ?d] by (simp add: get_setting_def)
  then have clock': "wall (schedule_timezone zone_known (w_db w')) now = clock"
    by (simp add: now schedule_timezone_def setting_or_def)
  have "is_blocklist_active b clock = bl_enabled b" if "b \<in> set (?sel (w_db w'))" for b
    using that by (auto simp: first tbl_select_def scheduled_enabled)
  then have "schedule_loop clock (?sel (w_db w')) (0, 0, w_db w') = (0, 0, w_db w')"
    using schedule_loop_unchanged by blast
  then show ?thesis
    using first clock' by (simp add: run_schedule_check_def Let_def)
qed

theorem schedule_check_enforces_witness:
  "\<exists>w. bl_enabled (hd (rows (db_blocklists (w_db w)))) \<and>
     \<not> bl_enabled (hd (rows (db_blocklists (w_db (snd (run_schedule_check (\<lambda>_. True)
        (\<lambda>_ _. \<lparr>wc_weekday = 0, wc_hour = 12, wc_minute = 0\<rparr>) 0 w))))))"
proof -
  let ?bl = "sample_list\<lparr>bl_schedule_enabled := True, bl_schedule_start := Some ''22:00'',
      bl_schedule_end := Some ''06:00''\<rparr>"
  let ?noon = "\<lparr>wc_weekday = 0, wc_hour = 12, wc_minute = 0\<rparr>"
  let ?w = "sample_world\<lparr>w_db := (w_db sample_world)\<lparr>db_blocklists := \<lparr>rows = [?bl], next_id = 2\<rparr>\<rparr>\<rparr>"
  let ?run = "run_schedule_check (\<lambda>_. True) (\<lambda>_ _. ?noon) 0 ?w"
  have wf: "table_wf bl_id (db_blocklists (w_db ?w))"
    and writable: "w_writable ?w p" for p
    by (simp_all add: table_wf_def sample_defs)
  have "rows (db_blocklists (w_db (snd ?run))) =
      map (\<lambda>b. if bl_schedule_enabled b then scheduled ?noon b else b) (rows (db_blocklists (w_db ?w)))"
    using schedule_check_enforces [OF wf writable writable, of ?noon "\<lambda>_ _. ?noon" "\<lambda>_. True" 0
        "fst ?run" "snd ?run"] by simp
  moreover have "parse_time ''22:00'' = Some (22, 0)" and "parse_time ''06:00'' = Some (6, 0)"
    by code_simp+
  then have "\<not> is_blocklist_active ?bl ?noon"
    by (simp add: is_blocklist_active_def str_or_empty_def is_time_in_range_def sample_defs lower_def Let_def)
  ultimately show ?thesis
    by (intro exI [of _ ?w]) (simp add: scheduled_def sample_list_def new_blocklist_def)
qed

end
