(* ===== verification/Datetime_Text.thy ===== *)
theory Datetime_Text
  imports Prelude
begin

text \<open>
  Python's \<open>datetime.isoformat\<close> and \<open>datetime.fromisoformat\<close>, which carry points in time through
  the settings table (the end of a pause) and through the ingest protocol.  Dates are those of
  the proleptic Gregorian calendar, years 1 to 9999.

  The reader covers the extended format: a date, optionally a separator character and a time of
  hours and minutes with optional seconds, fraction (any number of digits, cut at six) and offset
  (\<open>Z\<close> or a sign, hours and minutes).  The basic and the week-date spellings that Python also
  reads are outside the model and count as unreadable.
\<close>

section \<open>The calendar\<close>

definition is_leap :: "nat \<Rightarrow> bool" where
  "is_leap y = (y mod 4 = 0 \<and> (y mod 100 \<noteq> 0 \<or> y mod 400 = 0))"

definition days_in_year :: "nat \<Rightarrow> nat" where
  "days_in_year y = (if is_leap y then 366 else 365)"

definition days_in_month :: "nat \<Rightarrow> nat \<Rightarrow> nat" where
  "days_in_month y m =
     (if m = 2 then (if is_leap y then 29 else 28) else if m \<in> {4, 6, 9, 11} then 30 else 31)"

definition days_before_year :: "nat \<Rightarrow> nat" where
  "days_before_year y = (y - 1) * 365 + (y - 1) div 4 + (y - 1) div 400 - (y - 1) div 100"

definition days_before_month :: "nat \<Rightarrow> nat \<Rightarrow> nat" where
  "days_before_month y m = sum_list (map (days_in_month y) [1..<m])"

text \<open>Days since 1 January of year 1, counted from 0, and back.\<close>

definition ymd_to_days :: "nat \<Rightarrow> nat \<Rightarrow> nat \<Rightarrow> nat" where
  "ymd_to_days y m d = days_before_year y + days_before_month y m + (d - 1)"

function year_from :: "nat \<Rightarrow> nat \<Rightarrow> nat \<times> nat" where
  "year_from y n = (if n < days_in_year y then (y, n) else year_from (y + 1) (n - days_in_year y))"
  by auto
termination
  by (relation "measure snd") (auto simp: days_in_year_def)

function month_from :: "nat \<Rightarrow> nat \<Rightarrow> nat \<Rightarrow> nat \<times> nat" where
  "month_from y m n =
     (if 12 \<le> m \<or> n < days_in_month y m then (m, n)
      else month_from y (m + 1) (n - days_in_month y m))"
  by auto
termination
  by (relation "measure (\<lambda>(y, m, n). 12 - m)") auto

declare year_from.simps [simp del] month_from.simps [simp del]

definition days_to_ymd :: "nat \<Rightarrow> nat \<times> nat \<times> nat" where
  "days_to_ymd n =
     (let (y, k) = year_from 1 n; (m, j) = month_from y 1 k in (y, m, j + 1))"

text \<open>The epoch, 1 January 1970, is day 719162.  Instants count microseconds from it.\<close>

definition epoch_days :: int where
  "epoch_days = 719162"

abbreviation (input) us_per_day :: int where
  "us_per_day \<equiv> 86400000000"

definition day_of :: "instant \<Rightarrow> nat" where
  "day_of t = nat (t div us_per_day + epoch_days)"

definition us_of_day :: "instant \<Rightarrow> nat" where
  "us_of_day t = nat (t mod us_per_day)"

section \<open>Writing\<close>

fun pad :: "nat \<Rightarrow> nat \<Rightarrow> string" where
  "pad 0 n = []"
| "pad (Suc w) n = pad w (n div 10) @ [digit_char (n mod 10)]"

text \<open>\<open>datetime.fromtimestamp(t, timezone.utc).isoformat()\<close>.\<close>

definition isoformat :: "instant \<Rightarrow> string" where
  "isoformat t =
     (let (y, m, d) = days_to_ymd (day_of t);
          u = us_of_day t;
          s = u div 1000000
      in pad 4 y @ ''-'' @ pad 2 m @ ''-'' @ pad 2 d @ ''T'' @ pad 2 (s div 3600) @ '':'' @
         pad 2 (s div 60 mod 60) @ '':'' @ pad 2 (s mod 60) @
         (if u mod 1000000 = 0 then [] else ''.'' @ pad 6 (u mod 1000000)) @ ''+00:00'')"

section \<open>Reading\<close>

text \<open>Exactly \<open>w\<close> digits at the front.\<close>

definition read_digits :: "nat \<Rightarrow> string \<Rightarrow> (nat \<times> string) option" where
  "read_digits w s =
     (let p = take w s
      in if length p = w \<and> list_all is_digit p
         then Some (fold (\<lambda>c a. 10 * a + digit_value c) p 0, drop w s) else None)"

definition read_char :: "char \<Rightarrow> string \<Rightarrow> string option" where
  "read_char c s = (case s of [] \<Rightarrow> None | x # xs \<Rightarrow> if x = c then Some xs else None)"

text \<open>A fraction, in microseconds; absent when the text does not start with a point.\<close>

definition read_fraction :: "string \<Rightarrow> (nat \<times> string) option" where
  "read_fraction s =
     (case read_char CHR ''.'' s of
        None \<Rightarrow> Some (0, s)
      | Some r \<Rightarrow>
          (let ds = takeWhile is_digit r;
               six = take 6 (ds @ replicate 6 CHR ''0'')
           in if ds = [] then None
              else Some (fold (\<lambda>c a. 10 * a + digit_value c) six 0, dropWhile is_digit r)))"

text \<open>The offset from UTC in minutes; \<open>None\<close> inside when there is no offset.\<close>

definition read_offset :: "string \<Rightarrow> int option option" where
  "read_offset s =
     (case s of
        [] \<Rightarrow> Some None
      | c # r \<Rightarrow>
          (if c = CHR ''Z'' then (if r = [] then Some (Some 0) else None)
           else if c = CHR ''+'' \<or> c = CHR ''-'' then
             Option.bind (read_digits 2 r) (\<lambda>(h, r1).
             Option.bind (read_char CHR '':'' r1) (\<lambda>r2.
             Option.bind (read_digits 2 r2) (\<lambda>(m, r3).
               if r3 = [] \<and> h < 24 \<and> m < 60
               then Some (Some (if c = CHR ''-'' then - int (60 * h + m) else int (60 * h + m)))
               else None)))
           else None))"

definition read_date :: "string \<Rightarrow> (nat \<times> string) option" where
  "read_date s =
     Option.bind (read_digits 4 s) (\<lambda>(y, r1).
     Option.bind (read_char CHR ''-'' r1) (\<lambda>r2.
     Option.bind (read_digits 2 r2) (\<lambda>(m, r3).
     Option.bind (read_char CHR ''-'' r3) (\<lambda>r4.
     Option.bind (read_digits 2 r4) (\<lambda>(d, r5).
       if 1 \<le> y \<and> 1 \<le> m \<and> m \<le> 12 \<and> 1 \<le> d \<and> d \<le> days_in_month y m
       then Some (ymd_to_days y m d, r5) else None)))))"

text \<open>Hours and minutes, then seconds with a fraction if present: microseconds of the day.\<close>

definition read_seconds :: "string \<Rightarrow> (nat \<times> string) option" where
  "read_seconds s =
     (case read_char CHR '':'' s of
        None \<Rightarrow> Some (0, s)
      | Some r \<Rightarrow>
          Option.bind (read_digits 2 r) (\<lambda>(sec, r1).
          Option.bind (read_fraction r1) (\<lambda>(us, r2).
            if sec < 60 then Some (sec * 1000000 + us, r2) else None)))"

definition read_time :: "string \<Rightarrow> (nat \<times> string) option" where
  "read_time s =
     Option.bind (read_digits 2 s) (\<lambda>(h, r1).
     Option.bind (read_char CHR '':'' r1) (\<lambda>r2.
     Option.bind (read_digits 2 r2) (\<lambda>(m, r3).
     Option.bind (read_seconds r3) (\<lambda>(us, r4).
       if h < 24 \<and> m < 60 then Some ((h * 60 + m) * 60000000 + us, r4) else None))))"

definition at_day :: "nat \<Rightarrow> nat \<Rightarrow> instant" where
  "at_day n us = (int n - epoch_days) * us_per_day + int us"

definition fromisoformat :: "string \<Rightarrow> py_datetime option" where
  "fromisoformat s =
     Option.bind (read_date s) (\<lambda>(n, r).
       (case r of
          [] \<Rightarrow> Some (Naive (at_day n 0))
        | _ # r1 \<Rightarrow>
            Option.bind (read_time r1) (\<lambda>(us, r2).
            Option.bind (read_offset r2) (\<lambda>off.
              Some (case off of
                      None \<Rightarrow> Naive (at_day n us)
                    | Some m \<Rightarrow> Aware (at_day n us - minutes m))))))"

text \<open>\<open>dt if dt.tzinfo else dt.replace(tzinfo=timezone.utc)\<close>, as an instant.\<close>

abbreviation utc_instant :: "py_datetime \<Rightarrow> instant" where
  "utc_instant \<equiv> dt_instant"

section \<open>Facts on the calendar\<close>

lemma days_before_year_Suc:
  assumes "1 \<le> y"
  shows "days_before_year (y + 1) = days_before_year y + days_in_year y"
proof -
  obtain k where y: "y = Suc k" using assms by (cases y) auto
  have 400: "Suc k mod 400 = 0 \<Longrightarrow> Suc k mod 100 = 0" "Suc k mod 100 = 0 \<Longrightarrow> Suc k mod 4 = 0"
    by presburger+
  have "k div 100 \<le> k div 4" and "Suc k div 100 \<le> Suc k div 4"
    by (auto intro: div_le_mono2)
  then show ?thesis
    using 400 unfolding y days_before_year_def days_in_year_def is_leap_def
    by (auto simp: div_Suc; simp add: ac_simps)
qed

lemma year_from_days:
  "1 \<le> y \<Longrightarrow> year_from y n = (y', k) \<Longrightarrow>
   days_before_year y' + k = days_before_year y + n \<and> k < days_in_year y' \<and> y \<le> y'"
proof (induction y n rule: year_from.induct)
  case (1 y n)
  show ?case
  proof (cases "n < days_in_year y")
    case True
    then show ?thesis using "1.prems" by (subst (asm) year_from.simps) auto
  next
    case False
    then have "year_from (y + 1) (n - days_in_year y) = (y', k)"
      using "1.prems"(2) by (subst (asm) year_from.simps) auto
    then show ?thesis
      using "1.IH" [OF False] "1.prems"(1) False days_before_year_Suc [of y] by auto
  qed
qed

lemma days_before_month_Suc:
  "1 \<le> m \<Longrightarrow> days_before_month y (m + 1) = days_before_month y m + days_in_month y m"
  by (simp add: days_before_month_def)

lemma year_length: "days_before_month y 12 + 31 = days_in_year y"
  by (simp add: days_before_month_def days_in_month_def days_in_year_def upt_conv_Cons)

lemma month_from_days:
  "1 \<le> m \<Longrightarrow> m \<le> 12 \<Longrightarrow> days_before_month y m + n < days_in_year y \<Longrightarrow>
   month_from y m n = (m', j) \<Longrightarrow>
   days_before_month y m' + j = days_before_month y m + n \<and> j < days_in_month y m' \<and>
   1 \<le> m' \<and> m' \<le> 12"
proof (induction y m n rule: month_from.induct)
  case (1 y m n)
  show ?case
  proof (cases "12 \<le> m \<or> n < days_in_month y m")
    case True
    then have r: "m' = m" "j = n" using "1.prems"(4) by (subst (asm) month_from.simps, auto)+
    have "n < days_in_month y m"
    proof (cases "12 \<le> m")
      case True
      then have "m = 12" using "1.prems"(2) by simp
      then show ?thesis
        using "1.prems"(3) year_length [of y] by (simp add: days_in_month_def)
    qed (use True in simp)
    then show ?thesis using r "1.prems" by auto
  next
    case False
    then have "month_from y (m + 1) (n - days_in_month y m) = (m', j)"
      using "1.prems"(4) by (subst (asm) month_from.simps) auto
    then show ?thesis
      using "1.IH" [OF False] "1.prems"(1,2,3) False days_before_month_Suc [of m y] by auto
  qed
qed

theorem days_ymd_days:
  assumes "days_to_ymd n = (y, m, d)"
  shows "ymd_to_days y m d = n \<and> 1 \<le> y \<and> 1 \<le> m \<and> m \<le> 12 \<and> 1 \<le> d \<and> d \<le> days_in_month y m"
proof -
  obtain k j where yk: "year_from 1 n = (y, k)" and mj: "month_from y 1 k = (m, j)" and d: "d = j + 1"
    using assms by (auto simp: days_to_ymd_def Let_def split: prod.splits)
  note year = year_from_days [OF order.refl yk]
  have zero: "days_before_month y 1 = 0" "days_before_year 1 = 0"
    by (simp_all add: days_before_month_def days_before_year_def)
  then have "days_before_month y m + j = k \<and> j < days_in_month y m \<and> 1 \<le> m \<and> m \<le> 12"
    using month_from_days [OF _ _ _ mj] year by auto
  then show ?thesis
    using year zero by (auto simp: ymd_to_days_def d)
qed

section \<open>Reading back what was written\<close>

lemma length_pad [simp]: "length (pad w n) = w"
  by (induction w n rule: pad.induct) auto

lemma pad_digits: "list_all is_digit (pad w n)"
  by (induction w n rule: pad.induct) auto

lemma fold_pad: "fold (\<lambda>c a. 10 * a + digit_value c) (pad w n) 0 = n mod 10 ^ w"
proof (induction w n rule: pad.induct)
  case (2 w n)
  have "10 * (n div 10 mod 10 ^ w) + n mod 10 = n mod (10 * 10 ^ w)"
    by (simp add: mod_mult2_eq)
  then show ?case using 2 by simp
qed simp

lemma read_digits_pad: "n < 10 ^ w \<Longrightarrow> read_digits w (pad w n @ s) = Some (n, s)"
  by (simp add: read_digits_def pad_digits fold_pad)

lemma read_fraction_pad:
  assumes "n < 1000000" and "\<not> is_digit c"
  shows "read_fraction (CHR ''.'' # pad 6 n @ c # s) = Some (n, c # s)"
proof -
  have ds: "takeWhile is_digit (pad 6 n @ c # s) = pad 6 n" "dropWhile is_digit (pad 6 n @ c # s) = c # s"
    using assms(2) pad_digits [of 6 n]
    by (auto simp: list_all_iff takeWhile_append dropWhile_append)
  have "pad 6 n \<noteq> []" by (metis length_pad list.size(3) zero_neq_numeral)
  then show ?thesis
    using assms(1) by (simp add: read_fraction_def read_char_def ds fold_pad Let_def)
qed

lemma read_fraction_none: "c \<noteq> CHR ''.'' \<Longrightarrow> read_fraction (c # s) = Some (0, c # s)"
  by (simp add: read_fraction_def read_char_def)

text \<open>The instants a \<open>datetime\<close> can hold: from the start of year 1 to the end of year 9999.\<close>

definition representable :: "instant \<Rightarrow> bool" where
  "representable t \<longleftrightarrow> - 62135596800000000 \<le> t \<and> t < 253402300800000000"

lemma days_before_year_mono: "1 \<le> y \<Longrightarrow> y \<le> z \<Longrightarrow> days_before_year y \<le> days_before_year z"
proof (induction z)
  case (Suc z)
  then show ?case
    using days_before_year_Suc [of z] by (cases "y = Suc z") auto
qed simp

lemma representable_year:
  assumes "representable t" and "days_to_ymd (day_of t) = (y, m, d)"
  shows "0 \<le> t div us_per_day + epoch_days \<and> y \<le> 9999"
proof
  have lo: "- 719162 \<le> t div us_per_day" and hi: "t div us_per_day < 2932897"
    using assms(1) by (simp_all add: representable_def) linarith+
  then show "0 \<le> t div us_per_day + epoch_days" by (simp add: epoch_days_def)
  have "day_of t < 3652059" using hi by (simp add: day_of_def epoch_days_def nat_less_iff)
  moreover have "days_before_year y \<le> day_of t"
    using days_ymd_days [OF assms(2)] by (auto simp: ymd_to_days_def)
  moreover have "days_before_year 10000 = 3652059" by (simp add: days_before_year_def)
  ultimately show "y \<le> 9999"
    using days_before_year_mono [of 10000 y] by (cases "10000 \<le> y") auto
qed

lemma read_date_written:
  assumes "days_to_ymd n = (y, m, d)" and "y \<le> 9999"
  shows "read_date (pad 4 y @ CHR ''-'' # pad 2 m @ CHR ''-'' # pad 2 d @ s) = Some (n, s)"
proof -
  note ymd = days_ymd_days [OF assms(1)]
  then have "d < 100" by (auto simp: days_in_month_def split: if_splits)
  with ymd assms(2) show ?thesis
    by (simp add: read_date_def read_digits_pad read_char_def)
qed

lemma clock_sum:
  fixes s a c h m u f :: nat
  assumes "s = a * 60 + c" and "a = h * 60 + m" and "u = s * 1000000 + f"
  shows "(h * 60 + m) * 60000000 + (c * 1000000 + f) = u"
  unfolding assms by simp

lemma read_time_written:
  assumes "u < 86400000000" and "s = u div 1000000" and "\<not> is_digit c" "c \<noteq> CHR ''.''"
  shows "read_time (pad 2 (s div 3600) @ CHR '':'' # pad 2 (s div 60 mod 60) @ CHR '':'' #
      pad 2 (s mod 60) @ (if u mod 1000000 = 0 then [] else CHR ''.'' # pad 6 (u mod 1000000)) @ c # r) =
    Some (u, c # r)"
proof -
  have h: "s div 3600 < 24" using assms(1,2) by linarith
  have "((s div 3600) * 60 + s div 60 mod 60) * 60000000 + (s mod 60 * 1000000 + u mod 1000000) = u"
  proof (rule clock_sum)
    have "s div 3600 = s div 60 div 60" by (simp add: div_mult2_eq [symmetric])
    then show "s div 60 = s div 3600 * 60 + s div 60 mod 60" by simp
    show "s = s div 60 * 60 + s mod 60" by simp
    show "u = s * 1000000 + u mod 1000000" unfolding assms(2) by simp
  qed
  moreover have "read_seconds (CHR '':'' # pad 2 (s mod 60) @
      (if u mod 1000000 = 0 then [] else CHR ''.'' # pad 6 (u mod 1000000)) @ c # r) =
      Some (s mod 60 * 1000000 + u mod 1000000, c # r)"
    using assms(3,4) by (simp add: read_seconds_def read_char_def read_digits_pad read_fraction_pad
        read_fraction_none)
  ultimately show ?thesis
    using h by (simp add: read_time_def read_digits_pad read_char_def)
qed

lemma at_day_of: "0 \<le> t div us_per_day + epoch_days \<Longrightarrow> at_day (day_of t) (us_of_day t) = t"
  by (simp add: at_day_def day_of_def us_of_day_def)

lemma fromisoformat_isoformat:
  assumes "representable t"
  shows "fromisoformat (isoformat t) = Some (Aware t)"
proof -
  obtain y m d where ymd: "days_to_ymd (day_of t) = (y, m, d)" by (cases "days_to_ymd (day_of t)") auto
  let ?u = "us_of_day t"
  have u: "?u < 86400000000" by (simp add: us_of_day_def nat_less_iff)
  have y: "y \<le> 9999" and lo: "0 \<le> t div us_per_day + epoch_days"
    using representable_year [OF assms ymd] by auto
  have off: "read_offset ''+00:00'' = Some (Some 0)" by code_simp
  have c: "\<not> is_digit CHR ''+''" "CHR ''+'' \<noteq> CHR ''.''" by (simp_all add: is_digit_def)
  note time = read_time_written [OF u refl c, of "''00:00''"]
  show ?thesis
    unfolding fromisoformat_def isoformat_def ymd Let_def
    using read_date_written [OF ymd y] time off
    by (cases "?u mod 1000000 = 0") (simp_all add: at_day_of [OF lo] minutes_def seconds_def)
qed

end
