(* ===== verification/Blocking.thy ===== *)
theory Blocking
  imports Blocklists Datetime_Text
begin

text \<open>
  The blocking switch (\<open>admin-ui/app/routers/blocking.py\<close>): disabling, enabling and pausing
  blocking, its status, and clearing the caches.  The state is the setting \<open>blocking_state\<close>, one
  of \<open>enabled\<close>, \<open>disabled\<close> or the ISO time at which a pause ends; disabling and pausing also
  replace the blocking zone by an empty one.  The recursor's HTTP interface is a parameter of
  \<open>clear_cache\<close>.
\<close>

section \<open>The state\<close>

definition emergency_zone :: "int \<Rightarrow> string" where
  "emergency_zone serial =
     ''$TTL 300'' @ [newline] @
     ''@ IN SOA localhost. hostmaster.localhost. '' @ show_int serial @ '' 3600 600 604800 300'' @ [newline] @
     ''@ IN NS localhost.'' @ [newline] @
     ''; BLOCKING DISABLED - emergency mode'' @ [newline]"

definition write_emergency_rpz :: "instant \<Rightarrow> world \<Rightarrow> bool \<times> world" where
  "write_emergency_rpz now w = atomic_write combined_path (emergency_zone (now div 1000000)) w"

definition is_blocking_active :: "instant \<Rightarrow> db \<Rightarrow> bool" where
  "is_blocking_active now d =
     (let state = get_blocking_state d
      in if state = ''enabled'' then True
         else if state = ''disabled'' then False
         else (case fromisoformat state of
                 None \<Rightarrow> True
               | Some pause_until \<Rightarrow> dt_instant pause_until \<le> now))"

section \<open>The handlers\<close>

record blocking_info =
  bi_state :: string
  bi_active :: bool
  bi_pause_remaining_seconds :: "int option"

definition blocking_status :: "instant \<Rightarrow> int option \<Rightarrow> db \<Rightarrow> response + blocking_info" where
  "blocking_status now sid d =
     (case get_current_user sid d of
        None \<Rightarrow> Inl (JSONError 401 ''Unauthorized'')
      | Some _ \<Rightarrow>
          (let state = get_blocking_state d;
               remaining =
                 (if state = ''enabled'' \<or> state = ''disabled'' then None
                  else (case fromisoformat state of
                          None \<Rightarrow> None
                        | Some p \<Rightarrow>
                            (let r = dt_instant p - now
                             in if r > 0 then Some (r div 1000000) else None)))
           in Inr \<lparr>bi_state = state, bi_active = is_blocking_active now d,
                   bi_pause_remaining_seconds = remaining\<rparr>))"

definition record_blocking :: "instant \<Rightarrow> string \<Rightarrow> user \<Rightarrow> string \<Rightarrow> string \<Rightarrow> db \<Rightarrow> db" where
  "record_blocking now action u old_state new_state d =
     record_change now ''settings'' (Some 0) action (Some (u_id u))
       (Some [(''blocking_state'', PStr old_state)]) (Some [(''blocking_state'', PStr new_state)]) None d"

text \<open>
  Disabling and pausing share their body.  \<open>set_setting\<close> commits the new state at once; when the
  zone cannot be written the handler raises after that, and no change is recorded.
\<close>

definition stop_blocking :: "instant \<Rightarrow> string \<Rightarrow> user \<Rightarrow> string \<Rightarrow> world \<Rightarrow> response \<times> world" where
  "stop_blocking now action u state w =
     (let old_state = get_blocking_state (w_db w);
          (ok, w1) = write_emergency_rpz now (w\<lparr>w_db := set_blocking_state state (w_db w)\<rparr>)
      in if ok then (JSONOk, w1\<lparr>w_db := record_blocking now action u old_state state (w_db w1)\<rparr>)
         else (server_error, w1))"

definition blocking_disable :: "instant \<Rightarrow> int option \<Rightarrow> world \<Rightarrow> response \<times> world" where
  "blocking_disable now sid w =
     (case get_current_user sid (w_db w) of
        None \<Rightarrow> (JSONError 401 ''Unauthorized'', w)
      | Some u \<Rightarrow> stop_blocking now ''blocking_disable'' u ''disabled'' w)"

definition blocking_enable :: "instant \<Rightarrow> int option \<Rightarrow> world \<Rightarrow> response \<times> world" where
  "blocking_enable now sid w =
     (case get_current_user sid (w_db w) of
        None \<Rightarrow> (JSONError 401 ''Unauthorized'', w)
      | Some u \<Rightarrow>
          (JSONOk, w\<lparr>w_db := record_blocking now ''blocking_enable'' u
             (get_blocking_state (w_db w)) ''enabled'' (set_blocking_state ''enabled'' (w_db w))\<rparr>))"

definition blocking_pause :: "instant \<Rightarrow> int option \<Rightarrow> int \<Rightarrow> world \<Rightarrow> response \<times> world" where
  "blocking_pause now sid mins w =
     (case get_current_user sid (w_db w) of
        None \<Rightarrow> (JSONError 401 ''Unauthorized'', w)
      | Some u \<Rightarrow>
          if mins < 1 \<or> mins > 1440 then (JSONError 400 ''Minutes must be between 1 and 1440'', w)
          else stop_blocking now ''blocking_pause'' u (isoformat (now + minutes mins)) w)"

text \<open>
  What the recursor's flush request came back with: the parsed count of a 200 answer, the text of
  any other answer with its status, or the text of an exception.
\<close>

datatype flush_reply = Flushed int | FlushRefused nat string | FlushRaised string

fun flush_entry :: "flush_reply \<Rightarrow> pyval" where
  "flush_entry (Flushed n) = PDict [(''node'', PStr ''primary''), (''success'', PBool True), (''count'', PInt n)]"
| "flush_entry (FlushRefused code e) = PDict [(''node'', PStr ''primary''), (''success'', PBool False), (''error'', PStr e)]"
| "flush_entry (FlushRaised e) = PDict [(''node'', PStr ''primary''), (''success'', PBool False), (''error'', PStr e)]"

definition add_command :: "instant \<Rightarrow> int option \<Rightarrow> string \<Rightarrow> string option \<Rightarrow> db \<Rightarrow> db" where
  "add_command now node_id command params d =
     d\<lparr>db_node_commands := tbl_insert (\<lambda>i. \<lparr>nc_id = i, nc_node_id = node_id, nc_command = command,
          nc_params = params, nc_created_at = now, nc_executed_at = None, nc_result = None\<rparr>)
        (db_node_commands d)\<rparr>"

definition secondary_nodes :: "db \<Rightarrow> node list" where
  "secondary_nodes d = tbl_select (\<lambda>n. n_status n = ACTIVE \<and> n_name n \<noteq> ''primary'') (db_nodes d)"

definition clear_cache :: "flush_reply \<Rightarrow> instant \<Rightarrow> int option \<Rightarrow> db \<Rightarrow> response \<times> db" where
  "clear_cache reply now sid d =
     (case get_current_user sid d of
        None \<Rightarrow> (JSONError 401 ''Unauthorized'', d)
      | Some u \<Rightarrow>
          (let nodes = secondary_nodes d;
               d1 = fold (\<lambda>n. add_command now (Some (n_id n)) ''clear_cache'' None) nodes d
           in (JSONOk, record_change now ''settings'' (Some 0) ''cache_clear'' (Some (u_id u)) None
                 (Some [(''results'', PList [flush_entry reply]),
                        (''commands_queued'', PInt (int (length nodes)))]) None d1)))"

section \<open>Facts\<close>

lemma emergency_zone_empty: "zone_records (emergency_zone n) = []"
proof -
  let ?c = "''; BLOCKING DISABLED - emergency mode''"
  have "emergency_zone n = concat (rpz_header n ?c # map (\<lambda>d. d @ ''. CNAME '' @ ''.'' @ [newline]) [])"
    by (simp add: emergency_zone_def rpz_header_def)
  moreover have "is_comment_char (hd ?c)" "newline \<notin> set ?c" by (simp_all add: is_comment_char_def)
  ultimately show ?thesis using zone_records_rendered [of "[]" "''.''" ?c n] by simp
qed

lemma get_blocking_state_set:
  "s \<noteq> [] \<Longrightarrow> get_blocking_state (set_blocking_state s d) = s"
  by (simp add: get_blocking_state_def set_blocking_state_def setting_or_def kv.get_put Let_def)

lemma get_blocking_state_record [simp]:
  "get_blocking_state (record_blocking now a u x y d) = get_blocking_state d"
  by (simp add: record_blocking_def get_blocking_state_def setting_or_def)

text \<open>What a successful \<open>stop_blocking\<close> leaves behind.\<close>

lemma stop_blocking_effect:
  assumes "w_writable w combined_path" and "state \<noteq> []"
  shows "fst (stop_blocking now a u state w) = JSONOk"
    and "get_blocking_state (w_db (snd (stop_blocking now a u state w))) = state"
    and "blocked_by_files (snd (stop_blocking now a u state w)) = {}"
    and "w_files (snd (stop_blocking now a u state w)) whitelist_path = w_files w whitelist_path"
  using assms
  by (simp_all add: stop_blocking_def write_emergency_rpz_def atomic_write_def Let_def
      get_blocking_state_set blocked_by_files_def zone_owners_def emergency_zone_empty)

lemma isoformat_shape:
  "isoformat t \<noteq> []" "isoformat t \<noteq> ''enabled''" "isoformat t \<noteq> ''disabled''"
proof -
  obtain y m d where ymd: "days_to_ymd (day_of t) = (y, m, d)" by (cases "days_to_ymd (day_of t)") auto
  have "isoformat t ! 4 = CHR ''-'' \<and> 4 < length (isoformat t)"
    by (simp add: isoformat_def ymd Let_def nth_append)
  then show "isoformat t \<noteq> []" "isoformat t \<noteq> ''enabled''" "isoformat t \<noteq> ''disabled''"
    by auto
qed

lemma get_current_user_frame:
  "db_users d' = db_users d \<Longrightarrow> get_current_user sid d' = get_current_user sid d"
  by (cases sid) (simp_all add: get_current_user_def)

lemma set_setting_users [simp]: "db_users (set_setting k v d) = db_users d"
  by (simp add: set_setting_def split: option.split)

lemma stop_blocking_users: "db_users (w_db (snd (stop_blocking now a u state w))) = db_users (w_db w)"
  by (simp add: stop_blocking_def write_emergency_rpz_def atomic_write_def Let_def
      set_blocking_state_def record_blocking_def)

lemma paused_until:
  assumes "get_blocking_state d = isoformat t" and "representable t"
  shows "is_blocking_active now d \<longleftrightarrow> t \<le> now"
  using isoformat_shape [of t] fromisoformat_isoformat [OF assms(2)]
  by (simp add: is_blocking_active_def assms(1) Let_def)

lemma update_one_count: "fst (update_one fetch now bl d) = (if fetch_fails fetch bl then 0 else 1)"
  by (auto simp: update_one_def fetch_and_parse_blocklist_def fetch_fails_def split: sum.split)

lemma update_loop_count:
  "fst (update_loop fetch now bls (n, d)) =
     n + length (filter (\<lambda>b. list_due now b \<and> \<not> fetch_fails fetch b) bls)"
  by (induction bls arbitrary: n d) (auto simp: update_loop_step update_one_count)

lemma fold_add_entry_settings: "db_settings (fold (add_entry i) xs d) = db_settings d"
  by (induction xs arbitrary: d) (simp_all add: add_entry_def)

lemma update_one_settings: "db_settings (snd (update_one fetch now bl d)) = db_settings d"
  by (simp add: update_one_def update_blocklist_def delete_entries_def fold_add_entry_settings
      split: sum.split)

lemma update_loop_settings: "db_settings (snd (update_loop fetch now bls (n, d))) = db_settings d"
  by (induction bls arbitrary: n d) (auto simp: update_loop_step update_one_settings)

text \<open>A pass of the job that updates a list regenerates the zones from the new database.\<close>

lemma update_job_regenerates:
  assumes ok: "w_writable w combined_path" "w_writable w whitelist_path"
    and b: "b \<in> set (rows (db_blocklists (w_db w)))" "bl_enabled b" "bl_update_frequency_hours b > 0"
      "list_due now b" "\<not> fetch_fails fetch b"
  shows "update_blocklists_job fetch now w =
    snd (regenerate_rpz now (w\<lparr>w_db := w_db (update_blocklists_job fetch now w)\<rparr>))"
proof -
  let ?bls = "tbl_select (\<lambda>b. bl_enabled b \<and> bl_update_frequency_hours b > 0) (db_blocklists (w_db w))"
  let ?run = "update_loop fetch now ?bls (0, w_db w)"
  have "b \<in> set (filter (\<lambda>b. list_due now b \<and> \<not> fetch_fails fetch b) ?bls)"
    using b by (simp add: tbl_select_def)
  then have count: "0 < fst ?run"
    unfolding update_loop_count by (metis add_gr_0 length_pos_if_in_set)
  have "fst (regenerate_rpz now (w\<lparr>w_db := snd ?run\<rparr>))" using ok by (simp add: regenerate_rpz_ok)
  with count have "update_blocklists_job fetch now w = snd (regenerate_rpz now (w\<lparr>w_db := snd ?run\<rparr>))"
    by (simp add: update_blocklists_job_def Let_def case_prod_beta)
  then show ?thesis by simp
qed

section \<open>Properties\<close>

text \<open>
  A pause stops blocking at once and is over when it says.  For a logged-in user and 1 to 1440
  minutes, the request succeeds, the blocking zone is then empty, and the state it stores reads as
  inactive at exactly the moments before the end of the pause.
\<close>

theorem pause_window:
  assumes "get_current_user sid (w_db w) = Some u" and "w_writable w combined_path"
    and "1 \<le> mins" and "mins \<le> 1440" and "representable (now + minutes mins)"
  shows "fst (blocking_pause now sid mins w) = JSONOk \<and>
    blocked_by_files (snd (blocking_pause now sid mins w)) = {} \<and>
    (is_blocking_active t (w_db (snd (blocking_pause now sid mins w))) \<longleftrightarrow> now + minutes mins \<le> t)"
proof -
  let ?s = "isoformat (now + minutes mins)"
  have run: "blocking_pause now sid mins w = stop_blocking now ''blocking_pause'' u ?s w"
    using assms(1,3,4) by (simp add: blocking_pause_def)
  note effect = stop_blocking_effect [OF assms(2) isoformat_shape(1), of now "''blocking_pause''" u "now + minutes mins"]
  show ?thesis
    unfolding run using effect paused_until [OF effect(2) assms(5)] by simp
qed

theorem pause_window_witness:
  "is_blocking_active 900000000 (w_db (snd (blocking_pause 0 (Some 1) 15 sample_world))) \<and>
   \<not> is_blocking_active 899999999 (w_db (snd (blocking_pause 0 (Some 1) 15 sample_world)))"
proof -
  let ?u = "\<lparr>u_id = 1, u_username = ''admin'', u_password_hash = []\<rparr>"
  have "get_current_user (Some 1) (w_db sample_world) = Some ?u"
    and "w_writable sample_world combined_path"
    by (simp_all add: get_current_user_def tbl_find_def sample_defs)
  moreover have "representable (0 + minutes 15)" by (simp add: representable_def duration_defs)
  ultimately have "is_blocking_active t (w_db (snd (blocking_pause 0 (Some 1) 15 sample_world))) \<longleftrightarrow>
      0 + minutes 15 \<le> t" for t
    using pause_window [of "Some 1" sample_world ?u 15 0 t] by simp
  then show ?thesis by (simp add: duration_defs)
qed

text \<open>
  Nothing brings the zone back when a pause is over.  Once its end has passed, the status
  reports blocking as active with no time remaining although the blocking zone is still the empty
  one, and enabling blocking explicitly does not change that either: until lists are applied or
  updated, no domain is blocked.
\<close>

theorem pause_leaves_zone_empty:
  assumes "get_current_user sid (w_db w) = Some u" and "w_writable w combined_path"
    and "1 \<le> mins" and "mins \<le> 1440" and "representable (now + minutes mins)"
    and "now + minutes mins \<le> t" and "w' = snd (blocking_pause now sid mins w)"
  shows "blocking_status t sid (w_db w') =
      Inr \<lparr>bi_state = isoformat (now + minutes mins), bi_active = True, bi_pause_remaining_seconds = None\<rparr> \<and>
    blocked_by_files w' = {} \<and> blocked_by_files (snd (blocking_enable t sid w')) = {}"
proof -
  let ?s = "isoformat (now + minutes mins)"
  have w': "w' = snd (stop_blocking now ''blocking_pause'' u ?s w)"
    using assms(1,3,4,7) by (simp add: blocking_pause_def)
  note effect = stop_blocking_effect [OF assms(2) isoformat_shape(1), of now "''blocking_pause''" u "now + minutes mins"]
  note state = effect(2) [folded w'] and zone = effect(3) [folded w']
  have user: "get_current_user sid (w_db w') = Some u"
    unfolding w' using assms(1) get_current_user_frame [OF stop_blocking_users] by simp
  have "is_blocking_active t (w_db w')" using paused_until [OF state assms(5)] assms(6) by simp
  moreover have "\<not> dt_instant (Aware (now + minutes mins)) - t > 0" using assms(6) by simp
  ultimately have "blocking_status t sid (w_db w') =
      Inr \<lparr>bi_state = ?s, bi_active = True, bi_pause_remaining_seconds = None\<rparr>"
    using fromisoformat_isoformat [OF assms(5)] isoformat_shape [of "now + minutes mins"]
    by (simp add: blocking_status_def user state Let_def)
  moreover have "blocked_by_files (snd (blocking_enable t sid w')) = blocked_by_files w'"
    by (simp add: blocking_enable_def user blocked_by_files_def)
  ultimately show ?thesis using zone by simp
qed

theorem pause_leaves_zone_empty_witness:
  "bi_active (projr (blocking_status 900000000 (Some 1) (w_db (snd (blocking_pause 0 (Some 1) 15 sample_world))))) \<and>
   blocked_by_files (snd (blocking_pause 0 (Some 1) 15 sample_world)) = {}"
proof -
  let ?u = "\<lparr>u_id = 1, u_username = ''admin'', u_password_hash = []\<rparr>"
  have "get_current_user (Some 1) (w_db sample_world) = Some ?u"
    and "w_writable sample_world combined_path"
    by (simp_all add: get_current_user_def tbl_find_def sample_defs)
  moreover have "representable (0 + minutes 15)" by (simp add: representable_def duration_defs)
  ultimately show ?thesis
    using pause_leaves_zone_empty [of "Some 1" sample_world ?u 15 0 900000000 "snd (blocking_pause 0 (Some 1) 15 sample_world)"]
    by (simp add: duration_defs)
qed

text \<open>
  The update job overrides the switch.  With blocking disabled, a pass that updates at least
  one list writes the full policy back into the zone file while the state still says disabled.
\<close>

theorem update_job_overrides_disable:
  assumes "get_blocking_state (w_db w) = ''disabled''"
    and "w_writable w combined_path" and "w_writable w whitelist_path"
    and "b \<in> set (rows (db_blocklists (w_db w)))" and "bl_enabled b" and "bl_update_frequency_hours b > 0"
    and "list_due now b" and "\<not> fetch_fails fetch b"
    and "w' = update_blocklists_job fetch now w"
    and "\<forall>d \<in> policy_blocked (w_db w') \<union> policy_allowed (w_db w'). zone_safe d"
  shows "\<not> is_blocking_active t (w_db w') \<and> blocked_by_files w' = policy_blocked (w_db w')"
proof
  have "db_settings (w_db w') = db_settings (w_db w)"
    unfolding assms(9) update_job_db [OF assms(2,3)] by (rule update_loop_settings)
  then have "get_blocking_state (w_db w') = ''disabled''"
    using assms(1) by (simp add: get_blocking_state_def setting_or_def get_setting_def)
  then show "\<not> is_blocking_active t (w_db w')" by (simp add: is_blocking_active_def)
next
  let ?w = "w\<lparr>w_db := w_db w'\<rparr>"
  have "w' = snd (regenerate_rpz now ?w)"
    using update_job_regenerates [OF assms(2-8)] assms(9) by simp
  moreover have "fst (regenerate_rpz now ?w)" using assms(2,3) by (simp add: regenerate_rpz_ok)
  ultimately show "blocked_by_files w' = policy_blocked (w_db w')"
    using regenerate_rpz_files(1) [of now ?w] assms(10) by simp
qed

definition disabled_world :: world where
  "disabled_world = sample_world\<lparr>w_db := (w_db sample_world)
     \<lparr>db_settings := \<lparr>rows = [\<lparr>s_id = 1, s_key = ''blocking_state'', s_value = ''disabled''\<rparr>], next_id = 2\<rparr>,
      db_manual := \<lparr>rows = [\<lparr>me_id = 1, me_domain = ''a.example'', me_entry_type = ''block'',
                             me_comment = None, me_created_at = 0\<rparr>], next_id = 2\<rparr>\<rparr>\<rparr>"

lemma disabled_world_policy:
  "policy_blocked (w_db (update_blocklists_job (\<lambda>_. Inr []) 0 disabled_world)) = {''a.example''}"
  "policy_allowed (w_db (update_blocklists_job (\<lambda>_. Inr []) 0 disabled_world)) = {}"
proof -
  have ok: "w_writable disabled_world p" for p by (simp add: disabled_world_def sample_defs)
  have "parse_blocklist_lines (file_lines []) fmt = {}" for fmt
    by (simp add: file_lines_def parse_blocklist_lines_def)
  then have "db_manual (w_db (update_blocklists_job (\<lambda>_. Inr []) 0 disabled_world)) = db_manual (w_db disabled_world)"
    and "db_entries (w_db (update_blocklists_job (\<lambda>_. Inr []) 0 disabled_world)) = \<lparr>rows = [], next_id = 3\<rparr>"
    unfolding update_job_db [OF ok ok]
    by (simp_all add: disabled_world_def sample_defs tbl_select_def update_loop_step list_due_def
        update_one_def fetch_and_parse_blocklist_def delete_entries_def update_blocklist_def tbl_delete_def)
  then show "policy_blocked (w_db (update_blocklists_job (\<lambda>_. Inr []) 0 disabled_world)) = {''a.example''}"
    and "policy_allowed (w_db (update_blocklists_job (\<lambda>_. Inr []) 0 disabled_world)) = {}"
    by (auto simp: policy_allowed_def policy_blocked_def manual_domains_def stored_domains_def tbl_select_def
        disabled_world_def)
qed

theorem update_job_overrides_disable_witness:
  "\<not> is_blocking_active 0 (w_db (update_blocklists_job (\<lambda>_. Inr []) 0 disabled_world)) \<and>
   blocked_by_files (update_blocklists_job (\<lambda>_. Inr []) 0 disabled_world) = {''a.example''}"
proof -
  have "get_blocking_state (w_db disabled_world) = ''disabled''"
    by (simp add: get_blocking_state_def setting_or_def get_setting_def tbl_find_def disabled_world_def)
  moreover have "w_writable disabled_world p" for p by (simp add: disabled_world_def sample_defs)
  moreover have "sample_list \<in> set (rows (db_blocklists (w_db disabled_world)))"
    by (simp add: disabled_world_def sample_world_def)
  moreover have "bl_enabled sample_list" "bl_update_frequency_hours sample_list > 0" "list_due 0 sample_list"
    by (simp_all add: sample_list_def new_blocklist_def list_due_def)
  moreover have "\<not> fetch_fails (\<lambda>_. Inr []) sample_list" by (simp add: fetch_fails_def)
  ultimately show ?thesis
    using update_job_overrides_disable [OF _ _ _ _ _ _ _ _ refl, of disabled_world sample_list 0 "\<lambda>_. Inr []" 0]
      sample_zone_safe by (simp add: disabled_world_policy)
qed

end
