(* ===== verification/Node_Sync.thy ===== *)
theory Node_Sync
  imports Blocking
begin

text \<open>
  The protocol between the primary and its secondary nodes
  (\<open>admin-ui/app/routers/node_sync.py\<close>): authentication by API key, registration, heartbeats with
  the node life cycle, the configuration bundle, ingestion of query events, metrics, and queued
  commands.

  A handler returns an error, leaving the database as it was because the session is not
  committed, or its answer and the new database.  \<open>sha\<close> stands for the hexadecimal SHA-256 digest
  of a text.  An event of an ingest request is \<open>None\<close> where \<open>IngestEvent.model_validate\<close> rejects it.
\<close>

section \<open>Nodes and their keys\<close>

definition get_node_from_api_key :: "string option \<Rightarrow> db \<Rightarrow> node py_result" where
  "get_node_from_api_key key d =
     (if \<not> truthy key then Inl (HTTPException 401 ''Missing node API key'')
      else (case tbl_find (\<lambda>n. n_api_key n = the key) (db_nodes d) of
              None \<Rightarrow> Inl (HTTPException 401 ''Invalid node API key'')
            | Some n \<Rightarrow> Inr n))"

text \<open>Writing a loaded node back: \<open>db.add(node); db.commit()\<close>.\<close>

definition save_node :: "node \<Rightarrow> db \<Rightarrow> db" where
  "save_node n d = d\<lparr>db_nodes := tbl_update (\<lambda>x. n_id x = n_id n) (\<lambda>_. n) (db_nodes d)\<rparr>"

text \<open>
  The time columns of \<open>nodes\<close> are \<open>TIMESTAMP WITHOUT TIME ZONE\<close>: an aware value is stored as its
  UTC wall time and read back naive.
\<close>

definition seen_active :: "instant \<Rightarrow> node \<Rightarrow> node" where
  "seen_active now n = n\<lparr>n_last_seen := Some (Naive now), n_status := ACTIVE\<rparr>"

section \<open>Versions\<close>

datatype compat_status = ALLOW | WARN | BLOCK

definition unknown_version :: "string option \<Rightarrow> bool" where
  "unknown_version v \<longleftrightarrow> \<not> truthy v \<or> v = Some ''unknown''"

definition version_parts :: "string \<Rightarrow> int list option" where
  "version_parts v =
     map_option (\<lambda>xs. xs @ replicate (3 - length xs) 0)
       (those (map py_int (take 3 (split_on CHR ''.'' v))))"

definition check_version_compatibility ::
  "string option \<Rightarrow> string option \<Rightarrow> compat_status \<times> string" where
  "check_version_compatibility primary secondary =
     (if unknown_version primary then
        (if unknown_version secondary
         then (ALLOW, ''Both versions unknown, assuming compatibility'')
         else (WARN, ''Primary version unknown, cannot verify secondary '' @ the secondary))
      else if unknown_version secondary then
        (WARN, ''Secondary version unknown, cannot verify against primary '' @ the primary)
      else
        (let p = lstrip_by (\<lambda>c. c = CHR ''v'') (the primary);
             s = lstrip_by (\<lambda>c. c = CHR ''v'') (the secondary);
             both = ''primary='' @ p @ '', secondary='' @ s
         in case (version_parts p, version_parts s) of
              (Some [p_major, p_minor, p_patch], Some [s_major, s_minor, s_patch]) \<Rightarrow>
                (if p_major \<noteq> s_major then (BLOCK, ''Major version mismatch: '' @ both)
                 else if p_minor \<noteq> s_minor then (WARN, ''Minor version skew: '' @ both)
                 else if s_patch < p_patch then (WARN, ''Secondary patch behind: '' @ both)
                 else (ALLOW, ''Versions compatible: '' @ both))
            | _ \<Rightarrow> (WARN, ''Unparseable version: '' @ both)))"

section \<open>Registration and heartbeat\<close>

record register_request =
  rq_name :: string
  rq_version :: "string option"
  rq_ip_address :: "string option"

record heartbeat_request =
  hb_queries_total :: "int option"
  hb_queries_blocked :: "int option"
  hb_version :: "string option"

definition register :: "instant \<Rightarrow> string option \<Rightarrow> register_request \<Rightarrow> db \<Rightarrow> (int \<times> db) py_result" where
  "register now key payload d =
     (case get_node_from_api_key key d of
        Inl e \<Rightarrow> Inl e
      | Inr node \<Rightarrow>
          if tbl_find (\<lambda>n. n_name n = rq_name payload \<and> n_id n \<noteq> n_id node) (db_nodes d) \<noteq> None
          then Inl IntegrityError
          else Inr (n_config_version node,
             save_node ((seen_active now node)\<lparr>n_name := rq_name payload,
               n_ip_address := rq_ip_address payload, n_version := rq_version payload,
               n_last_error := None\<rparr>) d))"

text \<open>The status after a heartbeat, with the quarantine fields, before the payload is applied.\<close>

definition heartbeat_status :: "instant \<Rightarrow> int py_result \<Rightarrow> node \<Rightarrow> node py_result" where
  "heartbeat_status now threshold n =
     (let m = n\<lparr>n_last_seen := Some (Naive now), n_last_heartbeat := Some (Naive now)\<rparr>;
          active = m\<lparr>n_status := ACTIVE\<rparr>
      in if n_status n = ERROR \<or> n_status n = QUARANTINE then Inr m
         else if n_status n = OFFLINE \<or> n_status n = STALE then
           (case n_last_seen n of
              None \<Rightarrow> Inr active
            | Some last_seen \<Rightarrow>
                (case threshold of
                   Inl e \<Rightarrow> Inl e
                 | Inr quarantine_threshold \<Rightarrow>
                     (case dt_sub (Aware now) last_seen of
                        Inl e \<Rightarrow> Inl e
                      | Inr offline_duration \<Rightarrow>
                          if offline_duration > minutes quarantine_threshold
                          then Inr (m\<lparr>n_status := QUARANTINE, n_quarantine_entry_time := Some (Naive now),
                                 n_quarantine_reason := Some (''Returned after '' @
                                   show_int (offline_duration div hours 1) @ '' hours offline'')\<rparr>)
                          else Inr active)))
         else Inr active)"

definition heartbeat_payload :: "heartbeat_request \<Rightarrow> node \<Rightarrow> node" where
  "heartbeat_payload p n =
     n\<lparr>n_version := (if truthy (hb_version p) then hb_version p else n_version n),
       n_queries_total := (case hb_queries_total p of Some q \<Rightarrow> q | None \<Rightarrow> n_queries_total n),
       n_queries_blocked := (case hb_queries_blocked p of Some q \<Rightarrow> q | None \<Rightarrow> n_queries_blocked n)\<rparr>"

section \<open>Configuration bundles\<close>

definition rpz_filenames :: "string list" where
  "rpz_filenames = [''blocklist-combined.rpz'', ''whitelist.rpz'']"

definition rpz_path :: "string \<Rightarrow> string" where
  "rpz_path filename = ''/shared/rpz/'' @ filename"

definition compute_config_version :: "(string \<Rightarrow> string) \<Rightarrow> files \<Rightarrow> string" where
  "compute_config_version sha fs =
     take 12 (sha (join '':''
       (List.map_filter (\<lambda>f. map_option (\<lambda>c. take 16 (sha c)) (fs (rpz_path f))) rpz_filenames)))"

definition heartbeat ::
  "(string \<Rightarrow> string) \<Rightarrow> instant \<Rightarrow> string option \<Rightarrow> heartbeat_request \<Rightarrow> world \<Rightarrow> (string \<times> world) py_result" where
  "heartbeat sha now key payload w =
     (case get_node_from_api_key key (w_db w) of
        Inl e \<Rightarrow> Inl e
      | Inr node \<Rightarrow>
          (case heartbeat_status now (get_health_quarantine_threshold_minutes (w_db w)) node of
             Inl e \<Rightarrow> Inl e
           | Inr node' \<Rightarrow>
               Inr (compute_config_version sha (w_files w),
                    w\<lparr>w_db := save_node (heartbeat_payload payload node') (w_db w)\<rparr>)))"

text \<open>Reading a text file translates its line ends.\<close>

fun universal_newlines :: "string \<Rightarrow> string" where
  "universal_newlines [] = []"
| "universal_newlines [x] = (if x = carriage_return then [newline] else [x])"
| "universal_newlines (x # y # ys) =
     (if x = carriage_return then
        (if y = newline then newline # universal_newlines ys else newline # universal_newlines (y # ys))
      else x # universal_newlines (y # ys))"

text \<open>\<open>json.dumps\<close> on the version data: strings with ASCII escapes, lists and one dictionary.\<close>

definition hex_digit :: "nat \<Rightarrow> char" where
  "hex_digit n = (if n < 10 then digit_char n else char_of (n + 87))"

definition json_char :: "char \<Rightarrow> string" where
  "json_char c =
     (if c = CHR 0x22 then [CHR 0x5C, CHR 0x22]
      else if c = CHR 0x5C then [CHR 0x5C, CHR 0x5C]
      else if c = newline then [CHR 0x5C, CHR ''n'']
      else if c = carriage_return then [CHR 0x5C, CHR ''r'']
      else if c = CHR 0x09 then [CHR 0x5C, CHR ''t'']
      else if c = CHR 0x08 then [CHR 0x5C, CHR ''b'']
      else if c = CHR 0x0C then [CHR 0x5C, CHR ''f'']
      else (let n = (of_char c :: nat)
            in if 32 \<le> n \<and> n \<le> 126 then [c]
               else [CHR 0x5C] @ ''u00'' @ [hex_digit (n div 16), hex_digit (n mod 16)]))"

definition json_string :: "string \<Rightarrow> string" where
  "json_string s = [CHR 0x22] @ concat (map json_char s) @ [CHR 0x22]"

definition json_list :: "string list \<Rightarrow> string" where
  "json_list xs = ''['' @ join '', '' (map json_string xs) @ '']''"

record rpz_file =
  rf_filename :: string
  rf_content :: string
  rf_checksum :: string

record zone_info =
  zi_domain :: string
  zi_servers :: string
  zi_description :: "string option"
  zi_is_override :: bool

record blocklist_info =
  bli_name :: string
  bli_list_type :: string
  bli_entry_count :: int
  bli_last_updated :: "string option"

record config_bundle =
  cb_config_version :: string
  cb_rpz_files :: "rpz_file list"
  cb_forward_zones :: "zone_info list"
  cb_settings :: "(string \<times> string) list"
  cb_blocklists :: "blocklist_info list"

definition read_rpz_files :: "(string \<Rightarrow> string) \<Rightarrow> files \<Rightarrow> rpz_file list" where
  "read_rpz_files sha fs =
     List.map_filter (\<lambda>f. map_option (\<lambda>raw. let content = universal_newlines raw in
        \<lparr>rf_filename = f, rf_content = content, rf_checksum = take 16 (sha content)\<rparr>) (fs (rpz_path f)))
       rpz_filenames"

text \<open>\<open>zone_map\<close>: the node's own zones over the global ones, in insertion order.\<close>

definition config_zones :: "int \<Rightarrow> db \<Rightarrow> (string \<times> forward_zone) list" where
  "config_zones node_id d =
     (let global_zones = tbl_select (\<lambda>z. fz_enabled z \<and> fz_node_id z = None) (db_zones d);
          node_zones = tbl_select (\<lambda>z. fz_enabled z \<and> fz_node_id z = Some node_id) (db_zones d)
      in fold (\<lambda>z. AList.update (fz_domain z) z) (global_zones @ node_zones) [])"

definition zone_info_of :: "forward_zone \<Rightarrow> zone_info" where
  "zone_info_of z = \<lparr>zi_domain = fz_domain z, zi_servers = fz_servers z,
     zi_description = fz_description z, zi_is_override = (fz_node_id z \<noteq> None)\<rparr>"

definition config_setting_keys :: "string list" where
  "config_setting_keys = [''retention_events_days'', ''ptr_resolution_enabled'', ''precache_enabled'',
     ''precache_domain_count'', ''precache_refresh_minutes'', ''precache_ignore_ttl'',
     ''precache_custom_refresh_minutes'']"

definition bundle_version :: "(string \<Rightarrow> string) \<Rightarrow> rpz_file list \<Rightarrow> zone_info list \<Rightarrow> string" where
  "bundle_version sha rpz zones =
     (let config_data = [CHR 0x7B] @ json_string ''forward_zones'' @ '': '' @
            json_list (sort (map (\<lambda>z. zi_domain z @ ''='' @ zi_servers z) zones)) @ '', '' @
            json_string ''rpz_checksums'' @ '': '' @ json_list (map rf_checksum rpz) @ [CHR 0x7D]
      in take 12 (sha config_data))"

definition config_bundle_for :: "(string \<Rightarrow> string) \<Rightarrow> int \<Rightarrow> world \<Rightarrow> config_bundle" where
  "config_bundle_for sha node_id w =
     (let d = w_db w;
          rpz = read_rpz_files sha (w_files w);
          zones = map (\<lambda>kz. zone_info_of (snd kz)) (config_zones node_id d)
      in \<lparr>cb_config_version = bundle_version sha rpz zones, cb_rpz_files = rpz,
          cb_forward_zones = zones,
          cb_settings = map (\<lambda>k. (k, get_setting d k)) config_setting_keys,
          cb_blocklists = map (\<lambda>b. \<lparr>bli_name = bl_name b, bli_list_type = bl_list_type b,
             bli_entry_count = bl_entry_count b,
             bli_last_updated = map_option isoformat (bl_last_updated b)\<rparr>) (enabled_blocklists d)\<rparr>)"

definition config ::
  "(string \<Rightarrow> string) \<Rightarrow> string \<Rightarrow> string option \<Rightarrow> world \<Rightarrow> config_bundle py_result" where
  "config sha pb_version key w =
     (case get_node_from_api_key key (w_db w) of
        Inl e \<Rightarrow> Inl e
      | Inr node \<Rightarrow>
          (let (status, message) = check_version_compatibility (Some pb_version) (n_version node)
           in if status = BLOCK then Inl (HTTPException 409 message)
              else Inr (config_bundle_for sha (n_id node) w)))"

section \<open>Facts on files\<close>

lemma universal_newlines_no_cr: "carriage_return \<notin> set (universal_newlines s)"
  by (induction s rule: universal_newlines.induct) auto

lemma universal_newlines_id: "carriage_return \<notin> set s \<Longrightarrow> universal_newlines s = s"
  by (induction s rule: universal_newlines.induct) auto

lemma universal_newlines_idem [simp]: "universal_newlines (universal_newlines s) = universal_newlines s"
  by (rule universal_newlines_id [OF universal_newlines_no_cr])

section \<open>Facts on versions\<close>

definition show_version :: "int \<Rightarrow> int \<Rightarrow> int \<Rightarrow> string" where
  "show_version a b c = show_int a @ ''.'' @ show_int b @ ''.'' @ show_int c"

lemma show_int_chars: "c \<in> set (show_int i) \<Longrightarrow> is_digit c \<or> c = CHR ''-''"
  using show_nat_digits [of "nat (- i)"] show_nat_digits [of "nat i"]
  by (auto simp: show_int_def split: if_splits)

lemma version_parts_show: "version_parts (show_version a b c) = Some [a, b, c]"
proof -
  have dot: "CHR ''.'' \<notin> set (show_int i)" for i
    using show_int_chars [of "CHR ''.''" i] by (auto simp: is_digit_def)
  have "split_on CHR ''.'' (show_int a @ CHR ''.'' # show_int b @ CHR ''.'' # show_int c) =
      [show_int a, show_int b, show_int c]"
    by (simp add: split_on_append_sep [OF dot] split_on_no_sep [OF dot])
  then show ?thesis by (simp add: version_parts_def show_version_def)
qed

lemma lstrip_v_show: "lstrip_by (\<lambda>c. c = CHR ''v'') ((if v then ''v'' else []) @ show_version a b c) = show_version a b c"
proof -
  have "show_int a \<noteq> []" "hd (show_int a) \<noteq> CHR ''v''"
    using show_int_chars [of "hd (show_int a)" a] by (auto simp: is_digit_def)
  then have "dropWhile (\<lambda>c. c = CHR ''v'') (show_version a b c) = show_version a b c"
    by (cases "show_int a") (auto simp: show_version_def)
  then show ?thesis by (simp add: lstrip_by_def)
qed

lemma known_version: "\<not> unknown_version (Some ((if v then ''v'' else []) @ show_version a b c))"
proof -
  have "CHR ''.'' \<in> set ((if v then ''v'' else []) @ show_version a b c)" by (simp add: show_version_def)
  moreover have "CHR ''.'' \<notin> set ''unknown''" by simp
  ultimately have "(if v then ''v'' else []) @ show_version a b c \<noteq> ''unknown''" by metis
  then show ?thesis by (simp add: unknown_version_def show_version_def)
qed

lemma compatibility_of_versions:
  "fst (check_version_compatibility (Some ((if v then ''v'' else []) @ show_version a b c))
          (Some ((if v' then ''v'' else []) @ show_version a' b' c'))) =
     (if a \<noteq> a' then BLOCK else if b \<noteq> b' \<or> c' < c then WARN else ALLOW)"
  unfolding check_version_compatibility_def Let_def option.sel lstrip_v_show version_parts_show
  using known_version by auto

section \<open>Facts on zones\<close>

text \<open>The zone a node is to use for a domain: the last enabled one of its own, else the last global one.\<close>

definition effective_zone :: "int \<Rightarrow> db \<Rightarrow> string \<Rightarrow> forward_zone option" where
  "effective_zone i d dm =
     (case find (\<lambda>z. fz_domain z = dm) (rev (tbl_select (\<lambda>z. fz_enabled z \<and> fz_node_id z = Some i) (db_zones d))) of
        Some z \<Rightarrow> Some z
      | None \<Rightarrow> find (\<lambda>z. fz_domain z = dm) (rev (tbl_select (\<lambda>z. fz_enabled z \<and> fz_node_id z = None) (db_zones d))))"

lemma find_SomeD_mem: "find P (rev xs) = Some x \<Longrightarrow> x \<in> set xs"
  by (auto simp: find_Some_iff) (metis nth_mem set_rev length_rev)

lemma set_update_subset: "set (AList.update k v al) \<subseteq> insert (k, v) (set al)"
  by (induction al) auto

lemma zone_fold_keys:
  "\<forall>(k, z) \<in> set al. k = fz_domain z \<Longrightarrow>
   \<forall>(k, z) \<in> set (fold (\<lambda>z. AList.update (fz_domain z) z) zs al). k = fz_domain z"
proof (induction zs arbitrary: al)
  case (Cons z zs)
  have "\<forall>(k, y) \<in> set (AList.update (fz_domain z) z al). k = fz_domain y"
    using set_update_subset [of "fz_domain z" z al] Cons.prems by auto
  then show ?case using Cons.IH by simp
qed simp

lemma zone_fold_distinct:
  "distinct (map fst al) \<Longrightarrow> distinct (map fst (fold (\<lambda>z. AList.update (fz_domain z) z) zs al))"
  by (induction zs arbitrary: al) (auto simp: distinct_update)

lemma zone_fold_lookup:
  "map_of (fold (\<lambda>z. AList.update (fz_domain z) z) zs al) dm =
     (case find (\<lambda>z. fz_domain z = dm) (rev zs) of Some z \<Rightarrow> Some z | None \<Rightarrow> map_of al dm)"
  by (induction zs rule: rev_induct) (auto simp: update_conv')

lemma config_zones_facts:
  "distinct (map fst (config_zones i d))"
  "\<forall>(k, z) \<in> set (config_zones i d). k = fz_domain z"
  "map_of (config_zones i d) dm = effective_zone i d dm"
  unfolding config_zones_def Let_def
  by (rule zone_fold_distinct, simp, rule zone_fold_keys, simp)
    (simp add: zone_fold_lookup effective_zone_def find_append split: option.split del: fold_append)

lemma find_zone_info:
  "\<forall>(k, z) \<in> set al. k = fz_domain z \<Longrightarrow>
   find (\<lambda>z. zi_domain z = dm) (map (\<lambda>kz. zone_info_of (snd kz)) al) = map_option zone_info_of (map_of al dm)"
  by (induction al) (auto simp: zone_info_of_def)

section \<open>Properties\<close>

text \<open>
  A configuration bundle goes only to a node of the same major version.  For numeric versions,
  with or without the prefix \<open>v\<close>, the request is refused with 409 exactly when the major versions
  differ; otherwise the node gets its bundle.
\<close>

theorem config_needs_same_major:
  assumes "get_node_from_api_key key (w_db w) = Inr n"
    and "n_version n = Some ((if v' then ''v'' else []) @ show_version a' b' c')"
    and "pb = (if v then ''v'' else []) @ show_version a b c"
  shows "(if a = a' then config sha pb key w = Inr (config_bundle_for sha (n_id n) w)
          else \<exists>msg. config sha pb key w = Inl (HTTPException 409 msg))"
  using compatibility_of_versions [of v a b c v' a' b' c']
  by (auto simp: config_def assms Let_def case_prod_beta split: if_splits)

theorem config_needs_same_major_witness:
  "\<exists>msg. config (\<lambda>s. s) ((if False then ''v'' else []) @ show_version 2 0 0) (Some ''k'')
     \<lparr>w_db = empty_db\<lparr>db_nodes := \<lparr>rows = [\<lparr>n_id = 1, n_name = ''edge'', n_api_key = ''k'', n_ip_address = None,
        n_version = Some ((if True then ''v'' else []) @ show_version 1 9 0), n_status = ACTIVE, n_last_seen = None, n_last_heartbeat = None,
        n_last_error = None, n_quarantine_entry_time = None, n_quarantine_reason = None, n_approved_by = None,
        n_approved_at = None, n_config_version = 0, n_queries_total = 0, n_queries_blocked = 0, n_created_at = 0\<rparr>],
        next_id = 2\<rparr>\<rparr>, w_files = Map.empty, w_writable = (\<lambda>_. True)\<rparr> = Inl (HTTPException 409 msg)"
  (is "\<exists>msg. config _ ?pb _ ?w = _ msg")
proof -
  let ?n = "hd (rows (db_nodes (w_db ?w)))"
  have "get_node_from_api_key (Some ''k'') (w_db ?w) = Inr ?n"
    by (simp add: get_node_from_api_key_def tbl_find_def)
  moreover have "n_version ?n = Some ((if True then ''v'' else []) @ show_version 1 9 0)" by simp
  ultimately show ?thesis
    using config_needs_same_major [of "Some ''k''" ?w ?n True 1 9 0 ?pb False 2 0 0 "\<lambda>s. s"] by simp
qed

text \<open>
  C20: a node gets each forward zone once, its own before the global one.  The zones of a bundle
  have distinct domains, and for every domain the bundle holds the node's own enabled zone if it
  has one, else the enabled global one, else none; zones of other nodes never reach it.
\<close>

theorem bundle_zones_effective:
  assumes "c = config_bundle_for sha i w"
  shows "distinct (map zi_domain (cb_forward_zones c)) \<and>
    (\<forall>dm. find (\<lambda>z. zi_domain z = dm) (cb_forward_zones c) =
       map_option zone_info_of (effective_zone i (w_db w) dm)) \<and>
    (\<forall>z \<in> set (cb_forward_zones c). \<exists>r \<in> set (rows (db_zones (w_db w))).
       z = zone_info_of r \<and> fz_enabled r \<and> (fz_node_id r = None \<or> fz_node_id r = Some i))"
proof -
  let ?al = "config_zones i (w_db w)"
  have zones: "cb_forward_zones c = map (\<lambda>kz. zone_info_of (snd kz)) ?al"
    by (simp add: assms config_bundle_for_def Let_def)
  have "map zi_domain (cb_forward_zones c) = map fst ?al"
    using config_zones_facts(2) [of i "w_db w"] by (auto simp: zones zone_info_of_def)
  then have "distinct (map zi_domain (cb_forward_zones c))"
    using config_zones_facts(1) [of i "w_db w"] by simp
  moreover have "find (\<lambda>z. zi_domain z = dm) (cb_forward_zones c) =
      map_option zone_info_of (effective_zone i (w_db w) dm)" for dm
    unfolding zones find_zone_info [OF config_zones_facts(2)] config_zones_facts(3) ..
  moreover have "\<exists>r \<in> set (rows (db_zones (w_db w))).
      z = zone_info_of r \<and> fz_enabled r \<and> (fz_node_id r = None \<or> fz_node_id r = Some i)"
    if z: "z \<in> set (cb_forward_zones c)" for z
  proof -
    obtain k r where kr: "(k, r) \<in> set ?al" "z = zone_info_of r" using z by (auto simp: zones)
    then have "effective_zone i (w_db w) k = Some r"
      using config_zones_facts(1,3) [of i "w_db w"] by (metis map_of_is_SomeI)
    then have "r \<in> set (tbl_select (\<lambda>z. fz_enabled z \<and> fz_node_id z = Some i) (db_zones (w_db w))) \<union>
        set (tbl_select (\<lambda>z. fz_enabled z \<and> fz_node_id z = None) (db_zones (w_db w)))"
      unfolding effective_zone_def by (auto split: option.splits dest: find_SomeD_mem)
    then show ?thesis using kr(2) by (auto simp: tbl_select_def)
  qed
  ultimately show ?thesis by blast
qed

definition sample_zone :: "int \<Rightarrow> string \<Rightarrow> int option \<Rightarrow> forward_zone" where
  "sample_zone i servers node = \<lparr>fz_id = i, fz_domain = ''corp.example'', fz_servers = servers, fz_description = None,
     fz_enabled = True, fz_node_id = node, fz_created_at = 0, fz_updated_at = 0\<rparr>"

theorem bundle_zones_effective_witness:
  "find (\<lambda>z. zi_domain z = ''corp.example'') (cb_forward_zones (config_bundle_for (\<lambda>s. s) 7
     \<lparr>w_db = empty_db\<lparr>db_zones := \<lparr>rows = [sample_zone 1 ''10.0.0.1'' None, sample_zone 2 ''10.7.0.1'' (Some 7),
        sample_zone 3 ''10.8.0.1'' (Some 8)], next_id = 4\<rparr>\<rparr>, w_files = Map.empty, w_writable = (\<lambda>_. True)\<rparr>)) =
   Some (zone_info_of (sample_zone 2 ''10.7.0.1'' (Some 7)))"
  (is "find _ (cb_forward_zones (config_bundle_for _ _ ?w)) = _")
proof -
  have "effective_zone 7 (w_db ?w) ''corp.example'' = Some (sample_zone 2 ''10.7.0.1'' (Some 7))"
    by (simp add: effective_zone_def tbl_select_def sample_zone_def)
  then show ?thesis using bundle_zones_effective [OF refl, of "\<lambda>s. s" 7 ?w] by simp
qed

end
