(* ===== verification/Ingest.thy ===== *)
theory Ingest
  imports Node_Sync
begin

text \<open>
  What a secondary node sends besides heartbeats (\<open>admin-ui/app/routers/node_sync.py\<close>): batches of
  query events, metrics of its recursor, and the results of queued commands.
\<close>

section \<open>Query events\<close>

record ingest_event =
  ie_ts :: "string option"
  ie_client_ip :: string
  ie_qname :: string
  ie_qtype :: int
  ie_rcode :: int
  ie_blocked :: bool
  ie_block_reason :: "string option"
  ie_blocklist_name :: "string option"
  ie_latency_ms :: "int option"
  ie_event_id :: "string option"
  ie_event_seq :: "int option"
  ie_is_internal :: bool

definition replace_Z :: "string \<Rightarrow> string" where
  "replace_Z s = concat (map (\<lambda>c. if c = CHR ''Z'' then ''+00:00'' else [c]) s)"

text \<open>The event's own time, or the time of arrival when it has none that can be read.\<close>

definition event_time :: "instant \<Rightarrow> ingest_event \<Rightarrow> instant" where
  "event_time now ev =
     (if truthy (ie_ts ev)
      then (case fromisoformat (replace_Z (the (ie_ts ev))) of Some t \<Rightarrow> dt_instant t | None \<Rightarrow> now)
      else now)"

definition find_client :: "db \<Rightarrow> string \<Rightarrow> client option" where
  "find_client d ip = tbl_find (\<lambda>c. c_ip c = ip) (db_clients d)"

definition ensure_client :: "instant \<Rightarrow> string \<Rightarrow> db \<Rightarrow> db" where
  "ensure_client now ip d =
     (if find_client d ip \<noteq> None then d
      else d\<lparr>db_clients := tbl_insert (\<lambda>i. \<lparr>c_id = i, c_ip = ip, c_display_name = None,
             c_rdns_name = None, c_rdns_last_resolved_at = None, c_rdns_last_error = None,
             c_group_id = None, c_created_at = now, c_last_seen = None\<rparr>) (db_clients d)\<rparr>)"

definition touch_client :: "string \<Rightarrow> instant \<Rightarrow> db \<Rightarrow> db" where
  "touch_client ip ts d =
     d\<lparr>db_clients := tbl_update (\<lambda>c. c_ip c = ip) (\<lambda>c. c\<lparr>c_last_seen := Some ts\<rparr>) (db_clients d)\<rparr>"

definition norm_qname :: "string \<Rightarrow> string" where
  "norm_qname q = rstrip_by (\<lambda>c. c = CHR ''.'') (lower (strip q))"

definition event_row :: "instant \<Rightarrow> int \<Rightarrow> (string \<Rightarrow> int option) \<Rightarrow> ingest_event \<Rightarrow> int \<Rightarrow> dns_query_event" where
  "event_row now node_id client_id ev i =
     \<lparr>ev_id = i, ev_event_id = ie_event_id ev, ev_event_seq = ie_event_seq ev,
      ev_ts = event_time now ev, ev_node_id = Some node_id, ev_client_ip = ie_client_ip ev,
      ev_client_id = client_id (ie_client_ip ev), ev_is_internal = ie_is_internal ev,
      ev_qname = norm_qname (ie_qname ev), ev_qtype = ie_qtype ev, ev_rcode = ie_rcode ev,
      ev_blocked = ie_blocked ev, ev_block_reason = ie_block_reason ev,
      ev_blocklist_name = ie_blocklist_name ev, ev_latency_ms = ie_latency_ms ev\<rparr>"

text \<open>\<open>INSERT ... ON CONFLICT (event_id) DO NOTHING\<close>, row by row; null ids never conflict.\<close>

definition event_conflict :: "dns_query_event table \<Rightarrow> string option \<Rightarrow> bool" where
  "event_conflict t eid \<longleftrightarrow> eid \<noteq> None \<and> tbl_find (\<lambda>e. ev_event_id e = eid) t \<noteq> None"

fun insert_events ::
  "(ingest_event \<Rightarrow> int \<Rightarrow> dns_query_event) \<Rightarrow> ingest_event list \<Rightarrow> nat \<times> dns_query_event table \<Rightarrow>
   nat \<times> dns_query_event table" where
  "insert_events mk [] acc = acc"
| "insert_events mk (ev # evs) (n, t) =
     (if event_conflict t (ie_event_id ev) then insert_events mk evs (n, t)
      else insert_events mk evs (n + 1, tbl_insert (mk ev) t))"

definition client_id_of :: "db \<Rightarrow> string \<Rightarrow> int option" where
  "client_id_of d ip = map_option c_id (find_client d ip)"

definition unresolved :: "db \<Rightarrow> string \<Rightarrow> bool" where
  "unresolved d ip =
     (case find_client d ip of None \<Rightarrow> True | Some c \<Rightarrow> c_rdns_last_resolved_at c = None)"

text \<open>
  The answer carries the number of inserted events, the node's name, and the addresses handed to
  the background resolver.  \<open>unique_ips\<close> is a Python set, whose order is unspecified; the order of
  first occurrence stands for it.
\<close>

definition ingest ::
  "instant \<Rightarrow> string option \<Rightarrow> ingest_event option list \<Rightarrow> db \<Rightarrow>
   ((nat \<times> string \<times> string list) \<times> db) py_result" where
  "ingest now key events d =
     (case get_node_from_api_key key d of
        Inl e \<Rightarrow> Inl e
      | Inr node \<Rightarrow>
          (let parsed = List.map_filter id events
           in if parsed = [] then Inr ((0, n_name node, []), d)
              else
                (let ips = fromkeys (map ie_client_ip parsed);
                     d1 = fold (ensure_client now) ips d;
                     d2 = fold (\<lambda>ev. touch_client (ie_client_ip ev) (event_time now ev)) parsed d1;
                     (inserted, evs) = insert_events (event_row now (n_id node) (client_id_of d1)) parsed
                                         (0, db_events d2)
                 in Inr ((inserted, n_name node, filter (unresolved d2) ips),
                         save_node (seen_active now node) (d2\<lparr>db_events := evs\<rparr>)))))"

section \<open>Metrics\<close>

record metrics_request =
  mq_cache_hits :: int
  mq_cache_misses :: int
  mq_cache_entries :: int
  mq_packetcache_hits :: int
  mq_packetcache_misses :: int
  mq_answers_0_1 :: int
  mq_answers_1_10 :: int
  mq_answers_10_100 :: int
  mq_answers_100_1000 :: int
  mq_answers_slow :: int
  mq_concurrent_queries :: int
  mq_outgoing_timeouts :: int
  mq_servfail_answers :: int
  mq_nxdomain_answers :: int
  mq_questions :: int
  mq_all_outqueries :: int
  mq_uptime_seconds :: int

definition metrics_row :: "instant \<Rightarrow> int \<Rightarrow> metrics_request \<Rightarrow> int \<Rightarrow> node_metrics" where
  "metrics_row now node_id p i =
     \<lparr>nm_id = i, nm_node_id = node_id, nm_ts = now, nm_cache_hits = mq_cache_hits p,
      nm_cache_misses = mq_cache_misses p, nm_cache_entries = mq_cache_entries p,
      nm_packetcache_hits = mq_packetcache_hits p, nm_packetcache_misses = mq_packetcache_misses p,
      nm_answers_0_1 = mq_answers_0_1 p, nm_answers_1_10 = mq_answers_1_10 p,
      nm_answers_10_100 = mq_answers_10_100 p, nm_answers_100_1000 = mq_answers_100_1000 p,
      nm_answers_slow = mq_answers_slow p, nm_concurrent_queries = mq_concurrent_queries p,
      nm_outgoing_timeouts = mq_outgoing_timeouts p, nm_servfail_answers = mq_servfail_answers p,
      nm_nxdomain_answers = mq_nxdomain_answers p, nm_questions = mq_questions p,
      nm_all_outqueries = mq_all_outqueries p, nm_uptime_seconds = mq_uptime_seconds p\<rparr>"

definition metrics :: "instant \<Rightarrow> string option \<Rightarrow> metrics_request \<Rightarrow> db \<Rightarrow> (string \<times> db) py_result" where
  "metrics now key payload d =
     (case get_node_from_api_key key d of
        Inl e \<Rightarrow> Inl e
      | Inr node \<Rightarrow>
          (let d1 = save_node (seen_active now node) d
           in Inr (n_name node,
                d1\<lparr>db_node_metrics := tbl_insert (metrics_row now (n_id node) payload) (db_node_metrics d1)\<rparr>)))"

section \<open>Commands\<close>

definition pending_for :: "int \<Rightarrow> node_command \<Rightarrow> bool" where
  "pending_for node_id c \<longleftrightarrow>
     nc_executed_at c = None \<and> (nc_node_id c = Some node_id \<or> nc_node_id c = None)"

definition get_commands :: "string option \<Rightarrow> db \<Rightarrow> node_command list py_result" where
  "get_commands key d =
     (case get_node_from_api_key key d of
        Inl e \<Rightarrow> Inl e
      | Inr node \<Rightarrow>
          Inr (sort_key nc_created_at (tbl_select (pending_for (n_id node)) (db_node_commands d))))"

definition py_bool :: "bool \<Rightarrow> string" where
  "py_bool b = (if b then ''True'' else ''False'')"

definition py_opt :: "string option \<Rightarrow> string" where
  "py_opt r = (case r of None \<Rightarrow> ''None'' | Some s \<Rightarrow> s)"

record command_result_request =
  cr_command_id :: int
  cr_success :: bool
  cr_result :: "string option"

definition mark_executed :: "instant \<Rightarrow> node \<Rightarrow> command_result_request \<Rightarrow> node_command \<Rightarrow> node_command" where
  "mark_executed now node p c =
     c\<lparr>nc_executed_at := Some now,
       nc_result := Some (''node='' @ n_name node @ '' success='' @ py_bool (cr_success p) @
         '' result='' @ py_opt (cr_result p))\<rparr>"

definition report_command_result ::
  "instant \<Rightarrow> string option \<Rightarrow> command_result_request \<Rightarrow> db \<Rightarrow> db py_result" where
  "report_command_result now key p d =
     (case get_node_from_api_key key d of
        Inl e \<Rightarrow> Inl e
      | Inr node \<Rightarrow>
          (case tbl_find (\<lambda>c. nc_id c = cr_command_id p) (db_node_commands d) of
             None \<Rightarrow> Inl (HTTPException 404 ''Command not found'')
           | Some cmd \<Rightarrow>
               if nc_node_id cmd \<noteq> None \<and> nc_node_id cmd \<noteq> Some (n_id node)
               then Inl (HTTPException 403 ''Command not for this node'')
               else Inr (d\<lparr>db_node_commands := tbl_update (\<lambda>c. nc_id c = cr_command_id p)
                      (mark_executed now node p) (db_node_commands d)\<rparr>)))"

interpretation executed: key_preserving nc_id "mark_executed now node p" for now node p
  by unfold_locales (simp add: mark_executed_def)

section \<open>Facts on event insertion\<close>

text \<open>The invariant of the unique index: event ids that are present are distinct.\<close>

definition event_ids :: "dns_query_event table \<Rightarrow> string list" where
  "event_ids t = List.map_filter ev_event_id (rows t)"

definition unique_event_ids :: "dns_query_event table \<Rightarrow> bool" where
  "unique_event_ids t \<longleftrightarrow> distinct (event_ids t)"

lemma map_filter_snoc:
  "List.map_filter f (xs @ [x]) = List.map_filter f xs @ (case f x of None \<Rightarrow> [] | Some y \<Rightarrow> [y])"
  by (simp add: List.map_filter_def split: option.split)

lemma set_event_ids: "e \<in> set (event_ids t) \<longleftrightarrow> (\<exists>r \<in> set (rows t). ev_event_id r = Some e)"
  by (auto simp: event_ids_def List.map_filter_def intro: rev_image_eqI)

lemma event_conflict_iff: "event_conflict t eid \<longleftrightarrow> (\<exists>e. eid = Some e \<and> e \<in> set (event_ids t))"
  by (auto simp: event_conflict_def tbl_find_None_iff set_event_ids)

text \<open>
  The contract of the row maker: it keeps the id of the event.  Under it, insertion keeps ids
  unique, never removes or changes a row, records every id, and a second insertion of the same
  batch is a no-op.
\<close>

locale event_sink =
  fixes mk :: "ingest_event \<Rightarrow> int \<Rightarrow> dns_query_event"
  assumes mk_event_id: "ev_event_id (mk ev i) = ie_event_id ev"
begin

lemma insert_keeps_unique:
  "unique_event_ids t \<Longrightarrow> unique_event_ids (snd (insert_events mk evs (n, t)))"
proof (induction evs arbitrary: n t)
  case (Cons ev evs)
  show ?case
  proof (cases "event_conflict t (ie_event_id ev)")
    case False
    then have "unique_event_ids (tbl_insert (mk ev) t)"
      using Cons.prems
      by (auto simp: unique_event_ids_def event_conflict_iff event_ids_def map_filter_snoc mk_event_id
          split: option.split)
    with False Cons.IH show ?thesis by simp
  qed (use Cons in simp)
qed simp

lemma insert_appends:
  "\<exists>new. rows (snd (insert_events mk evs (n, t))) = rows t @ new \<and>
     fst (insert_events mk evs (n, t)) = n + length new \<and>
     (\<forall>r \<in> set new. \<exists>ev \<in> set evs. \<exists>i. r = mk ev i)"
proof (induction evs arbitrary: n t)
  case (Cons ev evs)
  show ?case
  proof (cases "event_conflict t (ie_event_id ev)")
    case True
    then show ?thesis using Cons.IH [of n t] by fastforce
  next
    case False
    obtain new where "rows (snd (insert_events mk evs (n + 1, tbl_insert (mk ev) t))) =
          rows t @ (mk ev (next_id t) # new)"
      "fst (insert_events mk evs (n + 1, tbl_insert (mk ev) t)) = n + 1 + length new"
      "\<forall>r \<in> set new. \<exists>ev \<in> set evs. \<exists>i. r = mk ev i"
      using Cons.IH [of "n + 1" "tbl_insert (mk ev) t"] by auto
    with False show ?thesis by (intro exI [of _ "mk ev (next_id t) # new"]) auto
  qed
qed simp

lemma insert_records_ids:
  "ev \<in> set evs \<Longrightarrow> ie_event_id ev = Some e \<Longrightarrow>
   e \<in> set (event_ids (snd (insert_events mk evs (n, t))))"
proof (induction evs arbitrary: n t)
  case (Cons x evs)
  have grows: "set (event_ids t') \<subseteq> set (event_ids (snd (insert_events mk evs (m, t'))))" for m t'
    using insert_appends [of evs m t'] by (auto simp: set_event_ids)
  show ?case
  proof (cases "ev \<in> set evs")
    case True
    with Cons show ?thesis by simp
  next
    case False
    then have x: "ev = x" using Cons.prems by simp
    then have "event_conflict t (ie_event_id x) \<Longrightarrow> e \<in> set (event_ids t)"
      using Cons.prems by (simp add: event_conflict_iff)
    moreover have "e \<in> set (event_ids (tbl_insert (mk x) t))"
      using Cons.prems x by (auto simp: set_event_ids mk_event_id)
    ultimately show ?thesis using grows by (auto; blast)
  qed
qed simp

lemma insert_all_conflict:
  "\<forall>ev \<in> set evs. event_conflict t (ie_event_id ev) \<Longrightarrow> insert_events mk evs (n, t) = (n, t)"
  by (induction evs) auto

end

interpretation sink: event_sink "event_row now node_id cid" for now node_id cid
  by unfold_locales (simp add: event_row_def)

section \<open>Facts on clients\<close>

lemma ensure_client_events [simp]: "db_events (fold (ensure_client now) ips d) = db_events d"
  by (induction ips arbitrary: d) (simp_all add: ensure_client_def)

lemma touch_client_events [simp]:
  "db_events (fold (\<lambda>ev. touch_client (ie_client_ip ev) (event_time now ev)) evs d) = db_events d"
  by (induction evs arbitrary: d) (simp_all add: touch_client_def)

lemma find_client_ensure:
  "find_client d ip \<noteq> None \<Longrightarrow> find_client (ensure_client now ip' d) ip = find_client d ip"
  by (auto simp: find_client_def ensure_client_def tbl_find_def find_append split: option.split)

lemma find_client_fold_ensure:
  "find_client d ip \<noteq> None \<Longrightarrow> find_client (fold (ensure_client now) ips d) ip = find_client d ip"
  by (induction ips arbitrary: d) (simp_all add: find_client_ensure)

lemma find_client_ensured:
  "ip \<in> set ips \<Longrightarrow> find_client (fold (ensure_client now) ips d) ip \<noteq> None"
proof (induction ips arbitrary: d)
  case (Cons x ips)
  have "find_client (ensure_client now x d) x \<noteq> None"
    by (auto simp: ensure_client_def find_client_def tbl_find_def find_append split: option.split)
  then show ?case
    using Cons by (cases "ip = x") (auto simp: find_client_fold_ensure)
qed simp

lemma client_id_of_touch [simp]: "client_id_of (touch_client ip ts d) ip' = client_id_of d ip'"
proof -
  have "map_option c_id (find (\<lambda>c. c_ip c = ip') (map (\<lambda>c. if c_ip c = ip then c\<lparr>c_last_seen := Some ts\<rparr> else c) xs)) =
      map_option c_id (find (\<lambda>c. c_ip c = ip') xs)" for xs
    by (induction xs) auto
  then show ?thesis
    by (simp add: client_id_of_def find_client_def touch_client_def tbl_find_def)
qed

lemma client_id_of_touches [simp]:
  "client_id_of (fold (\<lambda>ev. touch_client (ie_client_ip ev) (event_time now ev)) evs d) ip = client_id_of d ip"
  by (induction evs arbitrary: d) simp_all

lemma client_id_of_frame [simp]:
  "client_id_of (save_node n d) ip = client_id_of d ip"
  "client_id_of (d\<lparr>db_events := evs\<rparr>) ip = client_id_of d ip"
  by (simp_all add: client_id_of_def find_client_def save_node_def)

lemma save_node_events [simp]: "db_events (save_node n d) = db_events d"
  by (simp add: save_node_def)

section \<open>Facts on the key of a node\<close>

lemma get_node_Inr:
  "get_node_from_api_key key d = Inr n \<Longrightarrow>
   n \<in> set (rows (db_nodes d)) \<and> key = Some (n_api_key n) \<and> n_api_key n \<noteq> []"
  by (cases key) (auto simp: get_node_from_api_key_def split: if_splits option.splits dest: tbl_find_SomeD)

text \<open>A saved node is still found by its key.\<close>

lemma get_node_saved:
  assumes "get_node_from_api_key key d = Inr n" and "n_id n' = n_id n" "n_api_key n' = n_api_key n"
    and "db_nodes d' = db_nodes d"
  shows "get_node_from_api_key key (save_node n' d') = Inr n'"
proof -
  note n = get_node_Inr [OF assms(1)]
  have "find (\<lambda>x. n_api_key x = n_api_key n) (map (\<lambda>x. if n_id x = n_id n then n' else x) xs) = Some n'"
    if "find (\<lambda>x. n_api_key x = n_api_key n) xs = Some n" for xs
    using that assms(3) by (induction xs) (auto split: if_splits)
  moreover have "find (\<lambda>x. n_api_key x = n_api_key n) (rows (db_nodes d)) = Some n"
    using assms(1) n by (auto simp: get_node_from_api_key_def tbl_find_def split: if_splits option.splits)
  ultimately show ?thesis
    using n assms(2,4) by (simp add: get_node_from_api_key_def tbl_find_def save_node_def tbl_update_def)
qed

lemma ingest_steps:
  assumes "ingest now key events d = Inr (ans, d')" and "get_node_from_api_key key d = Inr node"
    and "parsed = List.map_filter id events" and "parsed \<noteq> []"
    and "d1 = fold (ensure_client now) (fromkeys (map ie_client_ip parsed)) d"
    and "run = insert_events (event_row now (n_id node) (client_id_of d1)) parsed (0, db_events d)"
  shows "fst ans = fst run" and "db_events d' = snd run"
    and "client_id_of d' ip = client_id_of d1 ip"
    and "\<exists>d2. d' = save_node (seen_active now node) d2 \<and> db_nodes d2 = db_nodes d"
proof -
  let ?d2 = "fold (\<lambda>ev. touch_client (ie_client_ip ev) (event_time now ev)) parsed d1"
  have "db_nodes (fold (ensure_client now) ips d0) = db_nodes d0" for ips d0
    by (induction ips arbitrary: d0) (simp_all add: ensure_client_def)
  moreover have "db_nodes (fold (\<lambda>ev. touch_client (ie_client_ip ev) (event_time now ev)) evs d0) = db_nodes d0" for evs d0
    by (induction evs arbitrary: d0) (simp_all add: touch_client_def)
  ultimately have nodes: "db_nodes ?d2 = db_nodes d" by (simp add: assms(5))
  have "ans = (fst run, n_name node, filter (unresolved ?d2) (fromkeys (map ie_client_ip parsed))) \<and>
      d' = save_node (seen_active now node) (?d2\<lparr>db_events := snd run\<rparr>)"
    using assms by (simp add: ingest_def Let_def case_prod_beta)
  then show "fst ans = fst run" and "db_events d' = snd run"
    and "client_id_of d' ip = client_id_of d1 ip"
    and "\<exists>d2. d' = save_node (seen_active now node) d2 \<and> db_nodes d2 = db_nodes d"
    using nodes by auto
qed

text \<open>A report of a command the node was given takes it off the node's list and touches nothing else.\<close>

lemma report_removes_pending:
  assumes "get_commands key d = Inr cs" and "c \<in> set cs" and "cr_command_id p = nc_id c"
    and "table_wf nc_id (db_node_commands d)"
  shows "\<exists>d'. report_command_result now key p d = Inr d' \<and>
    get_commands key d' = Inr (filter (\<lambda>x. nc_id x \<noteq> nc_id c) cs) \<and>
    table_wf nc_id (db_node_commands d') \<and> (\<exists>t. d' = d\<lparr>db_node_commands := t\<rparr>)"
proof -
  obtain node where node: "get_node_from_api_key key d = Inr node"
    using assms(1) by (auto simp: get_commands_def split: sum.splits)
  let ?P = "pending_for (n_id node)"
  have cs: "cs = sort_key nc_created_at (tbl_select ?P (db_node_commands d))"
    using assms(1) node by (simp add: get_commands_def)
  have c: "c \<in> set (rows (db_node_commands d))" "?P c"
    using assms(2) by (auto simp: cs tbl_select_def)
  have find: "tbl_find (\<lambda>x. nc_id x = cr_command_id p) (db_node_commands d) = Some c"
    unfolding assms(3) using tbl_find_key [OF assms(4) c(1)] .
  let ?f = "mark_executed now node p"
  have run: "report_command_result now key p d =
      Inr (d\<lparr>db_node_commands := tbl_update (\<lambda>x. nc_id x = nc_id c) ?f (db_node_commands d)\<rparr>)"
    using c(2) by (auto simp: report_command_result_def node find [unfolded assms(3)] assms(3) pending_for_def)
  have "filter ?P (map (\<lambda>x. if nc_id x = nc_id c then ?f x else x) xs) =
      filter (\<lambda>x. nc_id x \<noteq> nc_id c) (filter ?P xs)" for xs
    by (induction xs) (auto simp: pending_for_def mark_executed_def)
  moreover have "get_node_from_api_key key (d\<lparr>db_node_commands := t\<rparr>) = Inr node" for t
    unfolding node [symmetric] by (simp add: get_node_from_api_key_def)
  ultimately show ?thesis
    by (simp add: run get_commands_def cs tbl_select_def filter_sort executed.update_wf [OF assms(4)])
      (rule exI, rule refl)
qed

section \<open>Properties\<close>

text \<open>
  C16: retransmission is harmless.  When every event of a batch carries an id, ingesting the same
  batch again, at any later time, succeeds, inserts nothing, and leaves the events as they were.
\<close>

theorem ingest_idempotent:
  assumes "ingest now key events d = Inr (ans, d')"
    and "\<forall>ev \<in> set (List.map_filter id events). ie_event_id ev \<noteq> None"
  shows "\<exists>ans2 d2. ingest now2 key events d' = Inr (ans2, d2) \<and> fst ans2 = 0 \<and> db_events d2 = db_events d'"
proof -
  obtain node where node: "get_node_from_api_key key d = Inr node"
    using assms(1) by (auto simp: ingest_def split: sum.splits)
  define parsed where "parsed = List.map_filter id events"
  show ?thesis
  proof (cases "parsed = []")
    case True
    then have "ingest now2 key events d = Inr ((0, n_name node, []), d)" "d' = d"
      using assms(1) node by (simp_all add: ingest_def parsed_def Let_def)
    then show ?thesis by simp
  next
    case False
    note run1 = ingest_steps [OF assms(1) node parsed_def False refl refl]
    obtain node2 where node2: "get_node_from_api_key key d' = Inr node2"
      using run1(4) get_node_saved [OF node, of "seen_active now node"] by (auto simp: seen_active_def)
    have "\<forall>ev \<in> set parsed. event_conflict (db_events d') (ie_event_id ev)"
      using assms(2) sink.insert_records_ids unfolding run1(2) event_conflict_iff parsed_def by blast
    then have stuck: "insert_events mk parsed (0, db_events d') = (0, db_events d')" for mk
      by (induction parsed) auto
    obtain ans2 d2 where run2: "ingest now2 key events d' = Inr (ans2, d2)"
      using node2 by (cases "ingest now2 key events d'") (auto simp: ingest_def Let_def case_prod_beta split: if_splits)
    note run2' = ingest_steps [OF run2 node2 parsed_def False refl refl]
    show ?thesis using run2 run2'(1,2) stuck by simp
  qed
qed

definition sample_event :: ingest_event where
  "sample_event = \<lparr>ie_ts = Some ''2026-01-02T03:04:05Z'', ie_client_ip = ''10.0.0.7'', ie_qname = ''Ads.Example.com.'',
     ie_qtype = 1, ie_rcode = 0, ie_blocked = True, ie_block_reason = None, ie_blocklist_name = None,
     ie_latency_ms = Some 3, ie_event_id = Some ''e1'', ie_event_seq = Some 1, ie_is_internal = False\<rparr>"

definition sample_node :: node where
  "sample_node = \<lparr>n_id = 1, n_name = ''edge'', n_api_key = ''k1'', n_ip_address = None, n_version = None,
     n_status = PENDING, n_last_seen = None, n_last_heartbeat = None, n_last_error = None,
     n_quarantine_entry_time = None, n_quarantine_reason = None, n_approved_by = None, n_approved_at = None,
     n_config_version = 0, n_queries_total = 0, n_queries_blocked = 0, n_created_at = 0\<rparr>"

definition sample_node_db :: db where
  "sample_node_db = empty_db\<lparr>db_nodes := \<lparr>rows = [sample_node], next_id = 2\<rparr>,
     db_node_commands := \<lparr>rows = [\<lparr>nc_id = 1, nc_node_id = Some 1, nc_command = ''clear_cache'', nc_params = None,
        nc_created_at = 0, nc_executed_at = None, nc_result = None\<rparr>,
       \<lparr>nc_id = 2, nc_node_id = Some 2, nc_command = ''clear_cache'', nc_params = None,
        nc_created_at = 0, nc_executed_at = None, nc_result = None\<rparr>], next_id = 3\<rparr>\<rparr>"

lemmas sample_node_defs = sample_node_db_def sample_node_def empty_db_def empty_table_def

lemma sample_node_key: "get_node_from_api_key (Some ''k1'') sample_node_db = Inr sample_node"
  by (simp add: get_node_from_api_key_def tbl_find_def sample_node_defs)

lemma sample_ingest: "\<exists>d'. ingest 0 (Some ''k1'') [Some sample_event, None] sample_node_db = Inr ((1, ''edge'', [''10.0.0.7'']), d')"
proof -
  let ?d1 = "ensure_client 0 ''10.0.0.7'' sample_node_db"
  have "unresolved (touch_client ''10.0.0.7'' t ?d1) ''10.0.0.7''" for t
    by (simp add: unresolved_def find_client_def touch_client_def ensure_client_def tbl_find_def sample_node_defs)
  moreover have "\<not> event_conflict (db_events sample_node_db) x" for x
    by (simp add: event_conflict_def tbl_find_def sample_node_defs)
  moreover have "n_name sample_node = ''edge''" by (simp add: sample_node_def)
  ultimately show ?thesis
    by (simp add: ingest_def sample_node_key map_filter_simps sample_event_def Let_def ensure_client_def touch_client_def
        insert_events.simps)
qed

theorem ingest_idempotent_witness:
  "\<exists>d' ans2 d2. ingest 7 (Some ''k1'') [Some sample_event, None] d' = Inr (ans2, d2) \<and> fst ans2 = 0 \<and>
     db_events d2 = db_events d'"
proof -
  obtain d' where "ingest 0 (Some ''k1'') [Some sample_event, None] sample_node_db = Inr ((1, ''edge'', [''10.0.0.7'']), d')"
    using sample_ingest by blast
  from ingest_idempotent [OF this, of 7] show ?thesis
    by (auto simp: map_filter_simps sample_event_def)
qed

text \<open>
  C17: ingestion only appends, keeps event ids unique, and links what it appends.  The count it
  answers is the number of new rows; each new row comes from an accepted event, belongs to the
  sending node, and points at the stored client that has the event's address.
\<close>

theorem ingest_appends_linked:
  assumes "ingest now key events d = Inr (ans, d')" and "get_node_from_api_key key d = Inr node"
    and "unique_event_ids (db_events d)"
  shows "unique_event_ids (db_events d') \<and>
    (\<exists>new. rows (db_events d') = rows (db_events d) @ new \<and> fst ans = length new \<and>
      (\<forall>r \<in> set new. (\<exists>ev. Some ev \<in> set events \<and> ev_qname r = norm_qname (ie_qname ev) \<and>
          ev_event_id r = ie_event_id ev) \<and>
        ev_node_id r = Some (n_id node) \<and>
        ev_client_id r \<noteq> None \<and> ev_client_id r = client_id_of d' (ev_client_ip r)))"
proof (cases "List.map_filter id events = []")
  case True
  then have "d' = d" "fst ans = 0" using assms(1,2) by (auto simp: ingest_def Let_def)
  then show ?thesis using assms(3) by simp
next
  case False
  define parsed where "parsed = List.map_filter id events"
  define d1 where "d1 = fold (ensure_client now) (fromkeys (map ie_client_ip parsed)) d"
  let ?mk = "event_row now (n_id node) (client_id_of d1)"
  note run = ingest_steps [OF assms(1,2) parsed_def False [folded parsed_def] d1_def refl]
  obtain new where new: "rows (db_events d') = rows (db_events d) @ new" "fst ans = length new"
    "\<forall>r \<in> set new. \<exists>ev \<in> set parsed. \<exists>i. r = ?mk ev i"
    using sink.insert_appends [of now "n_id node" "client_id_of d1" parsed 0 "db_events d"]
    unfolding run(1,2) by auto
  have linked: "client_id_of d1 (ie_client_ip ev) \<noteq> None" if "ev \<in> set parsed" for ev
    using that find_client_ensured [of "ie_client_ip ev" "fromkeys (map ie_client_ip parsed)" now d]
    by (auto simp: client_id_of_def d1_def)
  have "unique_event_ids (db_events d')"
    unfolding run(2) by (rule sink.insert_keeps_unique [OF assms(3)])
  moreover have "(\<exists>ev. Some ev \<in> set events \<and> ev_qname r = norm_qname (ie_qname ev) \<and> ev_event_id r = ie_event_id ev) \<and>
      ev_node_id r = Some (n_id node) \<and> ev_client_id r \<noteq> None \<and> ev_client_id r = client_id_of d' (ev_client_ip r)"
    if r: "r \<in> set new" for r
  proof -
    obtain ev i where ev: "ev \<in> set parsed" "r = ?mk ev i" using new(3) r by blast
    have "Some ev \<in> set events" using ev(1) by (auto simp: parsed_def List.map_filter_def)
    then show ?thesis using linked [OF ev(1)] unfolding ev(2) run(3) by (auto simp: event_row_def)
  qed
  ultimately show ?thesis using new(1,2) by blast
qed

theorem ingest_appends_linked_witness:
  "\<exists>d' :: db. unique_event_ids (db_events d') \<and>
     (\<exists>new. rows (db_events d') = rows (db_events sample_node_db) @ new \<and> 1 = length new)"
proof -
  obtain d' where "ingest 0 (Some ''k1'') [Some sample_event, None] sample_node_db = Inr ((1, ''edge'', [''10.0.0.7'']), d')"
    using sample_ingest by blast
  moreover have "unique_event_ids (db_events sample_node_db)"
    by (simp add: unique_event_ids_def event_ids_def sample_node_defs map_filter_simps)
  ultimately have "unique_event_ids (db_events d') \<and>
      (\<exists>new. rows (db_events d') = rows (db_events sample_node_db) @ new \<and> fst (1, ''edge'', [''10.0.0.7'']) = length new)"
    using ingest_appends_linked [OF _ sample_node_key] by metis
  then show ?thesis by (simp only: fst_conv) blast
qed

text \<open>
  A reported command is done.  A command a node was given can be reported by it, and the
  node's pending commands are then the same ones in the same order without it; the command table
  stays well-formed.
\<close>

theorem command_done_after_report:
  assumes "get_commands key d = Inr cs" and "c \<in> set cs" and "cr_command_id p = nc_id c"
    and "table_wf nc_id (db_node_commands d)"
  shows "\<exists>d'. report_command_result now key p d = Inr d' \<and>
    get_commands key d' = Inr (filter (\<lambda>x. nc_id x \<noteq> nc_id c) cs) \<and>
    table_wf nc_id (db_node_commands d')"
  using report_removes_pending [OF assms] by blast

theorem command_done_after_report_witness:
  "\<exists>d' :: db. report_command_result 0 (Some ''k1'') \<lparr>cr_command_id = 1, cr_success = True, cr_result = None\<rparr> sample_node_db = Inr d' \<and>
     get_commands (Some ''k1'') d' = Inr [] \<and> table_wf nc_id (db_node_commands d')"
proof -
  let ?c = "\<lparr>nc_id = 1, nc_node_id = Some 1, nc_command = ''clear_cache'', nc_params = None,
        nc_created_at = 0, nc_executed_at = None, nc_result = None\<rparr>"
  have "get_commands (Some ''k1'') sample_node_db = Inr [?c]"
    unfolding get_commands_def sample_node_key
    by (simp add: tbl_select_def pending_for_def sample_node_defs)
  moreover have "table_wf nc_id (db_node_commands sample_node_db)"
    by (simp add: table_wf_def sample_node_db_def)
  ultimately show ?thesis
    using command_done_after_report [of "Some ''k1''" sample_node_db "[?c]" ?c "\<lparr>cr_command_id = 1, cr_success = True, cr_result = None\<rparr>" 0]
    by simp
qed

text \<open>
  Commands are private to their node.  A node neither receives nor can complete a command
  addressed to another node: the report is refused with 403 and changes nothing.
\<close>

theorem foreign_command_refused:
  assumes "get_node_from_api_key key d = Inr node" and "get_commands key d = Inr cs"
    and "tbl_find (\<lambda>c. nc_id c = cr_command_id p) (db_node_commands d) = Some c"
    and "nc_node_id c = Some m" and "m \<noteq> n_id node"
  shows "c \<notin> set cs \<and>
    report_command_result now key p d = Inl (HTTPException 403 ''Command not for this node'')"
  using assms by (auto simp: get_commands_def report_command_result_def tbl_select_def pending_for_def)

theorem foreign_command_refused_witness:
  "report_command_result 0 (Some ''k1'') \<lparr>cr_command_id = 2, cr_success = True, cr_result = None\<rparr> sample_node_db =
     Inl (HTTPException 403 ''Command not for this node'')"
proof -
  obtain cs where "get_commands (Some ''k1'') sample_node_db = Inr cs"
    by (simp add: get_commands_def sample_node_key)
  from foreign_command_refused [OF sample_node_key this, of "\<lparr>cr_command_id = 2, cr_success = True, cr_result = None\<rparr>"]
  show ?thesis by (simp add: tbl_find_def sample_node_defs)
qed

end
