(* ===== verification/Metrics_Buffer.thy ===== *)
theory Metrics_Buffer
  imports Ingest
begin

text \<open>
  The secondary's store of metrics that could not be delivered yet (\<open>sync-agent/buffer.py\<close>): a
  SQLite table with increasing ids.  Its contract, a first-in first-out queue with removal by id,
  is the locale \<open>metrics_queue\<close>; the delivery loop of the agent is proved against the contract.
  A metrics dictionary is stored as JSON text, an object of integers.
\<close>

section \<open>Metrics as JSON\<close>

text \<open>\<open>json.dumps\<close> and \<open>json.loads\<close> on an object of integers whose keys need no escapes.\<close>

definition json_pair :: "string \<times> int \<Rightarrow> string" where
  "json_pair kv = [CHR 0x22] @ fst kv @ [CHR 0x22] @ '': '' @ show_int (snd kv)"

definition dumps_ints :: "(string \<times> int) list \<Rightarrow> string" where
  "dumps_ints kvs = [CHR 0x7B] @ join '', '' (map json_pair kvs) @ [CHR 0x7D]"

definition read_pair :: "string \<Rightarrow> (string \<times> int) option" where
  "read_pair s =
     (case split_on CHR '':'' s of
        [k, v] \<Rightarrow>
          (let q = strip k
           in if 2 \<le> length q \<and> hd q = CHR 0x22 \<and> last q = CHR 0x22
              then map_option (Pair (butlast (tl q))) (py_int v) else None)
      | _ \<Rightarrow> None)"

definition loads_ints :: "string \<Rightarrow> (string \<times> int) list option" where
  "loads_ints s =
     (let t = strip s
      in if 2 \<le> length t \<and> hd t = CHR 0x7B \<and> last t = CHR 0x7D
         then those (map read_pair (split_on CHR '','' (butlast (tl t)))) else None)"

text \<open>The dictionary the agent builds, and the request the primary reads from it.\<close>

definition metrics_dict :: "metrics_request \<Rightarrow> (string \<times> int) list" where
  "metrics_dict m =
     [(''cache_hits'', mq_cache_hits m), (''cache_misses'', mq_cache_misses m),
      (''cache_entries'', mq_cache_entries m), (''packetcache_hits'', mq_packetcache_hits m),
      (''packetcache_misses'', mq_packetcache_misses m), (''answers_0_1'', mq_answers_0_1 m),
      (''answers_1_10'', mq_answers_1_10 m), (''answers_10_100'', mq_answers_10_100 m),
      (''answers_100_1000'', mq_answers_100_1000 m), (''answers_slow'', mq_answers_slow m),
      (''concurrent_queries'', mq_concurrent_queries m), (''outgoing_timeouts'', mq_outgoing_timeouts m),
      (''servfail_answers'', mq_servfail_answers m), (''nxdomain_answers'', mq_nxdomain_answers m),
      (''questions'', mq_questions m), (''all_outqueries'', mq_all_outqueries m),
      (''uptime_seconds'', mq_uptime_seconds m)]"

definition field :: "(string \<times> int) list \<Rightarrow> string \<Rightarrow> int" where
  "field kvs k = (case map_of kvs k of None \<Rightarrow> 0 | Some v \<Rightarrow> v)"

definition metrics_of_dict :: "(string \<times> int) list \<Rightarrow> metrics_request" where
  "metrics_of_dict f =
     \<lparr>mq_cache_hits = field f ''cache_hits'', mq_cache_misses = field f ''cache_misses'',
      mq_cache_entries = field f ''cache_entries'', mq_packetcache_hits = field f ''packetcache_hits'',
      mq_packetcache_misses = field f ''packetcache_misses'', mq_answers_0_1 = field f ''answers_0_1'',
      mq_answers_1_10 = field f ''answers_1_10'', mq_answers_10_100 = field f ''answers_10_100'',
      mq_answers_100_1000 = field f ''answers_100_1000'', mq_answers_slow = field f ''answers_slow'',
      mq_concurrent_queries = field f ''concurrent_queries'', mq_outgoing_timeouts = field f ''outgoing_timeouts'',
      mq_servfail_answers = field f ''servfail_answers'', mq_nxdomain_answers = field f ''nxdomain_answers'',
      mq_questions = field f ''questions'', mq_all_outqueries = field f ''all_outqueries'',
      mq_uptime_seconds = field f ''uptime_seconds''\<rparr>"

definition dumps :: "metrics_request \<Rightarrow> string" where
  "dumps m = dumps_ints (metrics_dict m)"

definition loads :: "string \<Rightarrow> metrics_request option" where
  "loads s = map_option metrics_of_dict (loads_ints s)"

section \<open>The table\<close>

record buffer_row =
  br_id :: int
  br_timestamp :: instant
  br_metrics :: string

record metrics_buffer =
  mb_rows :: "buffer_row list"
  mb_next :: int
  mb_max_age_seconds :: int

definition ensure_db :: "int \<Rightarrow> metrics_buffer" where
  "ensure_db max_age = \<lparr>mb_rows = [], mb_next = 1, mb_max_age_seconds = max_age\<rparr>"

definition put :: "metrics_request \<Rightarrow> instant \<Rightarrow> metrics_buffer \<Rightarrow> metrics_buffer" where
  "put m ts b =
     b\<lparr>mb_rows := mb_rows b @ [\<lparr>br_id = mb_next b, br_timestamp = ts, br_metrics = dumps m\<rparr>],
       mb_next := mb_next b + 1\<rparr>"

text \<open>\<open>ORDER BY id ASC LIMIT n\<close>; rows that are not JSON are skipped after the limit is applied.\<close>

definition peek :: "nat \<Rightarrow> metrics_buffer \<Rightarrow> (int \<times> metrics_request) list" where
  "peek limit b =
     List.map_filter (\<lambda>r. map_option (Pair (br_id r)) (loads (br_metrics r)))
       (take limit (sort_key br_id (mb_rows b)))"

definition delete :: "int list \<Rightarrow> metrics_buffer \<Rightarrow> metrics_buffer" where
  "delete item_ids b =
     (if item_ids = [] then b
      else b\<lparr>mb_rows := filter (\<lambda>r. br_id r \<notin> set item_ids) (mb_rows b)\<rparr>)"

definition prune :: "int option \<Rightarrow> instant \<Rightarrow> metrics_buffer \<Rightarrow> nat \<times> metrics_buffer" where
  "prune max_age now b =
     (let age = (case max_age of None \<Rightarrow> mb_max_age_seconds b | Some a \<Rightarrow> a)
      in if age \<le> 0 then (0, b)
         else (let cutoff = now - seconds age;
                   kept = filter (\<lambda>r. \<not> br_timestamp r < cutoff) (mb_rows b)
               in (length (mb_rows b) - length kept, b\<lparr>mb_rows := kept\<rparr>)))"

definition count :: "metrics_buffer \<Rightarrow> nat" where
  "count b = length (mb_rows b)"

section \<open>The contract\<close>

definition queued :: "metrics_buffer \<Rightarrow> (int \<times> metrics_request) list" where
  "queued b = map (\<lambda>r. (br_id r, the (loads (br_metrics r)))) (mb_rows b)"

definition buffer_wf :: "metrics_buffer \<Rightarrow> bool" where
  "buffer_wf b \<longleftrightarrow>
     sorted (map br_id (mb_rows b)) \<and> distinct (map br_id (mb_rows b)) \<and>
     (\<forall>r \<in> set (mb_rows b). br_id r < mb_next b \<and> loads (br_metrics r) \<noteq> None)"

text \<open>The delivery loop of the agent: post in order, stop at the first failure.\<close>

fun push_loop :: "('m \<Rightarrow> 's \<Rightarrow> bool \<times> 's) \<Rightarrow> (int \<times> 'm) list \<Rightarrow> 's \<Rightarrow> int list \<times> 's" where
  "push_loop post [] s = ([], s)"
| "push_loop post ((item_id, m) # pending) s =
     (let (ok, s') = post m s
      in if ok then (let (ids, s'') = push_loop post pending s' in (item_id # ids, s''))
         else ([], s'))"

locale metrics_queue =
  fixes inv :: "'q \<Rightarrow> bool" and items :: "'q \<Rightarrow> (int \<times> 'm) list"
    and enq :: "'m \<Rightarrow> instant \<Rightarrow> 'q \<Rightarrow> 'q" and front :: "nat \<Rightarrow> 'q \<Rightarrow> (int \<times> 'm) list"
    and remove :: "int list \<Rightarrow> 'q \<Rightarrow> 'q"
  assumes inv_distinct: "inv q \<Longrightarrow> distinct (map fst (items q))"
    and enq_inv: "inv q \<Longrightarrow> inv (enq m t q)"
    and remove_inv: "inv q \<Longrightarrow> inv (remove ids q)"
    and enq_items: "inv q \<Longrightarrow> map snd (items (enq m t q)) = map snd (items q) @ [m]"
    and front_items: "inv q \<Longrightarrow> front n q = take n (items q)"
    and remove_items: "inv q \<Longrightarrow> items (remove ids q) = filter (\<lambda>x. fst x \<notin> set ids) (items q)"
begin

definition deliver :: "nat \<Rightarrow> ('m \<Rightarrow> 's \<Rightarrow> bool \<times> 's) \<Rightarrow> 'q \<Rightarrow> 's \<Rightarrow> 'q \<times> 's" where
  "deliver n post q s = (let (ids, s') = push_loop post (front n q) s in (remove ids q, s'))"

lemma push_loop_prefix:
  assumes "\<And>m s. fst (post m s) \<Longrightarrow> hist (snd (post m s)) = hist s @ [m]"
    and "\<And>m s. \<not> fst (post m s) \<Longrightarrow> hist (snd (post m s)) = hist s"
  shows "\<exists>k \<le> length ps. fst (push_loop post ps s) = map fst (take k ps) \<and>
    hist (snd (push_loop post ps s)) = hist s @ map snd (take k ps)"
proof (induction ps arbitrary: s)
  case (Cons p ps)
  obtain i m where p: "p = (i, m)" by (cases p)
  show ?case
  proof (cases "fst (post m s)")
    case True
    obtain k where k: "k \<le> length ps" "fst (push_loop post ps (snd (post m s))) = map fst (take k ps)"
      "hist (snd (push_loop post ps (snd (post m s)))) = hist (snd (post m s)) @ map snd (take k ps)"
      using Cons.IH by blast
    show ?thesis
      using True k assms(1) [OF True] by (intro exI [of _ "Suc k"]) (simp add: p Let_def case_prod_beta)
  next
    case False
    then show ?thesis
      using assms(2) [OF False] by (intro exI [of _ 0]) (simp add: p Let_def case_prod_beta)
  qed
qed simp

lemma filter_drop_prefix:
  "distinct (map fst xs) \<Longrightarrow> filter (\<lambda>x. fst x \<notin> fst ` set (take k xs)) xs = drop k xs"
proof (induction xs arbitrary: k)
  case (Cons x xs)
  show ?case
  proof (cases k)
    case (Suc j)
    have "filter (\<lambda>y. fst y \<notin> fst ` set (x # take j xs)) xs = filter (\<lambda>y. fst y \<notin> fst ` set (take j xs)) xs"
      using Cons.prems by (intro filter_cong refl) (auto intro: rev_image_eqI)
    then show ?thesis using Cons Suc by simp
  qed simp
qed simp

text \<open>Delivery conserves the metrics: what was delivered before, then what is queued.\<close>

lemma deliver_conserves:
  assumes "inv q"
    and "\<And>m s. fst (post m s) \<Longrightarrow> hist (snd (post m s)) = hist s @ [m]"
    and "\<And>m s. \<not> fst (post m s) \<Longrightarrow> hist (snd (post m s)) = hist s"
  shows "inv (fst (deliver n post q s)) \<and>
    hist (snd (deliver n post q s)) @ map snd (items (fst (deliver n post q s))) = hist s @ map snd (items q)"
proof -
  let ?ps = "front n q"
  obtain k where k: "k \<le> length ?ps" "fst (push_loop post ?ps s) = map fst (take k ?ps)"
    "hist (snd (push_loop post ?ps s)) = hist s @ map snd (take k ?ps)"
    using push_loop_prefix [of post hist, OF assms(2,3)] by blast
  have "k \<le> n" using k(1) front_items [OF assms(1), of n] by simp
  then have prefix: "take k ?ps = take k (items q)"
    using front_items [OF assms(1), of n] by (simp add: min_absorb1)
  have "items (fst (deliver n post q s)) = filter (\<lambda>x. fst x \<notin> fst ` set (take k (items q))) (items q)"
    using k(2) by (simp add: deliver_def Let_def case_prod_beta remove_items [OF assms(1)] prefix)
  then have "items (fst (deliver n post q s)) = drop k (items q)"
    by (simp add: filter_drop_prefix [OF inv_distinct [OF assms(1)]])
  then show ?thesis
    using k(3) remove_inv [OF assms(1)]
    by (simp add: deliver_def Let_def case_prod_beta prefix flip: map_append)
qed

end

section \<open>The table is such a queue\<close>

lemma peek_wf: "buffer_wf b \<Longrightarrow> peek n b = take n (queued b)"
proof -
  assume wf: "buffer_wf b"
  then have "sort_key br_id (mb_rows b) = mb_rows b"
    by (simp add: buffer_wf_def sort_key_id_if_sorted)
  moreover have "List.map_filter (\<lambda>r. map_option (Pair (br_id r)) (loads (br_metrics r))) xs =
      map (\<lambda>r. (br_id r, the (loads (br_metrics r)))) xs" if "\<forall>r \<in> set xs. loads (br_metrics r) \<noteq> None" for xs
    using that by (induction xs) (auto simp: map_filter_simps)
  moreover have "\<forall>r \<in> set (take n (mb_rows b)). loads (br_metrics r) \<noteq> None"
    using wf by (auto simp: buffer_wf_def dest: in_set_takeD)
  ultimately show ?thesis by (simp add: peek_def queued_def take_map)
qed

lemma delete_wf: "buffer_wf b \<Longrightarrow> buffer_wf (delete ids b)"
  by (auto simp: buffer_wf_def delete_def sorted_filter distinct_map_filter)

lemma queued_delete: "queued (delete ids b) = filter (\<lambda>x. fst x \<notin> set ids) (queued b)"
  by (simp add: queued_def delete_def filter_map comp_def)

section \<open>Reading back the JSON text\<close>

definition plain_key :: "string \<Rightarrow> bool" where
  "plain_key k \<longleftrightarrow> k \<noteq> [] \<and> (\<forall>c \<in> set k. c \<notin> {CHR '','', CHR '':''} \<and> \<not> is_space c)"

lemma show_int_plain:
  "c \<in> set (show_int i) \<Longrightarrow> c \<noteq> CHR '','' \<and> c \<noteq> CHR '':'' \<and> \<not> is_space c"
  using show_int_chars [of c i] by (auto simp: is_digit_def is_space_def Let_def)

lemma py_int_blank: "py_int (CHR '' '' # show_int i) = Some i"
proof -
  have "strip (CHR '' '' # show_int i) = strip (show_int i)"
    by (simp add: strip_def lstrip_by_def is_space_def)
  then have "py_int (CHR '' '' # show_int i) = py_int (show_int i)" by (simp add: py_int_def)
  then show ?thesis by simp
qed

lemma read_pair_json:
  assumes "plain_key k" and that: "pre = [] \<or> pre = '' ''"
  shows "read_pair (pre @ json_pair (k, i)) = Some (k, i)"
proof -
  let ?q = "CHR 0x22 # k @ [CHR 0x22]"
  have colon: "CHR '':'' \<notin> set (pre @ ?q)" "CHR '':'' \<notin> set (CHR '' '' # show_int i)"
    using that assms show_int_plain by (auto simp: plain_key_def)
  have whole: "pre @ json_pair (k, i) = (pre @ ?q) @ CHR '':'' # (CHR '' '' # show_int i)"
    by (simp add: json_pair_def)
  have "strip ?q = ?q" using assms by (intro strip_no_space) (auto simp: plain_key_def is_space_def)
  then have q: "strip (pre @ ?q) = ?q"
    using that by (auto simp: strip_def lstrip_by_def is_space_def)
  show ?thesis
    unfolding read_pair_def whole split_on_append_sep [OF colon(1)] split_on_no_sep [OF colon(2)]
    by (simp add: q py_int_blank)
qed

lemma split_join_pairs:
  "\<forall>kv \<in> set kvs. plain_key (fst kv) \<Longrightarrow> kvs \<noteq> [] \<Longrightarrow>
   split_on CHR '','' (join '', '' (map json_pair kvs)) =
     json_pair (hd kvs) # map (\<lambda>kv. '' '' @ json_pair kv) (tl kvs)"
proof (induction kvs rule: induct_list012)
  case (2 kv)
  have "CHR '','' \<notin> set (json_pair kv)"
    using 2 show_int_plain by (auto simp: json_pair_def plain_key_def)
  then show ?case by (simp add: split_on_no_sep)
next
  case (3 kv kv' kvs)
  have comma: "CHR '','' \<notin> set (json_pair kv)"
    using 3 show_int_plain by (auto simp: json_pair_def plain_key_def)
  have blank: "split_on CHR '','' (CHR '' '' # s) =
      (case split_on CHR '','' s of [] \<Rightarrow> ['' ''] | w # ws \<Rightarrow> (CHR '' '' # w) # ws)" for s by simp
  have "split_on CHR '','' (join '', '' (map json_pair (kv # kv' # kvs))) =
      json_pair kv # split_on CHR '','' (CHR '' '' # join '', '' (map json_pair (kv' # kvs)))"
    using split_on_append_sep [OF comma] by simp
  then show ?case
    unfolding blank using 3 by simp
qed simp

lemma those_Some: "those (map Some xs) = Some xs"
  by (induction xs) auto

lemma loads_dumps_ints:
  assumes "\<forall>kv \<in> set kvs. plain_key (fst kv)" and "kvs \<noteq> []"
  shows "loads_ints (dumps_ints kvs) = Some kvs"
proof -
  let ?body = "join '', '' (map json_pair kvs)"
  have ends: "\<not> is_space CHR 0x7B" "\<not> is_space CHR 0x7D" by (simp_all add: is_space_def)
  have "strip (dumps_ints kvs) = dumps_ints kvs"
    using ends by (simp add: dumps_ints_def strip_def lstrip_by_def rstrip_by_def)
  moreover have "map read_pair (json_pair (hd kvs) # map (\<lambda>kv. '' '' @ json_pair kv) (tl kvs)) = map Some kvs"
  proof -
    have "map read_pair (map (\<lambda>kv. '' '' @ json_pair kv) (tl kvs)) = map Some (tl kvs)"
      using assms read_pair_json [of _ "'' ''"] by (cases kvs) (auto simp: case_prod_beta)
    then show ?thesis using assms read_pair_json [of _ "[]"] by (cases kvs) auto
  qed
  ultimately show ?thesis
    unfolding loads_ints_def Let_def
    by (simp add: dumps_ints_def split_join_pairs [OF assms] those_Some)
qed

lemma loads_dumps: "loads (dumps m) = Some m"
proof -
  have "\<forall>kv \<in> set (metrics_dict m). plain_key (fst kv)"
    by (simp add: metrics_dict_def plain_key_def is_space_def)
  moreover have "metrics_of_dict (metrics_dict m) = m"
    by (simp add: metrics_of_dict_def metrics_dict_def field_def)
  ultimately show ?thesis
    by (simp add: loads_def dumps_def loads_dumps_ints metrics_dict_def)
qed

lemma put_wf: "buffer_wf b \<Longrightarrow> buffer_wf (put m ts b)"
  by (fastforce simp: buffer_wf_def put_def sorted_append loads_dumps)

interpretation buf: metrics_queue buffer_wf queued put peek delete
proof
  fix q m t n ids
  assume wf: "buffer_wf q"
  show "distinct (map fst (queued q))" using wf by (simp add: buffer_wf_def queued_def comp_def)
  show "buffer_wf (put m t q)" by (rule put_wf [OF wf])
  show "buffer_wf (delete ids q)" by (rule delete_wf [OF wf])
  show "map snd (queued (put m t q)) = map snd (queued q) @ [m]"
    by (simp add: queued_def put_def loads_dumps)
  show "peek n q = take n (queued q)" by (rule peek_wf [OF wf])
  show "queued (delete ids q) = filter (\<lambda>x. fst x \<notin> set ids) (queued q)" by (rule queued_delete)
qed

end
