(* ===== verification/Node_Lifecycle.thy ===== *)
theory Node_Lifecycle
  imports Ingest
begin

text \<open>
  The life cycle of nodes: the handlers of \<open>admin-ui/app/routers/nodes.py\<close>, the jobs
  \<open>node_state_transitions_job\<close> and \<open>scrape_local_recursor_metrics\<close> of \<open>services/scheduler.py\<close>,
  \<open>bootstrap_primary_node\<close> of \<open>main.py\<close>, and the transition system they form together with the
  node protocol.
\<close>

section \<open>The node pages\<close>

definition STALE_THRESHOLD_MINUTES :: int where
  "STALE_THRESHOLD_MINUTES = 5"

text \<open>The text of the badge; its CSS class is a function of it.\<close>

definition get_node_status_badge :: "instant \<Rightarrow> node \<Rightarrow> string" where
  "get_node_status_badge now n =
     (if n_status n = ERROR \<or> truthy (n_last_error n) then ''error''
      else (case n_last_seen n of
              None \<Rightarrow> ''pending''
            | Some last_seen \<Rightarrow>
                if dt_instant last_seen < now - minutes STALE_THRESHOLD_MINUTES then ''stale'' else ''active''))"

definition compute_cache_hit_rate :: "node_metrics option \<Rightarrow> rat option" where
  "compute_cache_hit_rate m =
     (case m of
        None \<Rightarrow> None
      | Some x \<Rightarrow>
          (let total = nm_cache_hits x + nm_cache_misses x
           in if total = 0 then None else Some (of_int (nm_cache_hits x) / of_int total * 100)))"

definition new_node :: "instant \<Rightarrow> string \<Rightarrow> string \<Rightarrow> node_status \<Rightarrow> py_datetime option \<Rightarrow> int \<Rightarrow> node" where
  "new_node now name api_key status last_seen i =
     \<lparr>n_id = i, n_name = name, n_api_key = api_key, n_ip_address = None, n_version = None,
      n_status = status, n_last_seen = last_seen, n_last_heartbeat = None, n_last_error = None,
      n_quarantine_entry_time = None, n_quarantine_reason = None, n_approved_by = None,
      n_approved_at = None, n_config_version = 0, n_queries_total = 0, n_queries_blocked = 0,
      n_created_at = now\<rparr>"

text \<open>An insert, refused by the unique constraints on \<open>name\<close> and \<open>api_key\<close>.\<close>

definition insert_node :: "(int \<Rightarrow> node) \<Rightarrow> db \<Rightarrow> db py_result" where
  "insert_node mk d =
     (let n = mk (next_id (db_nodes d))
      in if tbl_find (\<lambda>x. n_name x = n_name n \<or> n_api_key x = n_api_key n) (db_nodes d) \<noteq> None
         then Inl IntegrityError
         else Inr (d\<lparr>db_nodes := tbl_insert mk (db_nodes d)\<rparr>))"

text \<open>\<open>api_key\<close> is the fresh token; the package sent back is in theory \<open>Node_Package\<close>.\<close>

definition nodes_generate :: "instant \<Rightarrow> string \<Rightarrow> int option \<Rightarrow> string \<Rightarrow> db \<Rightarrow> response \<times> db" where
  "nodes_generate now api_key sid name d =
     (case get_current_user sid d of
        None \<Rightarrow> (RedirectResponse ''/login'', d)
      | Some _ \<Rightarrow>
          (let node_name = strip name
           in if node_name = [] then (RedirectResponse ''/nodes'', d)
              else if tbl_find (\<lambda>n. n_name n = node_name) (db_nodes d) \<noteq> None then (JSONOk, d)
              else (case insert_node (new_node now node_name api_key PENDING None) d of
                      Inl _ \<Rightarrow> (server_error, d)
                    | Inr d' \<Rightarrow> (JSONOk, d'))))"

definition get_node :: "db \<Rightarrow> int \<Rightarrow> node option" where
  "get_node d i = tbl_find (\<lambda>n. n_id n = i) (db_nodes d)"

text \<open>
  Deleting a node deletes its forward zones (the relationship cascades), and by the foreign keys
  its commands, metrics and roll-ups; its query events stay without a node.
\<close>

definition delete_node :: "int \<Rightarrow> db \<Rightarrow> db" where
  "delete_node i d =
     d\<lparr>db_nodes := tbl_delete (\<lambda>n. n_id n = i) (db_nodes d),
       db_zones := tbl_delete (\<lambda>z. fz_node_id z = Some i) (db_zones d),
       db_node_commands := tbl_delete (\<lambda>c. nc_node_id c = Some i) (db_node_commands d),
       db_node_metrics := tbl_delete (\<lambda>m. nm_node_id m = i) (db_node_metrics d),
       db_rollups := tbl_delete (\<lambda>r. qr_node_id r = Some i) (db_rollups d),
       db_events := tbl_update (\<lambda>e. ev_node_id e = Some i) (\<lambda>e. e\<lparr>ev_node_id := None\<rparr>) (db_events d)\<rparr>"

definition nodes_delete :: "int option \<Rightarrow> int \<Rightarrow> db \<Rightarrow> response \<times> db" where
  "nodes_delete sid i d =
     (case get_current_user sid d of
        None \<Rightarrow> (RedirectResponse ''/login'', d)
      | Some _ \<Rightarrow>
          (case get_node d i of
             None \<Rightarrow> (RedirectResponse ''/nodes'', d)
           | Some n \<Rightarrow>
               if n_name n = ''primary'' then (RedirectResponse ''/nodes?error=cannot_delete_primary'', d)
               else (RedirectResponse ''/nodes'', delete_node i d)))"

definition edit_node :: "int option \<Rightarrow> int \<Rightarrow> (node \<Rightarrow> node) \<Rightarrow> db \<Rightarrow> response \<times> db" where
  "edit_node sid i f d =
     (case get_current_user sid d of
        None \<Rightarrow> (RedirectResponse ''/login'', d)
      | Some _ \<Rightarrow>
          (case get_node d i of
             None \<Rightarrow> (RedirectResponse ''/nodes'', d)
           | Some n \<Rightarrow> (RedirectResponse ''/nodes'', save_node (f n) d)))"

definition nodes_force_sync :: "int option \<Rightarrow> int \<Rightarrow> db \<Rightarrow> response \<times> db" where
  "nodes_force_sync sid i d =
     edit_node sid i (\<lambda>n. n\<lparr>n_config_version := n_config_version n + 1, n_last_error := None\<rparr>) d"

definition nodes_clear_error :: "int option \<Rightarrow> int \<Rightarrow> db \<Rightarrow> response \<times> db" where
  "nodes_clear_error sid i d =
     edit_node sid i (\<lambda>n. n\<lparr>n_last_error := None,
       n_status := (if n_status n = ERROR then ACTIVE else n_status n)\<rparr>) d"

section \<open>Jobs and start-up\<close>

definition seen_before :: "instant \<Rightarrow> node \<Rightarrow> bool" where
  "seen_before t n = (case n_last_seen n of None \<Rightarrow> False | Some ls \<Rightarrow> dt_instant ls < t)"

definition bulk_status :: "node_status \<Rightarrow> instant \<Rightarrow> node_status \<Rightarrow> db \<Rightarrow> db" where
  "bulk_status from_status t to_status d =
     d\<lparr>db_nodes := tbl_update (\<lambda>n. n_status n = from_status \<and> seen_before t n)
        (n_status_update (\<lambda>_. to_status)) (db_nodes d)\<rparr>"

definition node_state_transitions_job :: "instant \<Rightarrow> db \<Rightarrow> db" where
  "node_state_transitions_job now d =
     (case (get_health_stale_minutes d, get_health_offline_minutes d) of
        (Inr stale_minutes, Inr offline_minutes) \<Rightarrow>
          bulk_status STALE (now - minutes offline_minutes) OFFLINE
            (bulk_status ACTIVE (now - minutes stale_minutes) STALE d)
      | _ \<Rightarrow> d)"

text \<open>\<open>local_key\<close> is the configured or derived key.  An existing node only gets a new \<open>last_seen\<close>.\<close>

definition bootstrap_primary_node :: "instant \<Rightarrow> string \<Rightarrow> string \<Rightarrow> db \<Rightarrow> db py_result" where
  "bootstrap_primary_node now node_name local_key d =
     (case tbl_find (\<lambda>n. n_name n = node_name) (db_nodes d) of
        None \<Rightarrow> insert_node (new_node now node_name local_key ACTIVE (Some (Naive now))) d
      | Some n \<Rightarrow> Inr (save_node (n\<lparr>n_last_seen := Some (Naive now)\<rparr>) d))"

text \<open>\<open>re.match(r"^pdns_recursor_(\w+)\s+([\d.]+)", line)\<close>.\<close>

definition is_word :: "char \<Rightarrow> bool" where
  "is_word c =
     (let n = (of_char c :: nat)
      in is_digit c \<or> c = CHR ''_'' \<or> (65 \<le> n \<and> n \<le> 90) \<or> (97 \<le> n \<and> n \<le> 122) \<or>
         n \<in> {170, 178, 179, 181, 185, 186, 188, 189, 190} \<or> (192 \<le> n \<and> n \<noteq> 215 \<and> n \<noteq> 247))"

definition match_metric :: "string \<Rightarrow> (string \<times> string) option" where
  "match_metric line =
     (let pre = ''pdns_recursor_'' in
      if \<not> startswith pre line then None
      else
        (let r = drop (length pre) line;
             name = takeWhile is_word r;
             r1 = dropWhile is_word r;
             num = takeWhile (\<lambda>c. is_digit c \<or> c = CHR ''.'') (dropWhile is_space r1)
         in if name \<noteq> [] \<and> takeWhile is_space r1 \<noteq> [] \<and> num \<noteq> [] then Some (name, num) else None))"

text \<open>The metrics dictionary; \<open>None\<close> when a number cannot be converted.\<close>

fun scan_metrics :: "string list \<Rightarrow> (string \<rightharpoonup> int) \<Rightarrow> (string \<rightharpoonup> int) option" where
  "scan_metrics [] m = Some m"
| "scan_metrics (l # ls) m =
     (if startswith ''#'' l \<or> strip l = [] then scan_metrics ls m
      else (case match_metric l of
              None \<Rightarrow> scan_metrics ls m
            | Some (name, num) \<Rightarrow>
                (case py_float num of
                   None \<Rightarrow> None
                 | Some x \<Rightarrow> scan_metrics ls (m(name \<mapsto> \<lfloor>x\<rfloor>)))))"

definition metric_of :: "(string \<rightharpoonup> int) \<Rightarrow> string \<Rightarrow> int" where
  "metric_of m k = (case m k of None \<Rightarrow> 0 | Some v \<Rightarrow> v)"

definition metrics_from :: "(string \<rightharpoonup> int) \<Rightarrow> metrics_request" where
  "metrics_from m =
     \<lparr>mq_cache_hits = metric_of m ''cache_hits'', mq_cache_misses = metric_of m ''cache_misses'',
      mq_cache_entries = metric_of m ''cache_entries'', mq_packetcache_hits = metric_of m ''packetcache_hits'',
      mq_packetcache_misses = metric_of m ''packetcache_misses'', mq_answers_0_1 = metric_of m ''answers0_1'',
      mq_answers_1_10 = metric_of m ''answers1_10'', mq_answers_10_100 = metric_of m ''answers10_100'',
      mq_answers_100_1000 = metric_of m ''answers100_1000'', mq_answers_slow = metric_of m ''answers_slow'',
      mq_concurrent_queries = metric_of m ''concurrent_queries'',
      mq_outgoing_timeouts = metric_of m ''outgoing_timeouts'',
      mq_servfail_answers = metric_of m ''servfail_answers'',
      mq_nxdomain_answers = metric_of m ''nxdomain_answers'', mq_questions = metric_of m ''questions'',
      mq_all_outqueries = metric_of m ''all_outqueries'', mq_uptime_seconds = metric_of m ''uptime''\<rparr>"

text \<open>\<open>reply\<close> is the answer of the recursor's metrics page, or nothing when the request raised.\<close>

definition scrape_local_recursor_metrics ::
  "instant \<Rightarrow> string \<Rightarrow> string \<Rightarrow> string option \<Rightarrow> db \<Rightarrow> db" where
  "scrape_local_recursor_metrics now recursor_url node_name reply d =
     (if recursor_url = [] then d
      else (case tbl_find (\<lambda>n. n_name n = node_name \<and> n_status n = ACTIVE) (db_nodes d) of
              None \<Rightarrow> d
            | Some local_node \<Rightarrow>
                (case reply of
                   None \<Rightarrow> d
                 | Some body \<Rightarrow>
                     (case scan_metrics (splitlines body) Map.empty of
                        None \<Rightarrow> d
                      | Some m \<Rightarrow>
                          if m = Map.empty then d
                          else (save_node (local_node\<lparr>n_last_seen := Some (Naive now)\<rparr>) d)
                                 \<lparr>db_node_metrics := tbl_insert (metrics_row now (n_id local_node) (metrics_from m))
                                    (db_node_metrics d)\<rparr>))))"

section \<open>The transition system\<close>

inductive node_step :: "db \<Rightarrow> db \<Rightarrow> bool" where
  register: "register now key rq d = Inr (v, d') \<Longrightarrow> node_step d d'"
| heartbeat: "heartbeat sha now key hb w = Inr (v, w') \<Longrightarrow> node_step (w_db w) (w_db w')"
| ingest: "ingest now key events d = Inr (ans, d') \<Longrightarrow> node_step d d'"
| metrics: "metrics now key mq d = Inr (name, d') \<Longrightarrow> node_step d d'"
| generate: "node_step d (snd (nodes_generate now api_key sid name d))"
| delete: "node_step d (snd (nodes_delete sid i d))"
| force_sync: "node_step d (snd (nodes_force_sync sid i d))"
| clear_error: "node_step d (snd (nodes_clear_error sid i d))"
| transitions: "node_step d (node_state_transitions_job now d)"
| bootstrap: "bootstrap_primary_node now name key' d = Inr d' \<Longrightarrow> node_step d d'"
| scrape: "node_step d (scrape_local_recursor_metrics now url name reply d)"
| other: "db_nodes d' = db_nodes d \<Longrightarrow> node_step d d'"

text \<open>
  The last rule stands for every other operation of the program: none of them touches the nodes.
\<close>

inductive reachable :: "db \<Rightarrow> bool" where
  start: "db_nodes d = empty_table \<Longrightarrow> reachable d"
| step: "reachable d \<Longrightarrow> node_step d d' \<Longrightarrow> reachable d'"

text \<open>The invariant: keys and unique columns, naive times, and four of the six states.\<close>

definition naive :: "py_datetime option \<Rightarrow> bool" where
  "naive t = (case t of Some (Aware _) \<Rightarrow> False | _ \<Rightarrow> True)"

definition row_ok :: "node \<Rightarrow> bool" where
  "row_ok n \<longleftrightarrow>
     naive (n_last_seen n) \<and> naive (n_last_heartbeat n) \<and> naive (n_quarantine_entry_time n) \<and>
     n_status n \<noteq> QUARANTINE \<and> n_status n \<noteq> ERROR \<and> (n_status n \<noteq> PENDING \<longrightarrow> n_last_seen n \<noteq> None)"

definition nodes_ok :: "db \<Rightarrow> bool" where
  "nodes_ok d \<longleftrightarrow>
     table_wf n_id (db_nodes d) \<and> distinct (map n_name (rows (db_nodes d))) \<and>
     distinct (map n_api_key (rows (db_nodes d))) \<and> (\<forall>n \<in> set (rows (db_nodes d)). row_ok n)"

section \<open>Preservation of the invariant\<close>

lemma distinct_map_replace:
  assumes "distinct xs" and "\<forall>y \<in> set xs. y \<noteq> x \<longrightarrow> g y \<noteq> g n" and "distinct (map g xs)"
  shows "distinct (map g (map (\<lambda>y. if y = x then n else y) xs))"
proof -
  have "inj_on (\<lambda>y. g (if y = x then n else y)) (set xs)"
    using assms(2,3) unfolding distinct_map inj_on_def by (metis (full_types))
  with assms(1) show ?thesis by (simp add: distinct_map comp_def)
qed

text \<open>Saving a loaded node keeps the invariant when its row is in order and its name is free.\<close>

lemma save_node_ok [inv_intros]:
  assumes ok: "nodes_ok d" and n: "n \<in> set (rows (db_nodes d))"
    and n': "n_id n' = n_id n" "n_api_key n' = n_api_key n" "row_ok n'"
    and name: "\<forall>x \<in> set (rows (db_nodes d)). n_id x \<noteq> n_id n \<longrightarrow> n_name x \<noteq> n_name n'"
    and nodes: "db_nodes d1 = db_nodes d"
  shows "nodes_ok (save_node n' d1)"
proof -
  let ?R = "rows (db_nodes d)"
  have wf: "table_wf n_id (db_nodes d)" and dist: "distinct (map n_name ?R)" "distinct (map n_api_key ?R)"
    and rows: "\<forall>x \<in> set ?R. row_ok x"
    using ok by (auto simp: nodes_ok_def)
  have same: "x = n" if "x \<in> set ?R" "n_id x = n_id n" for x
    using table_wf_key_inj [OF wf that(1) n that(2)] .
  have R': "rows (db_nodes (save_node n' d1)) = map (\<lambda>x. if x = n then n' else x) ?R"
    using same by (auto simp: save_node_def nodes n')
  have d: "distinct ?R" using dist(1) by (simp add: distinct_map)
  have names: "\<forall>y \<in> set ?R. y \<noteq> n \<longrightarrow> n_name y \<noteq> n_name n'" using name same by blast
  have keys: "\<forall>y \<in> set ?R. y \<noteq> n \<longrightarrow> n_api_key y \<noteq> n_api_key n'"
    using dist(2) n by (auto simp: n' distinct_map inj_on_def)
  have ids: "map n_id (rows (db_nodes (save_node n' d1))) = map n_id ?R"
    unfolding R' by (simp add: n')
  have bounds: "\<forall>x \<in> set (rows (db_nodes (save_node n' d1))). 0 < n_id x \<and> n_id x < next_id (db_nodes d)"
    unfolding R' using wf n by (auto simp: table_wf_def n')
  have "next_id (db_nodes (save_node n' d1)) = next_id (db_nodes d)"
    by (simp add: save_node_def nodes)
  then have "table_wf n_id (db_nodes (save_node n' d1))"
    using wf bounds unfolding table_wf_def ids by simp
  moreover have "\<forall>x \<in> set (rows (db_nodes (save_node n' d1))). row_ok x"
    unfolding R' using rows n'(3) by auto
  ultimately show ?thesis
    unfolding nodes_ok_def R'
    using distinct_map_replace [OF d names dist(1)] distinct_map_replace [OF d keys dist(2)] by blast
qed

lemma save_node_same_name [inv_intros]:
  assumes ok: "nodes_ok d" and n: "n \<in> set (rows (db_nodes d))"
    and n': "n_id n' = n_id n" "n_api_key n' = n_api_key n" "n_name n' = n_name n" "row_ok n'"
    and nodes: "db_nodes d1 = db_nodes d"
  shows "nodes_ok (save_node n' d1)"
proof (rule save_node_ok [OF ok n n'(1,2,4) _ nodes])
  show "\<forall>x \<in> set (rows (db_nodes d)). n_id x \<noteq> n_id n \<longrightarrow> n_name x \<noteq> n_name n'"
    using ok n by (auto simp: n' nodes_ok_def distinct_map inj_on_def)
qed

lemma nodes_ok_frame: "db_nodes d' = db_nodes d \<Longrightarrow> nodes_ok d \<Longrightarrow> nodes_ok d'"
  by (simp add: nodes_ok_def)

lemma row_ok_member: "nodes_ok d \<Longrightarrow> n \<in> set (rows (db_nodes d)) \<Longrightarrow> row_ok n"
  by (simp add: nodes_ok_def)

lemma row_ok_seen: "row_ok n \<Longrightarrow> row_ok (seen_active now n)"
  by (simp add: row_ok_def seen_active_def naive_def)

lemma insert_node_ok:
  assumes "nodes_ok d" and "insert_node mk d = Inr d'" and "\<And>i. n_id (mk i) = i" and "\<And>i. row_ok (mk i)"
  shows "nodes_ok d'"
proof -
  let ?n = "mk (next_id (db_nodes d))"
  have free: "\<forall>x \<in> set (rows (db_nodes d)). n_name x \<noteq> n_name ?n \<and> n_api_key x \<noteq> n_api_key ?n"
    and d': "d' = d\<lparr>db_nodes := tbl_insert mk (db_nodes d)\<rparr>"
    using assms(2) by (auto simp: insert_node_def Let_def tbl_find_None_iff split: if_splits)
  have "table_wf n_id (tbl_insert mk (db_nodes d))"
    using assms(1,3) by (auto simp: nodes_ok_def intro: table_wf_insert)
  with free assms(1,4) show ?thesis by (auto simp: nodes_ok_def d')
qed

interpretation node_status: key_preserving n_id "n_status_update g" for g
  by unfold_locales simp

lemma bulk_status_ok:
  assumes "nodes_ok d" and "to_status \<in> {STALE, OFFLINE}"
  shows "nodes_ok (bulk_status from_status t to_status d)"
proof -
  let ?P = "\<lambda>n. n_status n = from_status \<and> seen_before t n"
  have "row_ok (n\<lparr>n_status := to_status\<rparr>)" if "row_ok n" "?P n" for n
    using that assms(2) by (auto simp: row_ok_def seen_before_def split: option.splits)
  moreover have "map g (map (\<lambda>n. if ?P n then n\<lparr>n_status := to_status\<rparr> else n) xs) = map g xs"
    if "g = n_name \<or> g = n_api_key" for g and xs
    using that by auto
  ultimately show ?thesis
    using assms(1) node_status.update_wf
    by (auto simp: nodes_ok_def bulk_status_def simp del: map_map)
qed

lemma delete_node_ok: "nodes_ok d \<Longrightarrow> nodes_ok (delete_node i d)"
  by (auto simp: nodes_ok_def delete_node_def distinct_map_filter intro: table_wf_delete)

text \<open>
  On a row that is in order a heartbeat never quarantines: subtracting the naive \<open>last_seen\<close> raises.
\<close>

lemma heartbeat_status_ok:
  assumes "heartbeat_status now th n = Inr n'" and "row_ok n"
  shows "n_id n' = n_id n \<and> n_api_key n' = n_api_key n \<and> n_name n' = n_name n \<and> row_ok n'"
proof (cases "n_status n = OFFLINE \<or> n_status n = STALE")
  case True
  then obtain t where "n_last_seen n = Some (Naive t)"
    using assms(2) by (auto simp: row_ok_def naive_def split: option.splits py_datetime.splits)
  with True assms(1) show ?thesis
    by (auto simp: heartbeat_status_def Let_def split: sum.splits)
next
  case False
  then show ?thesis
    using assms by (auto simp: heartbeat_status_def Let_def row_ok_def naive_def)
qed

lemma heartbeat_payload_keeps [simp]:
  "n_id (heartbeat_payload p n) = n_id n" "n_api_key (heartbeat_payload p n) = n_api_key n"
  "n_name (heartbeat_payload p n) = n_name n" "row_ok (heartbeat_payload p n) = row_ok n"
  "n_status (heartbeat_payload p n) = n_status n"
  by (simp_all add: heartbeat_payload_def row_ok_def)

lemma get_node_member: "get_node d i = Some n \<Longrightarrow> n \<in> set (rows (db_nodes d))"
  by (auto simp: get_node_def dest: tbl_find_SomeD)

lemma edit_node_ok:
  assumes "nodes_ok d" and "\<And>n. row_ok n \<Longrightarrow> row_ok (f n)"
    and "\<And>n. n_id (f n) = n_id n \<and> n_api_key (f n) = n_api_key n \<and> n_name (f n) = n_name n"
  shows "nodes_ok (snd (edit_node sid i f d))"
  using assms
  by (auto simp: edit_node_def split: option.split
      intro!: save_node_same_name [OF assms(1)] dest: get_node_member row_ok_member)

lemma generate_ok: "nodes_ok d \<Longrightarrow> nodes_ok (snd (nodes_generate now api_key sid name d))"
  by (auto simp: nodes_generate_def Let_def new_node_def row_ok_def naive_def
      split: option.split sum.split intro: insert_node_ok)

lemma delete_ok: "nodes_ok d \<Longrightarrow> nodes_ok (snd (nodes_delete sid i d))"
  by (simp add: nodes_delete_def delete_node_ok split: option.split)

lemma transitions_ok: "nodes_ok d \<Longrightarrow> nodes_ok (node_state_transitions_job now d)"
  by (simp add: node_state_transitions_job_def bulk_status_ok split: sum.split prod.split)

lemma row_ok_last_seen: "row_ok n \<Longrightarrow> row_ok (n\<lparr>n_last_seen := Some (Naive now)\<rparr>)"
  by (simp add: row_ok_def naive_def)

lemma bootstrap_ok:
  assumes "nodes_ok d" and "bootstrap_primary_node now name key d = Inr d'"
  shows "nodes_ok d'"
proof (cases "tbl_find (\<lambda>n. n_name n = name) (db_nodes d)")
  case None
  then have "insert_node (new_node now name key ACTIVE (Some (Naive now))) d = Inr d'"
    using assms(2) by (simp add: bootstrap_primary_node_def)
  from insert_node_ok [OF assms(1) this] show ?thesis
    by (simp add: new_node_def row_ok_def naive_def)
next
  case (Some n)
  then have n: "n \<in> set (rows (db_nodes d))" using tbl_find_SomeD by fastforce
  have "d' = save_node (n\<lparr>n_last_seen := Some (Naive now)\<rparr>) d"
    using assms(2) Some by (simp add: bootstrap_primary_node_def)
  then show ?thesis
    using save_node_same_name [OF assms(1) n, of "n\<lparr>n_last_seen := Some (Naive now)\<rparr>" d]
      row_ok_last_seen row_ok_member [OF assms(1) n] by simp
qed

lemma scrape_ok:
  assumes "nodes_ok d"
  shows "nodes_ok (scrape_local_recursor_metrics now url name reply d)"
proof -
  have "nodes_ok ((save_node (n\<lparr>n_last_seen := Some (Naive now)\<rparr>) d)\<lparr>db_node_metrics := t\<rparr>)"
    if "tbl_find (\<lambda>n. n_name n = name \<and> n_status n = ACTIVE) (db_nodes d) = Some n" for n t
  proof -
    have n: "n \<in> set (rows (db_nodes d))" using tbl_find_SomeD [OF that] by simp
    have "nodes_ok (save_node (n\<lparr>n_last_seen := Some (Naive now)\<rparr>) d)"
      using save_node_same_name [OF assms n, of "n\<lparr>n_last_seen := Some (Naive now)\<rparr>" d]
        row_ok_last_seen row_ok_member [OF assms n] by simp
    then show ?thesis by (simp add: nodes_ok_def)
  qed
  then show ?thesis
    using assms by (simp add: scrape_local_recursor_metrics_def split: option.split)
qed

lemma register_ok:
  assumes "nodes_ok d" and "register now key rq d = Inr (v, d')"
  shows "nodes_ok d'"
proof -
  obtain n where node: "get_node_from_api_key key d = Inr n"
    using assms(2) by (auto simp: register_def split: sum.splits)
  let ?n = "(seen_active now n)\<lparr>n_name := rq_name rq, n_ip_address := rq_ip_address rq,
      n_version := rq_version rq, n_last_error := None\<rparr>"
  note mem = conjunct1 [OF get_node_Inr [OF node]]
  have free: "\<forall>x \<in> set (rows (db_nodes d)). n_id x \<noteq> n_id n \<longrightarrow> n_name x \<noteq> n_name ?n" and d': "d' = save_node ?n d"
    using assms(2) node by (auto simp: register_def tbl_find_None_iff split: if_splits)
  have "row_ok ?n" using row_ok_member [OF assms(1) mem] by (simp add: row_ok_def naive_def seen_active_def)
  then show ?thesis
    using save_node_ok [OF assms(1) mem _ _ _ free refl] by (simp add: d' seen_active_def)
qed

text \<open>The operations that save the node under its own key, with its row in order.\<close>

lemma saved_ok:
  assumes "nodes_ok d" and "get_node_from_api_key key d = Inr n" and "db_nodes d1 = db_nodes d"
    and "n_id n' = n_id n" "n_api_key n' = n_api_key n" "n_name n' = n_name n" "row_ok n \<Longrightarrow> row_ok n'"
  shows "nodes_ok (save_node n' d1)"
  using save_node_same_name [OF assms(1) conjunct1 [OF get_node_Inr [OF assms(2)]] assms(4,5,6) _ assms(3)]
    assms(7) row_ok_member [OF assms(1) conjunct1 [OF get_node_Inr [OF assms(2)]]] by blast

lemma seen_active_keeps [simp]:
  "n_id (seen_active now n) = n_id n" "n_api_key (seen_active now n) = n_api_key n"
  "n_name (seen_active now n) = n_name n" "n_status (seen_active now n) = ACTIVE"
  by (simp_all add: seen_active_def)

lemma heartbeat_ok:
  assumes "nodes_ok (w_db w)" and "heartbeat sha now key hb w = Inr (v, w')"
  shows "nodes_ok (w_db w')"
proof -
  let ?th = "get_health_quarantine_threshold_minutes (w_db w)"
  obtain n n' where node: "get_node_from_api_key key (w_db w) = Inr n"
    and hb: "heartbeat_status now ?th n = Inr n'"
    and w': "w' = w\<lparr>w_db := save_node (heartbeat_payload hb n') (w_db w)\<rparr>"
    using assms(2) by (auto simp: heartbeat_def split: sum.splits)
  have "row_ok n" using row_ok_member [OF assms(1)] get_node_Inr [OF node] by blast
  from saved_ok [OF assms(1) node refl, of "heartbeat_payload hb n'"] heartbeat_status_ok [OF hb this]
  show ?thesis by (simp add: w')
qed

lemma ingest_ok:
  assumes "nodes_ok d" and "ingest now key events d = Inr (ans, d')"
  shows "nodes_ok d'"
proof -
  obtain n where node: "get_node_from_api_key key d = Inr n"
    using assms(2) by (auto simp: ingest_def split: sum.splits)
  show ?thesis
  proof (cases "List.map_filter id events = []")
    case True
    then show ?thesis using assms node by (simp add: ingest_def Let_def)
  next
    case False
    obtain d2 where "d' = save_node (seen_active now n) d2" "db_nodes d2 = db_nodes d"
      using ingest_steps(4) [OF assms(2) node refl False refl refl] by blast
    then show ?thesis using saved_ok [OF assms(1) node, of d2 "seen_active now n"] row_ok_seen by simp
  qed
qed

lemma metrics_ok:
  assumes "nodes_ok d" and "metrics now key mq d = Inr (name, d')"
  shows "nodes_ok d'"
proof -
  obtain n where node: "get_node_from_api_key key d = Inr n"
    and nodes: "db_nodes d' = db_nodes (save_node (seen_active now n) d)"
    using assms(2) by (auto simp: metrics_def Let_def split: sum.splits)
  from saved_ok [OF assms(1) node refl, of "seen_active now n"] row_ok_seen
  have "nodes_ok (save_node (seen_active now n) d)" by simp
  then show ?thesis by (rule nodes_ok_frame [OF nodes])
qed

lemmas node_ops_ok = register_ok heartbeat_ok ingest_ok metrics_ok generate_ok delete_ok transitions_ok
  bootstrap_ok scrape_ok

lemma node_step_ok: "node_step d d' \<Longrightarrow> nodes_ok d \<Longrightarrow> nodes_ok d'"
proof (induction rule: node_step.induct)
  case (force_sync d sid i)
  then show ?case
    unfolding nodes_force_sync_def by (intro edit_node_ok) (auto simp: row_ok_def)
next
  case (clear_error d sid i)
  then show ?case
    unfolding nodes_clear_error_def by (intro edit_node_ok) (auto simp: row_ok_def)
next
  case (other d' d)
  then show ?case by (rule nodes_ok_frame)
qed (auto intro: node_ops_ok)

lemma reachable_ok: "reachable d \<Longrightarrow> nodes_ok d"
proof (induction rule: reachable.induct)
  case (start d)
  then show ?case by (simp add: nodes_ok_def table_wf_empty) (simp add: empty_table_def)
qed (rule node_step_ok)

section \<open>Facts for the properties\<close>

lemma get_node_by_key:
  assumes "nodes_ok d" and "n \<in> set (rows (db_nodes d))" and "n_api_key n \<noteq> []"
  shows "get_node_from_api_key (Some (n_api_key n)) d = Inr n"
proof -
  have "find (\<lambda>x. n_api_key x = n_api_key n) xs = Some n"
    if "n \<in> set xs" "distinct (map n_api_key xs)" for xs
    using that by (induction xs) auto
  then show ?thesis
    using assms by (simp add: get_node_from_api_key_def tbl_find_def nodes_ok_def)
qed

lemma get_node_save:
  assumes "n \<in> set (rows (db_nodes d))" and "n_id n' = n_id n"
  shows "get_node (save_node n' d) (n_id n) = Some n'"
proof -
  have "find (\<lambda>x. n_id x = n_id n) (map (\<lambda>x. if n_id x = n_id n then n' else x) xs) = Some n'"
    if "n \<in> set xs" for xs
    using that assms(2) by (induction xs) auto
  then show ?thesis using assms by (simp add: get_node_def save_node_def tbl_find_def)
qed

definition aged :: "int \<Rightarrow> int \<Rightarrow> instant \<Rightarrow> node \<Rightarrow> node_status" where
  "aged stale_minutes offline_minutes now n =
     (if n_status n = ACTIVE \<and> seen_before (now - minutes stale_minutes) n then
        (if seen_before (now - minutes offline_minutes) n then OFFLINE else STALE)
      else if n_status n = STALE \<and> seen_before (now - minutes offline_minutes) n then OFFLINE
      else n_status n)"

lemma seen_before_status [simp]: "seen_before t (n\<lparr>n_status := s\<rparr>) = seen_before t n"
  by (simp add: seen_before_def)

lemma transitions_nodes:
  assumes "get_health_stale_minutes d = Inr s" and "get_health_offline_minutes d = Inr f"
  shows "db_nodes (node_state_transitions_job now d) =
    (db_nodes d)\<lparr>rows := map (\<lambda>n. n\<lparr>n_status := aged s f now n\<rparr>) (rows (db_nodes d))\<rparr>"
  by (simp add: node_state_transitions_job_def assms bulk_status_def tbl_update_def aged_def)

lemma transitions_settings [simp]: "db_settings (node_state_transitions_job now d) = db_settings d"
  by (simp add: node_state_transitions_job_def bulk_status_def split: sum.split)

lemma transitions_only_nodes:
  "\<exists>t. node_state_transitions_job now d = d\<lparr>db_nodes := t\<rparr>"
proof -
  have same: "\<exists>t. d = d\<lparr>db_nodes := t\<rparr>" by (rule exI [of _ "db_nodes d"]) simp
  show ?thesis
    unfolding node_state_transitions_job_def bulk_status_def
    by (cases "get_health_stale_minutes d"; cases "get_health_offline_minutes d") (auto intro: same)
qed

section \<open>Properties\<close>

text \<open>
  C12: names and keys identify nodes.  In every state the program can reach, node ids, names and
  API keys are unique, and a node that has left the state pending has been seen.
\<close>

theorem reachable_nodes_identified:
  assumes "reachable d"
  shows "table_wf n_id (db_nodes d) \<and> distinct (map n_name (rows (db_nodes d))) \<and>
    distinct (map n_api_key (rows (db_nodes d))) \<and>
    (\<forall>n \<in> set (rows (db_nodes d)). n_status n \<noteq> PENDING \<longrightarrow> n_last_seen n \<noteq> None)"
  using reachable_ok [OF assms] by (auto simp: nodes_ok_def row_ok_def)

definition booted_db :: db where
  "booted_db = empty_db\<lparr>db_nodes := \<lparr>rows = [new_node 0 ''primary'' ''key'' ACTIVE (Some (Naive 0)) 1], next_id = 2\<rparr>\<rparr>"

definition stale_db :: db where
  "stale_db = empty_db\<lparr>db_nodes := \<lparr>rows = [new_node 0 ''primary'' ''key'' STALE (Some (Naive 0)) 1], next_id = 2\<rparr>\<rparr>"

lemma reachable_booted: "reachable booted_db"
proof (rule reachable.step)
  show "reachable empty_db" by (rule reachable.start) (simp add: empty_db_def)
  have "bootstrap_primary_node 0 ''primary'' ''key'' empty_db = Inr booted_db"
    by (simp add: bootstrap_primary_node_def insert_node_def tbl_find_def booted_db_def empty_db_def
        empty_table_def tbl_insert_def)
  then show "node_step empty_db booted_db" by (rule node_step.bootstrap)
qed

lemma reachable_stale: "reachable stale_db"
proof (rule reachable.step [OF reachable_booted])
  have "get_health_stale_minutes booted_db = Inr 5" and "get_health_offline_minutes booted_db = Inr 30"
    by code_simp+
  then have "node_state_transitions_job (minutes 10) booted_db = stale_db"
    by (simp add: node_state_transitions_job_def bulk_status_def tbl_update_def seen_before_def booted_db_def
        stale_db_def new_node_def duration_defs)
  then show "node_step booted_db stale_db" by (metis node_step.transitions)
qed

theorem reachable_nodes_identified_witness:
  "distinct (map n_name (rows (db_nodes booted_db)))"
  using reachable_nodes_identified [OF reachable_booted] by blast

text \<open>
  C18: quarantine cannot happen, and a node that was away cannot heartbeat.  No reachable state has
  a node in quarantine or error: when a stale or offline node sends a heartbeat, subtracting its
  stored \<open>last_seen\<close>, which comes back from the database without a time zone, from the aware
  current time raises \<open>TypeError\<close>, and the request fails without effect.
\<close>

theorem returning_node_heartbeat_fails:
  assumes "reachable (w_db w)" and "n \<in> set (rows (db_nodes (w_db w)))" and "n_api_key n \<noteq> []"
    and "get_health_quarantine_threshold_minutes (w_db w) = Inr th"
  shows "n_status n \<noteq> QUARANTINE \<and> n_status n \<noteq> ERROR \<and>
    (n_status n \<in> {STALE, OFFLINE} \<longrightarrow> heartbeat sha now (Some (n_api_key n)) hb w = Inl TypeError)"
proof -
  have ok: "nodes_ok (w_db w)" by (rule reachable_ok [OF assms(1)])
  note row = row_ok_member [OF ok assms(2)] and key = get_node_by_key [OF ok assms(2,3)]
  have "heartbeat sha now (Some (n_api_key n)) hb w = Inl TypeError" if st: "n_status n \<in> {STALE, OFFLINE}"
  proof -
    obtain t where "n_last_seen n = Some (Naive t)"
      using row st by (auto simp: row_ok_def naive_def split: option.splits py_datetime.splits)
    then show ?thesis
      using st by (auto simp: heartbeat_def key heartbeat_status_def assms(4) Let_def)
  qed
  then show ?thesis using row by (auto simp: row_ok_def)
qed

theorem returning_node_heartbeat_fails_witness:
  "heartbeat (\<lambda>s. s) (minutes 20) (Some ''key'') \<lparr>hb_queries_total = None, hb_queries_blocked = None, hb_version = None\<rparr>
     \<lparr>w_db = stale_db, w_files = Map.empty, w_writable = (\<lambda>_. True)\<rparr> = Inl TypeError"
proof -
  let ?w = "\<lparr>w_db = stale_db, w_files = Map.empty, w_writable = (\<lambda>_. True)\<rparr>"
  let ?n = "new_node 0 ''primary'' ''key'' STALE (Some (Naive 0)) 1"
  have "reachable (w_db ?w)" using reachable_stale by simp
  moreover have "?n \<in> set (rows (db_nodes (w_db ?w)))" by (simp add: stale_db_def)
  moreover have "get_health_quarantine_threshold_minutes (w_db ?w) = Inr 1440" by code_simp
  moreover have "n_api_key ?n = ''key''" "n_status ?n = STALE" by (simp_all add: new_node_def)
  ultimately show ?thesis
    using returning_node_heartbeat_fails [of ?w ?n 1440 "\<lambda>s. s" "minutes 20"] by simp
qed

text \<open>
  Only the heartbeat respects manual states.  Its comment says that error and quarantine
  require manual intervention; a heartbeat keeps them, but the next metrics report, which every
  node sends as regularly, sets the node active.
\<close>

theorem metrics_clear_manual_states:
  assumes "get_node_from_api_key key (w_db w) = Inr n" and "n_status n \<in> {ERROR, QUARANTINE}"
  shows "(\<exists>w'. heartbeat sha now key hb w = Inr (compute_config_version sha (w_files w), w') \<and>
      map_option n_status (get_node (w_db w') (n_id n)) = Some (n_status n)) \<and>
    (\<exists>d'. metrics now key mq (w_db w) = Inr (n_name n, d') \<and>
      map_option n_status (get_node d' (n_id n)) = Some ACTIVE)"
proof
  note mem = conjunct1 [OF get_node_Inr [OF assms(1)]]
  let ?m = "n\<lparr>n_last_seen := Some (Naive now), n_last_heartbeat := Some (Naive now)\<rparr>"
  have "heartbeat_status now th n = Inr ?m" for th
    using assms(2) by (auto simp: heartbeat_status_def Let_def)
  then have "heartbeat sha now key hb w = Inr (compute_config_version sha (w_files w),
      w\<lparr>w_db := save_node (heartbeat_payload hb ?m) (w_db w)\<rparr>)"
    by (simp add: heartbeat_def assms(1))
  moreover have "get_node (save_node (heartbeat_payload hb ?m) (w_db w)) (n_id n) = Some (heartbeat_payload hb ?m)"
    by (rule get_node_save [OF mem]) simp
  ultimately show "\<exists>w'. heartbeat sha now key hb w = Inr (compute_config_version sha (w_files w), w') \<and>
      map_option n_status (get_node (w_db w') (n_id n)) = Some (n_status n)" by simp
  have "get_node (save_node (seen_active now n) (w_db w)) (n_id n) = Some (seen_active now n)"
    by (rule get_node_save [OF mem]) simp
  then show "\<exists>d'. metrics now key mq (w_db w) = Inr (n_name n, d') \<and>
      map_option n_status (get_node d' (n_id n)) = Some ACTIVE"
    by (simp add: metrics_def assms(1) Let_def get_node_def)
qed

theorem metrics_clear_manual_states_witness:
  "\<exists>d'. metrics 0 (Some ''k1'') (metrics_from Map.empty)
       (sample_node_db\<lparr>db_nodes := \<lparr>rows = [sample_node\<lparr>n_status := QUARANTINE\<rparr>], next_id = 2\<rparr>\<rparr>) = Inr (''edge'', d') \<and>
     map_option n_status (get_node d' 1) = Some ACTIVE"
proof -
  let ?n = "sample_node\<lparr>n_status := QUARANTINE\<rparr>"
  let ?d = "sample_node_db\<lparr>db_nodes := \<lparr>rows = [?n], next_id = 2\<rparr>\<rparr>"
  have "get_node_from_api_key (Some ''k1'') ?d = Inr ?n"
    by (simp add: get_node_from_api_key_def tbl_find_def sample_node_def)
  moreover have "n_name ?n = ''edge''" "n_id ?n = 1" by (simp_all add: sample_node_def)
  ultimately show ?thesis
    using metrics_clear_manual_states [of "Some ''k1''" "\<lparr>w_db = ?d, w_files = Map.empty, w_writable = (\<lambda>_. True)\<rparr>" ?n]
    by simp
qed

text \<open>
  The transition job ages nodes by when they were last seen, and settles.  With readable
  thresholds, an active node not seen within the stale time becomes stale, or offline at once when
  it was not seen within the offline time either; a stale one becomes offline after the offline
  time; nothing else changes, and a second pass at the same moment changes nothing.
\<close>

theorem transitions_job_ages_nodes:
  assumes "get_health_stale_minutes d = Inr s" and "get_health_offline_minutes d = Inr f"
    and "d' = node_state_transitions_job now d"
  shows "d' = d\<lparr>db_nodes := (db_nodes d)\<lparr>rows := map (\<lambda>n. n\<lparr>n_status := aged s f now n\<rparr>) (rows (db_nodes d))\<rparr>\<rparr> \<and>
    node_state_transitions_job now d' = d'"
proof -
  have d': "d' = d\<lparr>db_nodes := (db_nodes d)\<lparr>rows := map (\<lambda>n. n\<lparr>n_status := aged s f now n\<rparr>) (rows (db_nodes d))\<rparr>\<rparr>"
    using transitions_only_nodes [of now d] transitions_nodes [OF assms(1,2), of now] assms(3) by auto
  have "db_settings d' = db_settings d" by (simp add: d')
  then have "get_health_stale_minutes d' = Inr s" "get_health_offline_minutes d' = Inr f"
    using assms(1,2) by (simp_all add: get_health_stale_minutes_def get_health_offline_minutes_def
        int_setting_def setting_or_def get_setting_def)
  note again = transitions_nodes [OF this, of now]
  have settled: "aged s f now (n\<lparr>n_status := aged s f now n\<rparr>) = aged s f now n" for n
    by (auto simp: aged_def)
  have "n\<lparr>n_status := aged s f now n, n_status := aged s f now (n\<lparr>n_status := aged s f now n\<rparr>)\<rparr> = n\<lparr>n_status := aged s f now n\<rparr>" for n
    by (simp add: settled)
  then have "db_nodes (node_state_transitions_job now d') = db_nodes d'"
    unfolding again by (simp add: d' comp_def)
  with transitions_only_nodes [of now d'] have "node_state_transitions_job now d' = d'"
    by (metis db.select_convs(1) db.surjective db.update_convs(1))
  with d' show ?thesis by simp
qed

theorem transitions_job_ages_nodes_witness:
  "map n_status (rows (db_nodes (node_state_transitions_job (minutes 40) booted_db))) = [OFFLINE]"
proof -
  have "get_health_stale_minutes booted_db = Inr 5" and "get_health_offline_minutes booted_db = Inr 30"
    by code_simp+
  from transitions_job_ages_nodes [OF this refl, of "minutes 40"] show ?thesis
    by (simp add: booted_db_def new_node_def aged_def seen_before_def duration_defs)
qed



end
