(* ===== verification/Precache.thy ===== *)
theory Precache
  imports Settings_Store
begin

text \<open>
  Cache warming (\<open>admin-ui/app/services/precache.py\<close>): which pairs of query name and type to warm,
  the shortest time to live seen per pair, when a pair is due again, and the periodic job.  The DNS
  edge is a parameter: for a pair, the moment its answer was recorded and the answer.
\<close>

section \<open>Selection\<close>

type_synonym pair = "string \<times> int"

definition warmable :: "instant \<Rightarrow> dns_query_event \<Rightarrow> bool" where
  "warmable since e \<longleftrightarrow> since \<le> ev_ts e \<and> \<not> ev_blocked e \<and> ev_rcode e = 0"

text \<open>
  \<open>GROUP BY qname, qtype ORDER BY count DESC LIMIT n\<close>; groups of equal count come in an order the
  database does not specify, here the order of first occurrence.
\<close>

definition get_top_pairs_to_warm :: "instant \<Rightarrow> int \<Rightarrow> int \<Rightarrow> nat option \<Rightarrow> db \<Rightarrow> pair list" where
  "get_top_pairs_to_warm now hrs limit max_queries d =
     (let ps = map (\<lambda>e. (ev_qname e, ev_qtype e)) (tbl_select (warmable (now - hours hrs)) (db_events d));
          ranked = sort_key (\<lambda>p. - int (count_list ps p)) (fromkeys ps);
          pairs = take (nat limit) ranked
      in case max_queries of None \<Rightarrow> pairs | Some n \<Rightarrow> take n pairs)"

definition get_top_domains_to_warm :: "instant \<Rightarrow> int \<Rightarrow> int \<Rightarrow> db \<Rightarrow> string list" where
  "get_top_domains_to_warm now hrs limit d = fromkeys (map fst (get_top_pairs_to_warm now hrs limit None d))"

section \<open>One warm query\<close>

text \<open>A response: its code, the times to live of its answers, and of its authority records with
  the minimum of those that are SOA records.\<close>

record dns_response =
  dr_rcode :: int
  dr_answer :: "int list"
  dr_authority :: "(int \<times> int option) list"

datatype dns_reply = Raised string | Response dns_response

definition DEFAULT_FALLBACK_TTL :: int where
  "DEFAULT_FALLBACK_TTL = 300"

definition min_response_ttl :: "dns_response \<Rightarrow> int option" where
  "min_response_ttl r =
     (let ttls = (if dr_answer r \<noteq> [] then dr_answer r
                  else List.map_filter (\<lambda>(ttl, soa). map_option (min ttl) soa) (dr_authority r))
      in if ttls = [] then None else Some (Min (set ttls)))"

record pair_warm_outcome =
  pw_ttl :: "int option"
  pw_error :: "string option"

fun warm_pair_ex :: "dns_reply \<Rightarrow> pair_warm_outcome" where
  "warm_pair_ex (Raised e) = \<lparr>pw_ttl = None, pw_error = Some (take 200 e)\<rparr>"
| "warm_pair_ex (Response r) =
     (if dr_rcode r \<noteq> 0 then \<lparr>pw_ttl = None, pw_error = Some (''rcode '' @ show_int (dr_rcode r))\<rparr>
      else (case min_response_ttl r of
              None \<Rightarrow> \<lparr>pw_ttl = Some DEFAULT_FALLBACK_TTL, pw_error = None\<rparr>
            | Some ttl \<Rightarrow> \<lparr>pw_ttl = Some ttl, pw_error = None\<rparr>))"

section \<open>The per-pair cache\<close>

record pair_ttl =
  pt_ttl :: int
  pt_last_warmed :: "instant option"

type_synonym ttl_cache = "pair \<Rightarrow> pair_ttl option"

definition record_warmed_pair :: "instant \<Rightarrow> pair \<Rightarrow> int \<Rightarrow> ttl_cache \<Rightarrow> ttl_cache" where
  "record_warmed_pair now p ttl c =
     (case c p of
        None \<Rightarrow> c(p \<mapsto> \<lparr>pt_ttl = ttl, pt_last_warmed = Some now\<rparr>)
      | Some x \<Rightarrow> c(p \<mapsto> x\<lparr>pt_ttl := min (pt_ttl x) ttl, pt_last_warmed := Some now\<rparr>))"

fun warm_cache_loop ::
  "(pair \<Rightarrow> instant \<times> dns_reply) \<Rightarrow> pair list \<Rightarrow> (nat \<times> nat) \<times> ttl_cache \<Rightarrow> (nat \<times> nat) \<times> ttl_cache" where
  "warm_cache_loop ask [] acc = acc"
| "warm_cache_loop ask (p # ps) ((success, failed), c) =
     (case pw_ttl (warm_pair_ex (snd (ask p))) of
        Some ttl \<Rightarrow> warm_cache_loop ask ps ((success + 1, failed), record_warmed_pair (fst (ask p)) p ttl c)
      | None \<Rightarrow> warm_cache_loop ask ps ((success, failed + 1), c))"

definition warm_cache :: "(pair \<Rightarrow> instant \<times> dns_reply) \<Rightarrow> pair list \<Rightarrow> ttl_cache \<Rightarrow> (nat \<times> nat) \<times> ttl_cache" where
  "warm_cache ask pairs c = warm_cache_loop ask pairs ((0, 0), c)"

text \<open>
  The age in microseconds from which a pair is due.  \<open>cached.ttl * 0.2\<close> seconds is a whole number
  of microseconds, so \<open>timedelta\<close> holds it exactly.
\<close>

definition refresh_threshold :: "bool \<Rightarrow> int \<Rightarrow> pair_ttl \<Rightarrow> int" where
  "refresh_threshold ignore_ttl custom x =
     (if ignore_ttl then minutes custom
      else seconds (pt_ttl x) - max (200000 * pt_ttl x) (seconds 30))"

definition needs_refresh :: "instant \<Rightarrow> bool \<Rightarrow> int \<Rightarrow> ttl_cache \<Rightarrow> pair \<Rightarrow> bool" where
  "needs_refresh now ignore_ttl custom c p =
     (case c p of
        None \<Rightarrow> True
      | Some x \<Rightarrow>
          (case pt_last_warmed x of
             None \<Rightarrow> True
           | Some last_warmed \<Rightarrow> now - last_warmed \<ge> refresh_threshold ignore_ttl custom x))"

definition get_pairs_needing_refresh :: "instant \<Rightarrow> bool \<Rightarrow> int \<Rightarrow> ttl_cache \<Rightarrow> pair list \<Rightarrow> pair list" where
  "get_pairs_needing_refresh now ignore_ttl custom c pairs = filter (needs_refresh now ignore_ttl custom c) pairs"

section \<open>The job\<close>

record precache_conf =
  pc_domain_count :: int
  pc_ignore_ttl :: bool
  pc_custom_refresh :: int
  pc_max_queries :: int

text \<open>The settings the job reads; one that cannot be converted makes it give up.\<close>

definition load_precache :: "db \<Rightarrow> precache_conf py_result" where
  "load_precache d =
     (case get_precache_dns_port d of Inl e \<Rightarrow> Inl e | Inr _ \<Rightarrow>
     (case get_precache_domain_count d of Inl e \<Rightarrow> Inl e | Inr domain_count \<Rightarrow>
     (case get_precache_custom_refresh_minutes d of Inl e \<Rightarrow> Inl e | Inr custom \<Rightarrow>
     (case get_precache_max_queries_per_pass d of Inl e \<Rightarrow> Inl e | Inr max_queries \<Rightarrow>
        Inr \<lparr>pc_domain_count = domain_count, pc_ignore_ttl = get_precache_ignore_ttl d,
             pc_custom_refresh = custom, pc_max_queries = max_queries\<rparr>))))"

definition pairs_due :: "instant \<Rightarrow> precache_conf \<Rightarrow> db \<Rightarrow> ttl_cache \<Rightarrow> pair list" where
  "pairs_due now cf d c =
     take (nat (pc_max_queries cf))
       (get_pairs_needing_refresh now (pc_ignore_ttl cf) (pc_custom_refresh cf) c
          (get_top_pairs_to_warm now 24 (pc_domain_count cf) None d))"

text \<open>The pairs that were asked, and the cache after the pass.\<close>

definition precache_warming_job ::
  "(pair \<Rightarrow> instant \<times> dns_reply) \<Rightarrow> instant \<Rightarrow> db \<Rightarrow> ttl_cache \<Rightarrow> pair list \<times> ttl_cache" where
  "precache_warming_job ask now d c =
     (if \<not> get_precache_enabled d then ([], c)
      else (case load_precache d of
              Inl _ \<Rightarrow> ([], c)
            | Inr cf \<Rightarrow>
                (let due = pairs_due now cf d c
                 in if due = [] then ([], c) else (due, snd (warm_cache ask due c)))))"

definition get_precache_stats :: "instant \<Rightarrow> (pair \<times> pair_ttl) list \<Rightarrow> nat \<times> nat \<times> nat" where
  "get_precache_stats now entries =
     (let fresh = filter (\<lambda>e. case pt_last_warmed (snd e) of None \<Rightarrow> False
                            | Some t \<Rightarrow> now - t < seconds (pt_ttl (snd e))) entries
      in (length entries, length fresh, length entries - length fresh))"

section \<open>The contract of the cache\<close>

text \<open>
  The interface warming relies on: recording keeps the shortest time to live and the latest
  moment of its pair, and leaves every other pair alone.
\<close>

locale ttl_store =
  fixes lookup :: "'c \<Rightarrow> pair \<Rightarrow> (int \<times> instant) option"
    and store :: "instant \<Rightarrow> pair \<Rightarrow> int \<Rightarrow> 'c \<Rightarrow> 'c"
  assumes store_same: "lookup (store t p ttl c) p =
      Some (case lookup c p of None \<Rightarrow> (ttl, t) | Some (old, _) \<Rightarrow> (min old ttl, t))"
    and store_other: "q \<noteq> p \<Longrightarrow> lookup (store t p ttl c) q = lookup c q"
begin

definition replay :: "(instant \<times> pair \<times> int) list \<Rightarrow> 'c \<Rightarrow> 'c" where
  "replay h c = fold (\<lambda>(t, p, ttl). store t p ttl) h c"

lemma replay_shortest:
  assumes "lookup c p = None" and "lookup (replay h c) p = Some (ttl, t)"
  shows "\<forall>(t', p', ttl') \<in> set h. p' = p \<longrightarrow> ttl \<le> ttl'" and "\<exists>ttl'. (t, p, ttl') \<in> set h"
proof -
  have "(\<forall>(t', p', ttl') \<in> set h. p' = p \<longrightarrow> ttl \<le> ttl') \<and> (\<exists>ttl'. (t, p, ttl') \<in> set h)"
    using assms(2)
  proof (induction h arbitrary: ttl t rule: rev_induct)
    case Nil
    then show ?case using assms(1) by (simp add: replay_def)
  next
    case (snoc x h)
    obtain t0 p0 ttl0 where x: "x = (t0, p0, ttl0)" by (cases x)
    have step: "replay (h @ [x]) c = store t0 p0 ttl0 (replay h c)" by (simp add: replay_def x)
    show ?case
    proof (cases "p0 = p")
      case False
      then have "lookup (replay h c) p = Some (ttl, t)"
        using snoc.prems store_other [of p p0] by (simp add: step)
      from snoc.IH [OF this] False show ?thesis by (auto simp: x)
    next
      case True
      show ?thesis
      proof (cases "lookup (replay h c) p")
        case None
        have unseen: "\<forall>(t', p', ttl') \<in> set g. p' \<noteq> p" if "lookup (replay g c) p = None" for g
          using that
        proof (induction g rule: rev_induct)
          case (snoc y g)
          obtain t1 p1 ttl1 where y: "y = (t1, p1, ttl1)" by (cases y)
          have "lookup (store t1 p1 ttl1 (replay g c)) p = None"
            using snoc.prems by (simp add: replay_def y)
          then have "p1 \<noteq> p" "lookup (replay g c) p = None"
            using store_same [of t1 p1 ttl1 "replay g c"] store_other [of p p1] by (cases "p1 = p"; simp)+
          with snoc.IH show ?case by (auto simp: y)
        qed simp
        from snoc.prems None True have "ttl = ttl0" "t = t0" using store_same by (simp_all add: step)
        then show ?thesis using unseen [OF None] True by (auto simp: x)
      next
        case (Some old)
        obtain ttl1 t1 where old: "old = (ttl1, t1)" by (cases old)
        then have "ttl = min ttl1 ttl0" "t = t0"
          using snoc.prems Some True store_same by (simp_all add: step)
        with snoc.IH [OF Some [unfolded old]] True show ?thesis by (auto simp: x)
      qed
    qed
  qed
  then show "\<forall>(t', p', ttl') \<in> set h. p' = p \<longrightarrow> ttl \<le> ttl'" and "\<exists>ttl'. (t, p, ttl') \<in> set h" by auto
qed

end

text \<open>Entries of the module always carry a time; an entry without one reads as absent.\<close>

definition lookup_pair :: "ttl_cache \<Rightarrow> pair \<Rightarrow> (int \<times> instant) option" where
  "lookup_pair c p =
     (case c p of None \<Rightarrow> None | Some x \<Rightarrow> Some (pt_ttl x, case pt_last_warmed x of None \<Rightarrow> 0 | Some t \<Rightarrow> t))"

interpretation pc: ttl_store lookup_pair record_warmed_pair
  by unfold_locales (auto simp: lookup_pair_def record_warmed_pair_def split: option.split)

section \<open>Properties\<close>

text \<open>
  C22: a pair counts as fresh only within every time to live it ever returned.  Whatever was
  recorded before, a pair that a TTL-aware pass skips was last warmed at a moment from which no
  time to live observed for that pair has run out.
\<close>

theorem fresh_pairs_within_ttl:
  assumes "c = fold (\<lambda>(t, p, ttl). record_warmed_pair t p ttl) h Map.empty"
    and "p \<in> set pairs" and "p \<notin> set (get_pairs_needing_refresh now False custom c pairs)"
  shows "\<exists>t. (\<exists>ttl. (t, p, ttl) \<in> set h) \<and>
    (\<forall>(t', p', ttl') \<in> set h. p' = p \<longrightarrow> now < t + seconds ttl')"
proof -
  obtain x t where x: "c p = Some x" "pt_last_warmed x = Some t"
    and fresh: "now - t < seconds (pt_ttl x) - max (200000 * pt_ttl x) (seconds 30)"
    using assms(2,3)
    by (auto simp: get_pairs_needing_refresh_def needs_refresh_def refresh_threshold_def split: option.splits)
  have "lookup_pair (pc.replay h Map.empty) p = Some (pt_ttl x, t)"
    using x by (simp add: lookup_pair_def pc.replay_def assms(1))
  moreover have "lookup_pair Map.empty p = None" by (simp add: lookup_pair_def)
  ultimately have short: "\<forall>(t', p', ttl') \<in> set h. p' = p \<longrightarrow> pt_ttl x \<le> ttl'" and last: "\<exists>ttl. (t, p, ttl) \<in> set h"
    using pc.replay_shortest by blast+
  have "now < t + seconds (pt_ttl x)" using fresh by (simp add: seconds_def max_def split: if_splits)
  then have "now < t + seconds ttl'" if "pt_ttl x \<le> ttl'" for ttl'
    using that by (simp add: seconds_def)
  then have "\<forall>(t', p', ttl') \<in> set h. p' = p \<longrightarrow> now < t + seconds ttl'"
    using short by (auto simp: case_prod_beta)
  with last show ?thesis by blast
qed

theorem fresh_pairs_within_ttl_witness:
  "\<exists>t. (\<exists>ttl. (t, (''a'', 1), ttl) \<in> set [(0, (''a'', 1), 300), (seconds 10, (''a'', 1), 60)])"
proof -
  let ?h = "[(0, (''a'', 1), 300), (seconds 10, (''a'', 1), 60)]"
  let ?c = "fold (\<lambda>(t, p, ttl). record_warmed_pair t p ttl) ?h Map.empty"
  have "(''a'', 1) \<notin> set (get_pairs_needing_refresh (seconds 20) False 60 ?c [(''a'', 1)])"
    by (simp add: get_pairs_needing_refresh_def needs_refresh_def refresh_threshold_def record_warmed_pair_def seconds_def)
  from fresh_pairs_within_ttl [OF refl _ this] show ?thesis by auto
qed

text \<open>
  A warming pass respects its ceiling and its selection.  Whatever the edge answers, a pass
  asks for at most the configured number of pairs, each once, and only for pairs seen in the last
  24 hours in queries that were answered and not blocked; with precaching disabled it asks nothing.
\<close>

theorem warming_pass_bounded:
  assumes "(asked, c') = precache_warming_job ask now d c"
    and "get_precache_max_queries_per_pass d = Inr n"
  shows "int (length asked) \<le> n \<and> distinct asked \<and> (get_precache_enabled d \<or> asked = []) \<and>
    set asked \<subseteq> {(ev_qname e, ev_qtype e) |e. e \<in> set (rows (db_events d)) \<and> warmable (now - hours 24) e}"
proof -
  have n: "1 \<le> n" using assms(2) by (auto simp: get_precache_max_queries_per_pass_def)
  show ?thesis
  proof (cases "asked = []")
    case False
    then obtain cf where cf: "load_precache d = Inr cf" and asked: "asked = pairs_due now cf d c"
      and on: "get_precache_enabled d"
      using assms(1) by (auto simp: precache_warming_job_def Let_def split: if_splits sum.splits)
    have max: "pc_max_queries cf = n"
      using cf assms(2) by (auto simp: load_precache_def split: sum.splits)
    let ?ps = "map (\<lambda>e. (ev_qname e, ev_qtype e)) (tbl_select (warmable (now - hours 24)) (db_events d))"
    have top: "set (get_top_pairs_to_warm now 24 m None d) \<subseteq> set ?ps"
      "distinct (get_top_pairs_to_warm now 24 m None d)" for m
      by (auto simp: get_top_pairs_to_warm_def Let_def dest: in_set_takeD)
    have "int (length asked) \<le> n" using n by (simp add: asked pairs_due_def max)
    moreover have "distinct asked" using top(2)
      by (simp add: asked pairs_due_def get_pairs_needing_refresh_def)
    moreover have "set asked \<subseteq> set ?ps"
      using top(1) [of "pc_domain_count cf"] by (auto simp: asked pairs_due_def get_pairs_needing_refresh_def dest!: in_set_takeD)
    ultimately show ?thesis using on by (auto simp: tbl_select_def)
  qed (use n in simp)
qed

theorem warming_pass_bounded_witness:
  "int (length (fst (precache_warming_job (\<lambda>_. (0, Raised [])) 0 empty_db Map.empty))) \<le> 2000"
proof -
  have "get_precache_max_queries_per_pass empty_db = Inr 2000" by code_simp
  from warming_pass_bounded [OF _ this, of "fst (precache_warming_job (\<lambda>_. (0, Raised [])) 0 empty_db Map.empty)"
      "snd (precache_warming_job (\<lambda>_. (0, Raised [])) 0 empty_db Map.empty)"]
  show ?thesis by simp
qed

end
