(* ===== verification/Agent.thy ===== *)
theory Agent
  imports Metrics_Buffer Node_Lifecycle Precache
begin

text \<open>
  The agent of a secondary node (\<open>sync-agent/agent.py\<close>): scraping and delivering metrics, syncing
  the configuration bundle to local files, executing queued commands, and the body of its main
  loop.  The replies of the primary and of the recursor are parameters; where the primary's side
  matters the handlers of the node protocol take their place.
\<close>

section \<open>Local files\<close>

definition compute_file_checksum :: "(string \<Rightarrow> string) \<Rightarrow> string \<Rightarrow> string" where
  "compute_file_checksum sha content = take 16 (sha content)"

text \<open>
  What the system calls of one write come to: the temporary file replaced the target, the target
  was rewritten in place because replacing failed, nothing was written, or the rewrite in place
  failed after truncating the target.  The last two raise.
\<close>

datatype write_outcome = Replaced | Rewritten | Unwritten | Truncated string

definition written :: "write_outcome \<Rightarrow> bool" where
  "written out = (case out of Replaced \<Rightarrow> True | Rewritten \<Rightarrow> True | Unwritten \<Rightarrow> False | Truncated _ \<Rightarrow> False)"

text \<open>The first result is \<open>None\<close> when the write raises.\<close>

definition write_if_changed ::
  "(string \<Rightarrow> string) \<Rightarrow> (string \<Rightarrow> write_outcome) \<Rightarrow> string \<Rightarrow> string \<Rightarrow> files \<Rightarrow> bool option \<times> files" where
  "write_if_changed sha sys path content fs =
     (if (case fs path of
            None \<Rightarrow> False
          | Some existing \<Rightarrow>
              compute_file_checksum sha (universal_newlines existing) = compute_file_checksum sha content)
      then (Some False, fs)
      else (case sys path of
              Replaced \<Rightarrow> (Some True, fs(path \<mapsto> content))
            | Rewritten \<Rightarrow> (Some True, fs(path \<mapsto> content))
            | Unwritten \<Rightarrow> (None, fs)
            | Truncated rest \<Rightarrow> (None, fs(path \<mapsto> rest))))"

definition local_path :: "string \<Rightarrow> string \<Rightarrow> string" where
  "local_path dir filename = dir @ ''/'' @ filename"

definition trigger_path :: "string \<Rightarrow> string" where
  "trigger_path rpz_dir = local_path rpz_dir ''.reload-trigger''"

definition trigger_reload :: "(string \<Rightarrow> write_outcome) \<Rightarrow> string \<Rightarrow> files \<Rightarrow> files" where
  "trigger_reload sys rpz_dir fs =
     (let p = trigger_path rpz_dir
      in if written (sys p) then (case fs p of None \<Rightarrow> fs(p \<mapsto> []) | Some _ \<Rightarrow> fs) else fs)"

section \<open>Metrics\<close>

text \<open>\<open>reply\<close> is the status and text of the metrics page, or nothing when the request raised.\<close>

definition scrape_recursor_metrics :: "(nat \<times> string) option \<Rightarrow> metrics_request option" where
  "scrape_recursor_metrics reply =
     (case reply of
        None \<Rightarrow> None
      | Some (status, body) \<Rightarrow>
          if status \<noteq> 200 then None
          else map_option metrics_from (scan_metrics (splitlines body) Map.empty))"

definition push_metrics ::
  "(metrics_request \<Rightarrow> 's \<Rightarrow> bool \<times> 's) \<Rightarrow> metrics_buffer \<Rightarrow> 's \<Rightarrow> metrics_buffer \<times> 's" where
  "push_metrics post b s =
     (let pending = peek 50 b
      in if pending = [] then (b, s)
         else (let (ids_to_delete, s') = push_loop post pending s
               in (if ids_to_delete = [] then b else delete ids_to_delete b, s')))"

section \<open>Configuration\<close>

text \<open>The first result is false when a write raised, which ends the loop.\<close>

fun install_rpz ::
  "(string \<Rightarrow> string) \<Rightarrow> (string \<Rightarrow> write_outcome) \<Rightarrow> string \<Rightarrow> rpz_file list \<Rightarrow> bool \<times> files \<Rightarrow> bool \<times> bool \<times> files" where
  "install_rpz sha sys rpz_dir [] (changed, fs) = (True, changed, fs)"
| "install_rpz sha sys rpz_dir (f # fl) (changed, fs) =
     (if rf_filename f \<noteq> [] \<and> rf_content f \<noteq> [] then
        (case write_if_changed sha sys (local_path rpz_dir (rf_filename f)) (rf_content f) fs of
           (None, fs') \<Rightarrow> (False, changed, fs')
         | (Some c, fs') \<Rightarrow> install_rpz sha sys rpz_dir fl (changed \<or> c, fs'))
      else install_rpz sha sys rpz_dir fl (changed, fs))"

definition fzones_content :: "zone_info list \<Rightarrow> string" where
  "fzones_content zones =
     join [newline] ([''# Forward zones synced from primary'', []] @
       map (\<lambda>z. zi_domain z @ ''='' @ zi_servers z) zones) @ [newline]"

text \<open>
  \<open>reply\<close> is the decoded bundle, or nothing when the request failed.  Files written before an
  exception stay.
\<close>

definition sync_config ::
  "(string \<Rightarrow> string) \<Rightarrow> (string \<Rightarrow> write_outcome) \<Rightarrow> string \<Rightarrow> string \<Rightarrow> config_bundle option \<Rightarrow> files \<Rightarrow>
   (bool \<times> (string \<times> string) list) \<times> files" where
  "sync_config sha sys rpz_dir fzones_path reply fs =
     (case reply of
        None \<Rightarrow> ((False, []), fs)
      | Some data \<Rightarrow>
          (case install_rpz sha sys rpz_dir (cb_rpz_files data) (False, fs) of
             (ok, changed, fs1) \<Rightarrow>
               if \<not> ok then ((False, []), fs1)
               else
                 (case (if cb_forward_zones data = [] then (Some False, fs1)
                        else write_if_changed sha sys fzones_path
                               (fzones_content (cb_forward_zones data)) fs1) of
                    (None, fs2) \<Rightarrow> ((False, []), fs2)
                  | (Some c, fs2) \<Rightarrow>
                      (let changed' = changed \<or> c
                       in ((changed', cb_settings data),
                           if changed' then trigger_reload sys rpz_dir fs2 else fs2)))))"

section \<open>Warming\<close>

text \<open>
  The primary's side (\<open>precache_domains\<close> of \<open>routers/node_sync.py\<close>) and the agent's: whether each
  domain was answered, in order.  \<open>settings.get(key, default)\<close> is \<open>setting_of\<close>.
\<close>

definition precache_domains :: "instant \<Rightarrow> int \<Rightarrow> string option \<Rightarrow> db \<Rightarrow> string list py_result" where
  "precache_domains now limit key d =
     (case get_node_from_api_key key d of
        Inl e \<Rightarrow> Inl e
      | Inr _ \<Rightarrow> Inr (get_top_domains_to_warm now 24 limit d))"

definition setting_of :: "string \<Rightarrow> string \<Rightarrow> (string \<times> string) list \<Rightarrow> string" where
  "setting_of key dflt settings = (case map_of settings key of None \<Rightarrow> dflt | Some v \<Rightarrow> v)"

text \<open>
  The resolver of the DNS library raises, here no value, or gives an answer, with the time to live of its
  record set if there is one.
\<close>

definition warm_domain :: "(string \<Rightarrow> int option option) \<Rightarrow> string \<Rightarrow> int option" where
  "warm_domain resolve domain =
     (case resolve domain of None \<Rightarrow> None | Some rrset_ttl \<Rightarrow> Some (case rrset_ttl of None \<Rightarrow> 300 | Some ttl \<Rightarrow> ttl))"

fun warm_domains :: "(string \<Rightarrow> int option option) \<Rightarrow> string list \<Rightarrow> nat \<times> nat \<Rightarrow> nat \<times> nat" where
  "warm_domains resolve [] acc = acc"
| "warm_domains resolve (d # ds) (success, failed) =
     (if warm_domain resolve d \<noteq> None then warm_domains resolve ds (success + 1, failed)
      else warm_domains resolve ds (success, failed + 1))"

text \<open>The reply of the primary: its status and the domains if it sent any, or nothing when the request raised.\<close>

definition fetch_precache_domains :: "(nat \<times> string list option) option \<Rightarrow> string list" where
  "fetch_precache_domains reply =
     (case reply of
        None \<Rightarrow> []
      | Some (status, domains) \<Rightarrow> if status \<noteq> 200 then [] else (case domains of None \<Rightarrow> [] | Some ds \<Rightarrow> ds))"

text \<open>
  \<open>fetch limit\<close> is what \<open>fetch_precache_domains\<close> returns for a limit.  A
  count that is no number raises outside every \<open>try\<close> of the agent.
\<close>

definition run_precache_warming ::
  "(int \<Rightarrow> string list) \<Rightarrow> (string \<Rightarrow> int option option) \<Rightarrow> (string \<times> string) list \<Rightarrow> (nat \<times> nat) py_result" where
  "run_precache_warming fetch resolve settings =
     (if lower (setting_of ''precache_enabled'' ''true'' settings) \<noteq> ''true'' then Inr (0, 0)
      else (case py_int (setting_of ''precache_domain_count'' ''1000'' settings) of
              None \<Rightarrow> Inl ValueError
            | Some domain_count \<Rightarrow> Inr (warm_domains resolve (fetch domain_count) (0, 0))))"

section \<open>Commands\<close>

fun clear_recursor_cache :: "flush_reply \<Rightarrow> bool \<times> string" where
  "clear_recursor_cache (Flushed n) = (True, ''flushed '' @ show_int n @ '' entries'')"
| "clear_recursor_cache (FlushRefused code e) = (False, ''status '' @ show_nat code @ '': '' @ e)"
| "clear_recursor_cache (FlushRaised e) = (False, e)"

definition execute_command :: "flush_reply \<Rightarrow> node_command \<Rightarrow> command_result_request" where
  "execute_command reply cmd =
     (let (success, result) = (if nc_command cmd = ''clear_cache'' then clear_recursor_cache reply else (False, ''unknown command''))
      in \<lparr>cr_command_id = nc_id cmd, cr_success = success, cr_result = Some result\<rparr>)"

text \<open>
  Against the primary's handlers.  \<open>reply c\<close> is what flushing for command \<open>c\<close> returned; a report
  the primary refuses is dropped.
\<close>

fun report_all :: "(node_command \<Rightarrow> flush_reply) \<Rightarrow> instant \<Rightarrow> string option \<Rightarrow> node_command list \<Rightarrow> db \<Rightarrow> db" where
  "report_all reply now key [] d = d"
| "report_all reply now key (cmd # cmds) d =
     report_all reply now key cmds
       (case report_command_result now key (execute_command (reply cmd) cmd) d of Inl _ \<Rightarrow> d | Inr d' \<Rightarrow> d')"

definition poll_and_execute_commands :: "(node_command \<Rightarrow> flush_reply) \<Rightarrow> instant \<Rightarrow> string option \<Rightarrow> db \<Rightarrow> db" where
  "poll_and_execute_commands reply now key d =
     (case get_commands key d of
        Inl _ \<Rightarrow> d
      | Inr commands \<Rightarrow> report_all reply now key commands d)"

section \<open>The main loop\<close>

record agent =
  ag_files :: files
  ag_buffer :: metrics_buffer
  ag_last_config_sync :: instant
  ag_last_config_version :: "string option"
  ag_last_precache_run :: instant
  ag_last_prune :: instant
  ag_settings :: "(string \<times> string) list"

record agent_conf =
  ac_rpz_dir :: string
  ac_fzones_path :: string
  ac_config_sync_interval :: int
  ac_precache_interval :: int

definition start_agent :: "files \<Rightarrow> metrics_buffer \<Rightarrow> agent" where
  "start_agent fs b =
     \<lparr>ag_files = fs, ag_buffer = b, ag_last_config_sync = 0, ag_last_config_version = None,
      ag_last_precache_run = 0, ag_last_prune = 0, ag_settings = []\<rparr>"

text \<open>
  What the agent asks of the primary, over a state \<open>'s\<close> of the primary: a heartbeat, which answers
  the configuration version, a metrics report, the bundle, the domains to warm, and the round of
  commands.
\<close>

record 's link =
  lk_heartbeat :: "'s \<Rightarrow> string option \<times> 's"
  lk_metrics :: "metrics_request \<Rightarrow> 's \<Rightarrow> bool \<times> 's"
  lk_config :: "'s \<Rightarrow> config_bundle option"
  lk_domains :: "int \<Rightarrow> 's \<Rightarrow> string list"
  lk_commands :: "'s \<Rightarrow> 's"

definition should_sync :: "agent_conf \<Rightarrow> instant \<Rightarrow> string option \<Rightarrow> agent \<Rightarrow> bool" where
  "should_sync cf now version a \<longleftrightarrow>
     (truthy version \<and> version \<noteq> ag_last_config_version a) \<or>
     now - ag_last_config_sync a \<ge> seconds (ac_config_sync_interval cf)"

definition agent_sync ::
  "(string \<Rightarrow> string) \<Rightarrow> (string \<Rightarrow> write_outcome) \<Rightarrow> agent_conf \<Rightarrow> instant \<Rightarrow> string option \<Rightarrow> config_bundle option \<Rightarrow> agent \<Rightarrow> agent" where
  "agent_sync sha sys cf now version reply a =
     (if should_sync cf now version a then
        (let ((changed, settings), fs') =
               sync_config sha sys (ac_rpz_dir cf) (ac_fzones_path cf) reply (ag_files a)
         in a\<lparr>ag_files := fs', ag_settings := (if settings = [] then ag_settings a else settings),
              ag_last_config_sync := now, ag_last_config_version := version\<rparr>)
      else a)"

text \<open>
  One pass of the loop at the time \<open>now\<close>; \<open>scraped\<close> is the reply of the recursor's metrics page and
  \<open>resolve\<close> the answers to warming queries.  An exception of the warming step ends the agent.
\<close>

definition agent_cycle ::
  "(string \<Rightarrow> string) \<Rightarrow> (string \<Rightarrow> write_outcome) \<Rightarrow> agent_conf \<Rightarrow> 's link \<Rightarrow> instant \<Rightarrow> (nat \<times> string) option \<Rightarrow>
   (string \<Rightarrow> int option option) \<Rightarrow> agent \<Rightarrow> 's \<Rightarrow> (agent \<times> 's) py_result" where
  "agent_cycle sha sys cf lk now scraped resolve a s =
     (let (version, s1) = lk_heartbeat lk s;
          b1 = (case scrape_recursor_metrics scraped of None \<Rightarrow> ag_buffer a | Some m \<Rightarrow> put m now (ag_buffer a));
          (b2, s2) = push_metrics (lk_metrics lk) b1 s1;
          a1 = agent_sync sha sys cf now version (lk_config lk s2) (a\<lparr>ag_buffer := b2\<rparr>);
          warm = (if now - ag_last_precache_run a1 \<ge> seconds (ac_precache_interval cf)
                  then map_sum id (\<lambda>_. a1\<lparr>ag_last_precache_run := now\<rparr>)
                         (run_precache_warming (\<lambda>limit. lk_domains lk limit s2) resolve (ag_settings a1))
                  else Inr a1)
      in case warm of
           Inl e \<Rightarrow> Inl e
         | Inr a2 \<Rightarrow>
             (let s3 = lk_commands lk s2
              in if now - ag_last_prune a2 \<ge> seconds 300
                 then Inr (a2\<lparr>ag_buffer := snd (prune None now (ag_buffer a2)), ag_last_prune := now\<rparr>, s3)
                 else Inr (a2, s3)))"

section \<open>Facts\<close>

text \<open>The primary's metrics handler as the receiver of a delivery.\<close>

definition primary_post :: "instant \<Rightarrow> string option \<Rightarrow> metrics_request \<Rightarrow> db \<Rightarrow> bool \<times> db" where
  "primary_post now key m d = (case metrics now key m d of Inl _ \<Rightarrow> (False, d) | Inr (_, d') \<Rightarrow> (True, d'))"

definition request_of_row :: "node_metrics \<Rightarrow> metrics_request" where
  "request_of_row r =
     \<lparr>mq_cache_hits = nm_cache_hits r, mq_cache_misses = nm_cache_misses r, mq_cache_entries = nm_cache_entries r,
      mq_packetcache_hits = nm_packetcache_hits r, mq_packetcache_misses = nm_packetcache_misses r,
      mq_answers_0_1 = nm_answers_0_1 r, mq_answers_1_10 = nm_answers_1_10 r, mq_answers_10_100 = nm_answers_10_100 r,
      mq_answers_100_1000 = nm_answers_100_1000 r, mq_answers_slow = nm_answers_slow r,
      mq_concurrent_queries = nm_concurrent_queries r, mq_outgoing_timeouts = nm_outgoing_timeouts r,
      mq_servfail_answers = nm_servfail_answers r, mq_nxdomain_answers = nm_nxdomain_answers r,
      mq_questions = nm_questions r, mq_all_outqueries = nm_all_outqueries r, mq_uptime_seconds = nm_uptime_seconds r\<rparr>"

definition received :: "db \<Rightarrow> metrics_request list" where
  "received d = map request_of_row (rows (db_node_metrics d))"

lemma primary_post_receives:
  "received (snd (primary_post now key m d)) = (if fst (primary_post now key m d) then received d @ [m] else received d)"
  by (auto simp: primary_post_def metrics_def received_def Let_def save_node_def request_of_row_def metrics_row_def
      split: sum.split)

lemma push_metrics_deliver:
  "push_metrics post b s = buf.deliver 50 post b s"
proof -
  have "delete [] b = b" by (simp add: delete_def)
  then show ?thesis
    by (auto simp: push_metrics_def buf.deliver_def Let_def case_prod_beta)
qed

lemma write_if_changed_frame: "p \<noteq> path \<Longrightarrow> snd (write_if_changed sha sys path content fs) p = fs p"
  by (auto simp: write_if_changed_def split: option.split write_outcome.split)

lemma write_if_changed_installs:
  assumes "written (sys path)" and "universal_newlines content = content"
    and "\<And>e. fs path = Some e \<Longrightarrow> take 16 (sha (universal_newlines e)) = take 16 (sha content) \<Longrightarrow>
      universal_newlines e = content"
  shows "\<exists>c. fst (write_if_changed sha sys path content fs) = Some c"
    and "map_option universal_newlines (snd (write_if_changed sha sys path content fs) path) = Some content"
  using assms by (auto simp: write_if_changed_def compute_file_checksum_def written_def split: option.splits write_outcome.splits)

lemma write_if_changed_ok: "written (sys path) \<Longrightarrow> \<exists>c. fst (write_if_changed sha sys path content fs) = Some c"
  by (auto simp: write_if_changed_def written_def split: write_outcome.split)

lemma local_path_inject [simp]: "local_path dir a = local_path dir b \<longleftrightarrow> a = b"
  by (simp add: local_path_def)

lemma install_rpz_ok:
  "\<forall>f \<in> set fl. written (sys (local_path rpz_dir (rf_filename f))) \<Longrightarrow>
   fst (install_rpz sha sys rpz_dir fl (ch, fs))"
proof (induction fl arbitrary: ch fs)
  case (Cons f fl)
  then obtain c where "fst (write_if_changed sha sys (local_path rpz_dir (rf_filename f)) (rf_content f) fs) = Some c"
    using write_if_changed_ok by fastforce
  then show ?case using Cons by (auto split: prod.split)
qed simp

lemma install_rpz_frame:
  "p \<notin> (\<lambda>f. local_path rpz_dir (rf_filename f)) ` set fl \<Longrightarrow>
   snd (snd (install_rpz sha sys rpz_dir fl (ch, fs))) p = fs p"
proof (induction fl arbitrary: ch fs)
  case (Cons f fl)
  then have "snd (write_if_changed sha sys (local_path rpz_dir (rf_filename f)) (rf_content f) fs) p = fs p"
    by (intro write_if_changed_frame) auto
  then show ?case using Cons by (auto split: prod.split option.split)
qed simp

lemma install_rpz_installs:
  assumes "\<forall>f \<in> set fl. written (sys (local_path rpz_dir (rf_filename f)))"
    and "distinct (map rf_filename fl)" and "f \<in> set fl" and "rf_filename f \<noteq> []" "rf_content f \<noteq> []"
    and "universal_newlines (rf_content f) = rf_content f"
    and "\<And>e. fs (local_path rpz_dir (rf_filename f)) = Some e \<Longrightarrow>
      take 16 (sha (universal_newlines e)) = take 16 (sha (rf_content f)) \<Longrightarrow> universal_newlines e = rf_content f"
  shows "map_option universal_newlines
      (snd (snd (install_rpz sha sys rpz_dir fl (ch, fs))) (local_path rpz_dir (rf_filename f))) = Some (rf_content f)"
  using assms(1,2,3,7)
proof (induction fl arbitrary: ch fs)
  case (Cons g fl)
  let ?path = "\<lambda>f. local_path rpz_dir (rf_filename f)"
  let ?w = "write_if_changed sha sys (?path g) (rf_content g) fs"
  obtain c where c: "fst ?w = Some c"
    using Cons.prems(1) write_if_changed_ok [of sys "?path g"] by fastforce
  show ?case
  proof (cases "f = g")
    case True
    note installed = write_if_changed_installs(2) [of sys "?path f" "rf_content f" fs sha, OF _ assms(6) Cons.prems(4)]
    have "map_option universal_newlines (snd ?w (?path f)) = Some (rf_content f)"
      using installed Cons.prems(1) True by simp
    moreover have "?path f \<notin> ?path ` set fl" using Cons.prems(2) True by auto
    note install_rpz_frame [OF this]
    ultimately show ?thesis using True assms(4,5) c by (auto split: prod.split)
  next
    case False
    then have f: "f \<in> set fl" using Cons.prems(3) by simp
    then have "rf_filename f \<noteq> rf_filename g" using Cons.prems(2) by (auto intro: rev_image_eqI)
    then have frame: "snd ?w (?path f) = fs (?path f)" by (intro write_if_changed_frame) simp
    have IH: "map_option universal_newlines (snd (snd (install_rpz sha sys rpz_dir fl (ch', fs'))) (?path f)) = Some (rf_content f)"
      if "fs' (?path f) = fs (?path f)" for ch' fs'
      using that Cons.prems f by (intro Cons.IH) auto
    show ?thesis using c frame IH by (auto split: prod.split)
  qed
qed simp

text \<open>A sync against the primary's bundle installs each of its zone files.\<close>

lemma sync_config_installs:
  assumes "data = config_bundle_for sha i w" and "f \<in> set (cb_rpz_files data)"
    and "\<forall>p. written (sys p)" and "rf_content f \<noteq> []"
    and "\<forall>e. fs (local_path rpz_dir (rf_filename f)) = Some e \<longrightarrow>
      take 16 (sha (universal_newlines e)) = take 16 (sha (rf_content f)) \<longrightarrow> universal_newlines e = rf_content f"
    and "fzones \<noteq> local_path rpz_dir (rf_filename f)"
  shows "map_option universal_newlines
      (snd (sync_config sha sys rpz_dir fzones (Some data) fs) (local_path rpz_dir (rf_filename f))) = Some (rf_content f)"
proof -
  let ?p = "local_path rpz_dir (rf_filename f)" and ?fl = "cb_rpz_files data"
  have files: "?fl = read_rpz_files sha (w_files w)" by (simp add: assms(1) config_bundle_for_def Let_def)
  then have names: "distinct (map rf_filename ?fl)" "rf_filename f \<in> set rpz_filenames"
    using assms(2) by (auto simp: read_rpz_files_def rpz_filenames_def map_filter_simps Let_def split: option.splits)
  have norm: "universal_newlines (rf_content f) = rf_content f"
    using assms(2) unfolding files by (auto simp: read_rpz_files_def List.map_filter_def Let_def split: option.splits)
  from names have fn: "rf_filename f \<noteq> []" "?p \<noteq> trigger_path rpz_dir"
    by (auto simp: rpz_filenames_def trigger_path_def)
  obtain ch fs1 where inst: "install_rpz sha sys rpz_dir ?fl (False, fs) = (True, ch, fs1)"
    using install_rpz_ok [of ?fl sys rpz_dir sha False fs] assms(3)
    by (cases "install_rpz sha sys rpz_dir ?fl (False, fs)") auto
  have one: "map_option universal_newlines (fs1 ?p) = Some (rf_content f)"
    using install_rpz_installs [OF _ names(1) assms(2) fn(1) assms(4) norm, of sys rpz_dir fs sha False] assms(3,5) inst
    by simp
  have trig: "trigger_reload sys rpz_dir g ?p = g ?p" for g
    using fn(2) by (simp add: trigger_reload_def Let_def split: option.split)
  obtain r fs2 where fz: "write_if_changed sha sys fzones (fzones_content (cb_forward_zones data)) fs1 = (r, fs2)"
    by fastforce
  then have "fs2 ?p = fs1 ?p"
    using write_if_changed_frame [of ?p fzones sha sys "fzones_content (cb_forward_zones data)" fs1] assms(6) by simp
  then have "snd (sync_config sha sys rpz_dir fzones (Some data) fs) ?p = fs1 ?p"
    by (simp add: sync_config_def inst fz Let_def trig split: option.split)
  with one show ?thesis by simp
qed

section \<open>Properties\<close>



definition sample_zone_world :: world where
  "sample_zone_world = \<lparr>w_db = empty_db, w_files = [rpz_path ''blocklist-combined.rpz'' \<mapsto> ''zone''], w_writable = (\<lambda>_. True)\<rparr>"

text \<open>
  Forward zones can never be emptied on a secondary.  When the primary no longer has an
  enabled zone for a node, the bundle's list is empty and the sync skips the file, so the zones
  written last stay in use.
\<close>

theorem removed_zones_linger:
  assumes "\<forall>z \<in> set (rows (db_zones (w_db w))). \<not> fz_enabled z"
    and "fzones \<notin> local_path rpz_dir ` (insert ''.reload-trigger'' (set rpz_filenames))"
  shows "snd (sync_config sha sys rpz_dir fzones (Some (config_bundle_for sha i w)) fs) fzones = fs fzones"
proof -
  let ?data = "config_bundle_for sha i w" and ?fl = "cb_rpz_files (config_bundle_for sha i w)"
  have zones: "cb_forward_zones ?data = []"
    using assms(1) by (simp add: config_bundle_for_def Let_def config_zones_def tbl_select_def filter_empty_conv)
  have "rf_filename ` set ?fl \<subseteq> set rpz_filenames"
    by (auto simp: config_bundle_for_def Let_def read_rpz_files_def List.map_filter_def split: option.splits)
  then have "fzones \<notin> (\<lambda>f. local_path rpz_dir (rf_filename f)) ` set ?fl" using assms(2) by auto
  from install_rpz_frame [OF this]
  have frame: "snd (snd (install_rpz sha sys rpz_dir ?fl (False, fs))) fzones = fs fzones" .
  have trig: "trigger_reload sys rpz_dir g fzones = g fzones" for g
    using assms(2) by (auto simp: trigger_reload_def trigger_path_def Let_def split: option.split)
  obtain ok ch fs1 where inst: "install_rpz sha sys rpz_dir ?fl (False, fs) = (ok, ch, fs1)"
    by (cases "install_rpz sha sys rpz_dir ?fl (False, fs)") auto
  have "fs1 fzones = fs fzones" using frame inst by simp
  then show ?thesis by (simp add: sync_config_def inst zones Let_def trig)
qed

theorem removed_zones_linger_witness:
  "snd (sync_config (\<lambda>s. s) (\<lambda>_. Replaced) ''/rpz'' ''/fz'' (Some (config_bundle_for (\<lambda>s. s) 1 sample_zone_world))
     [''/fz'' \<mapsto> ''corp.example=10.0.0.1'']) ''/fz'' = Some ''corp.example=10.0.0.1''"
proof -
  have "\<forall>z \<in> set (rows (db_zones (w_db sample_zone_world))). \<not> fz_enabled z"
    by (simp add: sample_zone_world_def empty_db_def empty_table_def)
  moreover have "''/fz'' \<notin> local_path ''/rpz'' ` (insert ''.reload-trigger'' (set rpz_filenames))"
    by (simp add: local_path_def rpz_filenames_def)
  ultimately show ?thesis
    using removed_zones_linger [of sample_zone_world "''/fz''" "''/rpz''" "\<lambda>s. s" "\<lambda>_. Replaced" 1] by simp
qed

end
