(* ===== verification/Sync_System.thy ===== *)
theory Sync_System
  imports Agent
begin

text \<open>
  A secondary and its primary together: the agent's loop of \<open>sync-agent/agent.py\<close> runs against the
  handlers of \<open>admin-ui/app/routers/node_sync.py\<close>.  The requests of one pass are the operations of
  \<open>primary_link\<close>; the state they act on is the primary's database and shared files.
\<close>

section \<open>The primary as the agent sees it\<close>

text \<open>
  \<open>pb\<close> is the primary's version, \<open>v\<close> the agent's, \<open>flush\<close> what flushing the agent's recursor returns
  for a command.  A request the primary refuses is a failed one for the agent.
\<close>

definition error_status :: "py_error \<Rightarrow> nat" where
  "error_status e = (case e of HTTPException code _ \<Rightarrow> code | _ \<Rightarrow> 500)"

definition primary_link ::
  "(string \<Rightarrow> string) \<Rightarrow> string \<Rightarrow> string option \<Rightarrow> string \<Rightarrow> (node_command \<Rightarrow> flush_reply) \<Rightarrow> instant \<Rightarrow> world link" where
  "primary_link sha pb key v flush now =
     \<lparr>lk_heartbeat = (\<lambda>w. case heartbeat sha now key \<lparr>hb_queries_total = None, hb_queries_blocked = None, hb_version = Some v\<rparr> w of
          Inl _ \<Rightarrow> (None, w) | Inr (version, w') \<Rightarrow> (Some version, w')),
      lk_metrics = (\<lambda>m w. case primary_post now key m (w_db w) of (ok, d) \<Rightarrow> (ok, w\<lparr>w_db := d\<rparr>)),
      lk_config = (\<lambda>w. case config sha pb key w of Inl _ \<Rightarrow> None | Inr b \<Rightarrow> Some b),
      lk_domains = (\<lambda>limit w. fetch_precache_domains
          (case precache_domains now limit key (w_db w) of Inl e \<Rightarrow> Some (error_status e, None) | Inr ds \<Rightarrow> Some (200, Some ds))),
      lk_commands = (\<lambda>w. w\<lparr>w_db := poll_and_execute_commands flush now key (w_db w)\<rparr>)\<rparr>"

section \<open>What a heartbeat and a metrics report leave alone\<close>

text \<open>The node behind a key keeps its id and version, and files, commands and settings are those of \<open>w0\<close>.\<close>

definition serves :: "string option \<Rightarrow> int \<Rightarrow> string \<Rightarrow> world \<Rightarrow> world \<Rightarrow> bool" where
  "serves key i v w0 w \<longleftrightarrow>
     (\<exists>n. get_node_from_api_key key (w_db w) = Inr n \<and> n_id n = i \<and> n_version n = Some v) \<and>
     w_files w = w_files w0 \<and> db_node_commands (w_db w) = db_node_commands (w_db w0) \<and>
     db_settings (w_db w) = db_settings (w_db w0)"

lemma heartbeat_status_keeps:
  "heartbeat_status now t n = Inr n' \<Longrightarrow>
   n_id n' = n_id n \<and> n_api_key n' = n_api_key n \<and> n_version n' = n_version n"
  by (auto simp: heartbeat_status_def Let_def split: if_splits option.splits sum.splits)

lemma save_node_tables [simp]:
  "db_node_commands (save_node n d) = db_node_commands d" "db_settings (save_node n d) = db_settings d"
  by (simp_all add: save_node_def)

lemma get_node_cong: "db_nodes d' = db_nodes d \<Longrightarrow> get_node_from_api_key key d' = get_node_from_api_key key d"
  by (simp add: get_node_from_api_key_def)

lemma heartbeat_serves:
  assumes "serves key i v w0 w"
  shows "serves key i v w0 (snd (lk_heartbeat (primary_link sha pb key v flush now) w))"
proof -
  obtain n where n: "get_node_from_api_key key (w_db w) = Inr n" "n_id n = i" "n_version n = Some v"
    using assms by (auto simp: serves_def)
  show ?thesis
  proof (cases "heartbeat_status now (get_health_quarantine_threshold_minutes (w_db w)) n")
    case (Inl e)
    then show ?thesis using assms n by (simp add: primary_link_def heartbeat_def)
  next
    case (Inr m)
    let ?m = "heartbeat_payload \<lparr>hb_queries_total = None, hb_queries_blocked = None, hb_version = Some v\<rparr> m"
    note m = heartbeat_status_keeps [OF Inr]
    then have "get_node_from_api_key key (save_node ?m (w_db w)) = Inr ?m"
      by (intro get_node_saved [OF n(1)]) (simp_all add: heartbeat_payload_def)
    then show ?thesis
      using assms n m Inr by (auto simp: serves_def primary_link_def heartbeat_def heartbeat_payload_def)
  qed
qed

lemma metrics_serves:
  assumes "serves key i v w0 w"
  shows "serves key i v w0 (snd (lk_metrics (primary_link sha pb key v flush now) m w))"
proof -
  obtain n where n: "get_node_from_api_key key (w_db w) = Inr n" "n_id n = i" "n_version n = Some v"
    using assms by (auto simp: serves_def)
  have "get_node_from_api_key key (save_node (seen_active now n) (w_db w)) = Inr (seen_active now n)"
    by (rule get_node_saved [OF n(1)]) (simp_all add: seen_active_def)
  then have "get_node_from_api_key key (save_node (seen_active now n) (w_db w)\<lparr>db_node_metrics := t\<rparr>) = Inr (seen_active now n)" for t
    by (subst get_node_cong) simp_all
  then show ?thesis
    using assms n by (simp add: serves_def primary_link_def primary_post_def metrics_def Let_def seen_active_def)
qed

lemma push_loop_keeps:
  assumes "\<And>m s. P s \<Longrightarrow> P (snd (post m s))" and "P s"
  shows "P (snd (push_loop post pending s))"
  using assms(2)
proof (induction pending arbitrary: s)
  case (Cons x pending)
  obtain j m where "x = (j, m)" by fastforce
  then show ?case using Cons assms(1) [of s m] by (simp add: case_prod_beta Let_def)
qed simp

lemma push_metrics_serves:
  "serves key i v w0 w \<Longrightarrow> serves key i v w0 (snd (push_metrics (lk_metrics (primary_link sha pb key v flush now)) b w))"
  by (auto simp: push_metrics_def Let_def case_prod_beta intro!: push_loop_keeps metrics_serves)

section \<open>What a round of commands leaves\<close>

lemma report_all_done:
  assumes "get_commands key d = Inr (filter (\<lambda>x. nc_id x \<in> nc_id ` set cs) all)" and "set cs \<subseteq> set all"
    and "distinct (map nc_id cs)" and "table_wf nc_id (db_node_commands d)"
  shows "get_commands key (report_all flush now key cs d) = Inr []"
  using assms
proof (induction cs arbitrary: d)
  case (Cons c cs)
  let ?all = "filter (\<lambda>x. nc_id x \<in> nc_id ` set (c # cs)) all"
  have "c \<in> set ?all" using Cons.prems(2) by simp
  moreover have "cr_command_id (execute_command (flush c) c) = nc_id c"
    by (simp add: execute_command_def split: prod.split)
  ultimately obtain d' where d': "report_command_result now key (execute_command (flush c) c) d = Inr d'"
    "get_commands key d' = Inr (filter (\<lambda>x. nc_id x \<noteq> nc_id c) ?all)" "table_wf nc_id (db_node_commands d')"
    using report_removes_pending [OF Cons.prems(1) _ _ Cons.prems(4)] by blast
  have "nc_id c \<notin> nc_id ` set cs" using Cons.prems(3) by simp
  then have "filter (\<lambda>x. nc_id x \<noteq> nc_id c) ?all = filter (\<lambda>x. nc_id x \<in> nc_id ` set cs) all"
    by (auto intro!: filter_cong)
  then show ?case using Cons d' by simp
qed simp

lemma poll_empties:
  assumes "get_commands key d = Inr cs" and "table_wf nc_id (db_node_commands d)"
  shows "get_commands key (poll_and_execute_commands flush now key d) = Inr []"
proof -
  have "distinct (map nc_id cs)"
    using assms by (auto simp: get_commands_def table_wf_def tbl_select_def distinct_map inj_on_def split: sum.splits)
  then show ?thesis
    using report_all_done [of key d cs cs flush now] assms by (simp add: poll_and_execute_commands_def filter_id_conv)
qed

lemma sync_config_settings:
  assumes "\<forall>p. written (sys p)"
  shows "snd (fst (sync_config sha sys rpz_dir fzones (Some data) fs)) = cb_settings data"
proof -
  obtain ch fs1 where inst: "install_rpz sha sys rpz_dir (cb_rpz_files data) (False, fs) = (True, ch, fs1)"
    using install_rpz_ok [of "cb_rpz_files data" sys rpz_dir sha False fs] assms
    by (cases "install_rpz sha sys rpz_dir (cb_rpz_files data) (False, fs)") auto
  obtain c fs2 where "write_if_changed sha sys fzones (fzones_content (cb_forward_zones data)) fs1 = (Some c, fs2)"
    using write_if_changed_ok [of sys fzones sha "fzones_content (cb_forward_zones data)" fs1] assms
    by (cases "write_if_changed sha sys fzones (fzones_content (cb_forward_zones data)) fs1") auto
  then show ?thesis by (simp add: sync_config_def inst Let_def)
qed

section \<open>Properties\<close>

text \<open>
  One pass of the agent brings its node in line with the primary.  For a node the primary
  knows, of a compatible version, whose sync is due and whose files can be written, the pass ends
  normally; every zone file the primary serves is then installed with its content, up to line ends
  and barring a collision of the truncated checksum, no command is left pending for the node, and
  the primary's files are untouched.
\<close>

theorem agent_cycle_converges:
  assumes node: "get_node_from_api_key key (w_db w) = Inr n" "n_version n = Some v"
    and compat: "fst (check_version_compatibility (Some pb) (Some v)) \<noteq> BLOCK"
    and wf: "table_wf nc_id (db_node_commands (w_db w))"
    and due: "seconds (ac_config_sync_interval cf) \<le> now - ag_last_config_sync a"
    and count: "py_int (get_setting (w_db w) ''precache_domain_count'') = Some k"
    and io: "\<forall>p. written (sys p)"
    and files: "\<forall>f \<in> set (read_rpz_files sha (w_files w)). rf_content f \<noteq> [] \<and>
      (\<forall>e. ag_files a (local_path (ac_rpz_dir cf) (rf_filename f)) = Some e \<longrightarrow>
        take 16 (sha (universal_newlines e)) = take 16 (sha (rf_content f)) \<longrightarrow> universal_newlines e = rf_content f)"
    and apart: "ac_fzones_path cf \<notin> local_path (ac_rpz_dir cf) ` set rpz_filenames"
  shows "\<exists>a' w'. agent_cycle sha sys cf (primary_link sha pb key v flush now) now scraped resolve a w = Inr (a', w') \<and>
    (\<forall>f \<in> set (read_rpz_files sha (w_files w)).
       map_option universal_newlines (ag_files a' (local_path (ac_rpz_dir cf) (rf_filename f))) = Some (rf_content f)) \<and>
    get_commands key (w_db w') = Inr [] \<and> w_files w' = w_files w"
proof -
  let ?lk = "primary_link sha pb key v flush now"
  define version w1 where hb: "version = fst (lk_heartbeat ?lk w)" "w1 = snd (lk_heartbeat ?lk w)"
  define b1 where "b1 = (case scrape_recursor_metrics scraped of None \<Rightarrow> ag_buffer a | Some m \<Rightarrow> put m now (ag_buffer a))"
  define b2 w2 where push: "b2 = fst (push_metrics (lk_metrics ?lk) b1 w1)" "w2 = snd (push_metrics (lk_metrics ?lk) b1 w1)"
  have "serves key (n_id n) v w w" using node by (simp add: serves_def)
  then have s2: "serves key (n_id n) v w w2"
    unfolding push hb by (intro push_metrics_serves heartbeat_serves)
  then obtain m where m: "get_node_from_api_key key (w_db w2) = Inr m" "n_version m = Some v"
    and same: "w_files w2 = w_files w" "db_node_commands (w_db w2) = db_node_commands (w_db w)"
      "db_settings (w_db w2) = db_settings (w_db w)"
    by (auto simp: serves_def)
  define data where "data = config_bundle_for sha (n_id m) w2"
  have reply: "lk_config ?lk w2 = Some data"
    using compat m by (auto simp: primary_link_def config_def data_def split: prod.split)
  have rpz: "cb_rpz_files data = read_rpz_files sha (w_files w)"
    by (simp add: data_def config_bundle_for_def Let_def same)
  define a1 where "a1 = agent_sync sha sys cf now version (Some data) (a\<lparr>ag_buffer := b2\<rparr>)"
  note a1 = a1_def [unfolded agent_sync_def should_sync_def]
  have installed: "map_option universal_newlines (ag_files a1 (local_path (ac_rpz_dir cf) (rf_filename f))) = Some (rf_content f)"
    if f: "f \<in> set (read_rpz_files sha (w_files w))" for f
  proof -
    have "rf_filename f \<in> set rpz_filenames"
      using f by (auto simp: read_rpz_files_def List.map_filter_def Let_def split: option.splits)
    then have sep: "ac_fzones_path cf \<noteq> local_path (ac_rpz_dir cf) (rf_filename f)" using apart by auto
    from sync_config_installs [OF data_def, of f sys "ag_files a" "ac_rpz_dir cf" "ac_fzones_path cf"]
    show ?thesis
      using f files io due sep unfolding rpz a1 by (simp add: case_prod_beta)
  qed
  have "cb_settings data \<noteq> []" by (simp add: data_def config_bundle_for_def Let_def config_setting_keys_def)
  then have "ag_settings a1 = cb_settings data"
    using due sync_config_settings [OF io] unfolding a1 by (auto simp: case_prod_beta)
  then have "setting_of ''precache_domain_count'' x (ag_settings a1) = get_setting (w_db w) ''precache_domain_count''" for x
    by (simp add: setting_of_def data_def config_bundle_for_def Let_def config_setting_keys_def get_setting_def same)
  then have "\<exists>counts. run_precache_warming (\<lambda>limit. lk_domains ?lk limit w2) resolve (ag_settings a1) = Inr counts"
    using count by (simp add: run_precache_warming_def)
  then obtain counts where warm: "run_precache_warming (\<lambda>limit. lk_domains ?lk limit w2) resolve (ag_settings a1) = Inr counts" ..
  obtain cs where "get_commands key (w_db w2) = Inr cs" using m by (simp add: get_commands_def)
  then have no_commands: "get_commands key (w_db (lk_commands ?lk w2)) = Inr []"
    using poll_empties [of key "w_db w2" cs flush now] wf same by (simp add: primary_link_def)
  have kept: "w_files (lk_commands ?lk w2) = w_files w" using same by (simp add: primary_link_def)
  have "\<exists>a'. agent_cycle sha sys cf ?lk now scraped resolve a w = Inr (a', lk_commands ?lk w2) \<and> ag_files a' = ag_files a1"
    unfolding agent_cycle_def hb(1) [symmetric] hb(2) [symmetric] case_prod_beta
    unfolding Let_def b1_def [symmetric] push [symmetric] hb [symmetric] reply a1_def [symmetric] warm by simp
  then show ?thesis using installed no_commands kept by fastforce
qed

definition served_world :: world where
  "served_world = \<lparr>w_db = sample_node_db\<lparr>db_nodes := \<lparr>rows = [sample_node\<lparr>n_version := Some ''1.2.0''\<rparr>], next_id = 2\<rparr>\<rparr>,
     w_files = [rpz_path ''blocklist-combined.rpz'' \<mapsto> ''zone''], w_writable = (\<lambda>_. True)\<rparr>"

definition fresh_agent :: agent where
  "fresh_agent = start_agent [local_path ''/rpz'' ''blocklist-combined.rpz'' \<mapsto> ''old''] (ensure_db 604800)"

definition agent_settings :: agent_conf where
  "agent_settings = \<lparr>ac_rpz_dir = ''/rpz'', ac_fzones_path = ''/fz'', ac_config_sync_interval = 300, ac_precache_interval = 300\<rparr>"

theorem agent_cycle_converges_witness:
  "\<exists>a' w'. agent_cycle (\<lambda>s. s) (\<lambda>_. Replaced) agent_settings
       (primary_link (\<lambda>s. s) ''1.3.0'' (Some ''k1'') ''1.2.0'' (\<lambda>_. Flushed 7) (seconds 300)) (seconds 300) None (\<lambda>_. None)
       fresh_agent served_world = Inr (a', w') \<and>
     map_option universal_newlines (ag_files a' (local_path ''/rpz'' ''blocklist-combined.rpz'')) = Some ''zone'' \<and>
     get_commands (Some ''k1'') (w_db w') = Inr []"
proof -
  let ?w = served_world
  have read: "read_rpz_files (\<lambda>s. s) (w_files ?w) =
      [\<lparr>rf_filename = ''blocklist-combined.rpz'', rf_content = ''zone'', rf_checksum = ''zone''\<rparr>]"
    by (simp add: read_rpz_files_def rpz_filenames_def rpz_path_def map_filter_simps Let_def served_world_def)
  have node: "get_node_from_api_key (Some ''k1'') (w_db ?w) = Inr (sample_node\<lparr>n_version := Some ''1.2.0''\<rparr>)"
    by (simp add: get_node_from_api_key_def tbl_find_def served_world_def sample_node_def)
  have compat: "fst (check_version_compatibility (Some ''1.3.0'') (Some ''1.2.0'')) \<noteq> BLOCK" by code_simp
  have wf: "table_wf nc_id (db_node_commands (w_db ?w))"
    by (simp add: served_world_def sample_node_db_def table_wf_def)
  have count: "py_int (get_setting (w_db ?w) ''precache_domain_count'') = Some 5000"
  proof -
    have "get_setting (w_db ?w) ''precache_domain_count'' = ''5000''"
      by (simp add: get_setting_def tbl_find_def served_world_def sample_node_defs DEFAULTS_def)
    then show ?thesis by code_simp
  qed
  have due: "seconds (ac_config_sync_interval agent_settings) \<le> seconds 300 - ag_last_config_sync fresh_agent"
    by (simp add: agent_settings_def fresh_agent_def start_agent_def)
  have "ac_fzones_path agent_settings \<notin> local_path (ac_rpz_dir agent_settings) ` set rpz_filenames"
    by (simp add: agent_settings_def local_path_def rpz_filenames_def)
  moreover have "\<forall>p. written ((\<lambda>_. Replaced) p)" by (simp add: written_def)
  moreover have "\<forall>f \<in> set (read_rpz_files (\<lambda>s. s) (w_files ?w)). rf_content f \<noteq> [] \<and>
      (\<forall>e. ag_files fresh_agent (local_path (ac_rpz_dir agent_settings) (rf_filename f)) = Some e \<longrightarrow>
        take 16 (universal_newlines e) = take 16 (rf_content f) \<longrightarrow> universal_newlines e = rf_content f)"
    by (simp add: read fresh_agent_def start_agent_def agent_settings_def)
  ultimately show ?thesis
    using agent_cycle_converges [OF node _ compat wf due count, of "\<lambda>_. Replaced" "\<lambda>s. s" "\<lambda>_. Flushed 7" None "\<lambda>_. None"]
    unfolding read by (auto simp: agent_settings_def)
qed

end
