(* ===== verification/Boot_Burst.thy ===== *)
theory Boot_Burst
  imports Precache Datetime_Text
begin

text \<open>
  The boot warm burst (\<open>admin-ui/app/services/boot_burst.py\<close>) and the advisory lock it shares with
  the periodic job (\<open>run_with_advisory_lock\<close> of \<open>services/scheduler.py\<close>): the two pacing gates, the
  readiness gate, the burst engine with its retries and counters, and the orchestration with its
  recorded result.  Times of the pacers are rationals in seconds; the clock readings and random
  draws are parameters.
\<close>

section \<open>The advisory lock\<close>

text \<open>
  \<open>lock_id = abs(hash(job_name)) % 2**31\<close>; \<open>hash\<close> on strings is salted per process.  The locks
  held in the database are pairs of id and session.  The job either raises, which the wrapper
  swallows, or returns a value; the lock is released in both cases.
\<close>

definition lock_id :: "(string \<Rightarrow> int) \<Rightarrow> string \<Rightarrow> int" where
  "lock_id py_hash job_name = \<bar>py_hash job_name\<bar> mod 2 ^ 31"

definition try_lock :: "int \<Rightarrow> 'sess \<Rightarrow> (int \<times> 'sess) set \<Rightarrow> bool" where
  "try_lock i sess held \<longleftrightarrow> (\<forall>(j, s) \<in> held. j = i \<longrightarrow> s = sess)"

definition run_with_advisory_lock ::
  "(string \<Rightarrow> int) \<Rightarrow> string \<Rightarrow> 'sess \<Rightarrow> (int \<times> 'sess) set \<Rightarrow> ('s \<Rightarrow> (string + 'a) \<times> 's) \<Rightarrow> 's \<Rightarrow> 'a option \<times> 's" where
  "run_with_advisory_lock py_hash job_name sess held job s =
     (if \<not> try_lock (lock_id py_hash job_name) sess held then (None, s)
      else (case job s of
              (Inl _, s') \<Rightarrow> (None, s')
            | (Inr v, s') \<Rightarrow> (Some v, s')))"

section \<open>Pacing gates\<close>

record qps_pacer =
  qp_interval :: rat
  qp_jitter_ratio :: rat
  qp_next_slot :: rat

definition new_qps_pacer :: "rat \<Rightarrow> rat \<Rightarrow> rat \<Rightarrow> qps_pacer py_result" where
  "new_qps_pacer qps jitter clock =
     (if qps \<le> 0 then Inl ValueError
      else Inr \<lparr>qp_interval = 1 / qps, qp_jitter_ratio = jitter, qp_next_slot = clock\<rparr>)"

text \<open>\<open>clock\<close> is the reading, \<open>draw\<close> the random number between 0 and twice the jitter ratio.\<close>

definition qps_wait :: "rat \<Rightarrow> rat \<Rightarrow> qps_pacer \<Rightarrow> rat \<times> qps_pacer" where
  "qps_wait clock draw p =
     (let slot = max (qp_next_slot p) clock;
          spread = 1 + draw
      in (slot, p\<lparr>qp_next_slot := slot + qp_interval p * spread\<rparr>))"

record qname_pacer =
  qn_min_interval :: rat
  qn_last :: "string \<Rightarrow> rat option"

definition qname_wait :: "rat \<Rightarrow> string \<Rightarrow> qname_pacer \<Rightarrow> rat \<times> qname_pacer" where
  "qname_wait clock qname p =
     (let due = (case qn_last p qname of None \<Rightarrow> clock | Some prev \<Rightarrow> max prev clock + qn_min_interval p)
      in (due, p\<lparr>qn_last := (qn_last p)(qname \<mapsto> due)\<rparr>))"

section \<open>Readiness\<close>

definition BOOT_READINESS_TIMEOUT :: nat where
  "BOOT_READINESS_TIMEOUT = 120000000"

definition BOOT_READINESS_POLL_INTERVAL :: nat where
  "BOOT_READINESS_POLL_INTERVAL = 2000000"

text \<open>
  Round \<open>i\<close> starts at time \<open>t\<close> and takes \<open>dur i\<close> microseconds; \<open>dns i\<close> and \<open>rec i\<close> are what the
  probes find.  The second result counts the rounds.
\<close>

function wait_from ::
  "(nat \<Rightarrow> bool) \<Rightarrow> (nat \<Rightarrow> bool) \<Rightarrow> (nat \<Rightarrow> nat) \<Rightarrow> nat \<Rightarrow> nat \<Rightarrow> nat \<Rightarrow> bool \<times> nat" where
  "wait_from dns rec dur deadline i t =
     (if dns i \<and> rec i then (True, i + 1)
      else if deadline \<le> t + dur i then (False, i + 1)
      else wait_from dns rec dur deadline (i + 1) (t + dur i + BOOT_READINESS_POLL_INTERVAL))"
  by auto
termination
  by (relation "measure (\<lambda>(dns, rec, dur, deadline, i, t). deadline - t)")
    (auto simp: BOOT_READINESS_POLL_INTERVAL_def)

declare wait_from.simps [simp del]

definition wait_for_dns_readiness ::
  "(nat \<Rightarrow> bool) \<Rightarrow> (nat \<Rightarrow> bool) \<Rightarrow> (nat \<Rightarrow> nat) \<Rightarrow> nat \<Rightarrow> bool \<times> nat" where
  "wait_for_dns_readiness dns rec dur clock = wait_from dns rec dur (clock + BOOT_READINESS_TIMEOUT) 0 clock"

section \<open>The burst engine\<close>

definition MAX_RETRIES :: nat where
  "MAX_RETRIES = 2"

record burst_stats =
  bs_attempted_pairs :: nat
  bs_queries_sent :: nat
  bs_succeeded :: nat
  bs_failed :: nat
  bs_max_concurrency :: nat
  bs_duration :: rat
  bs_top_failures :: "(pair \<times> nat \<times> string) list"

record pair_result =
  pr_pair :: pair
  pr_ok :: bool
  pr_attempts :: nat
  pr_error :: "string option"

text \<open>
  \<open>_warm_one\<close>: \<open>send k\<close> is the outcome of attempt \<open>k\<close> for the pair, \<open>left\<close> the retries left.  The
  times at which it sleeps do not change the result.
\<close>

fun warm_one :: "(nat \<Rightarrow> pair_warm_outcome) \<Rightarrow> pair \<Rightarrow> nat \<Rightarrow> nat \<Rightarrow> string option \<Rightarrow> pair_result \<times> int option" where
  "warm_one send p k left err =
     (let outcome = send k
      in case pw_ttl outcome of
           Some ttl \<Rightarrow> (\<lparr>pr_pair = p, pr_ok = True, pr_attempts = k + 1, pr_error = None\<rparr>, Some ttl)
         | None \<Rightarrow>
             (let err' = (if truthy (pw_error outcome) then pw_error outcome else err)
              in case left of
                   0 \<Rightarrow> (\<lparr>pr_pair = p, pr_ok = False, pr_attempts = k + 1, pr_error = err'\<rparr>, None)
                 | Suc l \<Rightarrow> warm_one send p (k + 1) l err'))"

declare warm_one.simps [simp del]

definition status_for :: "burst_stats \<Rightarrow> nat \<Rightarrow> string" where
  "status_for stats attempted =
     (if attempted = 0 then ''completed''
      else if bs_failed stats = 0 then ''completed''
      else if bs_succeeded stats = 0 then ''failed''
      else ''partial'')"

definition TOP_FAILURES_LIMIT :: nat where
  "TOP_FAILURES_LIMIT = 10"

definition error_text :: "string option \<Rightarrow> string" where
  "error_text err = (case err of None \<Rightarrow> ''no-successful-answer'' | Some e \<Rightarrow> if e = [] then ''no-successful-answer'' else e)"

definition format_top_failures :: "pair_result list \<Rightarrow> (pair \<times> nat \<times> string) list" where
  "format_top_failures failures =
     map (\<lambda>r. (pr_pair r, pr_attempts r, error_text (pr_error r)))
       (take TOP_FAILURES_LIMIT
          (sort_key (\<lambda>r. - int (pr_attempts r)) (sort_key (\<lambda>r. fst (pr_pair r)) (sort_key (\<lambda>r. snd (pr_pair r)) failures))))"

text \<open>
  \<open>send p k\<close> is the outcome of attempt \<open>k\<close> for \<open>p\<close>, \<open>moment p\<close> the time a success is recorded,
  and \<open>measured\<close> what the run observes: the most sends in flight and the seconds it took.
  \<open>pool.map\<close> returns the results in the order of the work list, and the pairs are distinct, so the
  other counters and the cache do not depend on how the workers interleave.
\<close>

definition run_burst ::
  "(pair \<Rightarrow> nat \<Rightarrow> pair_warm_outcome) \<Rightarrow> (pair \<Rightarrow> instant) \<Rightarrow> nat \<times> rat \<Rightarrow> pair list \<Rightarrow> ttl_cache \<Rightarrow> burst_stats \<times> ttl_cache" where
  "run_burst send moment measured pairs c =
     (let work = fromkeys pairs;
          results = map (\<lambda>p. warm_one (send p) p 0 MAX_RETRIES None) work;
          failures = filter (\<lambda>r. \<not> pr_ok r) (map fst results)
      in if work = [] then
           (\<lparr>bs_attempted_pairs = 0, bs_queries_sent = 0, bs_succeeded = 0, bs_failed = 0,
             bs_max_concurrency = 0, bs_duration = 0, bs_top_failures = []\<rparr>, c)
         else
           (\<lparr>bs_attempted_pairs = length work, bs_queries_sent = sum_list (map (\<lambda>r. pr_attempts (fst r)) results),
             bs_succeeded = length results - length failures, bs_failed = length failures,
             bs_max_concurrency = fst measured, bs_duration = snd measured,
             bs_top_failures = format_top_failures failures\<rparr>,
            fold (\<lambda>(r, ttl) c. case ttl of None \<Rightarrow> c | Some x \<Rightarrow> record_warmed_pair (moment (pr_pair r)) (pr_pair r) x c)
              results c))"

definition planned_burst_window :: "nat \<Rightarrow> rat \<Rightarrow> rat py_result" where
  "planned_burst_window num_queries qps = (if qps \<le> 0 then Inl ValueError else Inr (of_nat num_queries / qps))"

section \<open>Orchestration\<close>

record boot_burst_result =
  br_status :: string
  br_reason :: string
  br_started_at :: string
  br_finished_at :: string
  br_duration :: rat
  br_candidates :: nat
  br_skipped_fresh :: nat
  br_attempted_pairs :: nat
  br_queries_sent :: nat
  br_succeeded :: nat
  br_failed :: nat
  br_qps :: rat
  br_concurrency :: int
  br_planned_window :: rat
  br_top_failures :: "(pair \<times> nat \<times> string) list"

text \<open>The result with the defaults of its class.\<close>

definition bare_result :: "string \<Rightarrow> string \<Rightarrow> string \<Rightarrow> boot_burst_result" where
  "bare_result status reason started =
     \<lparr>br_status = status, br_reason = reason, br_started_at = started, br_finished_at = [], br_duration = 0,
      br_candidates = 0, br_skipped_fresh = 0, br_attempted_pairs = 0, br_queries_sent = 0, br_succeeded = 0,
      br_failed = 0, br_qps = 0, br_concurrency = 0, br_planned_window = 0, br_top_failures = []\<rparr>"

record burst_conf =
  bc_dns_server :: string
  bc_dns_port :: int
  bc_precache :: precache_conf
  bc_qps :: rat
  bc_concurrency :: int

definition load_config :: "db \<Rightarrow> burst_conf py_result" where
  "load_config d =
     (case load_precache d of Inl e \<Rightarrow> Inl e | Inr cf \<Rightarrow>
     (case get_precache_dns_port d of Inl e \<Rightarrow> Inl e | Inr port \<Rightarrow>
     (case get_precache_boot_burst_qps d of Inl e \<Rightarrow> Inl e | Inr qps \<Rightarrow>
     (case get_precache_boot_burst_concurrency d of Inl e \<Rightarrow> Inl e | Inr workers \<Rightarrow>
        Inr \<lparr>bc_dns_server = get_precache_dns_server d, bc_dns_port = port, bc_precache = cf,
             bc_qps = qps, bc_concurrency = workers\<rparr>))))"

text \<open>What the module keeps: the last result and the per-pair cache.\<close>

record burst_state =
  bst_last_result :: "boot_burst_result option"
  bst_cache :: ttl_cache

definition record_result :: "boot_burst_result \<Rightarrow> burst_state \<Rightarrow> burst_state" where
  "record_result r s = s\<lparr>bst_last_result := Some r\<rparr>"

text \<open>
  What a run of the burst meets outside the program: the outcome of each query, the times, the
  exception of the database query for candidates (if it raises), and the exception of the engine
  (if it raises) with the cache its workers left.
\<close>

record burst_env =
  be_send :: "string \<Rightarrow> int \<Rightarrow> pair \<Rightarrow> nat \<Rightarrow> pair_warm_outcome"
  be_moment :: "pair \<Rightarrow> instant"
  be_now :: instant
  be_finished :: instant
  be_measured :: "nat \<times> rat"
  be_query_error :: "string option"
  be_engine_error :: "(string \<times> ttl_cache) option"

definition boot_burst_body :: "burst_env \<Rightarrow> burst_conf \<Rightarrow> db \<Rightarrow> burst_state \<Rightarrow> (string + boot_burst_result) \<times> burst_state" where
  "boot_burst_body env cf d s =
     (case be_query_error env of
        Some e \<Rightarrow> (Inl e, s)
      | None \<Rightarrow>
          (let pc = bc_precache cf;
               finished = isoformat (be_finished env);
               candidates = fromkeys (get_top_pairs_to_warm (be_now env) 24 (pc_domain_count pc) None d);
               r0 = (bare_result ''no-pairs'' [] (isoformat (be_now env)))
                      \<lparr>br_qps := bc_qps cf, br_concurrency := bc_concurrency cf, br_candidates := length candidates\<rparr>
           in if candidates = [] then
                (let r = r0\<lparr>br_reason := ''no (qname, qtype) pairs observed in the last 24h'', br_finished_at := finished\<rparr>
                 in (Inr r, record_result r s))
              else
                (let needing = get_pairs_needing_refresh (be_now env) (pc_ignore_ttl pc) (pc_custom_refresh pc) (bst_cache s) candidates;
                     due = take (nat (pc_max_queries pc)) needing
                 in case planned_burst_window (length due) (bc_qps cf) of
                      Inl _ \<Rightarrow> (Inl ''qps must be > 0'', s)
                    | Inr window \<Rightarrow>
                        (let r1 = r0\<lparr>br_skipped_fresh := length candidates - length needing, br_planned_window := window\<rparr>
                         in if due = [] then
                              (let r = r1\<lparr>br_status := ''completed'', br_reason := ''all candidate pairs still fresh'',
                                          br_finished_at := finished\<rparr>
                               in (Inr r, record_result r s))
                            else
                              (case be_engine_error env of
                                 Some (e, c) \<Rightarrow>
                                   (let r = r1\<lparr>br_status := ''error'', br_reason := ''burst engine failed: '' @ e,
                                               br_finished_at := finished\<rparr>
                                    in (Inr r, record_result r (s\<lparr>bst_cache := c\<rparr>)))
                               | None \<Rightarrow>
                                   (let (stats, c) = run_burst (be_send env (bc_dns_server cf) (bc_dns_port cf)) (be_moment env)
                                                       (be_measured env) due (bst_cache s);
                                        r = r1\<lparr>br_status := status_for stats (bs_attempted_pairs stats),
                                               br_attempted_pairs := bs_attempted_pairs stats,
                                               br_queries_sent := bs_queries_sent stats,
                                               br_succeeded := bs_succeeded stats, br_failed := bs_failed stats,
                                               br_duration := bs_duration stats, br_top_failures := bs_top_failures stats,
                                               br_finished_at := finished\<rparr>
                                    in (Inr r, record_result r (s\<lparr>bst_cache := c\<rparr>))))))))"

definition WARMING_LOCK_JOB_NAME :: string where
  "WARMING_LOCK_JOB_NAME = ''precache_warming''"

text \<open>
  \<open>ready\<close> is the answer of the readiness gate for the configured server, \<open>show_error\<close> the text of an
  exception.
\<close>

definition boot_burst_entry ::
  "(string \<Rightarrow> int) \<Rightarrow> 'sess \<Rightarrow> (int \<times> 'sess) set \<Rightarrow> (string \<Rightarrow> int \<Rightarrow> bool) \<Rightarrow> (py_error \<Rightarrow> string) \<Rightarrow> instant \<Rightarrow>
   burst_env \<Rightarrow> db \<Rightarrow> burst_state \<Rightarrow> burst_state" where
  "boot_burst_entry py_hash sess held ready show_error started env d s =
     (let bare = (\<lambda>status reason. bare_result status reason (isoformat started))
      in if \<not> get_precache_enabled d \<or> \<not> get_precache_boot_burst_enabled d then
           record_result (bare ''disabled'' ''precache or boot burst disabled in settings'') s
         else (case load_config d of
              Inl e \<Rightarrow> record_result (bare ''error'' (''settings load failed: '' @ show_error e)) s
            | Inr cf \<Rightarrow>
                if \<not> ready (bc_dns_server cf) (bc_dns_port cf) then
                  record_result ((bare ''unready'' ''dnsdist/recursor not reachable within the bounded wait'')
                    \<lparr>br_qps := bc_qps cf, br_concurrency := bc_concurrency cf\<rparr>) s
                else
                  (case run_with_advisory_lock py_hash WARMING_LOCK_JOB_NAME sess held (boot_burst_body env cf d) s of
                     (None, s') \<Rightarrow>
                       record_result ((bare ''skipped-lock''
                         ''advisory lock held by the periodic warming job or another instance'')
                         \<lparr>br_qps := bc_qps cf, br_concurrency := bc_concurrency cf\<rparr>) s'
                   | (Some r, s') \<Rightarrow> s')))"

text \<open>
  The times at which queries leave when each of a sequence of workers asks both gates, the rate
  gate at time 0 and the name gate when its slot has come.
\<close>

fun paced_sends :: "string list \<Rightarrow> qps_pacer \<Rightarrow> qname_pacer \<Rightarrow> rat list" where
  "paced_sends [] p n = []"
| "paced_sends (q # qs) p n =
     (let (slot, p') = qps_wait 0 0 p; (due, n') = qname_wait slot q n in due # paced_sends qs p' n')"

text \<open>The slots a gate gives to a sequence of requests, each with its clock reading and draw.\<close>

fun slots :: "(rat \<Rightarrow> rat \<Rightarrow> 'p \<Rightarrow> rat \<times> 'p) \<Rightarrow> (rat \<times> rat) list \<Rightarrow> 'p \<Rightarrow> rat list" where
  "slots wait [] p = []"
| "slots wait ((t, u) # reqs) p = fst (wait t u p) # slots wait reqs (snd (wait t u p))"

section \<open>The contract of a pacer\<close>

text \<open>
  What both gates promise: a slot is never before the moment of asking nor before the earliest
  next slot, and the earliest next slot is at least a gap later.
\<close>

locale slot_pacer =
  fixes wait :: "rat \<Rightarrow> rat \<Rightarrow> 'p \<Rightarrow> rat \<times> 'p" and earliest :: "'p \<Rightarrow> rat option" and gap :: "'p \<Rightarrow> rat"
    and ok :: "'p \<Rightarrow> bool" and draw_ok :: "rat \<Rightarrow> bool"
  assumes wait_ok: "ok p \<Longrightarrow> draw_ok u \<Longrightarrow> ok (snd (wait t u p)) \<and> gap (snd (wait t u p)) = gap p"
    and wait_slot: "ok p \<Longrightarrow> draw_ok u \<Longrightarrow> earliest p = Some e \<Longrightarrow> e \<le> fst (wait t u p)"
    and wait_next: "ok p \<Longrightarrow> draw_ok u \<Longrightarrow> \<exists>e. earliest (snd (wait t u p)) = Some e \<and> fst (wait t u p) + gap p \<le> e"
begin

lemma slots_after:
  "ok p \<Longrightarrow> \<forall>(t, u) \<in> set reqs. draw_ok u \<Longrightarrow> earliest p = Some e \<Longrightarrow> 0 \<le> gap p \<Longrightarrow>
   i < length (slots wait reqs p) \<Longrightarrow> e + of_nat i * gap p \<le> slots wait reqs p ! i"
proof (induction reqs arbitrary: p e i)
  case (Cons r reqs)
  obtain t u where r: "r = (t, u)" by (cases r)
  let ?p = "snd (wait t u p)"
  have u: "draw_ok u" using Cons.prems(2) by (simp add: r)
  note slot = wait_slot [OF Cons.prems(1) u Cons.prems(3), of t]
  obtain e' where e': "earliest ?p = Some e'" "fst (wait t u p) + gap p \<le> e'"
    using wait_next [OF Cons.prems(1) u] by blast
  have p: "ok ?p" "gap ?p = gap p" using wait_ok [OF Cons.prems(1) u] by auto
  show ?case
  proof (cases i)
    case 0
    then show ?thesis using slot by (simp add: r)
  next
    case (Suc j)
    have "e' + of_nat j * gap ?p \<le> slots wait reqs ?p ! j"
      using Cons.prems Suc e' p by (intro Cons.IH) (auto simp: r)
    then show ?thesis using slot e'(2) p(2) by (simp add: r Suc algebra_simps)
  qed
qed simp

lemma slots_spaced:
  "ok p \<Longrightarrow> \<forall>(t, u) \<in> set reqs. draw_ok u \<Longrightarrow> 0 \<le> gap p \<Longrightarrow> i \<le> j \<Longrightarrow> j < length (slots wait reqs p) \<Longrightarrow>
   slots wait reqs p ! i + of_nat (j - i) * gap p \<le> slots wait reqs p ! j"
proof (induction reqs arbitrary: p i j)
  case (Cons r reqs)
  obtain t u where r: "r = (t, u)" by (cases r)
  let ?p = "snd (wait t u p)"
  have u: "draw_ok u" using Cons.prems(2) by (simp add: r)
  obtain e' where e': "earliest ?p = Some e'" "fst (wait t u p) + gap p \<le> e'"
    using wait_next [OF Cons.prems(1) u] by blast
  have p: "ok ?p" "gap ?p = gap p" using wait_ok [OF Cons.prems(1) u] by auto
  have rest: "\<forall>(t, u) \<in> set reqs. draw_ok u" using Cons.prems(2) by (simp add: r)
  show ?case
  proof (cases i)
    case 0
    show ?thesis
    proof (cases j)
      case (Suc m)
      then have "e' + of_nat m * gap ?p \<le> slots wait reqs ?p ! m"
        using Cons.prems p e'(1) rest by (intro slots_after) (auto simp: r)
      then show ?thesis using e'(2) p(2) 0 Suc by (simp add: r algebra_simps)
    qed (use 0 in simp)
  next
    case (Suc i')
    then obtain j' where j: "j = Suc j'" using Cons.prems(4) by (cases j) auto
    have "slots wait reqs ?p ! i' + of_nat (j' - i') * gap ?p \<le> slots wait reqs ?p ! j'"
      using Cons.prems p rest Suc j by (intro Cons.IH) (auto simp: r)
    then show ?thesis using p(2) Suc j by (simp add: r)
  qed
qed simp

end

interpretation qps: slot_pacer qps_wait "\<lambda>p. Some (qp_next_slot p)" qp_interval "\<lambda>p. 0 < qp_interval p" "\<lambda>u. 0 \<le> u"
proof
  fix p :: qps_pacer and t u :: rat
  assume p: "0 < qp_interval p" and u: "0 \<le> u"
  show "0 < qp_interval (snd (qps_wait t u p)) \<and> qp_interval (snd (qps_wait t u p)) = qp_interval p"
    using p by (simp add: qps_wait_def Let_def)
  have "qp_interval p \<le> qp_interval p * (1 + u)" using p u by (simp add: algebra_simps)
  then show "\<exists>e. Some (qp_next_slot (snd (qps_wait t u p))) = Some e \<and> fst (qps_wait t u p) + qp_interval p \<le> e"
    by (simp add: qps_wait_def Let_def)
qed (auto simp: qps_wait_def Let_def)

text \<open>For one query name; the draw is not used.\<close>

interpretation qname: slot_pacer "\<lambda>t u. qname_wait t q" "\<lambda>p. map_option (\<lambda>l. l + qn_min_interval p) (qn_last p q)"
  qn_min_interval "\<lambda>p. 0 \<le> qn_min_interval p" "\<lambda>u. True" for q
  by unfold_locales (auto simp: qname_wait_def Let_def split: option.split)

section \<open>Facts on the engine\<close>

lemma warm_one_facts:
  "pr_pair (fst (warm_one send p k left err)) = p \<and>
   k < pr_attempts (fst (warm_one send p k left err)) \<and>
   pr_attempts (fst (warm_one send p k left err)) \<le> k + left + 1 \<and>
   (pr_ok (fst (warm_one send p k left err)) \<longleftrightarrow> (\<exists>i. k \<le> i \<and> i \<le> k + left \<and> pw_ttl (send i) \<noteq> None)) \<and>
   (pr_ok (fst (warm_one send p k left err)) \<longleftrightarrow> snd (warm_one send p k left err) \<noteq> None)"
proof (induction left arbitrary: k err)
  case 0
  then show ?case by (subst (1 2 3 4 5 6) warm_one.simps) (auto simp: Let_def split: option.split)
next
  case (Suc l)
  show ?case
  proof (cases "pw_ttl (send k)")
    case None
    define err' where "err' = (if truthy (pw_error (send k)) then pw_error (send k) else err)"
    have step: "warm_one send p k (Suc l) err = warm_one send p (k + 1) l err'"
      by (subst warm_one.simps) (simp add: None err'_def Let_def)
    have "k \<le> i \<and> i \<le> k + Suc l \<and> pw_ttl (send i) \<noteq> None \<longleftrightarrow>
        k + 1 \<le> i \<and> i \<le> k + 1 + l \<and> pw_ttl (send i) \<noteq> None" for i
      using None by (cases "i = k") auto
    then show ?thesis unfolding step using Suc.IH [of "k + 1" err'] by auto
  next
    case (Some ttl)
    then have "warm_one send p k (Suc l) err = (\<lparr>pr_pair = p, pr_ok = True, pr_attempts = k + 1, pr_error = None\<rparr>, Some ttl)"
      by (subst warm_one.simps) (simp add: Let_def)
    with Some show ?thesis by auto
  qed
qed

lemma warm_one_attempts:
  "k + 1 \<le> pr_attempts (fst (warm_one send p k left err)) \<and>
   pr_attempts (fst (warm_one send p k left err)) \<le> k + left + 1"
  using warm_one_facts [of send p k left err] by simp

lemma warm_one_ok:
  "pr_ok (fst (warm_one send p k left err)) \<longleftrightarrow> (\<exists>i. k \<le> i \<and> i \<le> k + left \<and> pw_ttl (send i) \<noteq> None)"
  using warm_one_facts [of send p k left err] by (elim conjE)

lemma sum_list_bounds:
  fixes f :: "'a \<Rightarrow> nat"
  shows "\<forall>x \<in> set xs. lo \<le> f x \<and> f x \<le> hi \<Longrightarrow> lo * length xs \<le> sum_list (map f xs) \<and> sum_list (map f xs) \<le> hi * length xs"
  by (induction xs) auto

lemma run_burst_counters:
  fixes send moment measured pairs c
  defines "stats \<equiv> fst (run_burst send moment measured pairs c)" and "r \<equiv> \<lambda>p. fst (warm_one (send p) p 0 2 None)"
  shows "bs_attempted_pairs stats = length (fromkeys pairs)"
    and "bs_queries_sent stats = sum_list (map (\<lambda>p. pr_attempts (r p)) (fromkeys pairs))"
    and "bs_failed stats = length (filter (\<lambda>p. \<not> pr_ok (r p)) (fromkeys pairs))"
    and "bs_succeeded stats + bs_failed stats = length (fromkeys pairs)"
  by (simp_all add: stats_def r_def run_burst_def Let_def MAX_RETRIES_def comp_def filter_map)

lemma wait_from_rounds:
  "snd (wait_from dns rec dur deadline i t) \<le>
     i + 1 + (deadline - t + BOOT_READINESS_POLL_INTERVAL - 1) div BOOT_READINESS_POLL_INTERVAL"
proof (induction dns rec dur deadline i t rule: wait_from.induct)
  case (1 dns rec dur deadline i t)
  let ?P = "BOOT_READINESS_POLL_INTERVAL"
  show ?case
  proof (cases "dns i \<and> rec i \<or> deadline \<le> t + dur i")
    case True
    then show ?thesis by (subst wait_from.simps) auto
  next
    case False
    let ?t = "t + dur i + ?P"
    have "deadline - ?t + ?P - 1 + ?P \<le> deadline - t + ?P - 1 \<or> deadline - ?t = 0 \<and> ?P \<le> deadline - t + ?P - 1"
      using False by (auto simp: BOOT_READINESS_POLL_INTERVAL_def)
    then have "(deadline - ?t + ?P - 1) div ?P + 1 \<le> (deadline - t + ?P - 1) div ?P"
    proof
      assume "deadline - ?t + ?P - 1 + ?P \<le> deadline - t + ?P - 1"
      note div_le_mono [OF this, of ?P]
      moreover have "(deadline - ?t + ?P - 1 + ?P) div ?P = (deadline - ?t + ?P - 1) div ?P + 1"
        by (rule div_add_self2) (simp add: BOOT_READINESS_POLL_INTERVAL_def)
      ultimately show ?thesis by simp
    next
      assume "deadline - ?t = 0 \<and> ?P \<le> deadline - t + ?P - 1"
      then have "(deadline - ?t + ?P - 1) div ?P = 0" "1 \<le> (deadline - t + ?P - 1) div ?P"
        using div_le_mono [of ?P "deadline - t + ?P - 1" ?P] by (simp_all add: BOOT_READINESS_POLL_INTERVAL_def)
      then show ?thesis by simp
    qed
    moreover have "wait_from dns rec dur deadline i t = wait_from dns rec dur deadline (i + 1) ?t"
      using False by (subst wait_from.simps) auto
    ultimately show ?thesis using "1.IH" False by auto
  qed
qed

lemma wait_from_result:
  "(fst (wait_from dns rec dur deadline i t) \<longrightarrow>
      i < snd (wait_from dns rec dur deadline i t) \<and>
      dns (snd (wait_from dns rec dur deadline i t) - 1) \<and> rec (snd (wait_from dns rec dur deadline i t) - 1)) \<and>
   (\<not> fst (wait_from dns rec dur deadline i t) \<longrightarrow>
      (\<forall>j. i \<le> j \<and> j < snd (wait_from dns rec dur deadline i t) \<longrightarrow> \<not> (dns j \<and> rec j)))"
proof (induction dns rec dur deadline i t rule: wait_from.induct)
  case (1 dns rec dur deadline i t)
  show ?case
  proof (cases "dns i \<and> rec i \<or> deadline \<le> t + dur i")
    case True
    then show ?thesis by (subst (1 2 3 4 5 6) wait_from.simps) (auto simp: less_Suc_eq_le)
  next
    case False
    let ?r = "wait_from dns rec dur deadline (i + 1) (t + dur i + BOOT_READINESS_POLL_INTERVAL)"
    have step: "wait_from dns rec dur deadline i t = ?r"
      using False by (subst wait_from.simps) auto
    have "\<not> (dns i \<and> rec i)" using False by blast
    then have "j = i \<or> i + 1 \<le> j \<Longrightarrow> (i + 1 \<le> j \<Longrightarrow> \<not> (dns j \<and> rec j)) \<Longrightarrow> \<not> (dns j \<and> rec j)" for j by auto
    then show ?thesis unfolding step using "1.IH" False by (metis Suc_eq_plus1 Suc_leI Suc_lessD le_neq_implies_less)
  qed
qed

section \<open>Properties\<close>

text \<open>
  C23: the rate gate is a hard ceiling.  Whatever the clock reads and however the jitter is drawn
  (it is never negative), the slots given to successive queries are at least \<open>1 / qps\<close> apart, so
  \<open>k\<close> queries after a slot the next one is at least \<open>k / qps\<close> seconds later.
\<close>

theorem qps_slots_spaced:
  assumes "new_qps_pacer rate jitter clock = Inr p" and "\<forall>(t, u) \<in> set reqs. 0 \<le> u"
    and "i \<le> j" and "j < length (slots qps_wait reqs p)"
  shows "slots qps_wait reqs p ! i + of_nat (j - i) / rate \<le> slots qps_wait reqs p ! j"
proof -
  have "0 < rate" and p: "qp_interval p = 1 / rate"
    using assms(1) by (auto simp: new_qps_pacer_def split: if_splits)
  then show ?thesis
    using qps.slots_spaced [OF _ assms(2) _ assms(3,4)] by simp
qed

theorem qps_slots_spaced_witness:
  "slots qps_wait [(0, 0), (0, 1/10)] \<lparr>qp_interval = 1 / 50, qp_jitter_ratio = 1/10, qp_next_slot = 0\<rparr> ! 0 + of_nat (1 - 0) / 50 \<le>
   slots qps_wait [(0, 0), (0, 1/10)] \<lparr>qp_interval = 1 / 50, qp_jitter_ratio = 1/10, qp_next_slot = 0\<rparr> ! 1"
proof -
  have "new_qps_pacer 50 (1/10) 0 = Inr \<lparr>qp_interval = 1 / 50, qp_jitter_ratio = 1/10, qp_next_slot = 0\<rparr>"
    by (simp add: new_qps_pacer_def)
  from qps_slots_spaced [OF this, of "[(0, 0), (0, 1/10)]" 0 1] show ?thesis by simp
qed

text \<open>
  The ceiling does not survive the second gate.  The name gate delays a query after its slot
  was taken, so queries can leave together: at 10 queries per second, four queries of which the
  first two ask for the same name leave at 0, 0.3, 0.2 and 0.3 seconds, two of them together.
\<close>

theorem name_gate_breaks_ceiling:
  "paced_sends [''a'', ''a'', ''b'', ''c'']
     \<lparr>qp_interval = 1 / 10, qp_jitter_ratio = 1 / 10, qp_next_slot = 0\<rparr>
     \<lparr>qn_min_interval = 1 / 5, qn_last = Map.empty\<rparr> = [0, 3 / 10, 2 / 10, 3 / 10]"
  by (simp add: qps_wait_def qname_wait_def Let_def)

text \<open>
  C24: the burst's counters add up and its status is honest.  Each distinct pair is attempted once,
  with one to three queries; it succeeds exactly when one of its three attempts would be answered;
  successes and failures make up the attempts, and the status is \<open>completed\<close> exactly when nothing
  failed.
\<close>

theorem burst_accounting:
  assumes "(stats, c') = run_burst send moment measured pairs c"
  shows "bs_attempted_pairs stats = card (set pairs) \<and>
    bs_succeeded stats + bs_failed stats = bs_attempted_pairs stats \<and>
    bs_attempted_pairs stats \<le> bs_queries_sent stats \<and> bs_queries_sent stats \<le> 3 * bs_attempted_pairs stats \<and>
    bs_failed stats = card {p \<in> set pairs. \<forall>k \<le> 2. pw_ttl (send p k) = None} \<and>
    (status_for stats (bs_attempted_pairs stats) = ''completed'' \<longleftrightarrow> bs_failed stats = 0)"
proof -
  let ?work = "fromkeys pairs" and ?r = "\<lambda>p. warm_one (send p) p 0 2 None"
  have stats: "stats = fst (run_burst send moment measured pairs c)" using assms by (metis fst_conv)
  have work: "length ?work = card (set pairs)"
    by (metis distinct_card distinct_fromkeys set_fromkeys)
  have ok: "pr_ok (fst (?r p)) \<longleftrightarrow> \<not> (\<forall>k \<le> 2. pw_ttl (send p k) = None)" for p
    by (simp only: warm_one_ok add_0 le0 simp_thms not_all not_imp)
  note counters = run_burst_counters [of send moment measured pairs c, folded stats]
  have "card (set (filter (\<lambda>p. \<forall>k \<le> 2. pw_ttl (send p k) = None) ?work)) =
      length (filter (\<lambda>p. \<forall>k \<le> 2. pw_ttl (send p k) = None) ?work)"
    by (rule distinct_card, rule distinct_filter, rule distinct_fromkeys)
  then have failed: "bs_failed stats = card {p \<in> set pairs. \<forall>k \<le> 2. pw_ttl (send p k) = None}"
    unfolding counters ok not_not set_filter set_fromkeys by (rule sym)
  have "\<forall>p \<in> set ?work. 1 \<le> pr_attempts (fst (?r p)) \<and> pr_attempts (fst (?r p)) \<le> 3"
    using warm_one_attempts [where k = 0 and left = 2 and err = None] by (simp add: eval_nat_numeral)
  from sum_list_bounds [OF this]
  have sent: "length ?work \<le> bs_queries_sent stats \<and> bs_queries_sent stats \<le> 3 * length ?work"
    by (simp add: counters)
  note split = counters(4) and attempted = counters(1)
  have "bs_attempted_pairs stats = 0 \<Longrightarrow> bs_failed stats = 0" using split attempted by simp
  then have "status_for stats (bs_attempted_pairs stats) = ''completed'' \<longleftrightarrow> bs_failed stats = 0"
    by (auto simp: status_for_def)
  with work failed sent split attempted show ?thesis by simp
qed

theorem burst_accounting_witness:
  "bs_attempted_pairs (fst (run_burst (\<lambda>p k. \<lparr>pw_ttl = if k = 1 then Some 60 else None, pw_error = None\<rparr>) (\<lambda>_. 0) (1, 1)
     [(''a'', 1), (''b'', 1), (''a'', 1)] Map.empty)) = card (set [(''a'', 1 :: int), (''b'', 1), (''a'', 1)])"
  using burst_accounting [of "fst (run_burst (\<lambda>p k. \<lparr>pw_ttl = if k = 1 then Some 60 else None, pw_error = None\<rparr>) (\<lambda>_. 0) (1, 1)
     [(''a'', 1), (''b'', 1), (''a'', 1)] Map.empty)" "snd (run_burst (\<lambda>p k. \<lparr>pw_ttl = if k = 1 then Some 60 else None, pw_error = None\<rparr>) (\<lambda>_. 0) (1, 1)
     [(''a'', 1), (''b'', 1), (''a'', 1)] Map.empty)"]
  by (simp only: prod.collapse)

text \<open>
  C25: waiting for the DNS stack is bounded and decides by what the probes found.  After at most 61
  rounds the wait ends, with success exactly when both probes succeeded in its last round, and with
  failure only when no round found both.
\<close>

theorem readiness_wait_bounded:
  assumes "(ready, rounds) = wait_for_dns_readiness dns rec dur clock"
  shows "rounds \<le> 61 \<and> (if ready then 0 < rounds \<and> dns (rounds - 1) \<and> rec (rounds - 1)
    else (\<forall>j < rounds. \<not> (dns j \<and> rec j)))"
proof -
  let ?r = "wait_from dns rec dur (clock + BOOT_READINESS_TIMEOUT) 0 clock"
  have r: "ready = fst ?r" "rounds = snd ?r"
    using assms by (simp_all add: wait_for_dns_readiness_def prod_eq_iff)
  have "rounds \<le> 61"
    using wait_from_rounds [of dns rec dur "clock + BOOT_READINESS_TIMEOUT" 0 clock]
    by (simp add: r BOOT_READINESS_TIMEOUT_def BOOT_READINESS_POLL_INTERVAL_def)
  then show ?thesis
    using wait_from_result [of dns rec dur "clock + BOOT_READINESS_TIMEOUT" 0 clock] by (simp add: r)
qed

theorem readiness_wait_bounded_witness:
  "snd (wait_for_dns_readiness (\<lambda>_. False) (\<lambda>_. True) (\<lambda>_. 0) 0) \<le> 61"
  using readiness_wait_bounded [of "fst (wait_for_dns_readiness (\<lambda>_. False) (\<lambda>_. True) (\<lambda>_. 0) 0)"
      "snd (wait_for_dns_readiness (\<lambda>_. False) (\<lambda>_. True) (\<lambda>_. 0) 0)"] by simp

text \<open>
  A burst that fails is reported as skipped.  The lock wrapper swallows exceptions of its job,
  so when the query for candidates raises while the lock was free, the recorded result says that
  the lock was held by another job.
\<close>

theorem failed_burst_reported_as_skipped:
  assumes "get_precache_enabled d" and "get_precache_boot_burst_enabled d" and "load_config d = Inr cf"
    and "ready (bc_dns_server cf) (bc_dns_port cf)" and "be_query_error env = Some e"
    and "try_lock (lock_id py_hash WARMING_LOCK_JOB_NAME) sess held"
  shows "\<exists>r. bst_last_result (boot_burst_entry py_hash sess held ready show_error started env d s) = Some r \<and>
    br_status r = ''skipped-lock'' \<and>
    br_reason r = ''advisory lock held by the periodic warming job or another instance''"
  using assms
  by (simp add: boot_burst_entry_def run_with_advisory_lock_def boot_burst_body_def record_result_def bare_result_def Let_def)

definition failing_env :: burst_env where
  "failing_env = \<lparr>be_send = \<lambda>_ _ _ _. \<lparr>pw_ttl = None, pw_error = None\<rparr>, be_moment = \<lambda>_. 0, be_now = 0, be_finished = 0,
     be_measured = (0, 0), be_query_error = Some ''database gone'', be_engine_error = None\<rparr>"

theorem failed_burst_reported_as_skipped_witness:
  "\<exists>r. bst_last_result (boot_burst_entry (\<lambda>_. 0) (1 :: nat) {} (\<lambda>_ _. True) (\<lambda>_. []) 0 failing_env empty_db
       \<lparr>bst_last_result = None, bst_cache = Map.empty\<rparr>) = Some r \<and>
     br_status r = ''skipped-lock'' \<and>
     br_reason r = ''advisory lock held by the periodic warming job or another instance''"
proof -
  have on: "get_precache_enabled empty_db" "get_precache_boot_burst_enabled empty_db" by code_simp+
  obtain cf where cf: "load_config empty_db = Inr cf"
  proof -
    have "get_precache_dns_port empty_db = Inr 53" "get_precache_domain_count empty_db = Inr 5000"
      "get_precache_custom_refresh_minutes empty_db = Inr 60" "get_precache_max_queries_per_pass empty_db = Inr 2000"
      "get_precache_boot_burst_qps empty_db = Inr 50" "get_precache_boot_burst_concurrency empty_db = Inr 8"
      by code_simp+
    then show ?thesis by (intro that) (simp add: load_config_def load_precache_def)
  qed
  show ?thesis
    by (rule failed_burst_reported_as_skipped [OF on cf]) (simp_all add: failing_env_def try_lock_def)
qed

end
