(* ===== verification/Rollups.thy ===== *)
theory Rollups
  imports Settings_Store Datetime_Text
begin

text \<open>
  Pre-aggregated statistics (\<open>admin-ui/app/services/rollups.py\<close>) and the retention job
  (\<open>services/retention.py\<close>): hourly and daily roll-ups of query events, the dashboard statistics that
  combine roll-ups with raw events at the edges of the window, the backfill, and the deletion of
  old rows.  Ratios are rationals; \<open>py_round\<close> rounds them to a number of decimal places, half to
  even.
\<close>

section \<open>Hours and days\<close>

definition hour_floor :: "instant \<Rightarrow> instant" where
  "hour_floor t = t - t mod hours 1"

definition day_floor :: "instant \<Rightarrow> instant" where
  "day_floor t = t - t mod days 1"

section \<open>Aggregation of events\<close>

definition CACHE_HIT_LATENCY_THRESHOLD_MS :: int where
  "CACHE_HIT_LATENCY_THRESHOLD_MS = 5"

definition counted_in :: "instant \<Rightarrow> instant \<Rightarrow> dns_query_event \<Rightarrow> bool" where
  "counted_in start stop e \<longleftrightarrow> start \<le> ev_ts e \<and> ev_ts e < stop \<and> \<not> ev_is_internal e"

definition is_cache_hit :: "dns_query_event \<Rightarrow> bool" where
  "is_cache_hit e = (case ev_latency_ms e of None \<Rightarrow> False | Some l \<Rightarrow> l < CACHE_HIT_LATENCY_THRESHOLD_MS)"

text \<open>The quantities that are sums over events.\<close>

record event_sums =
  es_total :: int
  es_blocked :: int
  es_nxdomain :: int
  es_servfail :: int
  es_cache_hits :: int
  es_latency :: int
  es_unique_domains :: int

definition sum_by :: "('a \<Rightarrow> int) \<Rightarrow> 'a list \<Rightarrow> int" where
  "sum_by f xs = sum_list (map f xs)"

definition distinct_names :: "dns_query_event list \<Rightarrow> int" where
  "distinct_names es = int (length (fromkeys (map ev_qname es)))"

definition latency_or_zero :: "dns_query_event \<Rightarrow> int" where
  "latency_or_zero e = (case ev_latency_ms e of None \<Rightarrow> 0 | Some l \<Rightarrow> l)"

definition aggregate :: "dns_query_event list \<Rightarrow> event_sums" where
  "aggregate es =
     \<lparr>es_total = int (length es),
      es_blocked = sum_by (\<lambda>e. of_bool (ev_blocked e)) es,
      es_nxdomain = sum_by (\<lambda>e. of_bool (ev_rcode e = 3)) es,
      es_servfail = sum_by (\<lambda>e. of_bool (ev_rcode e = 2)) es,
      es_cache_hits = sum_by (\<lambda>e. of_bool (is_cache_hit e)) es,
      es_latency = sum_by latency_or_zero es,
      es_unique_domains = distinct_names es\<rparr>"

definition raw_edge_aggregate :: "instant \<Rightarrow> instant \<Rightarrow> db \<Rightarrow> event_sums" where
  "raw_edge_aggregate start stop d = aggregate (tbl_select (counted_in start stop) (db_events d))"

section \<open>Roll-up rows\<close>

text \<open>
  \<open>int()\<close> of a quotient truncates towards zero; an average that is null or zero is stored as null.
\<close>

definition trunc_div :: "int \<Rightarrow> int \<Rightarrow> int" where
  "trunc_div a b = (if 0 \<le> a then a div b else - ((- a) div b))"

definition stored_average :: "int option list \<Rightarrow> int option" where
  "stored_average xs =
     (let ls = List.map_filter id xs
      in if ls = [] \<or> sum_list ls = 0 then None else Some (trunc_div (sum_list ls) (int (length ls))))"

record rollup_values =
  rv_total :: int
  rv_blocked :: int
  rv_nxdomain :: int
  rv_servfail :: int
  rv_cache_hits :: int
  rv_avg_latency :: "int option"
  rv_unique_domains :: int

definition event_values :: "dns_query_event list \<Rightarrow> rollup_values" where
  "event_values es =
     (let a = aggregate es
      in \<lparr>rv_total = es_total a, rv_blocked = es_blocked a, rv_nxdomain = es_nxdomain a, rv_servfail = es_servfail a,
          rv_cache_hits = es_cache_hits a, rv_avg_latency = stored_average (map ev_latency_ms es),
          rv_unique_domains = es_unique_domains a\<rparr>)"

definition rollup_sums :: "query_rollup list \<Rightarrow> rollup_values" where
  "rollup_sums rs =
     \<lparr>rv_total = sum_by qr_total_queries rs, rv_blocked = sum_by qr_blocked_queries rs,
      rv_nxdomain = sum_by qr_nxdomain_count rs, rv_servfail = sum_by qr_servfail_count rs,
      rv_cache_hits = sum_by qr_cache_hits rs, rv_avg_latency = stored_average (map qr_avg_latency_ms rs),
      rv_unique_domains = sum_by qr_unique_domains rs\<rparr>"

type_synonym rollup_key = "granularity \<times> instant \<times> int option \<times> int option"

definition rollup_key :: "query_rollup \<Rightarrow> rollup_key" where
  "rollup_key r = (qr_granularity r, qr_bucket_start r, qr_client_id r, qr_node_id r)"

definition set_values :: "rollup_values \<Rightarrow> query_rollup \<Rightarrow> query_rollup" where
  "set_values v r =
     r\<lparr>qr_total_queries := rv_total v, qr_blocked_queries := rv_blocked v, qr_nxdomain_count := rv_nxdomain v,
       qr_servfail_count := rv_servfail v, qr_cache_hits := rv_cache_hits v, qr_avg_latency_ms := rv_avg_latency v,
       qr_unique_domains := rv_unique_domains v\<rparr>"

definition new_rollup :: "rollup_key \<Rightarrow> rollup_values \<Rightarrow> int \<Rightarrow> query_rollup" where
  "new_rollup k v i =
     (case k of (g, b, client, node) \<Rightarrow>
        \<lparr>qr_id = i, qr_bucket_start = b, qr_granularity = g, qr_client_id = client, qr_node_id = node,
         qr_total_queries = rv_total v, qr_blocked_queries = rv_blocked v, qr_nxdomain_count = rv_nxdomain v,
         qr_servfail_count = rv_servfail v, qr_cache_hits = rv_cache_hits v, qr_avg_latency_ms = rv_avg_latency v,
         qr_unique_domains = rv_unique_domains v\<rparr>)"

text \<open>A key has at most one row, so the row found is the only one that is updated.\<close>

definition upsert_rollup :: "rollup_key \<Rightarrow> rollup_values \<Rightarrow> query_rollup table \<Rightarrow> query_rollup table" where
  "upsert_rollup k v t =
     (case tbl_find (\<lambda>r. rollup_key r = k) t of
        Some _ \<Rightarrow> tbl_update (\<lambda>r. rollup_key r = k) (set_values v) t
      | None \<Rightarrow> tbl_insert (new_rollup k v) t)"

text \<open>The groups of a \<open>GROUP BY\<close> come in the order of their first row.\<close>

definition group_of :: "dns_query_event \<Rightarrow> int option \<times> int option" where
  "group_of e = (ev_client_id e, ev_node_id e)"

definition compute_hourly_rollup :: "instant \<Rightarrow> db \<Rightarrow> nat \<times> db" where
  "compute_hourly_rollup hour_start d =
     (let es = tbl_select (counted_in hour_start (hour_start + hours 1)) (db_events d);
          groups = fromkeys (map group_of es)
      in (length groups,
          d\<lparr>db_rollups := fold (\<lambda>g. upsert_rollup (Hourly, hour_start, g) (event_values (filter (\<lambda>e. group_of e = g) es)))
              groups (db_rollups d)\<rparr>))"

definition hourly_in :: "instant \<Rightarrow> instant \<Rightarrow> query_rollup \<Rightarrow> bool" where
  "hourly_in start stop r \<longleftrightarrow> qr_granularity r = Hourly \<and> start \<le> qr_bucket_start r \<and> qr_bucket_start r < stop"

definition rollup_group :: "query_rollup \<Rightarrow> int option \<times> int option" where
  "rollup_group r = (qr_client_id r, qr_node_id r)"

definition compute_daily_rollup :: "instant \<Rightarrow> db \<Rightarrow> nat \<times> db" where
  "compute_daily_rollup day_start d =
     (let rs = tbl_select (hourly_in day_start (day_start + days 1)) (db_rollups d);
          groups = fromkeys (map rollup_group rs)
      in (length groups,
          d\<lparr>db_rollups := fold (\<lambda>g. upsert_rollup (Daily, day_start, g) (rollup_sums (filter (\<lambda>r. rollup_group r = g) rs)))
              groups (db_rollups d)\<rparr>))"

text \<open>\<open>now.hour < 2\<close> is the time of day in UTC.\<close>

definition run_rollup_job :: "instant \<Rightarrow> db \<Rightarrow> (nat \<times> nat) \<times> db" where
  "run_rollup_job now d =
     (let (hourly_count, d1) = compute_hourly_rollup (hour_floor now - hours 1) d;
          (daily_count, d2) = (if now mod days 1 < hours 2 then compute_daily_rollup (day_floor now - days 1) d1 else (0, d1))
      in ((hourly_count, daily_count), d2))"

definition backfill_step :: "instant \<Rightarrow> int \<Rightarrow> nat \<times> db \<Rightarrow> nat \<times> db" where
  "backfill_step now i acc =
     (let (c, d) = compute_hourly_rollup (hour_floor now - hours i) (snd acc) in (fst acc + c, d))"

definition backfill_hourly_rollups :: "instant \<Rightarrow> int \<Rightarrow> db \<Rightarrow> nat \<times> db" where
  "backfill_hourly_rollups now hrs d = fold (backfill_step now) [1..max 1 (min hrs 720)] (0, d)"

section \<open>Dashboard statistics\<close>

definition round_half_even :: "rat \<Rightarrow> int" where
  "round_half_even x =
     (let f = \<lfloor>x\<rfloor>; r = x - of_int f
      in if r < 1 / 2 then f else if 1 / 2 < r then f + 1 else if even f then f else f + 1)"

definition py_round :: "rat \<Rightarrow> nat \<Rightarrow> rat" where
  "py_round x n = of_int (round_half_even (x * 10 ^ n)) / 10 ^ n"

definition add_dicts :: "event_sums \<Rightarrow> event_sums \<Rightarrow> event_sums" where
  "add_dicts a b =
     \<lparr>es_total = es_total a + es_total b, es_blocked = es_blocked a + es_blocked b,
      es_nxdomain = es_nxdomain a + es_nxdomain b, es_servfail = es_servfail a + es_servfail b,
      es_cache_hits = es_cache_hits a + es_cache_hits b, es_latency = es_latency a + es_latency b,
      es_unique_domains = es_unique_domains a + es_unique_domains b\<rparr>"

record dashboard_stats =
  ds_total_queries :: int
  ds_blocked_queries :: int
  ds_nxdomain_count :: int
  ds_servfail_count :: int
  ds_cache_hits :: int
  ds_avg_latency_ms :: int
  ds_blocked_pct :: rat
  ds_cache_hit_pct :: rat
  ds_unique_domains :: int
  ds_time_saved_ms :: int
  ds_qps :: rat
  ds_block_rate :: rat
  ds_cache_hit_rate :: rat
  ds_cache_age_seconds :: rat
  ds_rollup_lag_seconds :: rat
  ds_edge_delta_total :: int

definition build_result :: "event_sums \<Rightarrow> rat \<Rightarrow> rat \<Rightarrow> rat \<Rightarrow> int \<Rightarrow> dashboard_stats" where
  "build_result accum window_seconds cache_age rollup_lag edge_delta =
     (let total = max (es_total accum) 0;
          share = (\<lambda>n. of_int n / of_int (max total 1) :: rat)
      in \<lparr>ds_total_queries = total, ds_blocked_queries = es_blocked accum, ds_nxdomain_count = es_nxdomain accum,
          ds_servfail_count = es_servfail accum, ds_cache_hits = es_cache_hits accum,
          ds_avg_latency_ms = (if 0 < total then trunc_div (es_latency accum) total else 0),
          ds_blocked_pct = py_round (share (es_blocked accum) * 100) 1,
          ds_cache_hit_pct = py_round (share (es_cache_hits accum) * 100) 1,
          ds_unique_domains = es_unique_domains accum,
          ds_time_saved_ms = es_cache_hits accum * CACHE_HIT_LATENCY_THRESHOLD_MS,
          ds_qps = (if 0 < window_seconds then py_round (of_int total / window_seconds) 2 else 0),
          ds_block_rate = py_round (share (es_blocked accum)) 4,
          ds_cache_hit_rate = py_round (share (es_cache_hits accum)) 4,
          ds_cache_age_seconds = py_round cache_age 1, ds_rollup_lag_seconds = py_round rollup_lag 1,
          ds_edge_delta_total = edge_delta\<rparr>)"

definition cache_key :: "int \<Rightarrow> instant \<Rightarrow> instant \<Rightarrow> string" where
  "cache_key hrs start_bucket current_bucket =
     show_int hrs @ '':'' @ isoformat start_bucket @ '':'' @ isoformat current_bucket"

definition STATS_CACHE_TTL :: rat where
  "STATS_CACHE_TTL = 60"

type_synonym stats_cache = "string \<Rightarrow> (rat \<times> dashboard_stats) option"

definition reset_stats_cache :: "stats_cache \<Rightarrow> stats_cache" where
  "reset_stats_cache cache = Map.empty"

text \<open>A product with a null average is null, and sums skip nulls.\<close>

definition rollup_accum :: "query_rollup list \<Rightarrow> event_sums" where
  "rollup_accum rs =
     \<lparr>es_total = sum_by qr_total_queries rs, es_blocked = sum_by qr_blocked_queries rs,
      es_nxdomain = sum_by qr_nxdomain_count rs, es_servfail = sum_by qr_servfail_count rs,
      es_cache_hits = sum_by qr_cache_hits rs,
      es_latency = sum_by (\<lambda>r. case qr_avg_latency_ms r of None \<Rightarrow> 0 | Some a \<Rightarrow> a * qr_total_queries r) rs,
      es_unique_domains = sum_by qr_unique_domains rs\<rparr>"

definition window_accum :: "instant \<Rightarrow> int \<Rightarrow> db \<Rightarrow> event_sums \<times> int" where
  "window_accum now hrs d =
     (let window_start = now - hours hrs;
          current_hour = hour_floor now;
          start_hour = hour_floor window_start;
          full_start = (if start_hour < window_start then start_hour + hours 1 else start_hour);
          accum = rollup_accum (tbl_select (hourly_in full_start current_hour) (db_rollups d));
          (accum1, delta1) =
            (if window_start < full_start
             then (let edge = raw_edge_aggregate window_start full_start d in (add_dicts accum edge, es_total edge))
             else (accum, 0))
      in if current_hour < now
         then (let edge = raw_edge_aggregate current_hour now d in (add_dicts accum1 edge, delta1 + es_total edge))
         else (accum1, delta1))"

definition rollup_lag :: "instant \<Rightarrow> int \<Rightarrow> db \<Rightarrow> rat" where
  "rollup_lag now hrs d =
     (let window_start = now - hours hrs;
          start_hour = hour_floor window_start;
          full_start = (if start_hour < window_start then start_hour + hours 1 else start_hour);
          buckets = map qr_bucket_start (tbl_select (hourly_in full_start (hour_floor now)) (db_rollups d))
      in if buckets = [] then 0 else of_int (now - foldr max buckets (hd buckets)) / 1000000)"

text \<open>\<open>clock\<close> is the reading of the monotonic clock in seconds.\<close>

definition get_dashboard_stats ::
  "instant \<Rightarrow> rat \<Rightarrow> int \<Rightarrow> db \<Rightarrow> stats_cache \<Rightarrow> dashboard_stats \<times> stats_cache" where
  "get_dashboard_stats now clock hrs d cache =
     (let window_seconds = of_int hrs * 3600
      in if hrs \<le> 1 then
           (let raw = raw_edge_aggregate (now - hours hrs) now d
            in (build_result raw window_seconds 0 0 (es_total raw), cache))
         else
           (let ck = cache_key hrs (hour_floor (now - hours hrs)) (hour_floor now);
                fresh = (let (accum, delta) = window_accum now hrs d;
                             result = build_result accum window_seconds 0 (rollup_lag now hrs d) delta
                         in (result, cache(ck \<mapsto> (clock, result))))
            in case cache ck of
                 Some (ts, data) \<Rightarrow>
                   if clock - ts < STATS_CACHE_TTL
                   then (data\<lparr>ds_cache_age_seconds := py_round (clock - ts) 1\<rparr>, cache)
                   else fresh
               | None \<Rightarrow> fresh))"

section \<open>Retention\<close>

definition cleanup_old_events :: "instant \<Rightarrow> int option \<Rightarrow> db \<Rightarrow> (nat \<times> db) py_result" where
  "cleanup_old_events now limit d =
     (case (case limit of None \<Rightarrow> get_retention_events_days d | Some n \<Rightarrow> Inr n) of
        Inl e \<Rightarrow> Inl e
      | Inr n \<Rightarrow>
          (let old = (\<lambda>e. ev_ts e < now - days n)
           in Inr (length (tbl_select old (db_events d)), d\<lparr>db_events := tbl_delete old (db_events d)\<rparr>)))"

definition cleanup_old_rollups :: "instant \<Rightarrow> int option \<Rightarrow> db \<Rightarrow> (nat \<times> db) py_result" where
  "cleanup_old_rollups now limit d =
     (case (case limit of None \<Rightarrow> get_retention_rollups_days d | Some n \<Rightarrow> Inr n) of
        Inl e \<Rightarrow> Inl e
      | Inr n \<Rightarrow>
          (let old = (\<lambda>r. qr_bucket_start r < now - days n)
           in Inr (length (tbl_select old (db_rollups d)), d\<lparr>db_rollups := tbl_delete old (db_rollups d)\<rparr>)))"

definition cleanup_old_node_metrics :: "instant \<Rightarrow> int option \<Rightarrow> db \<Rightarrow> (nat \<times> db) py_result" where
  "cleanup_old_node_metrics now limit d =
     (case (case limit of None \<Rightarrow> get_retention_node_metrics_days d | Some n \<Rightarrow> Inr n) of
        Inl e \<Rightarrow> Inl e
      | Inr n \<Rightarrow>
          (let old = (\<lambda>m. nm_ts m < now - days n)
           in Inr (length (tbl_select old (db_node_metrics d)), d\<lparr>db_node_metrics := tbl_delete old (db_node_metrics d)\<rparr>)))"

text \<open>Each step commits, so what an earlier step deleted stays deleted when a later one raises.\<close>

definition run_retention_job :: "instant \<Rightarrow> db \<Rightarrow> (nat \<times> nat \<times> nat) py_result \<times> db" where
  "run_retention_job now d =
     (case cleanup_old_events now None d of
        Inl e \<Rightarrow> (Inl e, d)
      | Inr (a, d1) \<Rightarrow>
          (case cleanup_old_rollups now None d1 of
             Inl e \<Rightarrow> (Inl e, d1)
           | Inr (b, d2) \<Rightarrow>
               (case cleanup_old_node_metrics now None d2 of
                  Inl e \<Rightarrow> (Inl e, d2)
                | Inr (c, d3) \<Rightarrow> (Inr (a, b, c), d3))))"

section \<open>The contract of insert-or-update\<close>

text \<open>
  What a table with \<open>upsert\<close> promises: a lookup of the key finds the new value and other keys are
  untouched.  A pass over distinct groups then leaves each group's value, whatever was there.
\<close>

locale upsert_store =
  fixes lookup :: "'t \<Rightarrow> 'k \<Rightarrow> 'v option" and upsert :: "'k \<Rightarrow> 'v \<Rightarrow> 't \<Rightarrow> 't" and inv :: "'t \<Rightarrow> bool"
  assumes lookup_upsert: "lookup (upsert k v t) k' = (if k' = k then Some v else lookup t k')"
    and upsert_inv: "inv t \<Longrightarrow> inv (upsert k v t)"
begin

lemma lookup_fold:
  "lookup (fold (\<lambda>g. upsert (key g) (f g)) gs t) k =
     (if k \<in> key ` set gs then Some (f (last (filter (\<lambda>g. key g = k) gs))) else lookup t k)"
  by (induction gs rule: rev_induct) (auto simp: lookup_upsert)

lemma lookup_fold_inj:
  assumes "inj key"
  shows "lookup (fold (\<lambda>g. upsert (key g) (f g)) gs t) (key g) = (if g \<in> set gs then Some (f g) else lookup t (key g))"
proof (cases "g \<in> set gs")
  case True
  then have "filter (\<lambda>g'. key g' = key g) gs \<noteq> []" by (auto simp: filter_empty_conv)
  then have "last (filter (\<lambda>g'. key g' = key g) gs) \<in> set (filter (\<lambda>g'. key g' = key g) gs)" by (rule last_in_set)
  then have "last (filter (\<lambda>g'. key g' = key g) gs) = g" using assms by (auto dest: injD)
  with True show ?thesis by (simp add: lookup_fold)
qed (use assms in \<open>auto simp: lookup_fold dest: injD\<close>)

lemma fold_inv: "inv t \<Longrightarrow> inv (fold (\<lambda>g. upsert (key g) (f g)) gs t)"
  by (induction gs arbitrary: t) (auto intro: upsert_inv)

end

definition values_of :: "query_rollup \<Rightarrow> rollup_values" where
  "values_of r =
     \<lparr>rv_total = qr_total_queries r, rv_blocked = qr_blocked_queries r, rv_nxdomain = qr_nxdomain_count r,
      rv_servfail = qr_servfail_count r, rv_cache_hits = qr_cache_hits r, rv_avg_latency = qr_avg_latency_ms r,
      rv_unique_domains = qr_unique_domains r\<rparr>"

definition rollup_at :: "query_rollup table \<Rightarrow> rollup_key \<Rightarrow> rollup_values option" where
  "rollup_at t k = map_option values_of (tbl_find (\<lambda>r. rollup_key r = k) t)"

definition keys_distinct :: "query_rollup table \<Rightarrow> bool" where
  "keys_distinct t \<longleftrightarrow> distinct (map rollup_key (rows t))"

lemma rollup_row_simps [simp]:
  "rollup_key (set_values v r) = rollup_key r" "values_of (set_values v r) = v"
  "rollup_key (new_rollup k v i) = k" "values_of (new_rollup k v i) = v"
  by (auto simp: rollup_key_def set_values_def values_of_def new_rollup_def split: prod.split)

interpretation ru: upsert_store rollup_at upsert_rollup keys_distinct
proof
  fix k v k' and t :: "query_rollup table"
  have "find (\<lambda>r. rollup_key r = k') (map (\<lambda>r. if rollup_key r = k then set_values v r else r) xs) =
      (if k' = k then map_option (set_values v) (find (\<lambda>r. rollup_key r = k) xs) else find (\<lambda>r. rollup_key r = k') xs)" for xs
    by (induction xs) auto
  then show "rollup_at (upsert_rollup k v t) k' = (if k' = k then Some v else rollup_at t k')"
    by (auto simp: rollup_at_def upsert_rollup_def tbl_find_def find_append split: option.split)
  have "map rollup_key (rows (tbl_update (\<lambda>r. rollup_key r = k) (set_values v) t)) = map rollup_key (rows t)"
    by simp
  then show "keys_distinct t \<Longrightarrow> keys_distinct (upsert_rollup k v t)"
    using tbl_find_None_iff [of "\<lambda>r. rollup_key r = k" t]
    by (cases "tbl_find (\<lambda>r. rollup_key r = k) t") (auto simp: upsert_rollup_def keys_distinct_def simp del: rows_tbl_update)
qed

section \<open>Hourly roll-ups\<close>

definition group_events :: "instant \<Rightarrow> int option \<times> int option \<Rightarrow> db \<Rightarrow> dns_query_event list" where
  "group_events h g d = filter (\<lambda>e. counted_in h (h + hours 1) e \<and> group_of e = g) (rows (db_events d))"

lemma hourly_rollup_at:
  "rollup_at (db_rollups (snd (compute_hourly_rollup h d))) (gr, b, g) =
     (if gr = Hourly \<and> b = h \<and> group_events h g d \<noteq> [] then Some (event_values (group_events h g d))
      else rollup_at (db_rollups d) (gr, b, g))"
proof -
  let ?es = "tbl_select (counted_in h (h + hours 1)) (db_events d)"
  let ?gs = "fromkeys (map group_of ?es)"
  have evs: "filter (\<lambda>e. group_of e = g') ?es = group_events h g' d" for g'
    by (simp add: tbl_select_def group_events_def conj_commute)
  have mem: "g' \<in> set ?gs \<longleftrightarrow> group_events h g' d \<noteq> []" for g'
    by (auto simp: tbl_select_def group_events_def filter_empty_conv)
  let ?key = "\<lambda>g. (Hourly, h, g)"
  have t: "db_rollups (snd (compute_hourly_rollup h d)) =
      fold (\<lambda>g. upsert_rollup (?key g) (event_values (group_events h g d))) ?gs (db_rollups d)"
    by (simp add: compute_hourly_rollup_def Let_def evs)
  show ?thesis
  proof (cases "gr = Hourly \<and> b = h")
    case True
    then show ?thesis
      using ru.lookup_fold_inj [of ?key "\<lambda>g. event_values (group_events h g d)" ?gs "db_rollups d" g] mem [of g]
      unfolding t by (simp add: inj_on_def)
  next
    case False
    then show ?thesis unfolding t by (auto simp: ru.lookup_fold)
  qed
qed

lemma hourly_rollup_frame:
  "db_events (snd (compute_hourly_rollup h d)) = db_events d"
  "keys_distinct (db_rollups d) \<Longrightarrow> keys_distinct (db_rollups (snd (compute_hourly_rollup h d)))"
  by (simp_all add: compute_hourly_rollup_def Let_def ru.fold_inv)

section \<open>Sums over groups\<close>

lemma sum_by_simps [simp]:
  "sum_by f [] = 0" "sum_by f (x # xs) = f x + sum_by f xs" "sum_by f (xs @ ys) = sum_by f xs + sum_by f ys"
  by (simp_all add: sum_by_def)

lemma sum_by_one: "sum_by (\<lambda>_. 1) xs = int (length xs)"
  by (induction xs) simp_all

lemma sum_by_cong: "(\<And>x. x \<in> set xs \<Longrightarrow> f x = g x) \<Longrightarrow> sum_by f xs = sum_by g xs"
  by (induction xs) simp_all

lemma sum_by_add: "sum_by (\<lambda>x. f x + g x) xs = sum_by f xs + sum_by g xs"
  by (induction xs) simp_all

lemma sum_by_if: "sum_by (\<lambda>x. if P x then c else 0) xs = c * int (length (filter P xs))"
  by (induction xs) (auto simp: algebra_simps)

text \<open>When each event that counts belongs to exactly one row and no other event to any, summing per row is summing over events.\<close>

lemma sum_by_partition:
  assumes "\<And>e. e \<in> set es \<Longrightarrow> length (filter (\<lambda>r. B r e) rs) = (if P e then 1 else 0)"
  shows "sum_by (\<lambda>r. sum_by f (filter (B r) es)) rs = sum_by f (filter P es)"
  using assms
proof (induction es)
  case Nil
  show ?case by (induction rs) simp_all
next
  case (Cons e es)
  have "sum_by f (filter (B r) (e # es)) = (if B r e then f e else 0) + sum_by f (filter (B r) es)" for r by simp
  then show ?case using Cons by (simp add: sum_by_add sum_by_if)
qed

lemma filter_key: "distinct (map k xs) \<Longrightarrow> r \<in> set xs \<Longrightarrow> filter (\<lambda>x. k x = k r) xs = [r]"
  by (induction xs) (auto simp: filter_empty_conv image_iff)

lemma hours_1_pos [simp]: "0 < hours 1"
  by (simp add: duration_defs)

lemma hours_mult: "hours i = hours 1 * i"
  by (simp add: duration_defs)

lemma hour_floor_mult: "hour_floor t = hours 1 * (t div hours 1)"
  by (simp add: hour_floor_def minus_mod_eq_mult_div)

lemma hour_floor_bounds: "hour_floor t \<le> t" "t < hour_floor t + hours 1"
  using pos_mod_bound [OF hours_1_pos, of t] pos_mod_sign [OF hours_1_pos, of t] by (simp_all add: hour_floor_def)

lemma hour_floor_unique:
  assumes "hours 1 dvd b" and "b \<le> t" and "t < b + hours 1"
  shows "hour_floor t = b"
proof -
  obtain q where q: "b = hours 1 * q" using assms(1) by blast
  have "t div hours 1 = q" using assms(2,3) q by (intro int_div_pos_eq [of _ _ _ "t - b"]) auto
  then show ?thesis by (simp add: hour_floor_mult q)
qed

lemma hour_floor_mono: "hours 1 dvd b \<Longrightarrow> b \<le> t \<Longrightarrow> b \<le> hour_floor t"
proof (elim dvdE)
  fix q
  assume "b \<le> t" and q: "b = hours 1 * q"
  then have "hours 1 * q div hours 1 \<le> t div hours 1" by (intro zdiv_mono1) simp_all
  then show ?thesis
    using hours_1_pos by (simp add: hour_floor_mult q)
qed

lemma in_hour_iff: "hours 1 dvd b \<Longrightarrow> b \<le> t \<and> t < b + hours 1 \<longleftrightarrow> hour_floor t = b"
  using hour_floor_unique [of b t] hour_floor_bounds [of t] by blast

lemma aligned_next:
  assumes "hours 1 dvd a" and "hours 1 dvd b" and "a < b"
  shows "a + hours 1 \<le> b"
proof -
  obtain p q where pq: "a = hours 1 * p" "b = hours 1 * q" using assms(1,2) by (elim dvdE)
  then have "p < q" using assms(3) hours_1_pos by (simp add: mult_less_cancel_left_pos)
  then have "hours 1 * (p + 1) \<le> hours 1 * q" using hours_1_pos by (intro mult_left_mono) linarith+
  then show ?thesis unfolding pq by (simp add: algebra_simps)
qed

lemma rollup_at_row:
  "keys_distinct t \<Longrightarrow> r \<in> set (rows t) \<Longrightarrow> rollup_at t (rollup_key r) = Some (values_of r)"
proof -
  assume "keys_distinct t" and r: "r \<in> set (rows t)"
  then have "find (\<lambda>x. rollup_key x = rollup_key r) xs = Some r" if "r \<in> set xs" "distinct (map rollup_key xs)" for xs
    using that by (induction xs) (auto simp: image_iff)
  with \<open>keys_distinct t\<close> r show ?thesis by (simp add: rollup_at_def tbl_find_def keys_distinct_def)
qed

lemma rollup_at_Some: "rollup_at t k = Some v \<Longrightarrow> \<exists>r \<in> set (rows t). rollup_key r = k"
  by (auto simp: rollup_at_def dest: tbl_find_SomeD)

text \<open>
  The state in which the roll-ups of full hours stand for the events: every hourly row of the
  window is aligned and holds its group's sums, and every group of events has its row.
\<close>

definition window_rolled :: "instant \<Rightarrow> instant \<Rightarrow> db \<Rightarrow> bool" where
  "window_rolled s u d \<longleftrightarrow>
     keys_distinct (db_rollups d) \<and>
     (\<forall>r \<in> set (rows (db_rollups d)). hourly_in s u r \<longrightarrow>
        hours 1 dvd qr_bucket_start r \<and> values_of r = event_values (group_events (qr_bucket_start r) (rollup_group r) d)) \<and>
     (\<forall>e \<in> set (rows (db_events d)). counted_in s u e \<longrightarrow>
        (\<exists>r \<in> set (rows (db_rollups d)). rollup_key r = (Hourly, hour_floor (ev_ts e), group_of e)))"

lemma window_sum:
  assumes rolled: "window_rolled s u d" and aligned: "hours 1 dvd s" "hours 1 dvd u"
    and field: "\<And>r es. values_of r = event_values es \<Longrightarrow> qf r = sum_by w es"
  shows "sum_by qf (tbl_select (hourly_in s u) (db_rollups d)) = sum_by w (tbl_select (counted_in s u) (db_events d))"
proof -
  let ?rs = "filter (hourly_in s u) (rows (db_rollups d))" and ?es = "rows (db_events d)"
  let ?B = "\<lambda>r e. counted_in (qr_bucket_start r) (qr_bucket_start r + hours 1) e \<and> group_of e = rollup_group r"
  have keys: "distinct (map rollup_key ?rs)"
    using rolled by (simp add: window_rolled_def keys_distinct_def distinct_map_filter)
  have one: "length (filter (\<lambda>r. ?B r e) ?rs) = (if counted_in s u e then 1 else 0)" if e: "e \<in> set ?es" for e
  proof -
    have key: "?B r e \<longleftrightarrow> rollup_key r = (Hourly, hour_floor (ev_ts e), group_of e) \<and> \<not> ev_is_internal e" if "r \<in> set ?rs" for r
    proof -
      have r: "hours 1 dvd qr_bucket_start r" "qr_granularity r = Hourly"
        using rolled that by (auto simp: window_rolled_def hourly_in_def)
      have "?B r e \<longleftrightarrow> (qr_bucket_start r \<le> ev_ts e \<and> ev_ts e < qr_bucket_start r + hours 1) \<and>
          group_of e = rollup_group r \<and> \<not> ev_is_internal e"
        unfolding counted_in_def by blast
      also have "\<dots> \<longleftrightarrow> hour_floor (ev_ts e) = qr_bucket_start r \<and> group_of e = rollup_group r \<and> \<not> ev_is_internal e"
        unfolding in_hour_iff [OF r(1)] ..
      finally show ?thesis unfolding rollup_key_def rollup_group_def r(2) prod.inject by (auto simp: group_of_def)
    qed
    show ?thesis
    proof (cases "counted_in s u e")
      case True
      then obtain r where r: "r \<in> set (rows (db_rollups d))" "rollup_key r = (Hourly, hour_floor (ev_ts e), group_of e)"
        using rolled e by (auto simp: window_rolled_def)
      have "s \<le> hour_floor (ev_ts e)" "hour_floor (ev_ts e) < u"
        using True hour_floor_mono [OF aligned(1)] hour_floor_bounds(1) [of "ev_ts e"] by (auto simp: counted_in_def)
      then have "r \<in> set ?rs" using r by (auto simp: hourly_in_def rollup_key_def)
      moreover have "filter (\<lambda>r. ?B r e) ?rs = filter (\<lambda>x. rollup_key x = rollup_key r) ?rs"
        using key r True by (intro filter_cong) (auto simp: counted_in_def)
      ultimately have "filter (\<lambda>r. ?B r e) ?rs = [r]" using filter_key [OF keys] by simp
      then show ?thesis using True by simp
    next
      case False
      have "\<not> ?B r e" if r: "r \<in> set ?rs" for r
      proof
        assume B: "?B r e"
        have "s \<le> qr_bucket_start r" "qr_bucket_start r < u" "hours 1 dvd qr_bucket_start r"
          using r rolled by (auto simp: hourly_in_def window_rolled_def)
        moreover from this have "qr_bucket_start r + hours 1 \<le> u" using aligned(2) by (intro aligned_next)
        ultimately show False using B False by (auto simp: counted_in_def)
      qed
      then have "filter (\<lambda>r. ?B r e) ?rs = []" by (simp add: filter_empty_conv)
      then show ?thesis using False by simp
    qed
  qed
  have "qf r = sum_by w (filter (?B r) ?es)" if "r \<in> set ?rs" for r
    using rolled that by (intro field) (auto simp: window_rolled_def group_events_def)
  then have "sum_by qf ?rs = sum_by (\<lambda>r. sum_by w (filter (?B r) ?es)) ?rs" by (rule sum_by_cong)
  also have "\<dots> = sum_by w (filter (counted_in s u) ?es)" by (rule sum_by_partition) (rule one)
  finally show ?thesis by (simp add: tbl_select_def)
qed

section \<open>Backfill\<close>

text \<open>No row stands for a group without events, and hourly rows start at full hours.\<close>

definition rollups_ok :: "db \<Rightarrow> bool" where
  "rollups_ok d \<longleftrightarrow>
     keys_distinct (db_rollups d) \<and>
     (\<forall>r \<in> set (rows (db_rollups d)). qr_granularity r = Hourly \<longrightarrow>
        hours 1 dvd qr_bucket_start r \<and> group_events (qr_bucket_start r) (rollup_group r) d \<noteq> [])"

lemma bucket_aligned: "hours 1 dvd hour_floor t - hours i"
proof -
  have "hour_floor t - hours i = hours 1 * (t div hours 1 - i)"
    by (simp add: hour_floor_mult right_diff_distrib hours_mult [symmetric])
  then show ?thesis by simp
qed

lemma backfill_fold:
  "db_events (snd (fold (backfill_step now) is (n, d))) = db_events d"
  "keys_distinct (db_rollups d) \<Longrightarrow> keys_distinct (db_rollups (snd (fold (backfill_step now) is (n, d))))"
  "rollup_at (db_rollups (snd (fold (backfill_step now) is (n, d)))) (gr, b, g) =
     (if gr = Hourly \<and> b \<in> (\<lambda>i. hour_floor now - hours i) ` set is \<and> group_events b g d \<noteq> []
      then Some (event_values (group_events b g d)) else rollup_at (db_rollups d) (gr, b, g))"
proof (induction "is" arbitrary: n d)
  case (Cons i "is")
  have step: "backfill_step now i (n, d) =
      (n + fst (compute_hourly_rollup (hour_floor now - hours i) d), snd (compute_hourly_rollup (hour_floor now - hours i) d))" for n d
    by (simp add: backfill_step_def case_prod_beta)
  have same: "group_events b' g' (snd (compute_hourly_rollup h d)) = group_events b' g' d" for b' g' h d
    by (simp add: group_events_def hourly_rollup_frame)
  { case 1 show ?case by (simp add: Cons.IH(1) hourly_rollup_frame step) }
  { case 2 then show ?case by (simp add: Cons.IH(2) hourly_rollup_frame step) }
  { case 3 show ?case by (auto simp: Cons.IH(3) hourly_rollup_at same step) }
qed simp_all

lemma backfill_rolled:
  assumes ok: "rollups_ok d" and n: "\<And>b. hours 1 dvd b \<Longrightarrow> s \<le> b \<Longrightarrow> b < hour_floor now \<Longrightarrow>
      b \<in> (\<lambda>i. hour_floor now - hours i) ` set is" and s: "hours 1 dvd s"
  shows "window_rolled s (hour_floor now) (snd (fold (backfill_step now) is (m, d)))"
proof -
  let ?d = "snd (fold (backfill_step now) is (m, d))"
  have same: "group_events b g ?d = group_events b g d" for b g
    by (simp add: group_events_def backfill_fold(1))
  have keys: "keys_distinct (db_rollups ?d)" using ok by (simp add: rollups_ok_def backfill_fold(2))
  have stale: "rollup_at (db_rollups d) (Hourly, b, g) = Some v \<Longrightarrow> hours 1 dvd b \<and> group_events b g d \<noteq> []" for b g v
    using ok by (auto simp: rollups_ok_def rollup_key_def rollup_group_def dest!: rollup_at_Some)
  have row: "hours 1 dvd qr_bucket_start r \<and> values_of r = event_values (group_events (qr_bucket_start r) (rollup_group r) d)"
    if r: "r \<in> set (rows (db_rollups ?d))" "hourly_in s (hour_floor now) r" for r
  proof -
    let ?b = "qr_bucket_start r" and ?g = "rollup_group r"
    have key: "rollup_key r = (Hourly, ?b, ?g)" using r(2) by (simp add: rollup_key_def rollup_group_def hourly_in_def)
    have at: "rollup_at (db_rollups ?d) (Hourly, ?b, ?g) = Some (values_of r)"
      using rollup_at_row [OF keys r(1)] by (simp only: key)
    have b: "hours 1 dvd ?b"
      using at stale [of ?b ?g] bucket_aligned by (auto simp: backfill_fold(3) split: if_splits)
    then have "?b \<in> (\<lambda>i. hour_floor now - hours i) ` set is" using n r(2) by (auto simp: hourly_in_def)
    then show ?thesis using at b stale [of ?b ?g] by (auto simp: backfill_fold(3) split: if_splits)
  qed
  have cover: "\<exists>r \<in> set (rows (db_rollups ?d)). rollup_key r = (Hourly, hour_floor (ev_ts e), group_of e)"
    if e: "e \<in> set (rows (db_events d))" "counted_in s (hour_floor now) e" for e
  proof -
    let ?b = "hour_floor (ev_ts e)"
    have "s \<le> ?b" "?b < hour_floor now"
      using e(2) hour_floor_mono [OF s] hour_floor_bounds(1) [of "ev_ts e"] by (auto simp: counted_in_def)
    then have "?b \<in> (\<lambda>i. hour_floor now - hours i) ` set is" by (intro n) (simp_all add: hour_floor_mult)
    moreover have "e \<in> set (group_events ?b (group_of e) d)"
      using e hour_floor_bounds [of "ev_ts e"] by (simp add: group_events_def counted_in_def)
    ultimately have "rollup_at (db_rollups ?d) (Hourly, ?b, group_of e) \<noteq> None"
      by (auto simp: backfill_fold(3))
    then show ?thesis using rollup_at_Some by blast
  qed
  show ?thesis
    using keys row cover by (simp add: window_rolled_def same backfill_fold(1))
qed

section \<open>The window of the dashboard\<close>

definition full_start :: "instant \<Rightarrow> instant" where
  "full_start ws = (if hour_floor ws < ws then hour_floor ws + hours 1 else hour_floor ws)"

lemma full_start_facts: "ws \<le> full_start ws" "hours 1 dvd full_start ws" "full_start ws < ws + hours 1"
proof -
  have dvd: "hours 1 dvd hour_floor ws" by (simp add: hour_floor_mult)
  show "ws \<le> full_start ws" "full_start ws < ws + hours 1"
    using hour_floor_bounds [of ws] by (auto simp: full_start_def)
  show "hours 1 dvd full_start ws" using dvd by (simp add: full_start_def)
qed

lemma bucket_index:
  assumes "hours 1 dvd b" and "now - hours hrs \<le> b" and "b < hour_floor now" and "hrs \<le> n"
  shows "b \<in> (\<lambda>i. hour_floor now - hours i) ` set [1..n]"
proof -
  obtain q where q: "b = hours 1 * q" using assms(1) by blast
  let ?i = "now div hours 1 - q"
  have b: "b = hour_floor now - hours ?i"
    unfolding hours_mult [of ?i] hour_floor_mult q by (simp add: right_diff_distrib)
  have "0 < hours ?i" using assms(3) b by simp
  then have "0 < ?i" using hours_1_pos unfolding hours_mult [of ?i] by (simp add: zero_less_mult_iff)
  moreover have "hours ?i \<le> hours hrs" using assms(2) b hour_floor_bounds(1) [of now] by simp
  then have "?i \<le> hrs" using hours_1_pos unfolding hours_mult [of ?i] hours_mult [of hrs] by simp
  ultimately have "?i \<in> set [1..n]" using assms(4) by simp
  with b show ?thesis by blast
qed

lemma select_split:
  "a \<le> b \<Longrightarrow> b \<le> c \<Longrightarrow>
   sum_by w (tbl_select (counted_in a c) t) = sum_by w (tbl_select (counted_in a b) t) + sum_by w (tbl_select (counted_in b c) t)"
proof -
  assume le: "a \<le> b" "b \<le> c"
  have "sum_by w (filter (counted_in a c) es) = sum_by w (filter (counted_in a b) es) + sum_by w (filter (counted_in b c) es)" for es
    using le by (induction es) (auto simp: counted_in_def)
  then show ?thesis by (simp add: tbl_select_def)
qed

text \<open>
  For a quantity that is a sum over events and a column of the roll-ups, roll-ups of the full hours
  and raw events at the edges add up to the sum over the window.
\<close>

lemma window_accum_field:
  assumes rolled: "window_rolled (full_start (now - hours hrs)) (hour_floor now) d" and hrs: "1 < hrs"
    and field: "\<And>r es. values_of r = event_values es \<Longrightarrow> qf r = sum_by w es"
    and acc: "\<And>rs. acc (rollup_accum rs) = sum_by qf rs" "\<And>es. acc (aggregate es) = sum_by w es"
      "\<And>a b. acc (add_dicts a b) = acc a + acc b"
  shows "acc (fst (window_accum now hrs d)) = acc (raw_edge_aggregate (now - hours hrs) now d)"
proof -
  let ?ws = "now - hours hrs" and ?c = "hour_floor now"
  let ?fs = "full_start ?ws" and ?sum = "\<lambda>a b. sum_by w (tbl_select (counted_in a b) (db_events d))"
  have "hours 1 + hours 1 \<le> hours hrs" using hrs by (simp add: duration_defs)
  then have "?fs \<le> now" using full_start_facts(3) [of ?ws] hours_1_pos by linarith
  then have order: "?ws \<le> ?fs" "?fs \<le> ?c" "?c \<le> now"
    using full_start_facts(1,2) hour_floor_bounds(1) by (simp_all only: hour_floor_mono)
  have edge: "(if a < b then ?sum a b else 0) = ?sum a b" if "a \<le> b" for a b
    using that by (cases "a = b") (auto simp: tbl_select_def counted_in_def)
  have mid: "sum_by qf (tbl_select (hourly_in ?fs ?c) (db_rollups d)) = ?sum ?fs ?c"
    using window_sum [OF rolled full_start_facts(2) _ field] by (simp add: hour_floor_mult)
  have "acc (fst (window_accum now hrs d)) = ?sum ?fs ?c + (if ?ws < ?fs then ?sum ?ws ?fs else 0) + (if ?c < now then ?sum ?c now else 0)"
    unfolding window_accum_def Let_def full_start_def [symmetric]
    by (simp add: acc mid raw_edge_aggregate_def)
  also have "\<dots> = ?sum ?ws now"
    unfolding edge [OF order(1)] edge [OF order(3)]
      select_split [OF order(1) order_trans [OF order(2,3)]] select_split [OF order(2,3)] by simp
  finally show ?thesis by (simp add: raw_edge_aggregate_def acc)
qed

lemma values_of_events:
  assumes "values_of r = event_values es"
  shows "qr_total_queries r = sum_by (\<lambda>_. 1) es"
    and "qr_blocked_queries r = sum_by (\<lambda>e. of_bool (ev_blocked e)) es"
    and "qr_nxdomain_count r = sum_by (\<lambda>e. of_bool (ev_rcode e = 3)) es"
    and "qr_servfail_count r = sum_by (\<lambda>e. of_bool (ev_rcode e = 2)) es"
    and "qr_cache_hits r = sum_by (\<lambda>e. of_bool (is_cache_hit e)) es"
  using assms by (simp_all add: values_of_def event_values_def aggregate_def sum_by_one)

lemmas accum_simps = rollup_accum_def aggregate_def add_dicts_def sum_by_one

lemma length_below_above:
  fixes f :: "'a \<Rightarrow> int"
  shows "length (filter (\<lambda>x. f x < c) xs) + length (filter (\<lambda>x. c \<le> f x) xs) = length xs"
  by (induction xs) auto

text \<open>Once the window is rolled up, fresh statistics are those of a direct aggregation of its events.\<close>

definition same_counts :: "dashboard_stats \<Rightarrow> dashboard_stats \<Rightarrow> bool" where
  "same_counts a b \<longleftrightarrow>
     ds_total_queries a = ds_total_queries b \<and> ds_blocked_queries a = ds_blocked_queries b \<and>
     ds_nxdomain_count a = ds_nxdomain_count b \<and> ds_servfail_count a = ds_servfail_count b \<and>
     ds_cache_hits a = ds_cache_hits b \<and> ds_blocked_pct a = ds_blocked_pct b \<and>
     ds_cache_hit_pct a = ds_cache_hit_pct b \<and> ds_qps a = ds_qps b"

lemma fresh_stats:
  assumes "1 < hrs" and "cache (cache_key hrs (hour_floor (now - hours hrs)) (hour_floor now)) = None"
  shows "fst (get_dashboard_stats now clock hrs d cache) =
    build_result (fst (window_accum now hrs d)) (of_int hrs * 3600) 0 (rollup_lag now hrs d) (snd (window_accum now hrs d))"
  using assms by (simp add: get_dashboard_stats_def Let_def case_prod_beta)

lemma rolled_dashboard_exact:
  assumes rolled: "window_rolled (full_start (now - hours hrs)) (hour_floor now) d" and hrs: "1 < hrs"
    and miss: "cache (cache_key hrs (hour_floor (now - hours hrs)) (hour_floor now)) = None"
  shows "same_counts (fst (get_dashboard_stats now clock hrs d cache))
    (build_result (raw_edge_aggregate (now - hours hrs) now d) (of_int hrs * 3600) 0 0 0)"
proof -
  note exact = window_accum_field [OF rolled hrs]
  let ?acc = "fst (window_accum now hrs d)" and ?raw = "raw_edge_aggregate (now - hours hrs) now d"
  have "es_total ?acc = es_total ?raw"
    by (rule exact [OF values_of_events(1)]) (simp_all add: accum_simps)
  moreover have "es_blocked ?acc = es_blocked ?raw"
    by (rule exact [OF values_of_events(2)]) (simp_all add: accum_simps)
  moreover have "es_nxdomain ?acc = es_nxdomain ?raw"
    by (rule exact [OF values_of_events(3)]) (simp_all add: accum_simps)
  moreover have "es_servfail ?acc = es_servfail ?raw"
    by (rule exact [OF values_of_events(4)]) (simp_all add: accum_simps)
  moreover have "es_cache_hits ?acc = es_cache_hits ?raw"
    by (rule exact [OF values_of_events(5)]) (simp_all add: accum_simps)
  ultimately show ?thesis by (simp add: fresh_stats [of hrs cache, OF hrs miss] build_result_def same_counts_def Let_def)
qed

section \<open>Properties\<close>

text \<open>
  C26: the dashboard's shortcut is exact where it can be.  After a backfill that reaches back over
  the window, the statistics computed from roll-ups of the full hours and raw events at both edges
  have the totals, blocked, NXDOMAIN, SERVFAIL and cache-hit counts, and the rates, of a direct
  aggregation of every event in the window.
\<close>

theorem dashboard_matches_events:
  assumes ok: "rollups_ok d" and hrs: "1 < hrs" "hrs \<le> m" "hrs \<le> 720"
    and miss: "cache (cache_key hrs (hour_floor (now - hours hrs)) (hour_floor now)) = None"
    and d': "d' = snd (backfill_hourly_rollups now m d)"
    and stats: "stats = fst (get_dashboard_stats now clock hrs d' cache)"
    and direct: "direct = build_result (raw_edge_aggregate (now - hours hrs) now d) (of_int hrs * 3600) 0 0 0"
  shows "ds_total_queries stats = ds_total_queries direct \<and> ds_blocked_queries stats = ds_blocked_queries direct \<and>
    ds_nxdomain_count stats = ds_nxdomain_count direct \<and> ds_servfail_count stats = ds_servfail_count direct \<and>
    ds_cache_hits stats = ds_cache_hits direct \<and> ds_blocked_pct stats = ds_blocked_pct direct \<and>
    ds_cache_hit_pct stats = ds_cache_hit_pct direct \<and> ds_qps stats = ds_qps direct"
proof -
  let ?fs = "full_start (now - hours hrs)"
  have "b \<in> (\<lambda>i. hour_floor now - hours i) ` set [1..max 1 (min m 720)]"
    if "hours 1 dvd b" "?fs \<le> b" "b < hour_floor now" for b
    using that hrs full_start_facts(1) [of "now - hours hrs"] by (intro bucket_index [of b now hrs]) auto
  then have rolled: "window_rolled ?fs (hour_floor now) d'"
    unfolding d' backfill_hourly_rollups_def by (intro backfill_rolled [OF ok _ full_start_facts(2)])
  have same: "raw_edge_aggregate a b d' = raw_edge_aggregate a b d" for a b
    by (simp add: raw_edge_aggregate_def d' backfill_hourly_rollups_def backfill_fold(1))
  show ?thesis
    using rolled_dashboard_exact [of now hrs d' cache, OF rolled hrs(1) miss, of clock] by (simp add: stats direct same same_counts_def)
qed

definition query_at :: "instant \<Rightarrow> int \<Rightarrow> string \<Rightarrow> dns_query_event" where
  "query_at t client name =
     \<lparr>ev_id = client, ev_event_id = None, ev_event_seq = None, ev_ts = t, ev_node_id = Some 1, ev_client_ip = [],
      ev_client_id = Some client, ev_is_internal = False, ev_qname = name, ev_qtype = 1, ev_rcode = 3, ev_blocked = True,
      ev_block_reason = None, ev_blocklist_name = None, ev_latency_ms = Some 2\<rparr>"

text \<open>Two clients that ask for the same name in a full hour of the window, at noon of the first day.\<close>

definition two_clients :: db where
  "two_clients = empty_db\<lparr>db_events :=
     \<lparr>rows = [query_at (hours 10 + minutes 30) 1 ''a.example'', query_at (hours 10 + minutes 40) 2 ''a.example''], next_id = 3\<rparr>\<rparr>"

theorem dashboard_matches_events_witness:
  "ds_total_queries (fst (get_dashboard_stats (hours 12) 0 2 (snd (backfill_hourly_rollups (hours 12) 24 two_clients)) Map.empty)) = 2"
proof -
  have ok: "rollups_ok two_clients"
    by (simp add: rollups_ok_def keys_distinct_def two_clients_def empty_db_def empty_table_def)
  have "filter (counted_in (hours 12 - hours 2) (hours 12)) (rows (db_events two_clients)) = rows (db_events two_clients)"
    by (simp add: two_clients_def query_at_def counted_in_def duration_defs)
  then have "raw_edge_aggregate (hours 12 - hours 2) (hours 12) two_clients = aggregate (rows (db_events two_clients))"
    by (simp add: raw_edge_aggregate_def tbl_select_def)
  moreover have "es_total (aggregate (rows (db_events two_clients))) = 2"
    by (simp add: aggregate_def two_clients_def)
  ultimately show ?thesis
    using dashboard_matches_events [OF ok, of 2 24 Map.empty "hours 12", OF _ _ _ _ refl refl refl]
    by (simp add: build_result_def Let_def)
qed

text \<open>
  The number of distinct domains is not such a sum: it is added up over clients, nodes and hours,
  so a name that two clients ask for counts twice.
\<close>

theorem unique_domains_overcounted:
  "es_unique_domains (fst (window_accum (hours 12) 2 (snd (backfill_hourly_rollups (hours 12) 2 two_clients)))) = 2 \<and>
   es_unique_domains (raw_edge_aggregate (hours 12 - hours 2) (hours 12) two_clients) = 1"
  by code_simp



end
