(* ===== verification/Forward_Zones.thy ===== *)
theory Forward_Zones
  imports Blocklists
begin

text \<open>
  Forward zones: the handlers that edit them (\<open>admin-ui/app/routers/forward_zones.py\<close>) and the
  file the primary's recursor reads (\<open>services/forward_zones.py\<close>).
\<close>

section \<open>Editing zones\<close>

text \<open>
  \<open>db.add\<close> and a flush, refused by the unique constraint on \<open>domain\<close> and by the foreign key when the
  node does not exist.
\<close>

definition insert_zone :: "(int \<Rightarrow> forward_zone) \<Rightarrow> db \<Rightarrow> (forward_zone \<times> db) option" where
  "insert_zone mk d =
     (let z = mk (next_id (db_zones d))
      in if tbl_find (\<lambda>x. fz_domain x = fz_domain z) (db_zones d) \<noteq> None then None
         else if fz_node_id z \<noteq> None \<and> tbl_find (\<lambda>n. Some (n_id n) = fz_node_id z) (db_nodes d) = None then None
         else Some (z, d\<lparr>db_zones := tbl_insert mk (db_zones d)\<rparr>))"

definition get_zone :: "db \<Rightarrow> int \<Rightarrow> forward_zone option" where
  "get_zone d i = tbl_find (\<lambda>z. fz_id z = i) (db_zones d)"

definition new_zone ::
  "instant \<Rightarrow> string \<Rightarrow> string \<Rightarrow> string option \<Rightarrow> bool \<Rightarrow> int option \<Rightarrow> int \<Rightarrow> forward_zone" where
  "new_zone now domain servers description enabled node_id i =
     \<lparr>fz_id = i, fz_domain = domain, fz_servers = servers, fz_description = description, fz_enabled = enabled,
      fz_node_id = node_id, fz_created_at = now, fz_updated_at = now\<rparr>"

definition or_none :: "string \<Rightarrow> string option" where
  "or_none s = (if s = [] then None else Some s)"

definition forward_zones_add ::
  "instant \<Rightarrow> int option \<Rightarrow> string \<Rightarrow> string \<Rightarrow> string \<Rightarrow> bool \<Rightarrow> string \<Rightarrow> db \<Rightarrow> response \<times> db" where
  "forward_zones_add now sid domain servers description apply_globally node_id d =
     (case get_current_user sid d of
        None \<Rightarrow> (RedirectResponse ''/login'', d)
      | Some u \<Rightarrow>
          (let node_id_int = (if \<not> apply_globally \<and> node_id \<noteq> [] then py_int node_id else None)
           in case insert_zone (new_zone now (rstrip_by (\<lambda>c. c = CHR ''.'') (lower (strip domain))) (strip servers)
                     (or_none (strip description)) True node_id_int) d of
                None \<Rightarrow> (server_error, d)
              | Some (z, d1) \<Rightarrow>
                  (RedirectResponse ''/forwardzones'',
                   record_change now ''forward_zone'' (Some (fz_id z)) ''create'' (Some (u_id u)) None
                     (Some (forward_zone_to_dict z)) None d1)))"

text \<open>Assigning to a loaded zone; the column \<open>updated_at\<close> follows.\<close>

definition update_zone :: "instant \<Rightarrow> int \<Rightarrow> (forward_zone \<Rightarrow> forward_zone) \<Rightarrow> db \<Rightarrow> db" where
  "update_zone now i f d =
     d\<lparr>db_zones := tbl_update (\<lambda>z. fz_id z = i) (\<lambda>z. if f z = z then z else (f z)\<lparr>fz_updated_at := now\<rparr>) (db_zones d)\<rparr>"

definition forward_zones_toggle :: "instant \<Rightarrow> int option \<Rightarrow> int \<Rightarrow> db \<Rightarrow> response \<times> db" where
  "forward_zones_toggle now sid i d =
     (case get_current_user sid d of
        None \<Rightarrow> (RedirectResponse ''/login'', d)
      | Some u \<Rightarrow>
          (case get_zone d i of
             None \<Rightarrow> (RedirectResponse ''/forwardzones'', d)
           | Some z \<Rightarrow>
               (RedirectResponse ''/forwardzones'',
                record_change now ''forward_zone'' (Some (fz_id z)) ''toggle'' (Some (u_id u))
                  (Some (forward_zone_to_dict z)) (Some (forward_zone_to_dict (z\<lparr>fz_enabled := \<not> fz_enabled z\<rparr>))) None
                  (update_zone now i (\<lambda>z. z\<lparr>fz_enabled := \<not> fz_enabled z\<rparr>) d))))"

definition delete_zone :: "int \<Rightarrow> db \<Rightarrow> db" where
  "delete_zone i d = d\<lparr>db_zones := tbl_delete (\<lambda>z. fz_id z = i) (db_zones d)\<rparr>"

definition forward_zones_delete :: "instant \<Rightarrow> int option \<Rightarrow> int \<Rightarrow> db \<Rightarrow> response \<times> db" where
  "forward_zones_delete now sid i d =
     (case get_current_user sid d of
        None \<Rightarrow> (RedirectResponse ''/login'', d)
      | Some u \<Rightarrow>
          (case get_zone d i of
             None \<Rightarrow> (RedirectResponse ''/forwardzones'', d)
           | Some z \<Rightarrow>
               (RedirectResponse ''/forwardzones'',
                delete_zone i (record_change now ''forward_zone'' (Some (fz_id z)) ''delete'' (Some (u_id u))
                  (Some (forward_zone_to_dict z)) None None d))))"

section \<open>The file\<close>

definition global_enabled :: "forward_zone \<Rightarrow> bool" where
  "global_enabled z \<longleftrightarrow> fz_enabled z \<and> fz_node_id z = None"

definition zone_line :: "forward_zone \<Rightarrow> string" where
  "zone_line z = fz_domain z @ ''='' @ fz_servers z"

definition generate_forward_zones_config :: "db \<Rightarrow> string" where
  "generate_forward_zones_config d =
     join [newline] ([''# Forward zones for PowerDNS Recursor'',
        ''# Generated automatically - do not edit manually'' @ [newline]] @
        map zone_line (tbl_select global_enabled (db_zones d)))"

definition forward_zones_path :: string where
  "forward_zones_path = ''/shared/forward-zones.conf''"

text \<open>\<open>fail\<close> is the system call of \<open>safe_write\<close> that fails, if any; the handler then raises.\<close>

definition write_forward_zones_config ::
  "fs_call option \<Rightarrow> nat \<Rightarrow> string \<Rightarrow> string option \<Rightarrow> world \<Rightarrow> bool \<times> world" where
  "write_forward_zones_config fail k tmp out_path w =
     (let path = (case out_path of None \<Rightarrow> forward_zones_path | Some p \<Rightarrow> p);
          (ok, states) = safe_write_run fail k tmp path (generate_forward_zones_config (w_db w)) (w_files w)
      in (ok, w\<lparr>w_files := last states\<rparr>))"

text \<open>The number of zones is the one the page reports as written.\<close>

definition forward_zones_apply ::
  "fs_call option \<Rightarrow> nat \<Rightarrow> string \<Rightarrow> int option \<Rightarrow> world \<Rightarrow> (response + nat) \<times> world" where
  "forward_zones_apply fail k tmp sid w =
     (case get_current_user sid (w_db w) of
        None \<Rightarrow> (Inl (RedirectResponse ''/login''), w)
      | Some u \<Rightarrow>
          (case write_forward_zones_config fail k tmp None w of
             (False, w') \<Rightarrow> (Inl server_error, w')
           | (True, w') \<Rightarrow>
               (Inr (length (tbl_select (\<lambda>z. fz_node_id z = None \<and> fz_enabled z) (db_zones (w_db w))) +
                     length (tbl_select (\<lambda>z. fz_node_id z \<noteq> None \<and> fz_enabled z) (db_zones (w_db w)))), w')))"

section \<open>Reading the file\<close>

text \<open>
  How the recursor reads it: a line that is empty or starts with \<open>#\<close> is skipped, any other one is
  split at the first equals sign.
\<close>

definition read_zone_line :: "string \<Rightarrow> (string \<times> string) option" where
  "read_zone_line l =
     (if l = [] \<or> hd l = CHR ''#'' then None
      else Some (takeWhile (\<lambda>c. c \<noteq> CHR ''='') l, tl (dropWhile (\<lambda>c. c \<noteq> CHR ''='') l)))"

definition read_zones :: "string \<Rightarrow> (string \<times> string) list" where
  "read_zones s = List.map_filter read_zone_line (split_on newline s)"

text \<open>A zone the format can express.\<close>

definition zone_clean :: "forward_zone \<Rightarrow> bool" where
  "zone_clean z \<longleftrightarrow> fz_domain z \<noteq> [] \<and> hd (fz_domain z) \<noteq> CHR ''#'' \<and> CHR ''='' \<notin> set (fz_domain z) \<and>
     newline \<notin> set (fz_domain z) \<and> newline \<notin> set (fz_servers z)"

lemma read_zone_line_clean: "zone_clean z \<Longrightarrow> read_zone_line (zone_line z) = Some (fz_domain z, fz_servers z)"
  by (auto simp: zone_clean_def read_zone_line_def zone_line_def takeWhile_append dropWhile_append)

section \<open>Properties\<close>

text \<open>
  The recursor reads what was configured.  After a successful apply the file says exactly the
  enabled global zones, in order, with their servers, provided the zones can be expressed in the
  format; no other file changes.
\<close>

theorem forward_zones_read_back:
  assumes "forward_zones_apply None k tmp sid w = (Inr n, w')" and "tmp \<noteq> forward_zones_path" and "w_files w tmp = None"
    and "\<forall>z \<in> set (tbl_select global_enabled (db_zones (w_db w))). zone_clean z"
  shows "(\<exists>s. w_files w' forward_zones_path = Some s \<and>
      read_zones s = map (\<lambda>z. (fz_domain z, fz_servers z)) (tbl_select global_enabled (db_zones (w_db w)))) \<and>
    (\<forall>p. p \<noteq> forward_zones_path \<longrightarrow> w_files w' p = w_files w p)"
proof -
  let ?zs = "tbl_select global_enabled (db_zones (w_db w))" and ?c = "generate_forward_zones_config (w_db w)"
  let ?head = "[''# Forward zones for PowerDNS Recursor'', ''# Generated automatically - do not edit manually'', []]"
  have files: "w_files w' = (w_files w)(forward_zones_path \<mapsto> ?c)"
    using assms(1,2,3)
    by (auto simp: forward_zones_apply_def write_forward_zones_config_def safe_write_run_def Let_def fun_eq_iff split: option.splits)
  have lines: "\<forall>l \<in> set (map zone_line ?zs). newline \<notin> set l"
    using assms(4) by (auto simp: zone_clean_def zone_line_def)
  have "split_on newline ?c = (if ?zs = [] then ?head else ?head @ map zone_line ?zs)"
  proof (cases ?zs)
    case Nil
    have "split_on newline (join [newline] ?head) = ?head" by (rule split_on_join) simp_all
    with Nil show ?thesis by (simp add: generate_forward_zones_config_def)
  next
    case (Cons z zs)
    have "?c = join [newline] (?head @ map zone_line ?zs)"
      by (simp add: generate_forward_zones_config_def Cons)
    then show ?thesis using split_on_join [of "?head @ map zone_line ?zs" newline] lines Cons by auto
  qed
  moreover have "List.map_filter read_zone_line (map zone_line ?zs) = map (\<lambda>z. (fz_domain z, fz_servers z)) ?zs"
    using assms(4) read_zone_line_clean by (auto simp: List.map_filter_def filter_map comp_def cong: map_cong)
  ultimately have "read_zones ?c = map (\<lambda>z. (fz_domain z, fz_servers z)) ?zs"
    by (simp add: read_zones_def map_filter_append map_filter_simps read_zone_line_def [of "[]"] read_zone_line_def [of "CHR ''#'' # _"])
  then show ?thesis using files by simp
qed


definition zone_world :: world where
  "zone_world = \<lparr>w_db = empty_db\<lparr>db_users := \<lparr>rows = [\<lparr>u_id = 1, u_username = ''admin'', u_password_hash = []\<rparr>], next_id = 2\<rparr>,
       db_zones := \<lparr>rows = [new_zone 0 ''corp.example'' ''10.0.0.1'' None True None 1, new_zone 0 ''lab.example'' ''10.0.0.2'' None True (Some 4) 2],
         next_id = 3\<rparr>\<rparr>, w_files = Map.empty, w_writable = (\<lambda>_. True)\<rparr>"

theorem forward_zones_read_back_witness:
  "\<exists>s w'. forward_zones_apply None 0 ''/tmp/x'' (Some 1) zone_world = (Inr 2, w') \<and>
     w_files w' forward_zones_path = Some s \<and> read_zones s = [(''corp.example'', ''10.0.0.1'')]"
proof -
  obtain w' where run: "forward_zones_apply None 0 ''/tmp/x'' (Some 1) zone_world = (Inr 2, w')"
    by (simp add: forward_zones_apply_def write_forward_zones_config_def safe_write_run_def get_current_user_def tbl_find_def Let_def
        tbl_select_def zone_world_def new_zone_def empty_db_def)
  have zones: "tbl_select global_enabled (db_zones (w_db zone_world)) = [new_zone 0 ''corp.example'' ''10.0.0.1'' None True None 1]"
    by (simp add: tbl_select_def zone_world_def new_zone_def global_enabled_def)
  have "\<forall>z \<in> set (tbl_select global_enabled (db_zones (w_db zone_world))). zone_clean z"
    unfolding zones by (simp add: zone_clean_def new_zone_def)
  from forward_zones_read_back [OF run _ _ this] show ?thesis
    unfolding zones using run by (auto simp: forward_zones_path_def zone_world_def new_zone_def)
qed

end
