(* ===== verification/Audit_Rollback.thy ===== *)
theory Audit_Rollback
  imports Forward_Zones
begin

text \<open>
  Rolling back audited changes (\<open>admin-ui/app/routers/audit.py\<close>): deletions are undone by creating
  the row again, updates by assigning the recorded values, creations by deleting the row.  The
  recorded data is JSON; a value of another type than the column's raises when it is written.
\<close>

section \<open>Reading recorded data\<close>

definition str_field :: "string \<Rightarrow> string \<Rightarrow> pydict \<Rightarrow> string py_result" where
  "str_field k dflt data = (case map_of data k of None \<Rightarrow> Inr dflt | Some (PStr s) \<Rightarrow> Inr s | Some _ \<Rightarrow> Inl TypeError)"

definition bool_field :: "string \<Rightarrow> bool \<Rightarrow> pydict \<Rightarrow> bool py_result" where
  "bool_field k dflt data = (case map_of data k of None \<Rightarrow> Inr dflt | Some (PBool b) \<Rightarrow> Inr b | Some _ \<Rightarrow> Inl TypeError)"

definition int_field :: "string \<Rightarrow> int \<Rightarrow> pydict \<Rightarrow> int py_result" where
  "int_field k dflt data = (case map_of data k of None \<Rightarrow> Inr dflt | Some (PInt i) \<Rightarrow> Inr i | Some _ \<Rightarrow> Inl TypeError)"

definition opt_str_field :: "string \<Rightarrow> string option \<Rightarrow> pydict \<Rightarrow> string option py_result" where
  "opt_str_field k dflt data =
     (case map_of data k of None \<Rightarrow> Inr dflt | Some PNone \<Rightarrow> Inr None | Some (PStr s) \<Rightarrow> Inr (Some s) | Some _ \<Rightarrow> Inl TypeError)"

definition opt_int_field :: "string \<Rightarrow> pydict \<Rightarrow> int option py_result" where
  "opt_int_field k data =
     (case map_of data k of None \<Rightarrow> Inr None | Some PNone \<Rightarrow> Inr None | Some (PInt i) \<Rightarrow> Inr (Some i) | Some _ \<Rightarrow> Inl TypeError)"

definition bind_result :: "'a py_result \<Rightarrow> ('a \<Rightarrow> 'b py_result) \<Rightarrow> 'b py_result" where
  "bind_result r f = (case r of Inl e \<Rightarrow> Inl e | Inr x \<Rightarrow> f x)"

section \<open>The three kinds of rollback\<close>

text \<open>Each answers the text shown to the user and the database; an exception leaves the database alone.\<close>

definition rollback_delete_blocklist :: "instant \<Rightarrow> int \<Rightarrow> int \<Rightarrow> pydict \<Rightarrow> db \<Rightarrow> (string \<times> db) py_result" where
  "rollback_delete_blocklist now change_id user_id data d =
     bind_result (str_field ''url'' [] data) (\<lambda>url.
       case tbl_find (\<lambda>b. bl_url b = url \<and> map_of data ''url'' \<noteq> None) (db_blocklists d) of
         Some b \<Rightarrow> Inr (''Blocklist with URL already exists (id='' @ show_int (bl_id b) @ '')'', d)
       | None \<Rightarrow>
           bind_result (str_field ''name'' [] data) (\<lambda>name.
           bind_result (str_field ''format'' ''domains'' data) (\<lambda>fmt.
           bind_result (str_field ''list_type'' ''block'' data) (\<lambda>list_type.
           bind_result (bool_field ''enabled'' True data) (\<lambda>enabled.
           bind_result (int_field ''update_frequency_hours'' 24 data) (\<lambda>freq.
             case insert_blocklist (new_blocklist now name url fmt list_type enabled freq) d of
               None \<Rightarrow> Inl IntegrityError
             | Some (b, d1) \<Rightarrow>
                 Inr (''Restored blocklist: '' @ name,
                   record_change now ''blocklist'' (Some (bl_id b)) ''rollback_restore'' (Some user_id) None
                     (Some (blocklist_to_dict b)) (Some (''Rolled back delete from change #'' @ show_int change_id)) d1)))))))"

definition rollback_delete_zone :: "instant \<Rightarrow> int \<Rightarrow> int \<Rightarrow> pydict \<Rightarrow> db \<Rightarrow> (string \<times> db) py_result" where
  "rollback_delete_zone now change_id user_id data d =
     bind_result (str_field ''domain'' [] data) (\<lambda>domain.
       case tbl_find (\<lambda>z. fz_domain z = domain \<and> map_of data ''domain'' \<noteq> None) (db_zones d) of
         Some z \<Rightarrow> Inr (''Forward zone for domain already exists (id='' @ show_int (fz_id z) @ '')'', d)
       | None \<Rightarrow>
           bind_result (str_field ''servers'' [] data) (\<lambda>servers.
           bind_result (opt_str_field ''description'' None data) (\<lambda>description.
           bind_result (bool_field ''enabled'' True data) (\<lambda>enabled.
           bind_result (opt_int_field ''node_id'' data) (\<lambda>node_id.
             case insert_zone (new_zone now domain servers description enabled node_id) d of
               None \<Rightarrow> Inl IntegrityError
             | Some (z, d1) \<Rightarrow>
                 Inr (''Restored forward zone: '' @ domain,
                   record_change now ''forward_zone'' (Some (fz_id z)) ''rollback_restore'' (Some user_id) None
                     (Some (forward_zone_to_dict z)) (Some (''Rolled back delete from change #'' @ show_int change_id)) d1))))))"

definition rollback_update_blocklist :: "instant \<Rightarrow> int \<Rightarrow> int \<Rightarrow> int \<Rightarrow> pydict \<Rightarrow> db \<Rightarrow> (string \<times> db) py_result" where
  "rollback_update_blocklist now change_id user_id i data d =
     (case get_blocklist d i of
        None \<Rightarrow> Inr (''Blocklist #'' @ show_int i @ '' not found'', d)
      | Some b \<Rightarrow>
          bind_result (str_field ''name'' (bl_name b) data) (\<lambda>name.
          bind_result (bool_field ''enabled'' (bl_enabled b) data) (\<lambda>enabled.
          bind_result (int_field ''update_frequency_hours'' (bl_update_frequency_hours b) data) (\<lambda>freq.
            let f = (\<lambda>b. b\<lparr>bl_name := name, bl_enabled := enabled, bl_update_frequency_hours := freq\<rparr>)
            in Inr (''Rolled back blocklist: '' @ name,
                 record_change now ''blocklist'' (Some (bl_id b)) ''rollback_update'' (Some user_id)
                   (Some (blocklist_to_dict b)) (Some (blocklist_to_dict (f b)))
                   (Some (''Rolled back change #'' @ show_int change_id)) (update_blocklist i f d))))))"

text \<open>Assigning a domain that another zone has violates the unique constraint.\<close>

definition rollback_update_zone :: "instant \<Rightarrow> int \<Rightarrow> int \<Rightarrow> int \<Rightarrow> pydict \<Rightarrow> db \<Rightarrow> (string \<times> db) py_result" where
  "rollback_update_zone now change_id user_id i data d =
     (case get_zone d i of
        None \<Rightarrow> Inr (''Forward zone #'' @ show_int i @ '' not found'', d)
      | Some z \<Rightarrow>
          bind_result (str_field ''domain'' (fz_domain z) data) (\<lambda>domain.
          bind_result (str_field ''servers'' (fz_servers z) data) (\<lambda>servers.
          bind_result (opt_str_field ''description'' (fz_description z) data) (\<lambda>description.
          bind_result (bool_field ''enabled'' (fz_enabled z) data) (\<lambda>enabled.
            let f = (\<lambda>z. z\<lparr>fz_domain := domain, fz_servers := servers, fz_description := description, fz_enabled := enabled\<rparr>)
            in if tbl_find (\<lambda>x. fz_domain x = domain \<and> fz_id x \<noteq> i) (db_zones d) \<noteq> None then Inl IntegrityError
               else Inr (''Rolled back forward zone: '' @ domain,
                 record_change now ''forward_zone'' (Some (fz_id z)) ''rollback_update'' (Some user_id)
                   (Some (forward_zone_to_dict z)) (Some (forward_zone_to_dict (f z)))
                   (Some (''Rolled back change #'' @ show_int change_id)) (update_zone now i f d)))))))"

definition rollback_create_blocklist :: "instant \<Rightarrow> int \<Rightarrow> int \<Rightarrow> int \<Rightarrow> db \<Rightarrow> string \<times> db" where
  "rollback_create_blocklist now change_id user_id i d =
     (case get_blocklist d i of
        None \<Rightarrow> (''Blocklist #'' @ show_int i @ '' already deleted'', d)
      | Some b \<Rightarrow>
          (''Deleted blocklist: '' @ bl_name b,
           delete_blocklist i (record_change now ''blocklist'' (Some (bl_id b)) ''rollback_delete'' (Some user_id)
             (Some (blocklist_to_dict b)) None (Some (''Rolled back create from change #'' @ show_int change_id)) d)))"

definition rollback_create_zone :: "instant \<Rightarrow> int \<Rightarrow> int \<Rightarrow> int \<Rightarrow> db \<Rightarrow> string \<times> db" where
  "rollback_create_zone now change_id user_id i d =
     (case get_zone d i of
        None \<Rightarrow> (''Forward zone #'' @ show_int i @ '' already deleted'', d)
      | Some z \<Rightarrow>
          (''Deleted forward zone: '' @ fz_domain z,
           delete_zone i (record_change now ''forward_zone'' (Some (fz_id z)) ''rollback_delete'' (Some user_id)
             (Some (forward_zone_to_dict z)) None (Some (''Rolled back create from change #'' @ show_int change_id)) d)))"

section \<open>The handler\<close>

definition ROLLBACK_SUPPORTED_TYPES :: "string list" where
  "ROLLBACK_SUPPORTED_TYPES = [''blocklist'', ''forward_zone'']"

definition has_data :: "pydict option \<Rightarrow> bool" where
  "has_data x \<longleftrightarrow> x \<noteq> None \<and> x \<noteq> Some []"

definition has_id :: "int option \<Rightarrow> bool" where
  "has_id x \<longleftrightarrow> x \<noteq> None \<and> x \<noteq> Some 0"

definition rollback_of :: "instant \<Rightarrow> config_change \<Rightarrow> int \<Rightarrow> db \<Rightarrow> (string \<times> db) py_result" where
  "rollback_of now change user_id d =
     (let data = (case cc_before_data change of None \<Rightarrow> [] | Some x \<Rightarrow> x);
          i = (case cc_entity_id change of None \<Rightarrow> 0 | Some n \<Rightarrow> n);
          zone = (cc_entity_type change = ''forward_zone'')
      in if cc_action change = ''delete'' \<and> has_data (cc_before_data change) then
           (if zone then rollback_delete_zone now (cc_id change) user_id data d
            else rollback_delete_blocklist now (cc_id change) user_id data d)
         else if cc_action change \<in> {''create'', ''toggle'', ''update'', ''update_frequency''} \<and> has_data (cc_before_data change) then
           (if \<not> has_id (cc_entity_id change) then Inr (''No before_data or entity_id'', d)
            else if zone then rollback_update_zone now (cc_id change) user_id i data d
            else rollback_update_blocklist now (cc_id change) user_id i data d)
         else if cc_action change = ''create'' \<and> \<not> has_data (cc_before_data change) \<and> has_id (cc_entity_id change) then
           Inr (if zone then rollback_create_zone now (cc_id change) user_id i d
                else rollback_create_blocklist now (cc_id change) user_id i d)
         else Inr (''Cannot rollback this change type'', d))"

definition plus_for_blank :: "string \<Rightarrow> string" where
  "plus_for_blank s = map (\<lambda>c. if c = CHR '' '' then CHR ''+'' else c) s"

definition rollback_change :: "instant \<Rightarrow> int option \<Rightarrow> int \<Rightarrow> db \<Rightarrow> response \<times> db" where
  "rollback_change now sid change_id d =
     (case get_current_user sid d of
        None \<Rightarrow> (RedirectResponse ''/login'', d)
      | Some u \<Rightarrow>
          (case tbl_find (\<lambda>c. cc_id c = change_id) (db_changes d) of
             None \<Rightarrow> (RedirectResponse ''/audit?rollback=Change+not+found'', d)
           | Some change \<Rightarrow>
               if cc_entity_type change \<notin> set ROLLBACK_SUPPORTED_TYPES
               then (RedirectResponse (''/audit?rollback=Rollback+not+supported+for+'' @ cc_entity_type change), d)
               else (case rollback_of now change (u_id u) d of
                       Inl _ \<Rightarrow> (server_error, d)
                     | Inr (result, d') \<Rightarrow> (RedirectResponse (''/audit?rollback='' @ plus_for_blank result), d'))))"

section \<open>Facts\<close>

lemma new_change_found:
  assumes "table_wf cc_id (db_changes d)"
  shows "tbl_find (\<lambda>c. cc_id c = next_id (db_changes d)) (db_changes (record_change now t i a u b af cm d)) =
    Some \<lparr>cc_id = next_id (db_changes d), cc_entity_type = t, cc_entity_id = i, cc_action = a, cc_actor_user_id = u,
      cc_before_data = b, cc_after_data = af, cc_comment = cm, cc_created_at = now\<rparr>"
proof -
  have "find (\<lambda>c. cc_id c = next_id (db_changes d)) (rows (db_changes d)) = None"
    using assms by (auto simp: find_None_iff table_wf_def)
  then show ?thesis by (simp add: record_change_def tbl_find_def find_append)
qed

lemma get_current_user_cong: "db_users d' = db_users d \<Longrightarrow> get_current_user sid d' = get_current_user sid d"
  by (simp add: get_current_user_def split: option.split)

lemma recorded_blocklist_fields:
  "str_field ''name'' x (blocklist_to_dict b) = Inr (bl_name b)" "str_field ''url'' x (blocklist_to_dict b) = Inr (bl_url b)"
  "str_field ''format'' x (blocklist_to_dict b) = Inr (bl_format b)"
  "str_field ''list_type'' x (blocklist_to_dict b) = Inr (bl_list_type b)"
  "bool_field ''enabled'' y (blocklist_to_dict b) = Inr (bl_enabled b)"
  "int_field ''update_frequency_hours'' z (blocklist_to_dict b) = Inr (bl_update_frequency_hours b)"
  by (simp_all add: str_field_def bool_field_def int_field_def blocklist_to_dict_def)

text \<open>An edit that touches only what a rollback assigns is undone exactly.\<close>

lemma edit_undone:
  assumes user: "get_current_user sid d = Some u" and b: "get_blocklist d i = Some b"
    and wf: "table_wf bl_id (db_blocklists d)" "table_wf cc_id (db_changes d)"
    and action: "action \<in> {''toggle'', ''update_frequency''}"
    and f: "\<And>b. bl_id (f b) = bl_id b" "\<And>b. (f b)\<lparr>bl_name := bl_name b, bl_enabled := bl_enabled b,
      bl_update_frequency_hours := bl_update_frequency_hours b\<rparr> = b"
    and d1: "d1 = snd (edit_blocklist now sid i action f d)"
  shows "\<exists>d2. rollback_change now' sid (next_id (db_changes d)) d1 =
      (RedirectResponse (''/audit?rollback='' @ plus_for_blank (''Rolled back blocklist: '' @ bl_name b)), d2) \<and>
    db_blocklists d2 = db_blocklists d \<and> length (rows (db_changes d2)) = length (rows (db_changes d)) + 2"
proof -
  have row: "b \<in> set (rows (db_blocklists d))" "bl_id b = i" using tbl_find_SomeD b by (fastforce simp: get_blocklist_def)+
  then have i: "0 < i" using wf(1) by (auto simp: table_wf_def)
  let ?e = "update_blocklist i f d"
  have d1': "d1 = record_change now ''blocklist'' (Some i) action (Some (u_id u)) (Some (blocklist_to_dict b))
      (Some (blocklist_to_dict (f b))) None ?e"
    using user b row(2) by (simp add: d1 edit_blocklist_def)
  have same: "db_changes ?e = db_changes d" "db_users ?e = db_users d" by (simp_all add: update_blocklist_def)
  have only: "r = b" if "r \<in> set (rows (db_blocklists d))" "bl_id r = i" for r
    using table_wf_key_inj [OF wf(1) that(1) row(1)] that(2) row(2) by simp
  have "find (\<lambda>x. bl_id x = i) (map (\<lambda>x. if bl_id x = i then f x else x) xs) = map_option f (find (\<lambda>x. bl_id x = i) xs)" for xs
    by (induction xs) (auto simp: f(1))
  then have fb: "get_blocklist d1 i = Some (f b)"
    using b by (simp add: d1' get_blocklist_def tbl_find_def update_blocklist_def)
  let ?g = "\<lambda>x. x\<lparr>bl_name := bl_name b, bl_enabled := bl_enabled b, bl_update_frequency_hours := bl_update_frequency_hours b\<rparr>"
  have "map (\<lambda>x. if bl_id x = i then ?g x else x) (map (\<lambda>x. if bl_id x = i then f x else x) (rows (db_blocklists d))) = rows (db_blocklists d)"
    using only f by (auto simp: map_idI)
  then have restored: "db_blocklists (update_blocklist i ?g d1) = db_blocklists d"
    by (simp add: d1' update_blocklist_def tbl_update_def)
  have "has_data (Some (blocklist_to_dict b))" by (simp add: has_data_def blocklist_to_dict_def)
  moreover have "get_current_user sid d1 = Some u"
    using user get_current_user_cong [of d1 d] same(2) by (simp add: d1')
  moreover note new_change_found [of ?e now "''blocklist''" "Some i" action "Some (u_id u)" "Some (blocklist_to_dict b)"
      "Some (blocklist_to_dict (f b))" None, unfolded same, OF wf(2), folded d1']
  ultimately show ?thesis
    using action i fb restored
    by (auto simp: rollback_change_def ROLLBACK_SUPPORTED_TYPES_def rollback_of_def has_id_def Let_def rollback_update_blocklist_def
        recorded_blocklist_fields bind_result_def record_change_def [of now'] update_blocklist_def d1' record_change_def same)
qed

section \<open>Properties\<close>


definition one_list_db :: db where
  "one_list_db = empty_db\<lparr>db_users := \<lparr>rows = [\<lparr>u_id = 1, u_username = ''admin'', u_password_hash = []\<rparr>], next_id = 2\<rparr>,
     db_blocklists := \<lparr>rows = [(new_blocklist 0 ''ads'' ''http://l'' ''hosts'' ''block'' True 24 1)
       \<lparr>bl_schedule_enabled := True, bl_schedule_days := Some ''mon''\<rparr>], next_id = 2\<rparr>\<rparr>"

lemmas one_list_defs = one_list_db_def empty_db_def empty_table_def new_blocklist_def

lemma one_list_facts:
  "get_current_user (Some 1) one_list_db = Some \<lparr>u_id = 1, u_username = ''admin'', u_password_hash = []\<rparr>"
  "get_blocklist one_list_db 1 = Some ((new_blocklist 0 ''ads'' ''http://l'' ''hosts'' ''block'' True 24 1)
       \<lparr>bl_schedule_enabled := True, bl_schedule_days := Some ''mon''\<rparr>)"
  "table_wf bl_id (db_blocklists one_list_db)" "table_wf cc_id (db_changes one_list_db)"
  by (simp_all add: get_current_user_def get_blocklist_def tbl_find_def table_wf_def one_list_defs)


text \<open>
  A rollback of a deletion restores only part of a list.  The list comes back under a new id
  with its name, address, format, type, state and frequency, but its schedule is gone whatever it
  was, and none of its entries are there, so until the next download it blocks nothing.
\<close>

theorem rollback_of_delete_is_partial:
  assumes user: "get_current_user sid d = Some u" and b: "get_blocklist d i = Some b"
    and wf: "table_wf bl_id (db_blocklists d)" "table_wf cc_id (db_changes d)"
    and urls: "distinct (map bl_url (rows (db_blocklists d)))"
    and refs: "\<forall>e \<in> set (rows (db_entries d)). be_blocklist_id e < next_id (db_blocklists d)"
  shows "\<exists>d2 b'. rollback_change now' sid (next_id (db_changes d)) (snd (blocklists_delete now sid i d)) =
      (RedirectResponse (''/audit?rollback='' @ plus_for_blank (''Restored blocklist: '' @ bl_name b)), d2) \<and>
    rows (db_blocklists d2) = filter (\<lambda>x. bl_id x \<noteq> i) (rows (db_blocklists d)) @ [b'] \<and>
    b' = new_blocklist now' (bl_name b) (bl_url b) (bl_format b) (bl_list_type b) (bl_enabled b)
           (bl_update_frequency_hours b) (next_id (db_blocklists d)) \<and>
    \<not> bl_schedule_enabled b' \<and> bl_schedule_days b' = None \<and>
    (\<forall>e \<in> set (rows (db_entries d2)). be_blocklist_id e \<noteq> bl_id b')"
proof -
  have row: "b \<in> set (rows (db_blocklists d))" "bl_id b = i" using tbl_find_SomeD b by (fastforce simp: get_blocklist_def)+
  let ?c = "record_change now ''blocklist'' (Some i) ''delete'' (Some (u_id u)) (Some (blocklist_to_dict b)) None None d"
  let ?d1 = "delete_blocklist i ?c"
  have d1: "snd (blocklists_delete now sid i d) = ?d1" using user b row(2) by (simp add: blocklists_delete_def)
  have same: "db_changes ?d1 = db_changes ?c" "db_users ?d1 = db_users d"
    by (simp_all add: delete_blocklist_def delete_entries_def)
  have user1: "get_current_user sid ?d1 = Some u" using user get_current_user_cong [OF same(2)] by simp
  note change = new_change_found [OF wf(2), of now "''blocklist''" "Some i" "''delete''" "Some (u_id u)"
      "Some (blocklist_to_dict b)" None None, folded same(1)]
  have lists: "rows (db_blocklists ?d1) = filter (\<lambda>x. bl_id x \<noteq> i) (rows (db_blocklists d))"
    "next_id (db_blocklists ?d1) = next_id (db_blocklists d)"
    by (simp_all add: delete_blocklist_def)
  have free: "bl_url x \<noteq> bl_url b" if "x \<in> set (rows (db_blocklists ?d1))" for x
    using that urls row unfolding lists(1) by (auto simp: distinct_map inj_on_def)
  have find: "tbl_find (\<lambda>x. bl_url x = bl_url b \<and> P) (db_blocklists ?d1) = None"
    "tbl_find (\<lambda>x. bl_url x = bl_url b) (db_blocklists ?d1) = None" for P
    using free by (auto simp: tbl_find_None_iff)
  let ?mk = "new_blocklist now' (bl_name b) (bl_url b) (bl_format b) (bl_list_type b) (bl_enabled b) (bl_update_frequency_hours b)"
  have ins: "insert_blocklist ?mk ?d1 = Some (?mk (next_id (db_blocklists d)), ?d1\<lparr>db_blocklists := tbl_insert ?mk (db_blocklists ?d1)\<rparr>)"
    using find(2) by (simp add: insert_blocklist_def lists(2) new_blocklist_def)
  have "has_data (Some (blocklist_to_dict b))" by (simp add: has_data_def blocklist_to_dict_def)
  then have run: "rollback_change now' sid (next_id (db_changes d)) ?d1 =
      (RedirectResponse (''/audit?rollback='' @ plus_for_blank (''Restored blocklist: '' @ bl_name b)),
       record_change now' ''blocklist'' (Some (bl_id (?mk (next_id (db_blocklists d))))) ''rollback_restore'' (Some (u_id u)) None
         (Some (blocklist_to_dict (?mk (next_id (db_blocklists d)))))
         (Some (''Rolled back delete from change #'' @ show_int (next_id (db_changes d))))
         (?d1\<lparr>db_blocklists := tbl_insert ?mk (db_blocklists ?d1)\<rparr>))"
    using user1 change find(1) ins
    by (simp add: rollback_change_def ROLLBACK_SUPPORTED_TYPES_def rollback_of_def rollback_delete_blocklist_def bind_result_def
        recorded_blocklist_fields Let_def)
  have "\<forall>e \<in> set (rows (db_entries ?d1)). be_blocklist_id e \<noteq> next_id (db_blocklists d)"
    using refs by (auto simp: delete_blocklist_def delete_entries_def)
  then show ?thesis unfolding d1 run by (simp add: lists new_blocklist_def)
qed

theorem rollback_of_delete_is_partial_witness:
  "\<exists>d2 :: db. rollback_change 9 (Some 1) 1 (snd (blocklists_delete 5 (Some 1) 1 one_list_db)) =
      (RedirectResponse ''/audit?rollback=Restored+blocklist:+ads'', d2) \<and>
     rows (db_blocklists d2) = [new_blocklist 9 ''ads'' ''http://l'' ''hosts'' ''block'' True 24 2]"
proof -
  have "next_id (db_changes one_list_db) = 1" "next_id (db_blocklists one_list_db) = 2"
    "distinct (map bl_url (rows (db_blocklists one_list_db)))" "filter (\<lambda>x. bl_id x \<noteq> 1) (rows (db_blocklists one_list_db)) = []"
    "\<forall>e \<in> set (rows (db_entries one_list_db)). be_blocklist_id e < next_id (db_blocklists one_list_db)"
    by (simp_all add: one_list_defs)
  then show ?thesis
    using rollback_of_delete_is_partial [OF one_list_facts, of 9 5]
    by (auto simp: plus_for_blank_def new_blocklist_def)
qed

end
