(* ===== verification/Web_Security.thy ===== *)
theory Web_Security
  imports Blocking
begin

text \<open>
  What guards the web interface: the CSRF middleware (\<open>admin-ui/app/csrf.py\<close>) with the paths it
  leaves alone (\<open>main.py\<close>), password hashing (\<open>security.py\<close>), sessions (\<open>routers/auth.py\<close>), and the
  checks and the administrator's account at start-up (\<open>main.py\<close>).  \<open>bcrypt\<close> and the random tokens
  are parameters; strings are their UTF-8 bytes.
\<close>

section \<open>Form bodies\<close>

text \<open>\<open>urllib.parse.parse_qs\<close> with blank values kept: pairs in order, decoded.\<close>

definition hex_value :: "char \<Rightarrow> nat option" where
  "hex_value c =
     (let n = of_char c :: nat
      in if 48 \<le> n \<and> n \<le> 57 then Some (n - 48)
         else if 65 \<le> n \<and> n \<le> 70 then Some (n - 55)
         else if 97 \<le> n \<and> n \<le> 102 then Some (n - 87) else None)"

fun unquote_plus :: "string \<Rightarrow> string" where
  "unquote_plus [] = []"
| "unquote_plus (a # b # c # s) =
     (if a = CHR ''%'' then
        (case (hex_value b, hex_value c) of
           (Some h, Some l) \<Rightarrow> char_of (16 * h + l) # unquote_plus s
         | _ \<Rightarrow> a # unquote_plus (b # c # s))
      else (if a = CHR ''+'' then CHR '' '' else a) # unquote_plus (b # c # s))"
| "unquote_plus (a # s) = (if a = CHR ''+'' then CHR '' '' else a) # unquote_plus s"

definition parse_pair :: "string \<Rightarrow> string \<times> string" where
  "parse_pair p =
     (unquote_plus (takeWhile (\<lambda>c. c \<noteq> CHR ''='') p), unquote_plus (tl (dropWhile (\<lambda>c. c \<noteq> CHR ''='') p)))"

definition parse_qs :: "string \<Rightarrow> (string \<times> string) list" where
  "parse_qs body = map parse_pair (filter (\<lambda>p. p \<noteq> []) (split_on CHR ''&'' body))"

section \<open>The CSRF middleware\<close>

definition SAFE_METHODS :: "string list" where
  "SAFE_METHODS = [''GET'', ''HEAD'', ''OPTIONS'', ''TRACE'']"

definition exempt_paths :: "string list" where
  "exempt_paths = [''/api/'', ''/health'', ''/metrics'', ''/grafana/'']"

text \<open>
  \<open>hr_body\<close> is the body after decoding, or nothing when it is not valid UTF-8.
\<close>

record http_request =
  hr_method :: string
  hr_path :: string
  hr_cookie :: "string option"
  hr_header :: "string option"
  hr_content_type :: string
  hr_body :: "string option"

text \<open>
  The application is called with the token and sets the cookie if there was none, the request is
  answered with 403, or comparing the tokens raises because one is not ASCII.
\<close>

datatype csrf_result = Forwarded string bool | Forbidden | CsrfRaised

definition is_exempt :: "string list \<Rightarrow> http_request \<Rightarrow> bool" where
  "is_exempt exempt req \<longleftrightarrow> (\<exists>p \<in> set exempt. take (length p) (hr_path req) = p)"

definition is_ascii :: "string \<Rightarrow> bool" where
  "is_ascii s \<longleftrightarrow> (\<forall>c \<in> set s. (of_char c :: nat) < 128)"

definition FORM_FIELD :: string where
  "FORM_FIELD = ''csrf_token''"

definition submitted_token :: "http_request \<Rightarrow> string option" where
  "submitted_token req =
     (if truthy (hr_header req) then hr_header req
      else if substr_in ''application/x-www-form-urlencoded'' (hr_content_type req) then
        (case hr_body req of
           None \<Rightarrow> hr_header req
         | Some body \<Rightarrow>
             (case map_of (parse_qs body) FORM_FIELD of None \<Rightarrow> hr_header req | Some v \<Rightarrow> Some v))
      else hr_header req)"

definition csrf_call :: "string list \<Rightarrow> string \<Rightarrow> http_request \<Rightarrow> csrf_result" where
  "csrf_call exempt fresh req =
     (let csrf_token = (if truthy (hr_cookie req) then the (hr_cookie req) else fresh);
          need_cookie = (\<not> truthy (hr_cookie req))
      in if is_exempt exempt req \<or> hr_method req \<in> set SAFE_METHODS then Forwarded csrf_token need_cookie
         else (case submitted_token req of
                 None \<Rightarrow> Forbidden
               | Some submitted \<Rightarrow>
                   if submitted = [] then Forbidden
                   else if \<not> is_ascii csrf_token \<or> \<not> is_ascii submitted then CsrfRaised
                   else if csrf_token = submitted then Forwarded csrf_token need_cookie
                   else Forbidden))"

definition csrf_token_input :: "string \<Rightarrow> string" where
  "csrf_token_input token =
     ''<input type='' @ [CHR 0x22] @ ''hidden'' @ [CHR 0x22] @ '' name='' @ [CHR 0x22] @ ''csrf_token'' @ [CHR 0x22] @
     '' value='' @ [CHR 0x22] @ token @ [CHR 0x22] @ ''>''"

section \<open>Passwords\<close>

text \<open>\<open>sha\<close> is the hexadecimal SHA-256 digest; bcrypt looks at 72 bytes only.\<close>

definition prehash_if_needed :: "(string \<Rightarrow> string) \<Rightarrow> string \<Rightarrow> string" where
  "prehash_if_needed sha b = (if length b > 72 then sha b else b)"

definition hash_password :: "(string \<Rightarrow> string) \<Rightarrow> (string \<Rightarrow> string \<Rightarrow> string) \<Rightarrow> string \<Rightarrow> string \<Rightarrow> string" where
  "hash_password sha hashpw salt password = hashpw (prehash_if_needed sha password) salt"

text \<open>\<open>checkpw\<close> returns nothing when it raises on a malformed hash.\<close>

definition verify_password :: "(string \<Rightarrow> string) \<Rightarrow> (string \<Rightarrow> string \<Rightarrow> bool option) \<Rightarrow> string \<Rightarrow> string \<Rightarrow> bool" where
  "verify_password sha checkpw password password_hash =
     (case checkpw (prehash_if_needed sha password) password_hash of None \<Rightarrow> False | Some ok \<Rightarrow> ok)"

section \<open>Sessions\<close>

type_synonym session = "int option"

definition login_post ::
  "(string \<Rightarrow> string) \<Rightarrow> (string \<Rightarrow> string \<Rightarrow> bool option) \<Rightarrow> string \<Rightarrow> string \<Rightarrow> db \<Rightarrow> session \<Rightarrow> response \<times> session" where
  "login_post sha checkpw username password d s =
     (case tbl_find (\<lambda>u. u_username u = username) (db_users d) of
        None \<Rightarrow> (JSONError 401 ''Invalid credentials'', s)
      | Some u \<Rightarrow>
          if verify_password sha checkpw password (u_password_hash u) then (RedirectResponse ''/'', Some (u_id u))
          else (JSONError 401 ''Invalid credentials'', s))"

definition logout :: "session \<Rightarrow> response \<times> session" where
  "logout s = (RedirectResponse ''/login'', None)"

section \<open>Start-up\<close>

definition INSECURE_DEFAULTS :: "string list" where
  "INSECURE_DEFAULTS = [''change-me'', ''password'', ''admin'', ''secret'', []]"

definition security_issues :: "string \<Rightarrow> string \<Rightarrow> string \<Rightarrow> string list" where
  "security_issues admin_password admin_secret_key primary_api_key =
     (if admin_password \<in> set INSECURE_DEFAULTS then [''ADMIN_PASSWORD is set to a default/weak value''] else []) @
     (if admin_secret_key \<in> set INSECURE_DEFAULTS then [''ADMIN_SECRET_KEY is set to a default/weak value''] else []) @
     (if primary_api_key \<noteq> [] \<and> primary_api_key \<in> set INSECURE_DEFAULTS
      then [''PRIMARY_API_KEY is set to a default/weak value''] else [])"

text \<open>The program goes on, or exits.  \<open>allow\<close> is the environment variable that bypasses the check.\<close>

definition validate_security_settings :: "string \<Rightarrow> string \<Rightarrow> string \<Rightarrow> string \<Rightarrow> bool" where
  "validate_security_settings allow admin_password admin_secret_key primary_api_key \<longleftrightarrow>
     security_issues admin_password admin_secret_key primary_api_key = [] \<or> lower allow = ''true''"

definition bootstrap_admin ::
  "(string \<Rightarrow> string) \<Rightarrow> (string \<Rightarrow> string \<Rightarrow> string) \<Rightarrow> (string \<Rightarrow> string \<Rightarrow> bool option) \<Rightarrow> string \<Rightarrow>
   string \<Rightarrow> string \<Rightarrow> db \<Rightarrow> db" where
  "bootstrap_admin sha hashpw checkpw salt username password d =
     (case tbl_find (\<lambda>u. u_username u = username) (db_users d) of
        None \<Rightarrow>
          d\<lparr>db_users := tbl_insert (\<lambda>i. \<lparr>u_id = i, u_username = username,
              u_password_hash = hash_password sha hashpw salt password\<rparr>) (db_users d)\<rparr>
      | Some existing \<Rightarrow>
          if verify_password sha checkpw password (u_password_hash existing) then d
          else d\<lparr>db_users := tbl_update (\<lambda>u. u_username u = username)
                 (\<lambda>u. u\<lparr>u_password_hash := hash_password sha hashpw salt password\<rparr>) (db_users d)\<rparr>)"

section \<open>Facts\<close>

lemma substr_in_refl: "substr_in p p"
  by (cases p) (simp_all add: startswith_def)

lemma unquote_plain: "CHR ''%'' \<notin> set s \<Longrightarrow> CHR ''+'' \<notin> set s \<Longrightarrow> unquote_plus s = s"
  by (induction s rule: unquote_plus.induct) auto

lemma map_of_form:
  assumes "\<forall>p \<in> set before. fst (parse_pair p) \<noteq> FORM_FIELD" and "\<forall>p \<in> set (before @ after). CHR ''&'' \<notin> set p"
    and t: "t \<noteq> []" "\<forall>c \<in> set t. c \<noteq> CHR ''&'' \<and> c \<noteq> CHR ''='' \<and> c \<noteq> CHR ''%'' \<and> c \<noteq> CHR ''+''"
  shows "map_of (parse_qs (join ''&'' (before @ [FORM_FIELD @ ''='' @ t] @ after))) FORM_FIELD = Some t"
proof -
  let ?p = "FORM_FIELD @ ''='' @ t"
  have "split_on CHR ''&'' (join ''&'' (before @ [?p] @ after)) = before @ [?p] @ after"
    using assms(2) t(2) by (intro split_on_join) (auto simp: FORM_FIELD_def)
  then have "parse_qs (join ''&'' (before @ [?p] @ after)) =
      map parse_pair (filter (\<lambda>p. p \<noteq> []) before) @ parse_pair ?p # map parse_pair (filter (\<lambda>p. p \<noteq> []) after)"
    by (simp add: parse_qs_def)
  moreover have "unquote_plus t = t" by (rule unquote_plain) (use t(2) in auto)
  then have "parse_pair ?p = (FORM_FIELD, t)" by (simp add: parse_pair_def FORM_FIELD_def)
  moreover have "map_of (map parse_pair (filter (\<lambda>p. p \<noteq> []) before)) FORM_FIELD = None"
    using assms(1) by (auto simp: map_of_eq_None_iff)
  ultimately show ?thesis by (simp add: map_add_def)
qed

definition is_token :: "string \<Rightarrow> bool" where
  "is_token t \<longleftrightarrow> t \<noteq> [] \<and> (\<forall>c \<in> set t. c \<in> set ''0123456789abcdef'')"

lemma hex_digits_plain:
  "list_all (\<lambda>c. (of_char c :: nat) < 128 \<and> c \<noteq> CHR ''&'' \<and> c \<noteq> CHR ''='' \<and> c \<noteq> CHR ''%'' \<and> c \<noteq> CHR ''+'')
     ''0123456789abcdef''"
  by code_simp

lemma is_token_facts:
  assumes "is_token t"
  shows "t \<noteq> []" "is_ascii t" "\<forall>c \<in> set t. c \<noteq> CHR ''&'' \<and> c \<noteq> CHR ''='' \<and> c \<noteq> CHR ''%'' \<and> c \<noteq> CHR ''+''"
  using assms hex_digits_plain unfolding is_token_def is_ascii_def list_all_iff by blast+

lemma find_username_update:
  "find (\<lambda>u. u_username u = name) xs = Some u \<Longrightarrow>
   find (\<lambda>u. u_username u = name) (map (\<lambda>u. if u_username u = name then u\<lparr>u_password_hash := h\<rparr> else u) xs) =
     Some (u\<lparr>u_password_hash := h\<rparr>)"
  by (induction xs) auto

interpretation password: key_preserving u_id "\<lambda>u. u\<lparr>u_password_hash := h\<rparr>" for h
  by unfold_locales simp

section \<open>Properties\<close>

text \<open>
  C29: forms need the token of the page they came from.  For a request that changes state on a
  guarded path, sent as a form without the header: a form that carries the cookie's token in its
  first token field reaches the application, and one in which no token field has that value does
  not, whatever else it contains.
\<close>

theorem csrf_guards_forms:
  assumes "hr_method req \<notin> set SAFE_METHODS" and "\<not> is_exempt exempt_paths req" and "hr_cookie req = Some t" and "is_token t"
    and "hr_header req = None" and "hr_content_type req = ''application/x-www-form-urlencoded''"
  shows "(\<forall>before after. hr_body req = Some (join ''&'' (before @ [FORM_FIELD @ ''='' @ t] @ after)) \<longrightarrow>
        (\<forall>p \<in> set before. fst (parse_pair p) \<noteq> FORM_FIELD) \<longrightarrow> (\<forall>p \<in> set (before @ after). CHR ''&'' \<notin> set p) \<longrightarrow>
        csrf_call exempt_paths fresh req = Forwarded t False) \<and>
    ((\<forall>body. hr_body req = Some body \<longrightarrow> (FORM_FIELD, t) \<notin> set (parse_qs body)) \<longrightarrow>
        (\<forall>token cookie. csrf_call exempt_paths fresh req \<noteq> Forwarded token cookie))"
proof -
  note t = is_token_facts [OF assms(4)]
  have sub: "submitted_token req = (case hr_body req of None \<Rightarrow> None | Some body \<Rightarrow> map_of (parse_qs body) FORM_FIELD)"
    using assms(5,6) by (auto simp: submitted_token_def substr_in_refl split: option.split)
  have run: "csrf_call exempt_paths fresh req =
      (case submitted_token req of None \<Rightarrow> Forbidden
       | Some s \<Rightarrow> if s = [] then Forbidden else if \<not> is_ascii s then CsrfRaised else if t = s then Forwarded t False else Forbidden)"
    using assms(1,2,3) t(1,2) by (simp add: csrf_call_def Let_def split: option.split)
  have "csrf_call exempt_paths fresh req = Forwarded t False"
    if "hr_body req = Some (join ''&'' (before @ [FORM_FIELD @ ''='' @ t] @ after))"
      "\<forall>p \<in> set before. fst (parse_pair p) \<noteq> FORM_FIELD" "\<forall>p \<in> set (before @ after). CHR ''&'' \<notin> set p" for before after
    using map_of_form [OF that(2,3) t(1,3)] that(1) t(1,2) by (simp add: run sub)
  moreover have "csrf_call exempt_paths fresh req \<noteq> Forwarded token cookie"
    if "\<forall>body. hr_body req = Some body \<longrightarrow> (FORM_FIELD, t) \<notin> set (parse_qs body)" for token cookie
    using that by (auto simp: run sub dest: map_of_SomeD split: option.split)
  ultimately show ?thesis by blast
qed

definition form_request :: http_request where
  "form_request = \<lparr>hr_method = ''POST'', hr_path = ''/blocklists/delete'', hr_cookie = Some ''ab12'', hr_header = None,
     hr_content_type = ''application/x-www-form-urlencoded'', hr_body = Some ''id=3&csrf_token=ab12''\<rparr>"

theorem csrf_guards_forms_witness:
  "csrf_call exempt_paths ''ff'' form_request = Forwarded ''ab12'' False"
proof -
  have "hr_method form_request \<notin> set SAFE_METHODS" "\<not> is_exempt exempt_paths form_request" "hr_cookie form_request = Some ''ab12''"
    "is_token ''ab12''" "hr_header form_request = None" "hr_content_type form_request = ''application/x-www-form-urlencoded''"
    by (simp_all add: form_request_def SAFE_METHODS_def is_exempt_def exempt_paths_def is_token_def)
  from csrf_guards_forms [OF this, of "''ff''"]
  have "hr_body form_request = Some (join ''&'' ([''id=3''] @ [FORM_FIELD @ ''='' @ ''ab12''] @ [])) \<Longrightarrow>
      fst (parse_pair ''id=3'') \<noteq> FORM_FIELD \<Longrightarrow> ?thesis" by fastforce
  then show ?thesis by (simp add: form_request_def FORM_FIELD_def parse_pair_def)
qed

text \<open>
  The paths below \<open>/api/\<close> are left out because they are said to have their own authentication by
  API key, but switching blocking off is among them and only looks at the session.
\<close>

theorem blocking_switch_not_guarded:
  "csrf_call exempt_paths fresh \<lparr>hr_method = ''POST'', hr_path = ''/api/blocking/disable'', hr_cookie = Some t, hr_header = None,
     hr_content_type = c, hr_body = None\<rparr> = Forwarded (if t = [] then fresh else t) (t = [])"
  by (simp add: csrf_call_def is_exempt_def exempt_paths_def)

text \<open>
  The configured administrator can log in.  Provided bcrypt accepts the passwords it hashed,
  after start-up the configured name and password open a session for that user, whatever the
  database held before, other accounts are untouched, and another start changes nothing.
\<close>

theorem admin_can_log_in:
  assumes bcrypt: "\<forall>p salt. checkpw p (hashpw p salt) = Some True" and wf: "table_wf u_id (db_users d)"
    and d': "d' = bootstrap_admin sha hashpw checkpw salt name password d"
  shows "\<exists>u. login_post sha checkpw name password d' s = (RedirectResponse ''/'', Some (u_id u)) \<and>
    get_current_user (Some (u_id u)) d' = Some u \<and> u_username u = name \<and>
    filter (\<lambda>x. u_username x \<noteq> name) (rows (db_users d')) = filter (\<lambda>x. u_username x \<noteq> name) (rows (db_users d)) \<and>
    bootstrap_admin sha hashpw checkpw salt' name password d' = d'"
proof -
  let ?h = "hash_password sha hashpw salt password"
  have ok: "verify_password sha checkpw password ?h" using bcrypt by (simp add: verify_password_def hash_password_def)
  have "\<exists>u. tbl_find (\<lambda>x. u_username x = name) (db_users d') = Some u \<and> verify_password sha checkpw password (u_password_hash u) \<and>
      table_wf u_id (db_users d') \<and>
      filter (\<lambda>x. u_username x \<noteq> name) (rows (db_users d')) = filter (\<lambda>x. u_username x \<noteq> name) (rows (db_users d))"
  proof (cases "tbl_find (\<lambda>x. u_username x = name) (db_users d)")
    case None
    then show ?thesis
      using ok wf by (auto simp: d' bootstrap_admin_def tbl_find_def find_append intro!: table_wf_insert)
  next
    case (Some u)
    show ?thesis
    proof (cases "verify_password sha checkpw password (u_password_hash u)")
      case True
      then show ?thesis using Some wf by (simp add: d' bootstrap_admin_def)
    next
      case False
      have "filter (\<lambda>x. u_username x \<noteq> name) (map (\<lambda>u. if u_username u = name then u\<lparr>u_password_hash := ?h\<rparr> else u) xs) =
          filter (\<lambda>x. u_username x \<noteq> name) xs" for xs by (induction xs) auto
      moreover have "table_wf u_id (tbl_update (\<lambda>u. u_username u = name) (\<lambda>u. u\<lparr>u_password_hash := ?h\<rparr>) (db_users d))"
        by (rule password.update_wf [OF wf])
      ultimately show ?thesis
        using Some False ok find_username_update [of name "rows (db_users d)" u ?h]
        by (auto simp: d' bootstrap_admin_def tbl_find_def)
    qed
  qed
  then obtain u where u: "tbl_find (\<lambda>x. u_username x = name) (db_users d') = Some u"
    "verify_password sha checkpw password (u_password_hash u)" "table_wf u_id (db_users d')"
    "filter (\<lambda>x. u_username x \<noteq> name) (rows (db_users d')) = filter (\<lambda>x. u_username x \<noteq> name) (rows (db_users d))" by blast
  have row: "u \<in> set (rows (db_users d'))" "u_username u = name" using tbl_find_SomeD [OF u(1)] by auto
  then have "0 < u_id u" using u(3) by (auto simp: table_wf_def)
  then have "get_current_user (Some (u_id u)) d' = Some u"
    using tbl_find_key [OF u(3) row(1)] by (simp add: get_current_user_def)
  then show ?thesis using u row(2) by (auto simp: login_post_def bootstrap_admin_def)
qed

theorem admin_can_log_in_witness:
  "login_post (\<lambda>x. x) (\<lambda>p h. Some (h = p)) ''admin'' ''s3cret''
     (bootstrap_admin (\<lambda>x. x) (\<lambda>p salt. p) (\<lambda>p h. Some (h = p)) [] ''admin'' ''s3cret'' empty_db) None =
   (RedirectResponse ''/'', Some 1)"
proof -
  let ?check = "\<lambda>p h. Some (h = (p :: string))" and ?hash = "\<lambda>p salt. p :: string"
  let ?d = "bootstrap_admin (\<lambda>x. x) ?hash ?check [] ''admin'' ''s3cret'' empty_db"
  have "table_wf u_id (db_users empty_db)" by (simp add: empty_db_def empty_table_def table_wf_def)
  moreover have "\<forall>p salt. ?check p (?hash p salt) = Some True" by simp
  ultimately obtain u where u: "login_post (\<lambda>x. x) ?check ''admin'' ''s3cret'' ?d None = (RedirectResponse ''/'', Some (u_id u))"
    "get_current_user (Some (u_id u)) ?d = Some u"
    using admin_can_log_in [of ?check ?hash empty_db ?d "\<lambda>x. x" "[]" "''admin''" "''s3cret''" None "[]"] by blast
  have "rows (db_users ?d) = [\<lparr>u_id = 1, u_username = ''admin'', u_password_hash = ''s3cret''\<rparr>]"
    by (simp add: bootstrap_admin_def hash_password_def prehash_if_needed_def tbl_find_def empty_db_def empty_table_def)
  then have "u_id u = 1" using u(2) by (auto simp: get_current_user_def tbl_find_def split: if_splits)
  then show ?thesis using u(1) by simp
qed

end
