(* ===== verification/Ip_Address.thy ===== *)
theory Ip_Address
  imports Rpz "HOL-Library.Word"
begin

unbundle bit_operations_syntax

text \<open>
  Python's \<open>ipaddress\<close> module as the clients' code uses it: \<open>ip_address\<close>,
  \<open>ip_network(..., strict=False)\<close> and \<open>address in network\<close>, for both versions of the protocol.
  Addresses are words of their width; \<open>None\<close> is the \<open>ValueError\<close>.  The scope of an IPv6 address is
  checked and then dropped, since membership ignores it.
\<close>

section \<open>Numbers as text\<close>

definition decimal_value :: "string \<Rightarrow> nat" where
  "decimal_value s = fold (\<lambda>c a. 10 * a + digit_value c) s 0"

definition is_hex :: "char \<Rightarrow> bool" where
  "is_hex c = (let n = of_char c :: nat in is_digit c \<or> (65 \<le> n \<and> n \<le> 70) \<or> (97 \<le> n \<and> n \<le> 102))"

definition hex_digit_value :: "char \<Rightarrow> nat" where
  "hex_digit_value c = (let n = of_char c :: nat in if n \<le> 57 then n - 48 else if n \<le> 70 then n - 55 else n - 87)"

definition hex_char :: "nat \<Rightarrow> char" where
  "hex_char n = (if n < 10 then char_of (n + 48) else char_of (n + 87))"

fun show_hex :: "nat \<Rightarrow> string" where
  "show_hex n = (if n < 16 then [hex_char n] else show_hex (n div 16) @ [hex_char (n mod 16)])"

declare show_hex.simps [simp del]

fun be_digits :: "nat \<Rightarrow> nat \<Rightarrow> nat \<Rightarrow> nat list" where
  "be_digits b 0 n = []"
| "be_digits b (Suc k) n = be_digits b k (n div b) @ [n mod b]"

definition be_word :: "nat \<Rightarrow> nat list \<Rightarrow> 'a::len word" where
  "be_word b ds = fold (\<lambda>d a. of_nat b * a + of_nat d) ds 0"

section \<open>Addresses\<close>

datatype ip = IPv4Address "32 word" | IPv6Address "128 word"

definition parse_octet :: "string \<Rightarrow> nat option" where
  "parse_octet s =
     (if s = [] \<or> \<not> list_all is_digit s \<or> 3 < length s \<or> (s \<noteq> ''0'' \<and> hd s = CHR ''0'') \<or> 255 < decimal_value s
      then None else Some (decimal_value s))"

definition ipv4_of_string :: "string \<Rightarrow> 32 word option" where
  "ipv4_of_string s =
     (let octets = split_on CHR ''.'' s
      in if length octets \<noteq> 4 then None
         else map_option (be_word 256) (those (map parse_octet octets)))"

definition parse_hextet :: "string \<Rightarrow> nat option" where
  "parse_hextet s =
     (if s = [] \<or> \<not> list_all is_hex s \<or> 4 < length s then None
      else Some (fold (\<lambda>c a. 16 * a + hex_digit_value c) s 0))"

definition split_scope_id :: "string \<Rightarrow> string option" where
  "split_scope_id s =
     (case split_on CHR ''%'' s of
        [a] \<Rightarrow> Some a
      | [a, scope] \<Rightarrow> if scope = [] then None else Some a
      | _ \<Rightarrow> None)"

text \<open>A dotted tail is replaced by its two groups.\<close>

definition expand_tail :: "string list \<Rightarrow> string list option" where
  "expand_tail parts =
     (if CHR ''.'' \<in> set (last parts) then
        map_option (\<lambda>w. butlast parts @ [show_hex (unat w div 65536), show_hex (unat w mod 65536)])
          (ipv4_of_string (last parts))
      else Some parts)"

text \<open>\<open>hi\<close> groups before the gap and \<open>lo\<close> after it, with zeros between.\<close>

definition join_groups :: "string list \<Rightarrow> nat \<Rightarrow> nat \<Rightarrow> 128 word option" where
  "join_groups parts hi lo =
     (case (those (map parse_hextet (take hi parts)), those (map parse_hextet (drop (length parts - lo) parts))) of
        (Some hs, Some ls) \<Rightarrow> Some (be_word 65536 (hs @ replicate (8 - (hi + lo)) 0 @ ls))
      | _ \<Rightarrow> None)"

definition ipv6_of_parts :: "string list \<Rightarrow> 128 word option" where
  "ipv6_of_parts parts =
     (if 9 < length parts then None
      else case filter (\<lambda>i. parts ! i = []) [1..<length parts - 1] of
        [] \<Rightarrow> if length parts \<noteq> 8 \<or> hd parts = [] \<or> last parts = [] then None else join_groups parts 8 0
      | [i] \<Rightarrow>
          (let hi = (if hd parts = [] then i - 1 else i);
               lo = (if last parts = [] then length parts - i - 2 else length parts - i - 1)
           in if (hd parts = [] \<and> hi \<noteq> 0) \<or> (last parts = [] \<and> lo \<noteq> 0) \<or> 8 < hi + lo + 1 then None
              else join_groups parts hi lo)
      | _ \<Rightarrow> None)"

definition ipv6_of_string :: "string \<Rightarrow> 128 word option" where
  "ipv6_of_string s =
     (if CHR ''/'' \<in> set s then None
      else case split_scope_id s of
        None \<Rightarrow> None
      | Some addr \<Rightarrow>
          (let parts = split_on CHR '':'' addr
           in if length parts < 3 then None
              else case expand_tail parts of None \<Rightarrow> None | Some ps \<Rightarrow> ipv6_of_parts ps))"

definition ip_address :: "string \<Rightarrow> ip option" where
  "ip_address s =
     (case ipv4_of_string s of
        Some w \<Rightarrow> Some (IPv4Address w)
      | None \<Rightarrow> map_option IPv6Address (ipv6_of_string s))"

section \<open>Networks\<close>

text \<open>A network is its first address and its mask.\<close>

datatype ip_net = IPv4Network "32 word" "32 word" | IPv6Network "128 word" "128 word"

definition netmask :: "nat \<Rightarrow> 'a::len word" where
  "netmask n = NOT 0 XOR drop_bit n (NOT 0)"

definition prefix_from_prefix_string :: "nat \<Rightarrow> string \<Rightarrow> nat option" where
  "prefix_from_prefix_string width s =
     (if s = [] \<or> \<not> list_all is_digit s \<or> width < decimal_value s then None else Some (decimal_value s))"

text \<open>A netmask has its ones first; a host mask is the complement of one.\<close>

definition prefix_from_ip_int :: "32 word \<Rightarrow> nat option" where
  "prefix_from_ip_int w = find (\<lambda>n. netmask n = w) [0..<33]"

definition ipv4_prefix :: "string \<Rightarrow> nat option" where
  "ipv4_prefix s =
     (case prefix_from_prefix_string 32 s of
        Some n \<Rightarrow> Some n
      | None \<Rightarrow>
          (case ipv4_of_string s of
             None \<Rightarrow> None
           | Some w \<Rightarrow> (case prefix_from_ip_int w of Some n \<Rightarrow> Some n | None \<Rightarrow> prefix_from_ip_int (NOT w))))"

definition network_of :: "(string \<Rightarrow> 'a::len word option) \<Rightarrow> (string \<Rightarrow> nat option) \<Rightarrow> string \<Rightarrow> ('a word \<times> 'a word) option" where
  "network_of parse plen s =
     (let make = (\<lambda>addr n. map_option (\<lambda>w. (w AND netmask n, netmask n)) (parse addr))
      in case split_on CHR ''/'' s of
           [addr] \<Rightarrow> make addr LENGTH('a)
         | [addr, p] \<Rightarrow> (case plen p of None \<Rightarrow> None | Some n \<Rightarrow> make addr n)
         | _ \<Rightarrow> None)"

definition ip_network :: "string \<Rightarrow> ip_net option" where
  "ip_network s =
     (case network_of ipv4_of_string ipv4_prefix s of
        Some (a, m) \<Rightarrow> Some (IPv4Network a m)
      | None \<Rightarrow>
          map_option (\<lambda>(a, m). IPv6Network a m) (network_of ipv6_of_string (prefix_from_prefix_string 128) s))"

fun net_contains :: "ip_net \<Rightarrow> ip \<Rightarrow> bool" where
  "net_contains (IPv4Network n m) (IPv4Address a) = (a AND m = n)"
| "net_contains (IPv6Network n m) (IPv6Address a) = (a AND m = n)"
| "net_contains _ _ = False"

section \<open>Printing\<close>

definition show_ipv4 :: "32 word \<Rightarrow> string" where
  "show_ipv4 w = join ''.'' (map show_nat (be_digits 256 4 (unat w)))"

definition show_ipv6 :: "128 word \<Rightarrow> string" where
  "show_ipv6 w = join '':'' (map show_hex (be_digits 65536 8 (unat w)))"

fun show_ip :: "ip \<Rightarrow> string" where
  "show_ip (IPv4Address w) = show_ipv4 w"
| "show_ip (IPv6Address w) = show_ipv6 w"

section \<open>Printed numbers read back\<close>

lemma those_map_Some: "\<forall>x \<in> set xs. f x = Some (g x) \<Longrightarrow> those (map f xs) = Some (map g xs)"
  by (induction xs) auto

lemma length_be_digits [simp]: "length (be_digits b k n) = k"
  by (induction k arbitrary: n) auto

lemma be_digits_Nil [simp]: "be_digits b k n = [] \<longleftrightarrow> k = 0"
  using length_be_digits [of b k n] by (cases "be_digits b k n") auto

lemma be_digits_less: "0 < b \<Longrightarrow> \<forall>d \<in> set (be_digits b k n). d < b"
  by (induction k arbitrary: n) auto

lemma be_word_digits: "0 < b \<Longrightarrow> n < b ^ k \<Longrightarrow> be_word b (be_digits b k n) = (of_nat n :: 'a::len word)"
proof (induction k arbitrary: n)
  case 0
  then show ?case by (simp add: be_word_def)
next
  case (Suc k)
  then have "be_word b (be_digits b k (n div b)) = (of_nat (n div b) :: 'a word)"
    by (simp add: div_less_iff_less_mult mult.commute)
  then have "be_word b (be_digits b (Suc k) n) = (of_nat b * of_nat (n div b) + of_nat (n mod b) :: 'a word)"
    by (simp add: be_word_def)
  also have "\<dots> = of_nat (b * (n div b) + n mod b)" by (simp only: of_nat_add of_nat_mult)
  finally show ?case by simp
qed

declare be_digits.simps [simp del]

lemma decimal_value_show_nat [simp]: "decimal_value (show_nat n) = n"
  by (simp add: decimal_value_def fold_show_nat)

lemma list_all_show_nat [simp]: "list_all is_digit (show_nat n)"
  using show_nat_digits by (simp add: list_all_iff)

lemma hd_show_nat: "hd (show_nat n) = CHR ''0'' \<Longrightarrow> n = 0"
proof (induction n rule: show_nat.induct)
  case (1 n)
  show ?case
  proof (cases "n < 10")
    case True
    then have "digit_char n = CHR ''0''" using 1(2) by (simp add: show_nat.simps [of n])
    then have "digit_value (digit_char n) = 0" by (simp add: digit_value_def)
    then show ?thesis using True by simp
  next
    case False
    then have "hd (show_nat (n div 10)) = CHR ''0''" using 1(2) by (simp add: show_nat.simps [of n])
    then show ?thesis using 1(1) False by auto
  qed
qed

lemma length_show_nat: "n < 10 ^ k \<Longrightarrow> 0 < k \<Longrightarrow> length (show_nat n) \<le> k"
proof (induction n arbitrary: k rule: show_nat.induct)
  case (1 n)
  show ?case
  proof (cases "n < 10")
    case True
    then show ?thesis using 1(3) by (simp add: show_nat.simps [of n])
  next
    case False
    obtain j where "k = Suc j" using 1(3) by (cases k) auto
    moreover from this have "0 < j" using False 1(2) by (cases j) auto
    ultimately have j: "k = Suc j" "0 < j" by simp_all
    then have "length (show_nat (n div 10)) \<le> j" using 1(1) [OF False] 1(2) by auto
    then show ?thesis using j False by (simp add: show_nat.simps [of n])
  qed
qed

lemma parse_octet_show_nat: "n < 256 \<Longrightarrow> parse_octet (show_nat n) = Some n"
  using hd_show_nat [of n] length_show_nat [of n 3]
  by (auto simp: parse_octet_def show_nat.simps [of 0] digit_char_def)

lemma show_nat_no_char: "\<not> is_digit c \<Longrightarrow> c \<notin> set (show_nat n)"
  using show_nat_digits by blast

lemma hex_char_facts: "n < 16 \<Longrightarrow> is_hex (hex_char n) \<and> hex_digit_value (hex_char n) = n"
  by (auto simp: hex_char_def is_hex_def hex_digit_value_def is_digit_def Let_def)

lemma show_hex_nonempty [simp]: "show_hex n \<noteq> []"
  by (simp add: show_hex.simps [of n])

lemma show_hex_chars: "list_all is_hex (show_hex n)"
proof (induction n rule: show_hex.induct)
  case (1 n)
  then show ?case by (subst show_hex.simps) (auto simp: hex_char_facts)
qed

lemma fold_show_hex: "fold (\<lambda>c a. 16 * a + hex_digit_value c) (show_hex n) 0 = n"
proof (induction n rule: show_hex.induct)
  case (1 n)
  then show ?case by (subst show_hex.simps) (auto simp: hex_char_facts)
qed

lemma length_show_hex: "n < 16 ^ k \<Longrightarrow> 0 < k \<Longrightarrow> length (show_hex n) \<le> k"
proof (induction n arbitrary: k rule: show_hex.induct)
  case (1 n)
  show ?case
  proof (cases "n < 16")
    case True
    then show ?thesis using 1(3) by (simp add: show_hex.simps [of n])
  next
    case False
    obtain j where "k = Suc j" using 1(3) by (cases k) auto
    moreover from this have "0 < j" using False 1(2) by (cases j) auto
    ultimately have j: "k = Suc j" "0 < j" by simp_all
    then have "length (show_hex (n div 16)) \<le> j" using 1(1) [OF False] 1(2) by auto
    then show ?thesis using j False by (simp add: show_hex.simps [of n])
  qed
qed

lemma parse_hextet_show_hex: "n < 65536 \<Longrightarrow> parse_hextet (show_hex n) = Some n"
  using length_show_hex [of n 4] by (simp add: parse_hextet_def show_hex_chars fold_show_hex)

lemma show_hex_no_char: "\<not> is_hex c \<Longrightarrow> c \<notin> set (show_hex n)"
  using show_hex_chars [of n] by (auto simp: list_all_iff)

lemma separators_not_printed [simp]:
  "CHR ''.'' \<notin> set (show_nat n)" "CHR ''/'' \<notin> set (show_nat n)" "CHR '':'' \<notin> set (show_hex n)" "CHR ''.'' \<notin> set (show_hex n)"
  by (simp_all add: show_nat_no_char show_hex_no_char is_hex_def is_digit_def)

lemma set_join: "set (join sep xs) \<subseteq> set sep \<union> \<Union> (set ` set xs)"
  by (induction sep xs rule: join.induct) auto

section \<open>The contract of a printed address\<close>

text \<open>
  What reading networks needs of a version of the protocol: printed addresses read back and hold
  no slash.  Then a printed network reads back, and membership says that the first bits agree.
\<close>

locale ip_version =
  fixes parse :: "string \<Rightarrow> 'a::len word option" and print :: "'a word \<Rightarrow> string" and plen :: "string \<Rightarrow> nat option"
  assumes parse_print: "parse (print w) = Some w"
    and no_slash: "CHR ''/'' \<notin> set (print w)"
    and plen_show: "n \<le> LENGTH('a) \<Longrightarrow> plen (show_nat n) = Some n"
begin

lemma network_print:
  assumes "n \<le> LENGTH('a)"
  shows "network_of parse plen (print w @ ''/'' @ show_nat n) = Some (w AND netmask n, netmask n)"
proof -
  have "split_on CHR ''/'' (print w @ CHR ''/'' # show_nat n) = [print w, show_nat n]"
    by (simp add: split_on_append_sep split_on_no_sep no_slash)
  then show ?thesis by (simp add: network_of_def plen_show [OF assms] parse_print)
qed

end

lemma bit_netmask: "bit (netmask n :: 'a::len word) i \<longleftrightarrow> i < LENGTH('a) \<and> LENGTH('a) \<le> i + n"
  by (auto simp: netmask_def bit_simps)

lemma same_prefix:
  fixes a b :: "'a::len word"
  assumes "n \<le> LENGTH('a)"
  shows "a AND netmask n = b AND netmask n \<longleftrightarrow> drop_bit (LENGTH('a) - n) a = drop_bit (LENGTH('a) - n) b"
proof
  assume eq: "a AND netmask n = b AND netmask n"
  show "drop_bit (LENGTH('a) - n) a = drop_bit (LENGTH('a) - n) b"
  proof (rule bit_word_eqI)
    fix i
    assume "i < LENGTH('a)"
    have "bit (a AND netmask n) (LENGTH('a) - n + i) \<longleftrightarrow> bit (b AND netmask n) (LENGTH('a) - n + i)" by (simp only: eq)
    then show "bit (drop_bit (LENGTH('a) - n) a) i \<longleftrightarrow> bit (drop_bit (LENGTH('a) - n) b) i"
      using assms by (auto simp: bit_simps bit_netmask dest: bit_imp_le_length)
  qed
next
  assume eq: "drop_bit (LENGTH('a) - n) a = drop_bit (LENGTH('a) - n) b"
  show "a AND netmask n = b AND netmask n"
  proof (rule bit_word_eqI)
    fix i
    assume "i < LENGTH('a)"
    have "bit (drop_bit (LENGTH('a) - n) a) (i - (LENGTH('a) - n)) \<longleftrightarrow> bit (drop_bit (LENGTH('a) - n) b) (i - (LENGTH('a) - n))"
      by (simp only: eq)
    then show "bit (a AND netmask n) i \<longleftrightarrow> bit (b AND netmask n) i"
      using assms by (auto simp: bit_simps bit_netmask)
  qed
qed

lemma plen_show_nat: "n \<le> width \<Longrightarrow> prefix_from_prefix_string width (show_nat n) = Some n"
  by (simp add: prefix_from_prefix_string_def)

lemma octets_print:
  "split_on CHR ''.'' (show_ipv4 w) = map show_nat (be_digits 256 4 (unat w))"
  unfolding show_ipv4_def
  by (rule split_on_join) auto

lemma ipv4_of_string_show: "ipv4_of_string (show_ipv4 w) = Some w"
proof -
  have "those (map (parse_octet \<circ> show_nat) (be_digits 256 4 (unat w))) = Some (map id (be_digits 256 4 (unat w)))"
    by (rule those_map_Some) (use be_digits_less [of 256 4] parse_octet_show_nat in auto)
  moreover have "be_word 256 (be_digits 256 4 (unat w)) = w"
    using be_word_digits [of 256 "unat w" 4, where 'a = 32] unsigned_less [of w, where 'a = nat] by simp
  ultimately show ?thesis by (simp add: ipv4_of_string_def octets_print)
qed

lemma show_ipv4_chars: "c \<in> set (show_ipv4 w) \<Longrightarrow> is_digit c \<or> c = CHR ''.''"
  using set_join [of "''.''" "map show_nat (be_digits 256 4 (unat w))"] show_nat_digits
  by (auto simp: show_ipv4_def)

interpretation v4: ip_version ipv4_of_string show_ipv4 ipv4_prefix
proof
  show "CHR ''/'' \<notin> set (show_ipv4 w)" for w using show_ipv4_chars [of "CHR ''/''" w] by (auto simp: is_digit_def)
qed (simp_all add: ipv4_of_string_show ipv4_prefix_def plen_show_nat)

lemma show_ipv6_chars: "c \<in> set (show_ipv6 w) \<Longrightarrow> is_hex c \<or> c = CHR '':''"
  using set_join [of "'':''" "map show_hex (be_digits 65536 8 (unat w))"] show_hex_chars
  by (auto simp: show_ipv6_def list_all_iff)

lemma hextets_print:
  "split_on CHR '':'' (show_ipv6 w) = map show_hex (be_digits 65536 8 (unat w))"
  unfolding show_ipv6_def
  by (rule split_on_join) auto

lemma ipv6_of_parts_full:
  assumes "length parts = 8" and "[] \<notin> set parts"
  shows "ipv6_of_parts parts = join_groups parts 8 0"
proof -
  have "filter (\<lambda>i. parts ! i = []) [1..<length parts - 1] = []"
    unfolding filter_empty_conv
  proof
    fix i
    assume "i \<in> set [1..<length parts - 1]"
    then have "parts ! i \<in> set parts" by (intro nth_mem) auto
    then show "parts ! i \<noteq> []" using assms(2) by metis
  qed
  moreover have "hd parts \<noteq> []" "last parts \<noteq> []"
    using assms hd_in_set [of parts] last_in_set [of parts] by force+
  ultimately show ?thesis using assms(1) by (simp add: ipv6_of_parts_def)
qed

lemma ipv6_of_string_show: "ipv6_of_string (show_ipv6 w) = Some w"
proof -
  let ?ds = "be_digits 65536 8 (unat w)"
  have chars: "c \<notin> set (show_ipv6 w)" if "\<not> is_hex c" "c \<noteq> CHR '':''" for c using that show_ipv6_chars by blast
  have "those (map (parse_hextet \<circ> show_hex) ?ds) = Some (map id ?ds)"
    by (rule those_map_Some) (use be_digits_less [of 65536 8] parse_hextet_show_hex in auto)
  moreover have "be_word 65536 ?ds = w"
    using be_word_digits [of 65536 "unat w" 8, where 'a = 128] unsigned_less [of w, where 'a = nat] by simp
  ultimately have "join_groups (map show_hex ?ds) 8 0 = Some w"
    by (simp add: join_groups_def)
  moreover have "ipv6_of_parts (map show_hex ?ds) = join_groups (map show_hex ?ds) 8 0"
    by (rule ipv6_of_parts_full) (auto simp: eq_commute [of "[]"])
  moreover have "CHR ''.'' \<notin> set (last (map show_hex ?ds))"
    by (subst last_map) auto
  ultimately show ?thesis
    by (simp add: ipv6_of_string_def split_scope_id_def split_on_no_sep chars is_hex_def is_digit_def hextets_print
        expand_tail_def)
qed

interpretation v6: ip_version ipv6_of_string show_ipv6 "prefix_from_prefix_string 128"
proof
  show "CHR ''/'' \<notin> set (show_ipv6 w)" for w using show_ipv6_chars [of "CHR ''/''" w] by (auto simp: is_hex_def is_digit_def)
qed (simp_all add: ipv6_of_string_show plen_show_nat)

lemma ipv4_of_ipv6: "ipv4_of_string (show_ipv6 w) = None"
proof -
  have "CHR ''.'' \<notin> set (show_ipv6 w)" using show_ipv6_chars [of "CHR ''.''" w] by (auto simp: is_hex_def is_digit_def)
  then show ?thesis by (simp add: ipv4_of_string_def split_on_no_sep)
qed

lemma ip_address_show: "ip_address (show_ip a) = Some a"
  by (cases a) (simp_all add: ip_address_def ipv4_of_string_show ipv4_of_ipv6 ipv6_of_string_show)

lemma ip_network_show:
  "n \<le> 32 \<Longrightarrow> ip_network (show_ipv4 w @ ''/'' @ show_nat n) = Some (IPv4Network (w AND netmask n) (netmask n))"
  "n \<le> 128 \<Longrightarrow> ip_network (show_ipv6 v @ ''/'' @ show_nat n) = Some (IPv6Network (v AND netmask n) (netmask n))"
proof -
  show "n \<le> 32 \<Longrightarrow> ip_network (show_ipv4 w @ ''/'' @ show_nat n) = Some (IPv4Network (w AND netmask n) (netmask n))"
    using v4.network_print [of n w] by (simp add: ip_network_def)
  have "split_on CHR ''/'' (show_ipv6 v @ ''/'' @ show_nat n) = [show_ipv6 v, show_nat n]"
    by (simp add: split_on_append_sep split_on_no_sep v6.no_slash)
  then have "network_of ipv4_of_string ipv4_prefix (show_ipv6 v @ ''/'' @ show_nat n) = None"
    by (simp add: network_of_def ipv4_of_ipv6 split: option.split)
  then show "n \<le> 128 \<Longrightarrow> ip_network (show_ipv6 v @ ''/'' @ show_nat n) = Some (IPv6Network (v AND netmask n) (netmask n))"
    using v6.network_print [of n v] by (simp add: ip_network_def)
qed

end
