(* ===== verification/Clients.thy ===== *)
theory Clients
  imports Ip_Address Ingest Forward_Zones
begin

text \<open>
  Clients of the resolver: their names by reverse lookup (\<open>admin-ui/app/services/ptr_resolver.py\<close>)
  with the rules that choose a name server (\<open>routers/client_resolver.py\<close>), and their groups
  (\<open>routers/client_groups.py\<close>).  The DNS library is a parameter: \<open>resolve\<close> takes the name server, the
  port and the address, and returns the answers as text or nothing when it raises.
\<close>

section \<open>Reverse lookups\<close>

definition PTR_CACHE_TTL_SECONDS :: int where
  "PTR_CACHE_TTL_SECONDS = 3600"

definition PTR_CACHE_ERROR_TTL_SECONDS :: int where
  "PTR_CACHE_ERROR_TTL_SECONDS = 300"

definition ip_in_subnet :: "string \<Rightarrow> string \<Rightarrow> bool" where
  "ip_in_subnet ip_str subnet_str =
     (case ip_address ip_str of
        None \<Rightarrow> False
      | Some ip \<Rightarrow> (case ip_network subnet_str of None \<Rightarrow> False | Some network \<Rightarrow> net_contains network ip))"

text \<open>Rules of the same priority come in no specified order; the order of the rows stands for it.\<close>

definition get_matching_rule :: "db \<Rightarrow> string \<Rightarrow> client_resolver_rule option" where
  "get_matching_rule d ip =
     find (\<lambda>rule. ip_in_subnet ip (rr_subnet rule)) (sort_key rr_priority (tbl_select rr_enabled (db_rules d)))"

definition ptr_lookup :: "(string \<Rightarrow> int \<Rightarrow> string \<Rightarrow> string list option) \<Rightarrow> string \<Rightarrow> string \<Rightarrow> string option" where
  "ptr_lookup resolve ip nameserver =
     (let parts = split_on CHR '':'' nameserver
      in case (if CHR '':'' \<in> set nameserver then py_int (parts ! 1) else Some 53) of
           None \<Rightarrow> None
         | Some ns_port \<Rightarrow>
             (case resolve (hd parts) ns_port ip of
                Some (a # _) \<Rightarrow> Some (rstrip_by (\<lambda>c. c = CHR ''.'') a)
              | _ \<Rightarrow> None))"

text \<open>What the stored result still answers at \<open>now\<close>.\<close>

definition cached_name :: "instant \<Rightarrow> client \<Rightarrow> string option option" where
  "cached_name now c =
     (case c_rdns_last_resolved_at c of
        None \<Rightarrow> None
      | Some t \<Rightarrow>
          if truthy (c_rdns_name c) \<and> now - t < seconds PTR_CACHE_TTL_SECONDS then Some (c_rdns_name c)
          else if truthy (c_rdns_last_error c) \<and> now - t < seconds PTR_CACHE_ERROR_TTL_SECONDS then Some (c_display_name c)
          else None)"

definition store_lookup :: "instant \<Rightarrow> string \<Rightarrow> string option \<Rightarrow> client \<Rightarrow> client" where
  "store_lookup now nameserver hostname c =
     (if truthy hostname then c\<lparr>c_rdns_last_resolved_at := Some now, c_rdns_name := hostname, c_rdns_last_error := None\<rparr>
      else c\<lparr>c_rdns_last_resolved_at := Some now, c_rdns_last_error := Some (''PTR lookup failed via '' @ nameserver)\<rparr>)"

text \<open>
  The name, whether a lookup was made (and the session committed), and the session's database.
\<close>

definition resolve_client_hostname ::
  "(string \<Rightarrow> int \<Rightarrow> string \<Rightarrow> string list option) \<Rightarrow> instant \<Rightarrow> string \<Rightarrow> bool \<Rightarrow> db \<Rightarrow> string option \<times> bool \<times> db" where
  "resolve_client_hostname resolve now ip force d =
     (let d1 = ensure_client now ip d
      in case find_client d1 ip of
           None \<Rightarrow> (None, False, d1)
         | Some client \<Rightarrow>
             (case (if force then None else cached_name now client) of
                Some name \<Rightarrow> (name, False, d1)
              | None \<Rightarrow>
                  if truthy (c_display_name client) then (c_display_name client, False, d1)
                  else (case get_matching_rule d1 ip of
                          None \<Rightarrow> (None, False, d1)
                        | Some rule \<Rightarrow>
                            (let hostname = ptr_lookup resolve ip (rr_nameserver rule)
                             in (if truthy hostname then hostname else c_display_name client, True,
                                 d1\<lparr>db_clients := tbl_update (\<lambda>c. c_ip c = ip)
                                       (store_lookup now (rr_nameserver rule) hostname) (db_clients d1)\<rparr>)))))"

text \<open>A \<open>dict\<close> from addresses to names, in order of first insertion.\<close>

fun bulk_resolve_clients ::
  "(string \<Rightarrow> int \<Rightarrow> string \<Rightarrow> string list option) \<Rightarrow> instant \<Rightarrow> string list \<Rightarrow> (string \<times> string option) list \<Rightarrow> db \<Rightarrow>
   (string \<times> string option) list \<times> db" where
  "bulk_resolve_clients resolve now [] results d = (results, d)"
| "bulk_resolve_clients resolve now (ip # ips) results d =
     (let (name, asked, d1) = resolve_client_hostname resolve now ip False d
      in bulk_resolve_clients resolve now ips (AList.update ip name results) d1)"

text \<open>
  The background task has a session of its own, which is never committed at the end: what stays is
  the state at the last lookup.
\<close>

fun background_resolve_clients ::
  "(string \<Rightarrow> int \<Rightarrow> string \<Rightarrow> string list option) \<Rightarrow> instant \<Rightarrow> string list \<Rightarrow> db \<times> db \<Rightarrow> db" where
  "background_resolve_clients resolve now [] (committed, d) = committed"
| "background_resolve_clients resolve now (ip # ips) (committed, d) =
     (let (name, asked, d1) = resolve_client_hostname resolve now ip False d
      in background_resolve_clients resolve now ips (if asked then d1 else committed, d1))"

section \<open>Rules and names\<close>

definition client_resolver_add :: "int option \<Rightarrow> string \<Rightarrow> string \<Rightarrow> string \<Rightarrow> int \<Rightarrow> db \<Rightarrow> response \<times> db" where
  "client_resolver_add sid subnet nameserver description priority d =
     (case get_current_user sid d of
        None \<Rightarrow> (RedirectResponse ''/login'', d)
      | Some u \<Rightarrow>
          if tbl_find (\<lambda>r. rr_subnet r = strip subnet) (db_rules d) \<noteq> None then (server_error, d)
          else (RedirectResponse ''/clients/resolver'',
                d\<lparr>db_rules := tbl_insert (\<lambda>i. \<lparr>rr_id = i, rr_subnet = strip subnet, rr_nameserver = strip nameserver,
                    rr_enabled = True, rr_priority = priority, rr_description = or_none (strip description)\<rparr>) (db_rules d)\<rparr>))"

definition client_resolver_toggle :: "int option \<Rightarrow> int \<Rightarrow> db \<Rightarrow> response \<times> db" where
  "client_resolver_toggle sid i d =
     (case get_current_user sid d of
        None \<Rightarrow> (RedirectResponse ''/login'', d)
      | Some u \<Rightarrow>
          (RedirectResponse ''/clients/resolver'',
           d\<lparr>db_rules := tbl_update (\<lambda>r. rr_id r = i) (\<lambda>r. r\<lparr>rr_enabled := \<not> rr_enabled r\<rparr>) (db_rules d)\<rparr>))"

definition client_resolver_delete :: "int option \<Rightarrow> int \<Rightarrow> db \<Rightarrow> response \<times> db" where
  "client_resolver_delete sid i d =
     (case get_current_user sid d of
        None \<Rightarrow> (RedirectResponse ''/login'', d)
      | Some u \<Rightarrow>
          (RedirectResponse ''/clients/resolver'', d\<lparr>db_rules := tbl_delete (\<lambda>r. rr_id r = i) (db_rules d)\<rparr>))"

definition update_client :: "int \<Rightarrow> (client \<Rightarrow> client) \<Rightarrow> db \<Rightarrow> db" where
  "update_client i f d = d\<lparr>db_clients := tbl_update (\<lambda>c. c_id c = i) f (db_clients d)\<rparr>"

definition clients_set_name :: "int option \<Rightarrow> int \<Rightarrow> string \<Rightarrow> db \<Rightarrow> response \<times> db" where
  "clients_set_name sid i display_name d =
     (case get_current_user sid d of
        None \<Rightarrow> (RedirectResponse ''/login'', d)
      | Some u \<Rightarrow>
          (RedirectResponse ''/clients'', update_client i (\<lambda>c. c\<lparr>c_display_name := or_none (strip display_name)\<rparr>) d))"

definition clients_resolve ::
  "(string \<Rightarrow> int \<Rightarrow> string \<Rightarrow> string list option) \<Rightarrow> instant \<Rightarrow> int option \<Rightarrow> int \<Rightarrow> db \<Rightarrow> response \<times> db" where
  "clients_resolve resolve now sid i d =
     (case get_current_user sid d of
        None \<Rightarrow> (RedirectResponse ''/login'', d)
      | Some u \<Rightarrow>
          (RedirectResponse ''/clients'',
           case tbl_find (\<lambda>c. c_id c = i) (db_clients d) of
             None \<Rightarrow> d
           | Some client \<Rightarrow>
               (case resolve_client_hostname resolve now (c_ip client) True d of (name, asked, d1) \<Rightarrow> if asked then d1 else d)))"

section \<open>Groups\<close>

definition COLORS :: "string list" where
  "COLORS = [''slate'', ''red'', ''orange'', ''amber'', ''yellow'', ''lime'', ''green'', ''emerald'', ''teal'', ''cyan'', ''sky'',
     ''blue'', ''indigo'', ''violet'', ''purple'', ''fuchsia'', ''pink'', ''rose'']"

definition ip_in_cidr :: "string \<Rightarrow> string \<Rightarrow> bool" where
  "ip_in_cidr ip cidr =
     (case (ip_address ip, ip_network cidr) of (Some a, Some n) \<Rightarrow> net_contains n a | _ \<Rightarrow> False)"

definition auto_assign_by_cidr :: "client_group \<Rightarrow> db \<Rightarrow> nat \<times> db" where
  "auto_assign_by_cidr g d =
     (case g_cidr g of
        None \<Rightarrow> (0, d)
      | Some cidr \<Rightarrow>
          if cidr = [] then (0, d)
          else (let hit = (\<lambda>c. c_group_id c = None \<and> ip_in_cidr (c_ip c) cidr)
                in (length (tbl_select hit (db_clients d)),
                    d\<lparr>db_clients := tbl_update hit (\<lambda>c. c\<lparr>c_group_id := Some (g_id g)\<rparr>) (db_clients d)\<rparr>)))"

definition valid_color :: "string \<Rightarrow> string" where
  "valid_color color = (if color \<in> set COLORS then color else ''slate'')"

definition create_group ::
  "int option \<Rightarrow> string \<Rightarrow> string \<Rightarrow> string \<Rightarrow> string \<Rightarrow> db \<Rightarrow> response \<times> db" where
  "create_group sid name description cidr color d =
     (case get_current_user sid d of
        None \<Rightarrow> (RedirectResponse ''/login'', d)
      | Some u \<Rightarrow>
          if tbl_find (\<lambda>g. g_name g = name) (db_groups d) \<noteq> None then (RedirectResponse ''/clients/groups?error=name_exists'', d)
          else if cidr \<noteq> [] \<and> ip_network cidr = None then (RedirectResponse ''/clients/groups?error=invalid_cidr'', d)
          else (let g = \<lparr>g_id = next_id (db_groups d), g_name = name, g_description = or_none description, g_cidr = or_none cidr,
                         g_color = valid_color color\<rparr>;
                    d1 = d\<lparr>db_groups := tbl_insert (\<lambda>i. g\<lparr>g_id := i\<rparr>) (db_groups d)\<rparr>
                in (RedirectResponse ''/clients/groups'', if cidr \<noteq> [] then snd (auto_assign_by_cidr g d1) else d1)))"

definition delete_group :: "int option \<Rightarrow> int \<Rightarrow> db \<Rightarrow> response \<times> db" where
  "delete_group sid group_id d =
     (case get_current_user sid d of
        None \<Rightarrow> (RedirectResponse ''/login'', d)
      | Some u \<Rightarrow>
          (RedirectResponse ''/clients/groups'',
           if tbl_find (\<lambda>g. g_id g = group_id) (db_groups d) = None then d
           else d\<lparr>db_clients := tbl_update (\<lambda>c. c_group_id c = Some group_id) (\<lambda>c. c\<lparr>c_group_id := None\<rparr>) (db_clients d),
                  db_groups := tbl_delete (\<lambda>g. g_id g = group_id) (db_groups d)\<rparr>))"

definition update_group ::
  "int option \<Rightarrow> int \<Rightarrow> string \<Rightarrow> string \<Rightarrow> string \<Rightarrow> string \<Rightarrow> db \<Rightarrow> response \<times> db" where
  "update_group sid group_id name description cidr color d =
     (case get_current_user sid d of
        None \<Rightarrow> (RedirectResponse ''/login'', d)
      | Some u \<Rightarrow>
          (case tbl_find (\<lambda>g. g_id g = group_id) (db_groups d) of
             None \<Rightarrow> (RedirectResponse ''/clients/groups'', d)
           | Some old \<Rightarrow>
               if tbl_find (\<lambda>g. g_name g = name \<and> g_id g \<noteq> group_id) (db_groups d) \<noteq> None
               then (RedirectResponse ''/clients/groups?error=name_exists'', d)
               else if cidr \<noteq> [] \<and> ip_network cidr = None then (RedirectResponse ''/clients/groups?error=invalid_cidr'', d)
               else (let edit = (\<lambda>g. g\<lparr>g_name := name, g_description := or_none description, g_cidr := or_none cidr,
                                g_color := valid_color color\<rparr>);
                         d1 = d\<lparr>db_groups := tbl_update (\<lambda>g. g_id g = group_id) edit (db_groups d)\<rparr>
                     in (RedirectResponse ''/clients/groups'',
                         if cidr \<noteq> [] \<and> Some cidr \<noteq> g_cidr old then snd (auto_assign_by_cidr (edit old) d1) else d1))))"

fun assign_all :: "client_group list \<Rightarrow> nat \<times> db \<Rightarrow> nat \<times> db" where
  "assign_all [] acc = acc"
| "assign_all (g # gs) (assigned, d) =
     (case auto_assign_by_cidr g d of (n, d1) \<Rightarrow> assign_all gs (assigned + n, d1))"

definition auto_assign_groups :: "int option \<Rightarrow> db \<Rightarrow> response \<times> db" where
  "auto_assign_groups sid d =
     (case get_current_user sid d of
        None \<Rightarrow> (RedirectResponse ''/login'', d)
      | Some u \<Rightarrow>
          (case assign_all (tbl_select (\<lambda>g. g_cidr g \<noteq> None) (db_groups d)) (0, d) of
             (assigned, d1) \<Rightarrow> (RedirectResponse (''/clients/groups?assigned='' @ show_int (int assigned)), d1)))"

text \<open>A positive \<open>group_id\<close> that does not exist violates the foreign key.\<close>

definition set_client_group :: "int option \<Rightarrow> int \<Rightarrow> int option \<Rightarrow> db \<Rightarrow> response \<times> db" where
  "set_client_group sid client_id group_id d =
     (case get_current_user sid d of
        None \<Rightarrow> (RedirectResponse ''/login'', d)
      | Some u \<Rightarrow>
          (let g = (case group_id of None \<Rightarrow> None | Some i \<Rightarrow> if 0 < i then Some i else None)
           in if tbl_find (\<lambda>c. c_id c = client_id) (db_clients d) \<noteq> None \<and> g \<noteq> None \<and>
                 tbl_find (\<lambda>x. Some (g_id x) = g) (db_groups d) = None
              then (server_error, d)
              else (RedirectResponse ''/clients'', update_client client_id (\<lambda>c. c\<lparr>c_group_id := g\<rparr>) d)))"

section \<open>Facts\<close>

lemma find_client_update:
  assumes "find_client d ip = Some c" and "\<And>x. c_ip (f x) = c_ip x"
  shows "find_client (d\<lparr>db_clients := tbl_update (\<lambda>x. c_ip x = ip) f (db_clients d)\<rparr>) ip = Some (f c)"
proof -
  have "find (\<lambda>x. c_ip x = ip) xs = Some c \<Longrightarrow>
      find (\<lambda>x. c_ip x = ip) (map (\<lambda>x. if c_ip x = ip then f x else x) xs) = Some (f c)" for xs
    using assms(2) by (induction xs) (auto split: if_splits)
  then show ?thesis using assms(1) by (simp add: find_client_def tbl_find_def)
qed

lemma ensure_client_found: "find_client d ip \<noteq> None \<Longrightarrow> ensure_client now ip d = d"
  by (simp add: ensure_client_def)

lemma store_lookup_ip [simp]: "c_ip (store_lookup now ns h c) = c_ip c"
  by (simp add: store_lookup_def)

text \<open>What a call that made a lookup leaves behind.\<close>

lemma resolve_asked:
  assumes "resolve_client_hostname resolve now ip force d = (r, True, d')"
  shows "\<exists>c rule. find_client d' ip = Some (store_lookup now (rr_nameserver rule) (ptr_lookup resolve ip (rr_nameserver rule)) c) \<and>
    r = (if truthy (ptr_lookup resolve ip (rr_nameserver rule)) then ptr_lookup resolve ip (rr_nameserver rule) else c_display_name c) \<and>
    \<not> truthy (c_display_name c) \<and> get_matching_rule d' ip = Some rule"
proof -
  let ?d1 = "ensure_client now ip d"
  obtain c rule where c: "find_client ?d1 ip = Some c" "\<not> truthy (c_display_name c)" and rule: "get_matching_rule ?d1 ip = Some rule"
    and r: "r = (if truthy (ptr_lookup resolve ip (rr_nameserver rule)) then ptr_lookup resolve ip (rr_nameserver rule) else c_display_name c)"
    and d': "d' = ?d1\<lparr>db_clients := tbl_update (\<lambda>c. c_ip c = ip)
      (store_lookup now (rr_nameserver rule) (ptr_lookup resolve ip (rr_nameserver rule))) (db_clients ?d1)\<rparr>"
    using assms by (auto simp: resolve_client_hostname_def Let_def split: option.splits if_splits)
  have "get_matching_rule d' ip = Some rule" using rule by (simp add: d' get_matching_rule_def)
  then show ?thesis using find_client_update [OF c(1), of "store_lookup now (rr_nameserver rule) (ptr_lookup resolve ip (rr_nameserver rule))"] c(2) r d'
    by auto
qed

lemma resolve_cached:
  "find_client d ip = Some c \<Longrightarrow> cached_name later c = Some name \<Longrightarrow>
   resolve_client_hostname resolve later ip False d = (name, False, d)"
  by (simp add: resolve_client_hostname_def ensure_client_found)

lemma cached_stored:
  assumes "later - now < seconds 300"
  shows "cached_name later (store_lookup now ns h c) \<noteq> None"
  using assms by (auto simp: cached_name_def store_lookup_def PTR_CACHE_ERROR_TTL_SECONDS_def PTR_CACHE_TTL_SECONDS_def seconds_def)

lemma cached_found:
  assumes "truthy h" and "later - now < seconds 3600"
  shows "cached_name later (store_lookup now ns h c) = Some h"
  using assms by (simp add: cached_name_def store_lookup_def PTR_CACHE_TTL_SECONDS_def)

lemma find_sort_key_least:
  assumes "find P (sort_key f xs) = Some x"
  shows "x \<in> set xs \<and> P x \<and> (\<forall>y \<in> set xs. P y \<longrightarrow> f x \<le> f y)"
proof -
  have "find P ys = Some x \<Longrightarrow> sorted (map f ys) \<Longrightarrow> x \<in> set ys \<and> P x \<and> (\<forall>y \<in> set ys. P y \<longrightarrow> f x \<le> f y)" for ys
    by (induction ys) (auto split: if_splits)
  from this [OF assms] show ?thesis by simp
qed

text \<open>The rule that is used is an enabled one for the address with the smallest priority.\<close>

lemma matching_rule_least:
  "get_matching_rule d ip = Some rule \<Longrightarrow>
   rule \<in> set (rows (db_rules d)) \<and> rr_enabled rule \<and> ip_in_subnet ip (rr_subnet rule) \<and>
   (\<forall>r \<in> set (rows (db_rules d)). rr_enabled r \<and> ip_in_subnet ip (rr_subnet r) \<longrightarrow> rr_priority rule \<le> rr_priority r)"
  unfolding get_matching_rule_def by (drule find_sort_key_least) (auto simp: tbl_select_def)

lemma ip_in_cidr_subnet: "ip_in_cidr = ip_in_subnet"
  by (auto simp: fun_eq_iff ip_in_cidr_def ip_in_subnet_def split: option.split)

section \<open>Assignment to groups\<close>

text \<open>The group that takes a client: the first one in the table whose network holds its address.\<close>

definition covers :: "client_group \<Rightarrow> client \<Rightarrow> bool" where
  "covers g c \<longleftrightarrow> truthy (g_cidr g) \<and> ip_in_cidr (c_ip c) (the (g_cidr g))"

definition first_group :: "client_group list \<Rightarrow> client \<Rightarrow> int option" where
  "first_group gs c = map_option g_id (find (\<lambda>g. covers g c) gs)"

definition assign_client :: "client_group list \<Rightarrow> client \<Rightarrow> client" where
  "assign_client gs c = (if c_group_id c = None then c\<lparr>c_group_id := first_group gs c\<rparr> else c)"

definition assignable :: "client_group list \<Rightarrow> client \<Rightarrow> bool" where
  "assignable gs c \<longleftrightarrow> c_group_id c = None \<and> first_group gs c \<noteq> None"

definition map_clients :: "(client \<Rightarrow> client) \<Rightarrow> db \<Rightarrow> db" where
  "map_clients f d = d\<lparr>db_clients := (db_clients d)\<lparr>rows := map f (rows (db_clients d))\<rparr>\<rparr>"

lemma first_group_update [simp]:
  "covers g (c\<lparr>c_group_id := x\<rparr>) = covers g c" "first_group gs (c\<lparr>c_group_id := x\<rparr>) = first_group gs c"
  by (simp_all add: first_group_def covers_def)

lemma first_group_Nil [simp]: "first_group [] c = None"
  by (simp add: first_group_def)

lemma first_group_Cons: "first_group (g # gs) c = (if covers g c then Some (g_id g) else first_group gs c)"
  by (simp add: first_group_def)

lemma auto_assign_eq:
  "auto_assign_by_cidr g d = (length (filter (assignable [g]) (rows (db_clients d))), map_clients (assign_client [g]) d)"
proof (cases "truthy (g_cidr g)")
  case True
  then obtain cidr where cidr: "g_cidr g = Some cidr" "cidr \<noteq> []" by (cases "g_cidr g") auto
  have "assignable [g] = (\<lambda>c. c_group_id c = None \<and> ip_in_cidr (c_ip c) cidr)"
    by (auto simp: fun_eq_iff assignable_def first_group_def covers_def cidr)
  moreover have "assign_client [g] c =
      (if c_group_id c = None \<and> ip_in_cidr (c_ip c) cidr then c\<lparr>c_group_id := Some (g_id g)\<rparr> else c)" for c
    by (cases c) (simp add: assign_client_def first_group_def covers_def cidr)
  ultimately show ?thesis
    by (simp add: auto_assign_by_cidr_def cidr Let_def map_clients_def tbl_update_def tbl_select_def)
next
  case False
  then have "covers g = (\<lambda>c. False)" by (simp add: fun_eq_iff covers_def)
  then have "assignable [g] = (\<lambda>c. False)" "assign_client [g] = id"
    by (simp_all add: fun_eq_iff assignable_def assign_client_def first_group_def)
  then show ?thesis using False by (cases "g_cidr g") (simp_all add: auto_assign_by_cidr_def map_clients_def)
qed

lemma assign_client_Cons: "assign_client gs (assign_client [g] c) = assign_client (g # gs) c"
  by (cases c) (auto simp: assign_client_def first_group_Cons)

lemma count_assignable:
  "length (filter (assignable [g]) xs) + length (filter (assignable gs) (map (assign_client [g]) xs)) =
   length (filter (assignable (g # gs)) xs)"
proof (induction xs)
  case (Cons c xs)
  have "assignable gs (assign_client [g] c) \<longleftrightarrow> \<not> assignable [g] c \<and> assignable gs c"
    by (auto simp: assignable_def assign_client_def first_group_Cons)
  moreover have "assignable (g # gs) c \<longleftrightarrow> assignable [g] c \<or> assignable gs c"
    by (auto simp: assignable_def first_group_Cons)
  ultimately show ?case using Cons by auto
qed simp

lemma assign_all_eq:
  "assign_all gs (n, d) =
     (n + length (filter (assignable gs) (rows (db_clients d))), map_clients (assign_client gs) d)"
proof (induction gs arbitrary: n d)
  case Nil
  have "assign_client [] = (id :: client \<Rightarrow> client)" "assignable [] = (\<lambda>c. False)"
    by (simp_all add: fun_eq_iff assign_client_def assignable_def first_group_def)
  then show ?case by (simp add: map_clients_def)
next
  case (Cons g gs)
  have "map_clients (assign_client gs) (map_clients (assign_client [g]) d) = map_clients (assign_client (g # gs)) d"
    by (simp add: map_clients_def assign_client_Cons comp_def)
  then show ?case
    using count_assignable [of g "rows (db_clients d)" gs] by (simp add: auto_assign_eq Cons) (simp add: map_clients_def)
qed

lemma first_group_with_cidr: "first_group (filter (\<lambda>g. g_cidr g \<noteq> None) gs) c = first_group gs c"
proof (induction gs)
  case (Cons g gs)
  then show ?case by (cases "g_cidr g") (simp_all add: first_group_Cons covers_def)
qed simp

lemma assign_with_cidr:
  "assign_client (filter (\<lambda>g. g_cidr g \<noteq> None) gs) = assign_client gs"
  "assignable (filter (\<lambda>g. g_cidr g \<noteq> None) gs) = assignable gs"
  unfolding fun_eq_iff assign_client_def assignable_def first_group_with_cidr by simp_all

lemma assign_client_idem [simp]: "assign_client gs (assign_client gs c) = assign_client gs c"
  by (simp add: assign_client_def)

lemma not_assignable_assigned [simp]: "\<not> assignable gs (assign_client gs c)"
  by (auto simp: assignable_def assign_client_def)

section \<open>References to groups\<close>

definition group_refs :: "db \<Rightarrow> int set" where
  "group_refs d = {i. \<exists>c \<in> set (rows (db_clients d)). c_group_id c = Some i}"

definition groups_ok :: "db \<Rightarrow> bool" where
  "groups_ok d \<longleftrightarrow>
     table_wf g_id (db_groups d) \<and> distinct (map g_name (rows (db_groups d))) \<and> group_refs d \<subseteq> g_id ` set (rows (db_groups d))"

lemma groups_ok_clients:
  assumes "groups_ok d" and "db_groups d' = db_groups d" and "group_refs d' \<subseteq> group_refs d \<union> g_id ` set (rows (db_groups d))"
  shows "groups_ok d'"
  using assms unfolding groups_ok_def by auto

inductive client_step :: "db \<Rightarrow> db \<Rightarrow> bool" where
  created: "client_step d (snd (create_group sid name description cidr color d))"
| deleted: "client_step d (snd (delete_group sid i d))"
| updated: "client_step d (snd (update_group sid i name description cidr color d))"
| assigned: "client_step d (snd (auto_assign_groups sid d))"
| moved: "client_step d (snd (set_client_group sid c g d))"
| named: "client_step d (snd (clients_set_name sid c name d))"
| looked_up: "client_step d (snd (clients_resolve resolve now sid c d))"
| in_background: "client_step d (background_resolve_clients resolve now ips (d, d))"
| ingested: "ingest now key events d = Inr (answer, d') \<Longrightarrow> client_step d d'"

lemma group_refs_map:
  assumes "\<And>c. c_group_id (f c) = c_group_id c"
  shows "group_refs (d\<lparr>db_clients := tbl_update P f (db_clients d)\<rparr>) = group_refs d"
proof -
  have keep: "map c_group_id (rows (tbl_update P f t)) = map c_group_id (rows t)" for t using assms by simp
  have refs: "group_refs x = {i. Some i \<in> set (map c_group_id (rows (db_clients x)))}" for x
    by (auto simp: group_refs_def image_iff) metis+
  have new: "db_clients (d\<lparr>db_clients := t\<rparr>) = t" for t by simp
  show ?thesis unfolding refs new keep ..
qed

lemma ensure_client_refs [simp]:
  "group_refs (ensure_client now ip d) = group_refs d" "db_groups (ensure_client now ip d) = db_groups d"
  by (auto simp: ensure_client_def group_refs_def)

lemma fold_ensure_refs [simp]:
  "group_refs (fold (ensure_client now) ips d) = group_refs d" "db_groups (fold (ensure_client now) ips d) = db_groups d"
  by (induction ips arbitrary: d) simp_all

lemma fold_touch_refs [simp]:
  "group_refs (fold (\<lambda>ev. touch_client (ie_client_ip ev) (event_time now ev)) evs d) = group_refs d"
  "db_groups (fold (\<lambda>ev. touch_client (ie_client_ip ev) (event_time now ev)) evs d) = db_groups d"
  by (induction evs arbitrary: d) (simp_all add: touch_client_def group_refs_map)

lemma resolve_refs:
  "resolve_client_hostname resolve now ip force d = (r, asked, d') \<Longrightarrow> group_refs d' = group_refs d \<and> db_groups d' = db_groups d"
  by (auto simp: resolve_client_hostname_def Let_def group_refs_map store_lookup_def split: option.splits if_splits)

lemma clients_resolve_refs:
  "group_refs (snd (clients_resolve resolve now sid i d)) = group_refs d \<and>
   db_groups (snd (clients_resolve resolve now sid i d)) = db_groups d"
proof -
  have "snd (clients_resolve resolve now sid i d) = d \<or>
      (\<exists>r asked ip. resolve_client_hostname resolve now ip True d = (r, asked, snd (clients_resolve resolve now sid i d)))"
    by (auto simp: clients_resolve_def split: option.split prod.split)
  then show ?thesis using resolve_refs by metis
qed

lemma background_refs:
  "group_refs c = group_refs d \<Longrightarrow> db_groups c = db_groups d \<Longrightarrow>
   group_refs (background_resolve_clients resolve now ips (c, d)) = group_refs d \<and>
   db_groups (background_resolve_clients resolve now ips (c, d)) = db_groups d"
proof (induction ips arbitrary: c d)
  case (Cons ip ips)
  obtain r asked d1 where run: "resolve_client_hostname resolve now ip False d = (r, asked, d1)"
    by (cases "resolve_client_hostname resolve now ip False d") auto
  note same = resolve_refs [OF run]
  show ?case
    using Cons.IH [of "if asked then d1 else c" d1] Cons.prems same by (simp add: run split: if_splits)
qed simp

lemma ingest_refs:
  assumes "ingest now key events d = Inr (answer, d')"
  shows "group_refs d' = group_refs d \<and> db_groups d' = db_groups d"
proof -
  have "group_refs (save_node n x) = group_refs x" "db_groups (save_node n x) = db_groups x" for n x
    by (simp_all add: save_node_def group_refs_def)
  moreover have "group_refs (x\<lparr>db_events := e\<rparr>) = group_refs x" for x e by (simp add: group_refs_def)
  ultimately show ?thesis
    using assms by (auto simp: ingest_def Let_def split: sum.splits if_splits prod.splits)
qed

lemma assign_refs: "group_refs (map_clients (assign_client gs) d) \<subseteq> group_refs d \<union> g_id ` set gs"
  by (auto simp: group_refs_def map_clients_def assign_client_def first_group_def find_Some_iff split: if_splits)

lemma assign_ok:
  assumes "groups_ok d" and "set gs \<subseteq> set (rows (db_groups d))"
  shows "groups_ok (map_clients (assign_client gs) d)"
  by (rule groups_ok_clients [OF assms(1)]) (use assign_refs [of gs d] assms(2) in \<open>auto simp: map_clients_def\<close>)

lemma create_group_ok:
  assumes ok: "groups_ok d"
  shows "groups_ok (snd (create_group sid name description cidr color d))"
proof (cases "snd (create_group sid name description cidr color d) = d")
  case False
  let ?g = "\<lparr>g_id = next_id (db_groups d), g_name = name, g_description = or_none description, g_cidr = or_none cidr,
      g_color = valid_color color\<rparr>"
  let ?d1 = "d\<lparr>db_groups := tbl_insert (\<lambda>i. ?g\<lparr>g_id := i\<rparr>) (db_groups d)\<rparr>"
  have new: "tbl_find (\<lambda>g. g_name g = name) (db_groups d) = None"
    and d': "snd (create_group sid name description cidr color d) = (if cidr \<noteq> [] then map_clients (assign_client [?g]) ?d1 else ?d1)"
    using False by (auto simp: create_group_def Let_def auto_assign_eq split: option.splits if_splits)
  have ok1: "groups_ok ?d1"
    using ok new by (auto simp: groups_ok_def tbl_find_None_iff group_refs_def intro!: table_wf_insert)
  have "groups_ok (map_clients (assign_client [?g]) ?d1)" by (rule assign_ok [OF ok1]) simp
  then show ?thesis unfolding d' by (split if_split) (use ok1 in blast)
qed (simp add: ok)

lemma delete_group_ok: "groups_ok d \<Longrightarrow> groups_ok (snd (delete_group sid i d))"
  by (auto simp: delete_group_def groups_ok_def group_refs_def distinct_map_filter table_wf_delete split: option.splits if_splits)

lemma distinct_rename:
  assumes "distinct (map k xs)" and "distinct (map f xs)" and "\<forall>x \<in> set xs. k x \<noteq> i \<longrightarrow> f x \<noteq> v" and "\<And>x. f (e x) = v"
  shows "distinct (map f (map (\<lambda>x. if k x = i then e x else x) xs))"
proof -
  have "map f (map (\<lambda>x. if k x = i then e x else x) xs) = map (\<lambda>x. if k x = i then v else f x) xs" using assms(4) by simp
  moreover have "distinct (map (\<lambda>x. if k x = i then v else f x) xs)"
    using assms(1,2,3) by (auto simp: distinct_map inj_on_def)
  ultimately show ?thesis by (simp only:)
qed

lemma update_group_ok:
  assumes ok: "groups_ok d"
  shows "groups_ok (snd (update_group sid i name description cidr color d))"
proof (cases "snd (update_group sid i name description cidr color d) = d")
  case False
  let ?edit = "\<lambda>g. g\<lparr>g_name := name, g_description := or_none description, g_cidr := or_none cidr, g_color := valid_color color\<rparr>"
  let ?d1 = "d\<lparr>db_groups := tbl_update (\<lambda>g. g_id g = i) ?edit (db_groups d)\<rparr>"
  obtain g where g: "tbl_find (\<lambda>g. g_id g = i) (db_groups d) = Some g"
    and free: "tbl_find (\<lambda>g. g_name g = name \<and> g_id g \<noteq> i) (db_groups d) = None"
    and d': "snd (update_group sid i name description cidr color d) \<in> {?d1, map_clients (assign_client [?edit g]) ?d1}"
    using False by (auto simp: update_group_def Let_def auto_assign_eq split: option.splits if_splits)
  have keys: "map g_id (rows (db_groups ?d1)) = map g_id (rows (db_groups d))" by simp
  have wf: "table_wf g_id (db_groups ?d1)"
    using ok unfolding groups_ok_def table_wf_def keys by auto
  have "distinct (map g_name (map (\<lambda>g. if g_id g = i then ?edit g else g) (rows (db_groups d))))"
    by (rule distinct_rename [where v = name]) (use ok free in \<open>auto simp: groups_ok_def table_wf_def tbl_find_None_iff\<close>)
  then have "distinct (map g_name (rows (db_groups ?d1)))" by simp
  moreover have "g_id ` set (rows (db_groups ?d1)) = g_id ` set (rows (db_groups d))"
    by (metis keys list.set_map)
  ultimately have ok1: "groups_ok ?d1" using ok wf by (simp add: groups_ok_def group_refs_def)
  moreover have "?edit g \<in> set (rows (db_groups ?d1))" using tbl_find_SomeD [OF g] by force
  ultimately show ?thesis using d' assign_ok [of ?d1 "[?edit g]"] by auto
qed (simp add: ok)

lemma set_client_group_ok:
  assumes ok: "groups_ok d"
  shows "groups_ok (snd (set_client_group sid c g d))"
proof -
  define g' where "g' = (case g of None \<Rightarrow> None | Some i \<Rightarrow> if 0 < i then Some i else None)"
  have "snd (set_client_group sid c g d) = d \<or>
      snd (set_client_group sid c g d) = update_client c (\<lambda>x. x\<lparr>c_group_id := g'\<rparr>) d \<and>
      (tbl_find (\<lambda>x. c_id x = c) (db_clients d) = None \<or> g' = None \<or> tbl_find (\<lambda>x. Some (g_id x) = g') (db_groups d) \<noteq> None)"
    unfolding set_client_group_def Let_def g'_def [symmetric] by (simp split: option.split)
  moreover have "group_refs (update_client c (\<lambda>x. x\<lparr>c_group_id := g'\<rparr>) d) \<subseteq> group_refs d \<union> g_id ` set (rows (db_groups d))"
    if "tbl_find (\<lambda>x. c_id x = c) (db_clients d) = None \<or> g' = None \<or> tbl_find (\<lambda>x. Some (g_id x) = g') (db_groups d) \<noteq> None"
    using that by (auto simp: group_refs_def update_client_def tbl_find_None_iff image_iff split: if_splits)
  ultimately show ?thesis using ok groups_ok_clients [OF ok, of "update_client c (\<lambda>x. x\<lparr>c_group_id := g'\<rparr>) d"]
    by (auto simp: update_client_def)
qed

lemma auto_assign_run:
  "get_current_user sid d = Some u \<Longrightarrow> auto_assign_groups sid d =
     (RedirectResponse (''/clients/groups?assigned='' @
        show_int (int (length (filter (assignable (rows (db_groups d))) (rows (db_clients d)))))),
      map_clients (assign_client (rows (db_groups d))) d)"
  by (simp add: auto_assign_groups_def assign_all_eq tbl_select_def assign_with_cidr del: not_None_eq)

lemma auto_assign_groups_ok:
  assumes "groups_ok d"
  shows "groups_ok (snd (auto_assign_groups sid d))"
proof (cases "get_current_user sid d")
  case None
  then show ?thesis using assms by (simp add: auto_assign_groups_def)
next
  case (Some u)
  show ?thesis unfolding auto_assign_run [OF Some] snd_conv by (rule assign_ok [OF assms]) simp
qed

lemma client_step_ok: "client_step d d' \<Longrightarrow> groups_ok d \<Longrightarrow> groups_ok d'"
proof (induction rule: client_step.induct)
  case (looked_up d resolve now sid c)
  show ?case by (rule groups_ok_clients [OF looked_up]) (use clients_resolve_refs [of resolve now sid c d] in auto)
next
  case (in_background d resolve now ips)
  show ?case by (rule groups_ok_clients [OF in_background]) (use background_refs [of d d resolve now ips] in auto)
next
  case (ingested now key events d answer d')
  show ?case by (rule groups_ok_clients [OF ingested(2)]) (use ingest_refs [OF ingested(1)] in auto)
next
  case (named d sid c name)
  show ?case
    by (rule groups_ok_clients [OF named]) (auto simp: clients_set_name_def update_client_def group_refs_map split: option.split)
qed (simp_all add: create_group_ok delete_group_ok update_group_ok auto_assign_groups_ok set_client_group_ok)

section \<open>Properties\<close>

text \<open>
  C30: membership in a subnet is agreement of the leading bits.  For an address and a network
  written in the usual notation, of the same version of the protocol, the code's test says that the
  first \<open>n\<close> bits agree, and addresses of the other version are never members.  The two copies of the
  test in the code agree.
\<close>

theorem subnet_is_common_prefix:
  "(n \<le> 32 \<longrightarrow> ip_in_subnet (show_ipv4 a) (show_ipv4 b @ ''/'' @ show_nat n) = (drop_bit (32 - n) a = drop_bit (32 - n) b)) \<and>
   (m \<le> 128 \<longrightarrow> ip_in_subnet (show_ipv6 x) (show_ipv6 y @ ''/'' @ show_nat m) = (drop_bit (128 - m) x = drop_bit (128 - m) y)) \<and>
   (n \<le> 32 \<longrightarrow> \<not> ip_in_subnet (show_ipv6 x) (show_ipv4 b @ ''/'' @ show_nat n)) \<and>
   (m \<le> 128 \<longrightarrow> \<not> ip_in_subnet (show_ipv4 a) (show_ipv6 y @ ''/'' @ show_nat m)) \<and>
   ip_in_cidr ip cidr = ip_in_subnet ip cidr"
  using ip_address_show [of "IPv4Address a"] ip_address_show [of "IPv6Address x"] ip_network_show(1) [of n b] ip_network_show(2) [of m y]
    same_prefix [of n a b] same_prefix [of m x y]
  by (simp add: ip_in_subnet_def ip_in_cidr_subnet del: append.simps)

theorem subnet_is_common_prefix_witness:
  "ip_in_subnet (show_ipv4 0x0A010203) (show_ipv4 0x0A000000 @ ''/'' @ show_nat 8) \<and>
   \<not> ip_in_subnet (show_ipv4 0x0B010203) (show_ipv4 0x0A000000 @ ''/'' @ show_nat 8) \<and>
   ip_in_subnet (show_ipv6 0xFE800000000000000000000000000001) (show_ipv6 0xFE800000000000000000000000000000 @ ''/'' @ show_nat 10)"
  using subnet_is_common_prefix [of 8 "0x0A010203" "0x0A000000" 10 "0xFE800000000000000000000000000001" "0xFE800000000000000000000000000000" "[]" "[]"]
    subnet_is_common_prefix [of 8 "0x0B010203" "0x0A000000" 10 0 0 "[]" "[]"]
  by simp

text \<open>
  Reverse lookups are rate limited.  When a call made a lookup for an address, calls without
  \<open>force\<close> in the next 300 seconds make none and change nothing, whatever the name servers would
  say; when the lookup found a name this holds for 3600 seconds and the calls return that name.
  The lookup went to the name server of the enabled rule for the address with the smallest priority.
\<close>

theorem lookups_rate_limited:
  assumes first: "resolve_client_hostname resolve now ip force d = (r, True, d')"
    and later: "later - now < seconds 300 \<or> truthy r \<and> later - now < seconds 3600"
  shows "(\<exists>name. resolve_client_hostname resolve' later ip False d' = (name, False, d') \<and> (truthy r \<longrightarrow> name = r)) \<and>
    (\<exists>rule \<in> set (rows (db_rules d')). rr_enabled rule \<and> ip_in_subnet ip (rr_subnet rule) \<and>
      (\<forall>x \<in> set (rows (db_rules d')). rr_enabled x \<and> ip_in_subnet ip (rr_subnet x) \<longrightarrow> rr_priority rule \<le> rr_priority x) \<and>
      (truthy r \<longrightarrow> r = ptr_lookup resolve ip (rr_nameserver rule)))"
proof -
  obtain c rule where c: "find_client d' ip = Some (store_lookup now (rr_nameserver rule) (ptr_lookup resolve ip (rr_nameserver rule)) c)"
    and r: "r = (if truthy (ptr_lookup resolve ip (rr_nameserver rule)) then ptr_lookup resolve ip (rr_nameserver rule) else c_display_name c)"
    and no: "\<not> truthy (c_display_name c)" and rule: "get_matching_rule d' ip = Some rule"
    using resolve_asked [OF first] by blast
  let ?h = "ptr_lookup resolve ip (rr_nameserver rule)"
  have found: "truthy r \<longleftrightarrow> truthy ?h" using r no by auto
  then have "\<exists>rule \<in> set (rows (db_rules d')). rr_enabled rule \<and> ip_in_subnet ip (rr_subnet rule) \<and>
      (\<forall>x \<in> set (rows (db_rules d')). rr_enabled x \<and> ip_in_subnet ip (rr_subnet x) \<longrightarrow> rr_priority rule \<le> rr_priority x) \<and>
      (truthy r \<longrightarrow> r = ptr_lookup resolve ip (rr_nameserver rule))"
    using matching_rule_least [OF rule] r by auto
  moreover have "\<exists>name. resolve_client_hostname resolve' later ip False d' = (name, False, d') \<and> (truthy r \<longrightarrow> name = r)"
  proof (cases "truthy r")
    case True
    then have "later - now < seconds 3600" using later by (auto simp: seconds_def)
    then show ?thesis using resolve_cached [OF c cached_found] found r True by auto
  next
    case False
    then obtain name where "cached_name later (store_lookup now (rr_nameserver rule) ?h c) = Some name"
      using cached_stored [of later now] later by fastforce
    then show ?thesis using resolve_cached [OF c] False by auto
  qed
  ultimately show ?thesis by blast
qed

definition lookup_db :: db where
  "lookup_db = empty_db\<lparr>
     db_users := \<lparr>rows = [\<lparr>u_id = 1, u_username = ''admin'', u_password_hash = []\<rparr>], next_id = 2\<rparr>,
     db_rules := \<lparr>rows = [\<lparr>rr_id = 1, rr_subnet = show_ipv4 0x0A000000 @ ''/'' @ show_nat 8, rr_nameserver = ''10.0.0.1'',
         rr_enabled = True, rr_priority = 100, rr_description = None\<rparr>], next_id = 2\<rparr>,
     db_clients := \<lparr>rows = [\<lparr>c_id = 1, c_ip = show_ipv4 0x0A010203, c_display_name = None, c_rdns_name = None,
         c_rdns_last_resolved_at = None, c_rdns_last_error = None, c_group_id = None, c_created_at = 0, c_last_seen = None\<rparr>],
       next_id = 2\<rparr>\<rparr>"

lemma sample_in_subnet: "ip_in_subnet (show_ipv4 0x0A010203) (show_ipv4 0x0A000000 @ ''/'' @ show_nat 8)"
  using ip_address_show [of "IPv4Address 0x0A010203"] ip_network_show(1) [of 8 "0x0A000000"] same_prefix [of 8 "0x0A010203 :: 32 word" "0x0A000000"]
  by (simp add: ip_in_subnet_def del: append.simps)

theorem lookups_rate_limited_witness:
  "\<exists>d'. resolve_client_hostname (\<lambda>ns port ip. Some [''host.lan.'']) 0 (show_ipv4 0x0A010203) False lookup_db = (Some ''host.lan'', True, d') \<and>
     resolve_client_hostname (\<lambda>ns port ip. None) (seconds 3000) (show_ipv4 0x0A010203) False d' = (Some ''host.lan'', False, d')"
proof -
  have "ip_in_subnet (show_ipv4 0x0A010203) (show_ipv4 0x0A000000 @ ''/'' @ show_nat 8)"
    by (rule sample_in_subnet)
  then obtain d' where d': "resolve_client_hostname (\<lambda>ns port ip. Some [''host.lan.'']) 0 (show_ipv4 0x0A010203) False lookup_db = (Some ''host.lan'', True, d')"
    by (simp add: resolve_client_hostname_def lookup_db_def empty_db_def ensure_client_def find_client_def tbl_find_def cached_name_def
        get_matching_rule_def tbl_select_def ptr_lookup_def rstrip_by_def Let_def)
  from lookups_rate_limited [OF d', of "seconds 3000" "\<lambda>ns port ip. None"] d'
  show ?thesis by (auto simp: seconds_def)
qed

text \<open>
  Automatic assignment puts every client that is in no group into the first group, in the order
  of the table, whose network holds its address, reports how many it moved, leaves every other client
  alone, and has nothing left to do on a second run.
\<close>

theorem auto_assign_takes_first_match:
  assumes "get_current_user sid d = Some u" and "auto_assign_groups sid d = (resp, d')"
  shows "rows (db_clients d') = map (assign_client (rows (db_groups d))) (rows (db_clients d)) \<and>
    resp = RedirectResponse (''/clients/groups?assigned='' @
      show_int (int (length (filter (\<lambda>c. c_group_id c = None \<and> first_group (rows (db_groups d)) c \<noteq> None) (rows (db_clients d)))))) \<and>
    auto_assign_groups sid d' = (RedirectResponse ''/clients/groups?assigned=0'', d')"
proof -
  let ?gs = "rows (db_groups d)"
  have d': "d' = map_clients (assign_client ?gs) d" using auto_assign_run [OF assms(1)] assms(2) by simp
  then have "get_current_user sid d' = Some u" using assms(1) by (cases sid) (simp_all add: get_current_user_def map_clients_def split: if_splits)
  moreover have "map_clients (assign_client ?gs) d' = d'" by (simp add: d' map_clients_def comp_def)
  moreover have "filter (assignable ?gs) (rows (db_clients d')) = []" by (simp add: d' map_clients_def filter_empty_conv)
  moreover have "db_groups d' = db_groups d" by (simp add: d' map_clients_def)
  moreover have "show_int 0 = ''0''" by code_simp
  ultimately have "auto_assign_groups sid d' = (RedirectResponse ''/clients/groups?assigned=0'', d')" using auto_assign_run [of sid d'] by simp
  then show ?thesis
    using auto_assign_run [OF assms(1)] assms(2) by (simp add: d' map_clients_def assignable_def [abs_def])
qed

definition grouped_db :: db where
  "grouped_db = lookup_db\<lparr>db_groups := \<lparr>rows = [\<lparr>g_id = 1, g_name = ''office'', g_description = None,
     g_cidr = Some (show_ipv4 0x0A000000 @ ''/'' @ show_nat 8), g_color = ''slate''\<rparr>], next_id = 2\<rparr>\<rparr>"

theorem auto_assign_takes_first_match_witness:
  "\<exists>d'. auto_assign_groups (Some 1) grouped_db = (RedirectResponse ''/clients/groups?assigned=1'', d') \<and>
     map c_group_id (rows (db_clients d')) = [Some 1] \<and>
     auto_assign_groups (Some 1) d' = (RedirectResponse ''/clients/groups?assigned=0'', d')"
proof -
  have user: "get_current_user (Some 1) grouped_db = Some \<lparr>u_id = 1, u_username = ''admin'', u_password_hash = []\<rparr>"
    by (simp add: get_current_user_def grouped_db_def lookup_db_def tbl_find_def)
  obtain resp d' where run: "auto_assign_groups (Some 1) grouped_db = (resp, d')" by (cases "auto_assign_groups (Some 1) grouped_db")
  have "ip_in_cidr (show_ipv4 0x0A010203) (show_ipv4 0x0A000000 @ ''/'' @ show_nat 8)"
    unfolding ip_in_cidr_subnet by (rule sample_in_subnet)
  moreover have "show_int 1 = ''1''" by code_simp
  ultimately show ?thesis
    using auto_assign_takes_first_match [OF user run] run
    by (auto simp: grouped_db_def lookup_db_def assign_client_def first_group_def covers_def)
qed

text \<open>
  C31: clients never refer to a group that is gone.  Through any sequence of requests that create,
  edit, delete or assign groups, rename or resolve clients, or ingest events, group ids stay unique
  and below their sequence, group names stay unique, and the group of every client exists.
\<close>

theorem groups_stay_linked:
  assumes "client_step\<^sup>*\<^sup>* d d'" and "groups_ok d"
  shows "groups_ok d'"
  using assms by (induction rule: rtranclp_induct) (auto intro: client_step_ok)

theorem groups_stay_linked_witness: "groups_ok (snd (delete_group (Some 1) 1 (snd (auto_assign_groups (Some 1) grouped_db))))"
proof (rule groups_stay_linked)
  show "client_step\<^sup>*\<^sup>* grouped_db (snd (delete_group (Some 1) 1 (snd (auto_assign_groups (Some 1) grouped_db))))"
    by (meson client_step.assigned client_step.deleted r_into_rtranclp rtranclp.rtrancl_into_rtrancl)
  show "groups_ok grouped_db"
    by (simp add: groups_ok_def grouped_db_def lookup_db_def group_refs_def table_wf_def)
qed

end
