(* ===== verification/Streaming.thy ===== *)
theory Streaming
  imports Ingest
begin

text \<open>
  The live stream of query events (\<open>admin-ui/app/routers/streaming.py\<close>): opening a connection, the
  messages a client may send, and the loop that polls the database and sends what is new.  A message
  is what \<open>receive_json\<close> gives within the poll interval.  The set of open connections, which is only
  counted for the log, is left out.
\<close>

section \<open>Opening a connection\<close>

definition validate_session :: "string \<Rightarrow> db \<Rightarrow> int option" where
  "validate_session session_token d =
     (case py_int session_token of
        None \<Rightarrow> None
      | Some user_id \<Rightarrow> map_option u_id (tbl_find (\<lambda>u. u_id u = user_id) (db_users d)))"

definition get_max_event_id :: "db \<Rightarrow> int" where
  "get_max_event_id d = (case rev (sort_key ev_id (rows (db_events d))) of [] \<Rightarrow> 0 | e # _ \<Rightarrow> ev_id e)"

section \<open>Events\<close>

record stream_event =
  se_id :: int
  se_ts :: string
  se_client_ip :: string
  se_qname :: string
  se_qtype :: int
  se_rcode :: int
  se_blocked :: bool
  se_latency_ms :: "int option"

definition stream_event_of :: "dns_query_event \<Rightarrow> stream_event" where
  "stream_event_of e =
     \<lparr>se_id = ev_id e, se_ts = isoformat (ev_ts e), se_client_ip = ev_client_ip e, se_qname = ev_qname e,
      se_qtype = ev_qtype e, se_rcode = ev_rcode e, se_blocked = ev_blocked e, se_latency_ms = ev_latency_ms e\<rparr>"

definition newer :: "int \<Rightarrow> dns_query_event \<Rightarrow> bool" where
  "newer last_id e \<longleftrightarrow> last_id < ev_id e \<and> \<not> ev_is_internal e"

definition fetch_recent_events :: "int \<Rightarrow> nat \<Rightarrow> db \<Rightarrow> stream_event list" where
  "fetch_recent_events last_id limit d =
     map stream_event_of (take limit (sort_key ev_id (tbl_select (newer last_id) (db_events d))))"

section \<open>The loop\<close>

text \<open>
  \<open>SetLastId\<close> carries the integer of the message if it is one.  \<open>Malformed\<close> is a message that is not
  an object of JSON, which raises.
\<close>

datatype ws_message = NoMessage | Ping | SetLastId "int option" | OtherMessage | Malformed | Disconnect

datatype ws_reply = Connected int | Pong | LastIdUpdated int | EventsSent "stream_event list" | StreamError

datatype ws_end = Running "ws_reply list" int | Disconnected | Failed

definition handle_message :: "ws_message \<Rightarrow> int \<Rightarrow> ws_end" where
  "handle_message m last_id =
     (case m of
        NoMessage \<Rightarrow> Running [] last_id
      | Ping \<Rightarrow> Running [Pong] last_id
      | SetLastId (Some n) \<Rightarrow> if 0 \<le> n then Running [LastIdUpdated n] n else Running [] last_id
      | SetLastId None \<Rightarrow> Running [] last_id
      | OtherMessage \<Rightarrow> Running [] last_id
      | Malformed \<Rightarrow> Failed
      | Disconnect \<Rightarrow> Disconnected)"

definition stream_round :: "ws_message \<Rightarrow> db \<Rightarrow> int \<Rightarrow> ws_end" where
  "stream_round m d last_id =
     (case handle_message m last_id of
        Running replies last_id1 \<Rightarrow>
          (let events = fetch_recent_events last_id1 50 d
           in if events = [] then Running replies last_id1
              else Running (replies @ [EventsSent events]) (se_id (last events)))
      | e \<Rightarrow> e)"

text \<open>The rounds of a connection, each with the message that came and the database it found.\<close>

fun stream_loop :: "int \<Rightarrow> (ws_message \<times> db) list \<Rightarrow> ws_reply list" where
  "stream_loop last_id [] = []"
| "stream_loop last_id ((m, d) # rounds) =
     (case stream_round m d last_id of
        Running replies last_id1 \<Rightarrow> replies @ stream_loop last_id1 rounds
      | Disconnected \<Rightarrow> []
      | Failed \<Rightarrow> [StreamError])"

datatype ws_session = Refused nat string | Served "ws_reply list"

definition stream_queries :: "string option \<Rightarrow> db \<Rightarrow> (ws_message \<times> db) list \<Rightarrow> ws_session" where
  "stream_queries user_id_param d rounds =
     (if \<not> truthy user_id_param then Refused 4001 ''Missing user_id parameter''
      else case validate_session (the user_id_param) d of
        None \<Rightarrow> Refused 4003 ''Invalid or expired session''
      | Some user_id \<Rightarrow>
          if user_id = 0 then Refused 4003 ''Invalid or expired session''
          else Served (Connected (get_max_event_id d) # stream_loop (get_max_event_id d) rounds))"

section \<open>The stream as a client sees it\<close>

text \<open>What the client has received, and what it should receive after \<open>last_id\<close>.\<close>

fun received_events :: "ws_reply list \<Rightarrow> stream_event list" where
  "received_events [] = []"
| "received_events (EventsSent es # rs) = es @ received_events rs"
| "received_events (_ # rs) = received_events rs"

definition visible_after :: "int \<Rightarrow> db \<Rightarrow> stream_event list" where
  "visible_after last_id d = map stream_event_of (filter (newer last_id) (rows (db_events d)))"

text \<open>Rows are stored in the order of their keys.\<close>

definition events_ordered :: "db \<Rightarrow> bool" where
  "events_ordered d \<longleftrightarrow>
     sorted_wrt (<) (map ev_id (rows (db_events d))) \<and> (\<forall>e \<in> set (rows (db_events d)). ev_id e < next_id (db_events d)) \<and>
     0 < next_id (db_events d)"

text \<open>
  A history of the connection: batches that nodes deliver and rounds of the loop.  Messages that move
  the position are excluded by \<open>plain\<close>.
\<close>

datatype stream_action = Arrive instant "string option" "ingest_event option list" | Round ws_message

definition plain :: "stream_action \<Rightarrow> bool" where
  "plain a = (case a of Arrive _ _ _ \<Rightarrow> True | Round m \<Rightarrow> m \<in> {NoMessage, Ping, OtherMessage, SetLastId None})"

definition arrive :: "instant \<Rightarrow> string option \<Rightarrow> ingest_event option list \<Rightarrow> db \<Rightarrow> db" where
  "arrive now key events d = (case ingest now key events d of Inl _ \<Rightarrow> d | Inr (_, d') \<Rightarrow> d')"

fun rounds_of :: "stream_action list \<Rightarrow> db \<Rightarrow> (ws_message \<times> db) list" where
  "rounds_of [] d = []"
| "rounds_of (Arrive now key events # acts) d = rounds_of acts (arrive now key events d)"
| "rounds_of (Round m # acts) d = (m, d) # rounds_of acts d"

fun final_db :: "stream_action list \<Rightarrow> db \<Rightarrow> db" where
  "final_db [] d = d"
| "final_db (Arrive now key events # acts) d = final_db acts (arrive now key events d)"
| "final_db (Round m # acts) d = final_db acts d"

section \<open>Facts\<close>

lemma received_append [simp]: "received_events (xs @ ys) = received_events xs @ received_events ys"
  by (induction xs rule: received_events.induct) auto

lemma take_then_newer:
  assumes "sorted_wrt (<) (map ev_id xs)" and "take n (filter (newer a) xs) \<noteq> []"
  shows "filter (newer a) xs =
    take n (filter (newer a) xs) @ filter (newer (ev_id (last (take n (filter (newer a) xs))))) xs"
proof -
  let ?ys = "filter (newer a) xs"
  let ?t = "take n ?ys" and ?r = "drop n ?ys"
  let ?b = "ev_id (last ?t)"
  have "sorted_wrt (\<lambda>x y. ev_id x < ev_id y) ?ys"
    using assms(1) by (simp add: sorted_wrt_map sorted_wrt_filter)
  then have sorted: "sorted_wrt (\<lambda>x y. ev_id x < ev_id y) (?t @ ?r)" by simp
  then have above: "\<forall>x \<in> set ?t. \<forall>y \<in> set ?r. ev_id x < ev_id y" unfolding sorted_wrt_append by blast
  have split: "butlast ?t @ [last ?t] = ?t" using assms(2) by simp
  have "sorted_wrt (\<lambda>x y. ev_id x < ev_id y) (butlast ?t @ [last ?t])"
    using sorted unfolding split sorted_wrt_append by blast
  then have below: "\<forall>x \<in> set ?t. ev_id x \<le> ?b"
    unfolding sorted_wrt_append using split by (metis Un_iff insert_iff list.set(1,2) order.order_iff_strict set_append empty_iff)
  have "last ?t \<in> set ?t" using assms(2) by (rule last_in_set)
  then have a: "a < ?b" by (auto dest!: in_set_takeD simp: newer_def)
  have "filter (newer ?b) xs = filter (newer ?b) ?ys"
    using a by (auto simp: newer_def intro!: filter_cong)
  also have "\<dots> = filter (newer ?b) ?t @ filter (newer ?b) ?r" by (metis append_take_drop_id filter_append)
  also have "filter (newer ?b) ?t = []" using below by (auto simp: filter_empty_conv newer_def)
  also have "filter (newer ?b) ?r = ?r"
    using above \<open>last ?t \<in> set ?t\<close> by (intro filter_True) (auto simp: newer_def dest: in_set_dropD)
  finally show ?thesis by simp
qed

lemma fetch_ordered:
  assumes "events_ordered d"
  shows "fetch_recent_events a n d = map stream_event_of (take n (filter (newer a) (rows (db_events d))))"
proof -
  have "sorted_wrt (<) (map ev_id (filter (newer a) (rows (db_events d))))"
    using assms by (simp add: events_ordered_def sorted_wrt_map sorted_wrt_filter)
  then have "sorted (map ev_id (filter (newer a) (rows (db_events d))))" by (rule strict_sorted_imp_sorted)
  then show ?thesis by (simp add: fetch_recent_events_def tbl_select_def sort_key_id_if_sorted)
qed

text \<open>Insertion appends rows whose keys continue the sequence.\<close>

lemma insert_events_ordered:
  assumes "\<And>ev i. ev_id (mk ev i) = i"
  shows "sorted_wrt (<) (map ev_id (rows t)) \<Longrightarrow> \<forall>e \<in> set (rows t). ev_id e < next_id t \<Longrightarrow> insert_events mk evs (n, t) = (m, t') \<Longrightarrow>
    \<exists>new. rows t' = rows t @ new \<and> sorted_wrt (<) (map ev_id (rows t')) \<and> (\<forall>e \<in> set (rows t'). ev_id e < next_id t') \<and>
      next_id t \<le> next_id t' \<and> (\<forall>e \<in> set new. next_id t \<le> ev_id e)"
proof (induction evs arbitrary: n t)
  case (Cons ev evs)
  show ?case
  proof (cases "event_conflict t (ie_event_id ev)")
    case True
    then show ?thesis using Cons by simp
  next
    case False
    let ?t1 = "tbl_insert (mk ev) t"
    have "sorted_wrt (<) (map ev_id (rows ?t1))" "\<forall>e \<in> set (rows ?t1). ev_id e < next_id ?t1"
      using Cons.prems(1,2) assms by (auto simp: sorted_wrt_append)
    moreover have "insert_events mk evs (n + 1, ?t1) = (m, t')" using Cons.prems(3) False by simp
    ultimately obtain new where "rows t' = rows ?t1 @ new" "sorted_wrt (<) (map ev_id (rows t'))"
      "\<forall>e \<in> set (rows t'). ev_id e < next_id t'" "next_id ?t1 \<le> next_id t'" "\<forall>e \<in> set new. next_id ?t1 \<le> ev_id e"
      using Cons.IH by blast
    then show ?thesis using assms by (intro exI [of _ "mk ev (next_id t) # new"]) auto
  qed
qed auto

lemma arrive_ordered:
  assumes "events_ordered d"
  shows "events_ordered (arrive now key events d) \<and>
    (\<exists>new. rows (db_events (arrive now key events d)) = rows (db_events d) @ new \<and>
       (\<forall>e \<in> set new. next_id (db_events d) \<le> ev_id e) \<and> next_id (db_events d) \<le> next_id (db_events (arrive now key events d)))"
proof (cases "ingest now key events d")
  case (Inl e)
  then show ?thesis using assms by (simp add: arrive_def)
next
  case (Inr r)
  then obtain ans d' where run: "ingest now key events d = Inr (ans, d')" by (cases r) auto
  then obtain node where node: "get_node_from_api_key key d = Inr node" by (auto simp: ingest_def split: sum.splits)
  have d': "arrive now key events d = d'" by (simp add: arrive_def run)
  show ?thesis
  proof (cases "List.map_filter id events = []")
    case True
    then have "d' = d" using run node by (simp add: ingest_def)
    then show ?thesis using assms by (simp add: d')
  next
    case False
    let ?mk = "event_row now (n_id node) (client_id_of (fold (ensure_client now) (fromkeys (map ie_client_ip (List.map_filter id events))) d))"
    have "insert_events ?mk (List.map_filter id events) (0, db_events d) =
        (fst (insert_events ?mk (List.map_filter id events) (0, db_events d)), db_events d')"
      using ingest_steps(2) [OF run node refl False refl refl] by simp
    from insert_events_ordered [OF _ _ _ this] show ?thesis
      using assms by (auto simp: d' events_ordered_def event_row_def)
  qed
qed

lemma final_ordered:
  "events_ordered d \<Longrightarrow> events_ordered (final_db acts d) \<and>
   (\<exists>new. rows (db_events (final_db acts d)) = rows (db_events d) @ new \<and>
      (\<forall>e \<in> set new. next_id (db_events d) \<le> ev_id e) \<and> next_id (db_events d) \<le> next_id (db_events (final_db acts d)))"
proof (induction acts arbitrary: d)
  case (Cons a acts)
  show ?case
  proof (cases a)
    case (Arrive now key events)
    let ?d1 = "arrive now key events d"
    obtain new where new: "rows (db_events ?d1) = rows (db_events d) @ new" "\<forall>e \<in> set new. next_id (db_events d) \<le> ev_id e"
      "next_id (db_events d) \<le> next_id (db_events ?d1)" and ok: "events_ordered ?d1"
      using arrive_ordered [OF Cons.prems, of now key events] by blast
    obtain more where "rows (db_events (final_db acts ?d1)) = rows (db_events ?d1) @ more"
      "\<forall>e \<in> set more. next_id (db_events ?d1) \<le> ev_id e" "next_id (db_events ?d1) \<le> next_id (db_events (final_db acts ?d1))"
      "events_ordered (final_db acts ?d1)" using Cons.IH [OF ok] by blast
    then show ?thesis using new by (auto simp: Arrive intro!: exI [of _ "new @ more"])
  qed (use Cons in auto)
qed simp

text \<open>One round over a database that later grew: what it sends is the next part of what is visible in the end.\<close>

lemma round_sends_next:
  assumes "events_ordered d" "events_ordered d'" "rows (db_events d') = rows (db_events d) @ new" and "plain (Round m)"
  shows "\<exists>replies a'. stream_round m d a = Running replies a' \<and> visible_after a d' = received_events replies @ visible_after a' d' \<and>
    received_events replies = take 50 (visible_after a d)"
proof -
  obtain pre where pre: "handle_message m a = Running pre a" "received_events pre = []"
    using assms(4) by (auto simp: handle_message_def plain_def)
  let ?t = "take 50 (filter (newer a) (rows (db_events d)))"
  have fetch: "fetch_recent_events a 50 d = map stream_event_of ?t" by (rule fetch_ordered [OF assms(1)])
  have vis: "take 50 (visible_after a d) = map stream_event_of ?t" by (simp add: visible_after_def take_map)
  show ?thesis
  proof (cases "?t = []")
    case True
    then show ?thesis using pre vis by (simp add: stream_round_def fetch)
  next
    case False
    have "?t = take (length ?t) (filter (newer a) (rows (db_events d')))"
      by (cases "length (filter (newer a) (rows (db_events d))) \<le> 50") (simp_all add: assms(3))
    then have "filter (newer a) (rows (db_events d')) = ?t @ filter (newer (ev_id (last ?t))) (rows (db_events d'))"
      using take_then_newer [of "rows (db_events d')" "length ?t" a] assms(2) False by (metis events_ordered_def)
    moreover have "se_id (last (map stream_event_of ?t)) = ev_id (last ?t)"
      using False by (simp add: last_map stream_event_of_def)
    ultimately show ?thesis
      using pre vis False by (simp add: stream_round_def fetch visible_after_def Let_def)
  qed
qed

lemma stream_prefix:
  "events_ordered d \<Longrightarrow> \<forall>a \<in> set acts. plain a \<Longrightarrow>
   \<exists>b. visible_after a (final_db acts d) = received_events (stream_loop a (rounds_of acts d)) @ visible_after b (final_db acts d) \<and>
     (\<forall>more. stream_loop a (rounds_of (acts @ more) d) = stream_loop a (rounds_of acts d) @ stream_loop b (rounds_of more (final_db acts d)))"
proof (induction acts arbitrary: d a)
  case (Cons act acts)
  show ?case
  proof (cases act)
    case (Arrive now key events)
    then show ?thesis using Cons arrive_ordered [of d now key events] by simp
  next
    case (Round m)
    obtain new where new: "rows (db_events (final_db acts d)) = rows (db_events d) @ new" "events_ordered (final_db acts d)"
      using final_ordered [OF Cons.prems(1)] by blast
    obtain replies a' where r: "stream_round m d a = Running replies a'"
      "visible_after a (final_db acts d) = received_events replies @ visible_after a' (final_db acts d)"
      using round_sends_next [OF Cons.prems(1) new(2,1), of m a] Cons.prems(2) Round by auto
    obtain b where "visible_after a' (final_db acts d) = received_events (stream_loop a' (rounds_of acts d)) @ visible_after b (final_db acts d)"
      "\<forall>more. stream_loop a' (rounds_of (acts @ more) d) = stream_loop a' (rounds_of acts d) @ stream_loop b (rounds_of more (final_db acts d))"
      using Cons.IH [of d a'] Cons.prems by auto
    then show ?thesis using r by (auto simp: Round intro!: exI [of _ b])
  qed
next
  case Nil
  show ?case by (rule exI [of _ a]) simp
qed

lemma plain_wait: "plain (Round NoMessage)"
  by (simp add: plain_def)

lemma catch_up:
  "events_ordered d \<Longrightarrow> received_events (stream_loop a (rounds_of (replicate n (Round NoMessage)) d)) = take (50 * n) (visible_after a d)"
proof (induction n arbitrary: a)
  case (Suc n)
  obtain replies b where r: "stream_round NoMessage d a = Running replies b"
    "visible_after a d = received_events replies @ visible_after b d" "received_events replies = take 50 (visible_after a d)"
    using round_sends_next [OF Suc.prems Suc.prems append_Nil2 [symmetric] plain_wait, of a] by blast
  have "take (50 * Suc n) (visible_after a d) = take 50 (visible_after a d) @ take (50 * n) (drop 50 (visible_after a d))"
    unfolding mult_Suc_right by (rule take_add)
  also have "drop 50 (visible_after a d) = visible_after b d"
  proof -
    have "take 50 (visible_after a d) @ drop 50 (visible_after a d) = take 50 (visible_after a d) @ visible_after b d"
      unfolding append_take_drop_id using r(2) unfolding r(3) .
    then show ?thesis unfolding same_append_eq .
  qed
  finally have "take (50 * Suc n) (visible_after a d) = received_events replies @ take (50 * n) (visible_after b d)"
    unfolding r(3) .
  then show ?case using Suc.IH [OF Suc.prems, of b] r(1) by (simp only: replicate_Suc rounds_of.simps stream_loop.simps ws_end.case received_append)
qed simp

lemma max_event_id_below:
  assumes "events_ordered d"
  shows "\<forall>e \<in> set (rows (db_events d)). ev_id e \<le> get_max_event_id d" and "get_max_event_id d < next_id (db_events d)"
proof -
  let ?xs = "rows (db_events d)"
  have sorted: "sorted_wrt (<) (map ev_id ?xs)" using assms by (simp add: events_ordered_def)
  then have "sort_key ev_id ?xs = ?xs" by (simp add: sort_key_id_if_sorted strict_sorted_imp_sorted)
  then have max: "get_max_event_id d = (if ?xs = [] then 0 else ev_id (last ?xs))"
    by (cases ?xs rule: rev_cases) (simp_all add: get_max_event_id_def)
  show "\<forall>e \<in> set ?xs. ev_id e \<le> get_max_event_id d"
    using sorted by (cases ?xs rule: rev_cases) (auto simp: max sorted_wrt_append)
  show "get_max_event_id d < next_id (db_events d)"
    using assms by (cases ?xs rule: rev_cases) (auto simp: max events_ordered_def)
qed

section \<open>Properties\<close>

text \<open>
  C32: the stream is complete and in order.  Over any history of deliveries by the nodes and rounds of
  an accepted connection whose client does not move its position, what the client has received is a
  prefix of the events that arrived since it connected, internal ones left out, in the order of
  arrival and each once; and enough further rounds, one for every 50 events that are missing, deliver
  the rest.
\<close>

theorem stream_complete:
  assumes wf: "events_ordered d" and acts: "\<forall>a \<in> set acts. plain a"
    and token: "token \<noteq> []" "validate_session token d = Some uid" "uid \<noteq> 0"
  shows "\<exists>new replies rest. rows (db_events (final_db acts d)) = rows (db_events d) @ new \<and>
    stream_queries (Some token) d (rounds_of acts d) = Served (Connected (get_max_event_id d) # replies) \<and>
    map stream_event_of (filter (\<lambda>e. \<not> ev_is_internal e) new) = received_events replies @ rest \<and>
    (\<forall>n. length rest \<le> 50 * n \<longrightarrow>
      (\<exists>more. stream_queries (Some token) d (rounds_of (acts @ replicate n (Round NoMessage)) d) =
           Served (Connected (get_max_event_id d) # more) \<and>
         received_events more = map stream_event_of (filter (\<lambda>e. \<not> ev_is_internal e) new)))"
proof -
  let ?a = "get_max_event_id d" and ?d' = "final_db acts d"
  obtain new where ok: "events_ordered ?d'" and new: "rows (db_events ?d') = rows (db_events d) @ new"
    "\<forall>e \<in> set new. next_id (db_events d) \<le> ev_id e" using final_ordered [OF wf] by blast
  have "filter (newer ?a) (rows (db_events d)) = []"
    using max_event_id_below(1) [OF wf] by (force simp: filter_empty_conv newer_def)
  moreover have "filter (newer ?a) new = filter (\<lambda>e. \<not> ev_is_internal e) new"
    using new(2) max_event_id_below(2) [OF wf] by (auto simp: newer_def intro!: filter_cong)
  ultimately have vis: "visible_after ?a ?d' = map stream_event_of (filter (\<lambda>e. \<not> ev_is_internal e) new)"
    by (simp add: visible_after_def new(1))
  obtain b where b: "visible_after ?a ?d' = received_events (stream_loop ?a (rounds_of acts d)) @ visible_after b ?d'"
    "\<forall>more. stream_loop ?a (rounds_of (acts @ more) d) = stream_loop ?a (rounds_of acts d) @ stream_loop b (rounds_of more ?d')"
    using stream_prefix [OF wf acts] by blast
  have run: "stream_queries (Some token) d rounds = Served (Connected ?a # stream_loop ?a rounds)" for rounds
    using token by (simp add: stream_queries_def)
  have "received_events (stream_loop ?a (rounds_of (acts @ replicate n (Round NoMessage)) d)) = visible_after ?a ?d'"
    if "length (visible_after b ?d') \<le> 50 * n" for n
    using that b by (simp add: catch_up [OF ok])
  then have "\<forall>n. length (visible_after b ?d') \<le> 50 * n \<longrightarrow>
      (\<exists>more. stream_queries (Some token) d (rounds_of (acts @ replicate n (Round NoMessage)) d) = Served (Connected ?a # more) \<and>
         received_events more = visible_after ?a ?d')"
    by (simp only: run) simp
  then show ?thesis
    using new(1) run b(1) unfolding vis
    by (intro exI [of _ new] exI [of _ "stream_loop ?a (rounds_of acts d)"] exI [of _ "visible_after b ?d'"] conjI) assumption+
qed

definition stream_db :: db where
  "stream_db = sample_node_db\<lparr>db_users := \<lparr>rows = [\<lparr>u_id = 1, u_username = ''admin'', u_password_hash = []\<rparr>], next_id = 2\<rparr>\<rparr>"

theorem stream_complete_witness:
  "\<exists>n new more. rows (db_events (arrive 0 (Some ''k1'') [Some sample_event, None] stream_db)) = new \<and>
     stream_queries (Some ''1'') stream_db
       (rounds_of (Arrive 0 (Some ''k1'') [Some sample_event, None] # replicate n (Round NoMessage)) stream_db) =
       Served (Connected 0 # more) \<and>
     received_events more = map stream_event_of (filter (\<lambda>e. \<not> ev_is_internal e) new)"
proof -
  let ?acts = "[Arrive 0 (Some ''k1'') [Some sample_event, None]]"
  have empty: "rows (db_events stream_db) = []" by (simp add: stream_db_def sample_node_defs)
  have wf: "events_ordered stream_db" by (simp add: events_ordered_def stream_db_def sample_node_defs)
  have zero: "get_max_event_id stream_db = 0" by (simp add: get_max_event_id_def empty)
  have acts: "\<forall>a \<in> set ?acts. plain a" by (simp add: plain_def)
  have "py_int ''1'' = Some 1" by code_simp
  then have user: "validate_session ''1'' stream_db = Some 1"
    by (simp add: validate_session_def tbl_find_def stream_db_def)
  obtain new replies rest where main:
    "rows (db_events (final_db ?acts stream_db)) = rows (db_events stream_db) @ new \<and>
     stream_queries (Some ''1'') stream_db (rounds_of ?acts stream_db) = Served (Connected (get_max_event_id stream_db) # replies) \<and>
     map stream_event_of (filter (\<lambda>e. \<not> ev_is_internal e) new) = received_events replies @ rest \<and>
     (\<forall>n. length rest \<le> 50 * n \<longrightarrow>
      (\<exists>more. stream_queries (Some ''1'') stream_db (rounds_of (?acts @ replicate n (Round NoMessage)) stream_db) =
           Served (Connected (get_max_event_id stream_db) # more) \<and>
         received_events more = map stream_event_of (filter (\<lambda>e. \<not> ev_is_internal e) new)))"
    using stream_complete [OF wf acts list.distinct(2) user one_neq_zero] by (elim exE) (rule that)
  note new = main [THEN conjunct1] and all = main [THEN conjunct2, THEN conjunct2, THEN conjunct2]
  have "length rest \<le> 50 * length rest" by simp
  with all obtain more where "stream_queries (Some ''1'') stream_db (rounds_of (?acts @ replicate (length rest) (Round NoMessage)) stream_db) =
           Served (Connected 0 # more)" "received_events more = map stream_event_of (filter (\<lambda>e. \<not> ev_is_internal e) new)"
    unfolding zero by (elim allE impE exE conjE) assumption+
  then show ?thesis using new
    by (intro exI [of _ "length rest"] exI [of _ new] exI [of _ more]) (simp only: empty append_Nil append_Cons final_db.simps simp_thms)
qed

end
