(* ===== verification/System_Health.thy ===== *)
theory System_Health
  imports Rollups Node_Lifecycle
begin

text \<open>
  The health page (\<open>admin-ui/app/routers/system.py\<close>): thresholds from the settings, and the warnings
  computed from the latest metrics of every active node.  Rates are rationals, printed to one decimal.
\<close>

record health_warning =
  hw_severity :: string
  hw_title :: string
  hw_message :: string
  hw_remediation :: string
  hw_node_name :: "string option"

record health_thresholds =
  ht_cache_hit_warning :: rat
  ht_cache_hit_critical :: rat
  ht_servfail_warning :: rat
  ht_timeout_warning :: rat
  ht_slow_warning :: rat
  ht_stale_minutes :: int

definition default_thresholds :: health_thresholds where
  "default_thresholds =
     \<lparr>ht_cache_hit_warning = 50, ht_cache_hit_critical = 20, ht_servfail_warning = 5, ht_timeout_warning = 2,
      ht_slow_warning = 10, ht_stale_minutes = 5\<rparr>"

text \<open>The settings are read one after the other; one that is no number raises.\<close>

definition load_health_thresholds :: "db \<Rightarrow> health_thresholds py_result" where
  "load_health_thresholds d =
     (case get_health_cache_hit_warning d of Inl e \<Rightarrow> Inl e | Inr a \<Rightarrow>
      (case get_health_cache_hit_critical d of Inl e \<Rightarrow> Inl e | Inr b \<Rightarrow>
       (case get_health_servfail_warning d of Inl e \<Rightarrow> Inl e | Inr c \<Rightarrow>
        (case get_health_timeout_warning d of Inl e \<Rightarrow> Inl e | Inr t \<Rightarrow>
         (case get_health_slow_warning d of Inl e \<Rightarrow> Inl e | Inr s \<Rightarrow>
          (case get_health_stale_minutes d of Inl e \<Rightarrow> Inl e | Inr m \<Rightarrow>
             Inr \<lparr>ht_cache_hit_warning = a, ht_cache_hit_critical = b, ht_servfail_warning = c, ht_timeout_warning = t,
                  ht_slow_warning = s, ht_stale_minutes = m\<rparr>))))))"

text \<open>\<open>f"{x:.1f}"\<close> for a number that is not negative.\<close>

definition show_fixed1 :: "rat \<Rightarrow> string" where
  "show_fixed1 x = (let n = round_half_even (x * 10) in show_int (n div 10) @ ''.'' @ show_int (n mod 10))"

definition percent :: "int \<Rightarrow> int \<Rightarrow> rat" where
  "percent a b = of_int a / of_int b * 100"

definition age_minutes :: "int \<Rightarrow> int" where
  "age_minutes age = age div minutes 1"

definition no_nodes_warning :: health_warning where
  "no_nodes_warning =
     \<lparr>hw_severity = ''warning'', hw_title = ''No active nodes'',
      hw_message = ''No DNS resolver nodes are currently registered.'',
      hw_remediation = ''Add a secondary node via the Nodes page, or check if the primary node has registered itself correctly.'',
      hw_node_name = None\<rparr>"

definition no_metrics_warning :: "node \<Rightarrow> health_warning" where
  "no_metrics_warning n =
     \<lparr>hw_severity = ''warning'', hw_title = ''No metrics data'',
      hw_message = ''Node '' @ [CHR 0x27] @ n_name n @ [CHR 0x27] @ '' has not reported any metrics yet.'',
      hw_remediation = ''Check that the sync-agent is running on this node and can reach the primary API. Verify RECURSOR_API_URL is correct.'',
      hw_node_name = Some (n_name n)\<rparr>"

definition heartbeat_warnings :: "instant \<Rightarrow> health_thresholds \<Rightarrow> node \<Rightarrow> health_warning list" where
  "heartbeat_warnings now t n =
     (case n_last_seen n of
        None \<Rightarrow> []
      | Some last_seen \<Rightarrow>
          (let heartbeat_age = now - dt_instant last_seen
           in if minutes (ht_stale_minutes t) < heartbeat_age
              then [\<lparr>hw_severity = ''warning'', hw_title = ''Stale node heartbeat'',
                     hw_message = ''Node '' @ [CHR 0x27] @ n_name n @ [CHR 0x27] @ '' last checked in '' @
                       show_int (age_minutes heartbeat_age) @ '' minutes ago.'',
                     hw_remediation = ''Check that the sync-agent is running on this node and can reach the primary API. Verify network connectivity.'',
                     hw_node_name = Some (n_name n)\<rparr>]
              else []))"

definition metrics_age_warnings :: "instant \<Rightarrow> health_thresholds \<Rightarrow> node \<Rightarrow> node_metrics \<Rightarrow> health_warning list" where
  "metrics_age_warnings now t n m =
     (let metrics_age = now - nm_ts m
      in if minutes (ht_stale_minutes t) < metrics_age
         then [\<lparr>hw_severity = ''warning'', hw_title = ''Stale metrics'',
                hw_message = ''Last metrics from '' @ [CHR 0x27] @ n_name n @ [CHR 0x27] @ '' were '' @
                  show_int (age_minutes metrics_age) @ '' minutes ago.'',
                hw_remediation = ''Check that the sync-agent is running. Look for network connectivity issues between this node and the primary.'',
                hw_node_name = Some (n_name n)\<rparr>]
         else [])"

definition cache_warnings :: "health_thresholds \<Rightarrow> node \<Rightarrow> node_metrics \<Rightarrow> health_warning list" where
  "cache_warnings t n m =
     (let total_queries = nm_cache_hits m + nm_cache_misses m;
          hit_rate = percent (nm_cache_hits m) total_queries
      in if 100 < total_queries then
           (if hit_rate < ht_cache_hit_critical t
            then [\<lparr>hw_severity = ''critical'', hw_title = ''Very low cache hit rate'',
                   hw_message = ''Cache hit rate on '' @ [CHR 0x27] @ n_name n @ [CHR 0x27] @ '' is only '' @ show_fixed1 hit_rate @ ''%.'',
                   hw_remediation = ''This could indicate: (1) Recursor just restarted and cache is warming up, (2) Cache size too small - increase '' @
                     [CHR 0x27] @ ''max-cache-entries'' @ [CHR 0x27] @ '' in recursor config, (3) Unusually diverse query patterns.'',
                   hw_node_name = Some (n_name n)\<rparr>]
            else if hit_rate < ht_cache_hit_warning t
            then [\<lparr>hw_severity = ''warning'', hw_title = ''Low cache hit rate'',
                   hw_message = ''Cache hit rate on '' @ [CHR 0x27] @ n_name n @ [CHR 0x27] @ '' is '' @ show_fixed1 hit_rate @ ''%.'',
                   hw_remediation = ''Consider using the Precache feature to warm the cache with frequently queried domains. Check if cache size is adequate.'',
                   hw_node_name = Some (n_name n)\<rparr>]
            else [])
         else [])"

definition servfail_warnings :: "health_thresholds \<Rightarrow> node \<Rightarrow> node_metrics \<Rightarrow> health_warning list" where
  "servfail_warnings t n m =
     (let servfail_rate = percent (nm_servfail_answers m) (nm_questions m)
      in if 100 < nm_questions m \<and> ht_servfail_warning t < servfail_rate
         then [\<lparr>hw_severity = ''warning'', hw_title = ''High SERVFAIL rate'',
                hw_message = ''SERVFAIL rate on '' @ [CHR 0x27] @ n_name n @ [CHR 0x27] @ '' is '' @ show_fixed1 servfail_rate @ ''%.'',
                hw_remediation = ''Check upstream DNS servers. Some domains may have broken DNSSEC or misconfigured nameservers. Review the Failures page for specific failing domains.'',
                hw_node_name = Some (n_name n)\<rparr>]
         else [])"

definition timeout_warnings :: "health_thresholds \<Rightarrow> node \<Rightarrow> node_metrics \<Rightarrow> health_warning list" where
  "timeout_warnings t n m =
     (let timeout_rate = percent (nm_outgoing_timeouts m) (nm_all_outqueries m)
      in if 100 < nm_all_outqueries m \<and> ht_timeout_warning t < timeout_rate
         then [\<lparr>hw_severity = ''warning'', hw_title = ''High timeout rate'',
                hw_message = ''Upstream timeout rate on '' @ [CHR 0x27] @ n_name n @ [CHR 0x27] @ '' is '' @ show_fixed1 timeout_rate @ ''%.'',
                hw_remediation = ''Check network connectivity to upstream DNS servers. Consider adding backup upstream servers in Forward Zones, or check firewall rules that might be blocking outbound DNS.'',
                hw_node_name = Some (n_name n)\<rparr>]
         else [])"

definition total_answers :: "node_metrics \<Rightarrow> int" where
  "total_answers m =
     nm_answers_0_1 m + nm_answers_1_10 m + nm_answers_10_100 m + nm_answers_100_1000 m + nm_answers_slow m"

definition slow_warnings :: "health_thresholds \<Rightarrow> node \<Rightarrow> node_metrics \<Rightarrow> health_warning list" where
  "slow_warnings t n m =
     (let slow_rate = percent (nm_answers_slow m) (total_answers m)
      in if 100 < total_answers m \<and> ht_slow_warning t < slow_rate
         then [\<lparr>hw_severity = ''info'', hw_title = ''Many slow queries'',
                hw_message = show_fixed1 slow_rate @ ''% of answers on '' @ [CHR 0x27] @ n_name n @ [CHR 0x27] @ '' took >1 second.'',
                hw_remediation = ''This may be normal during cache warmup. Consider enabling Precache for popular domains. Check if upstream servers are responsive.'',
                hw_node_name = Some (n_name n)\<rparr>]
         else [])"

definition node_warnings :: "instant \<Rightarrow> health_thresholds \<Rightarrow> node \<times> node_metrics option \<Rightarrow> health_warning list" where
  "node_warnings now t item =
     (case item of (n, latest) \<Rightarrow>
        (case latest of
           None \<Rightarrow> [no_metrics_warning n]
         | Some m \<Rightarrow>
             heartbeat_warnings now t n @ metrics_age_warnings now t n m @ cache_warnings t n m @ servfail_warnings t n m @
             timeout_warnings t n m @ slow_warnings t n m))"

definition compute_health_warnings ::
  "instant \<Rightarrow> (node \<times> node_metrics option) list \<Rightarrow> health_thresholds option \<Rightarrow> health_warning list" where
  "compute_health_warnings now node_data thresholds =
     (let t = (case thresholds of None \<Rightarrow> default_thresholds | Some t \<Rightarrow> t)
      in if node_data = [] then [no_nodes_warning] else concat (map (node_warnings now t) node_data))"

text \<open>Of rows with the same time the first stands for the one the database returns.\<close>

definition latest_metrics :: "db \<Rightarrow> int \<Rightarrow> node_metrics option" where
  "latest_metrics d node_id =
     (case sort_key (\<lambda>m. - nm_ts m) (tbl_select (\<lambda>m. nm_node_id m = node_id) (db_node_metrics d)) of
        [] \<Rightarrow> None
      | m # _ \<Rightarrow> Some m)"

definition health_node_data :: "db \<Rightarrow> (node \<times> node_metrics option) list" where
  "health_node_data d = map (\<lambda>n. (n, latest_metrics d (n_id n))) (tbl_select (\<lambda>n. n_status n = ACTIVE) (db_nodes d))"

text \<open>Nothing is the redirection to the login page.\<close>

definition system_health ::
  "instant \<Rightarrow> int option \<Rightarrow> db \<Rightarrow> ((node \<times> node_metrics option) list \<times> health_warning list) option py_result" where
  "system_health now sid d =
     (case get_current_user sid d of
        None \<Rightarrow> Inr None
      | Some u \<Rightarrow>
          (case load_health_thresholds d of
             Inl e \<Rightarrow> Inl e
           | Inr t \<Rightarrow> Inr (Some (health_node_data d, compute_health_warnings now (health_node_data d) (Some t)))))"

section \<open>When the page is silent\<close>

definition seen_recently :: "instant \<Rightarrow> health_thresholds \<Rightarrow> node \<Rightarrow> bool" where
  "seen_recently now t n \<longleftrightarrow> (\<forall>ls. n_last_seen n = Some ls \<longrightarrow> now - dt_instant ls \<le> minutes (ht_stale_minutes t))"

definition rates_fine :: "health_thresholds \<Rightarrow> node_metrics \<Rightarrow> bool" where
  "rates_fine t m \<longleftrightarrow>
     (100 < nm_cache_hits m + nm_cache_misses m \<longrightarrow>
        max (ht_cache_hit_critical t) (ht_cache_hit_warning t) \<le> percent (nm_cache_hits m) (nm_cache_hits m + nm_cache_misses m)) \<and>
     (100 < nm_questions m \<longrightarrow> percent (nm_servfail_answers m) (nm_questions m) \<le> ht_servfail_warning t) \<and>
     (100 < nm_all_outqueries m \<longrightarrow> percent (nm_outgoing_timeouts m) (nm_all_outqueries m) \<le> ht_timeout_warning t) \<and>
     (100 < total_answers m \<longrightarrow> percent (nm_answers_slow m) (total_answers m) \<le> ht_slow_warning t)"

definition healthy :: "instant \<Rightarrow> health_thresholds \<Rightarrow> node \<Rightarrow> node_metrics option \<Rightarrow> bool" where
  "healthy now t n latest \<longleftrightarrow>
     (\<exists>m. latest = Some m \<and> seen_recently now t n \<and> now - nm_ts m \<le> minutes (ht_stale_minutes t) \<and> rates_fine t m)"

lemma warning_parts_Nil:
  "heartbeat_warnings now t n = [] \<longleftrightarrow> seen_recently now t n"
  "metrics_age_warnings now t n m = [] \<longleftrightarrow> now - nm_ts m \<le> minutes (ht_stale_minutes t)"
  "cache_warnings t n m = [] \<longleftrightarrow> (100 < nm_cache_hits m + nm_cache_misses m \<longrightarrow>
     max (ht_cache_hit_critical t) (ht_cache_hit_warning t) \<le> percent (nm_cache_hits m) (nm_cache_hits m + nm_cache_misses m))"
  "servfail_warnings t n m = [] \<longleftrightarrow> (100 < nm_questions m \<longrightarrow> percent (nm_servfail_answers m) (nm_questions m) \<le> ht_servfail_warning t)"
  "timeout_warnings t n m = [] \<longleftrightarrow> (100 < nm_all_outqueries m \<longrightarrow> percent (nm_outgoing_timeouts m) (nm_all_outqueries m) \<le> ht_timeout_warning t)"
  "slow_warnings t n m = [] \<longleftrightarrow> (100 < total_answers m \<longrightarrow> percent (nm_answers_slow m) (total_answers m) \<le> ht_slow_warning t)"
  by (auto simp: heartbeat_warnings_def metrics_age_warnings_def cache_warnings_def servfail_warnings_def timeout_warnings_def
      slow_warnings_def seen_recently_def Let_def split: option.split)

lemma node_warnings_Nil: "node_warnings now t (n, latest) = [] \<longleftrightarrow> healthy now t n latest"
  by (cases latest) (simp_all add: node_warnings_def healthy_def rates_fine_def warning_parts_Nil)

lemma warning_severities:
  "hw_severity (no_metrics_warning n) = ''warning''"
  "w \<in> set (heartbeat_warnings now t n) \<Longrightarrow> hw_severity w = ''warning''"
  "w \<in> set (metrics_age_warnings now t n m) \<Longrightarrow> hw_severity w = ''warning''"
  "w \<in> set (servfail_warnings t n m) \<Longrightarrow> hw_severity w = ''warning''"
  "w \<in> set (timeout_warnings t n m) \<Longrightarrow> hw_severity w = ''warning''"
  "w \<in> set (slow_warnings t n m) \<Longrightarrow> hw_severity w = ''info''"
  "(\<exists>w \<in> set (cache_warnings t n m). hw_severity w = ''critical'') \<longleftrightarrow>
     100 < nm_cache_hits m + nm_cache_misses m \<and> percent (nm_cache_hits m) (nm_cache_hits m + nm_cache_misses m) < ht_cache_hit_critical t"
  by (auto simp: no_metrics_warning_def heartbeat_warnings_def metrics_age_warnings_def servfail_warnings_def timeout_warnings_def
      slow_warnings_def cache_warnings_def Let_def split: option.splits if_splits)

lemma node_critical:
  "(\<exists>w \<in> set (node_warnings now t (n, latest)). hw_severity w = ''critical'') \<longleftrightarrow>
   (\<exists>m. latest = Some m \<and> 100 < nm_cache_hits m + nm_cache_misses m \<and>
      percent (nm_cache_hits m) (nm_cache_hits m + nm_cache_misses m) < ht_cache_hit_critical t)"
proof (cases latest)
  case None
  then show ?thesis by (simp add: node_warnings_def warning_severities(1))
next
  case (Some m)
  have "\<exists>w \<in> set (cache_warnings t n m). hw_severity w = ''critical''"
    if "w \<in> set (node_warnings now t (n, latest))" "hw_severity w = ''critical''" for w
    using that warning_severities(2-6) [of w] by (fastforce simp: node_warnings_def Some)
  then show ?thesis
    unfolding Some using warning_severities(7) [of t n m] by (auto simp: node_warnings_def Some)
qed

section \<open>Properties\<close>

text \<open>
  C33: the health page is silent exactly when all is well.  There are no warnings if and only if some
  node is active and every active node has reported metrics, was seen and has reported within the
  threshold, and all its rates with more than 100 samples are within theirs; and there is a critical
  warning if and only if the cache hit rate of some active node is below the critical threshold.
\<close>

theorem health_page_silent_iff_healthy:
  assumes "get_current_user sid d = Some u" and "load_health_thresholds d = Inr t"
    and "act = filter (\<lambda>n. n_status n = ACTIVE) (rows (db_nodes d))"
  shows "\<exists>data ws. system_health now sid d = Inr (Some (data, ws)) \<and>
    (ws = [] \<longleftrightarrow> act \<noteq> [] \<and> (\<forall>n \<in> set act. healthy now t n (latest_metrics d (n_id n)))) \<and>
    ((\<exists>w \<in> set ws. hw_severity w = ''critical'') \<longleftrightarrow>
       (\<exists>n \<in> set act. \<exists>m. latest_metrics d (n_id n) = Some m \<and> 100 < nm_cache_hits m + nm_cache_misses m \<and>
          percent (nm_cache_hits m) (nm_cache_hits m + nm_cache_misses m) < ht_cache_hit_critical t))"
proof -
  have data: "health_node_data d = map (\<lambda>n. (n, latest_metrics d (n_id n))) act"
    by (simp add: health_node_data_def tbl_select_def assms(3))
  have ws: "compute_health_warnings now (health_node_data d) (Some t) =
      (if act = [] then [no_nodes_warning] else concat (map (\<lambda>n. node_warnings now t (n, latest_metrics d (n_id n))) act))"
    by (simp add: compute_health_warnings_def data comp_def)
  have "compute_health_warnings now (health_node_data d) (Some t) = [] \<longleftrightarrow>
      act \<noteq> [] \<and> (\<forall>n \<in> set act. healthy now t n (latest_metrics d (n_id n)))"
    unfolding ws by (simp add: node_warnings_Nil)
  moreover have "(\<exists>w \<in> set (compute_health_warnings now (health_node_data d) (Some t)). hw_severity w = ''critical'') \<longleftrightarrow>
      (\<exists>n \<in> set act. \<exists>w \<in> set (node_warnings now t (n, latest_metrics d (n_id n))). hw_severity w = ''critical'')"
    unfolding ws by (simp add: no_nodes_warning_def)
  ultimately show ?thesis
    unfolding node_critical using assms(1,2) by (simp add: system_health_def)
qed

definition health_db :: db where
  "health_db = booted_db\<lparr>
     db_users := \<lparr>rows = [\<lparr>u_id = 1, u_username = ''admin'', u_password_hash = []\<rparr>], next_id = 2\<rparr>,
     db_node_metrics := \<lparr>rows = [\<lparr>nm_id = 1, nm_node_id = 1, nm_ts = 0, nm_cache_hits = 90, nm_cache_misses = 60, nm_cache_entries = 0,
       nm_packetcache_hits = 0, nm_packetcache_misses = 0, nm_answers_0_1 = 0, nm_answers_1_10 = 0, nm_answers_10_100 = 0,
       nm_answers_100_1000 = 0, nm_answers_slow = 0, nm_concurrent_queries = 0, nm_outgoing_timeouts = 0, nm_servfail_answers = 0,
       nm_nxdomain_answers = 0, nm_questions = 0, nm_all_outqueries = 0, nm_uptime_seconds = 0\<rparr>], next_id = 2\<rparr>\<rparr>"

theorem health_page_silent_iff_healthy_witness:
  "\<exists>data. system_health (minutes 5) (Some 1) health_db = Inr (Some (data, []))"
proof -
  let ?act = "filter (\<lambda>n. n_status n = ACTIVE) (rows (db_nodes health_db))"
  have user: "get_current_user (Some 1) health_db = Some \<lparr>u_id = 1, u_username = ''admin'', u_password_hash = []\<rparr>"
    by (simp add: get_current_user_def health_db_def tbl_find_def)
  have loaded: "load_health_thresholds health_db = Inr default_thresholds" by code_simp
  obtain data ws where page: "system_health (minutes 5) (Some 1) health_db = Inr (Some (data, ws))"
    and silent: "ws = [] \<longleftrightarrow> ?act \<noteq> [] \<and> (\<forall>n \<in> set ?act. healthy (minutes 5) default_thresholds n (latest_metrics health_db (n_id n)))"
    using health_page_silent_iff_healthy [OF user loaded refl, of "minutes 5"] by (elim exE conjE) (rule that)
  have "?act \<noteq> [] \<and> (\<forall>n \<in> set ?act. healthy (minutes 5) default_thresholds n (latest_metrics health_db (n_id n)))"
    by (simp add: health_db_def booted_db_def new_node_def latest_metrics_def tbl_select_def healthy_def seen_recently_def
        rates_fine_def default_thresholds_def percent_def total_answers_def)
  then have "ws = []" unfolding silent .
  then show ?thesis using page by (intro exI [of _ data]) simp
qed

text \<open>
  The warning about a stale heartbeat cannot appear once the ageing job has run: the job takes the
  node out of the active state at the same threshold, and the page only looks at active nodes.
\<close>

theorem stale_heartbeat_hidden_after_ageing:
  assumes "d = node_state_transitions_job now d0" and "get_health_stale_minutes d0 = Inr s" "get_health_offline_minutes d0 = Inr f"
    and "load_health_thresholds d = Inr t" and "n \<in> set (rows (db_nodes d))" "n_status n = ACTIVE"
  shows "heartbeat_warnings now t n = []"
proof -
  have nodes: "rows (db_nodes d) = map (\<lambda>n. n\<lparr>n_status := aged s f now n\<rparr>) (rows (db_nodes d0))"
    unfolding assms(1) using transitions_nodes [OF assms(2,3), of now] by simp
  have "get_health_stale_minutes d = get_health_stale_minutes d0"
    unfolding assms(1) using transitions_only_nodes [of now d0]
    by (auto simp: get_health_stale_minutes_def int_setting_def setting_or_def get_setting_def)
  then have "ht_stale_minutes t = s"
    using assms(2,4) by (auto simp: load_health_thresholds_def split: sum.splits)
  moreover obtain n0 where "n = n0\<lparr>n_status := aged s f now n0\<rparr>" using assms(5) by (auto simp: nodes)
  ultimately show ?thesis
    using assms(6) by (auto simp: warning_parts_Nil seen_recently_def aged_def seen_before_def split: if_splits)
qed

end
