(* ===== verification/Analytics.thy ===== *)
theory Analytics
  imports System_Health "HOL-Library.Product_Lexorder"
begin

text \<open>
  The start page, the query log and the charts (\<open>admin-ui/app/routers/analytics.py\<close>): filtering,
  grouping and paging of query events, and the time series of the history chart.  Printing a time in
  the user's zone is the parameter \<open>local_text\<close>, a format and a point in time to text; the database
  compares text by its bytes and works in UTC.
\<close>

section \<open>Names and filters\<close>

definition DEFAULT_PAGE_SIZE :: nat where
  "DEFAULT_PAGE_SIZE = 25"

definition QTYPE_NAMES :: "(int \<times> string) list" where
  "QTYPE_NAMES = [(1, ''A''), (2, ''NS''), (5, ''CNAME''), (6, ''SOA''), (12, ''PTR''), (15, ''MX''), (16, ''TXT''),
     (28, ''AAAA''), (33, ''SRV''), (65, ''HTTPS'')]"

definition RCODE_NAMES :: "(int \<times> string) list" where
  "RCODE_NAMES = [(0, ''NOERROR''), (1, ''FORMERR''), (2, ''SERVFAIL''), (3, ''NXDOMAIN''), (4, ''NOTIMP''), (5, ''REFUSED'')]"

definition name_of :: "(int \<times> string) list \<Rightarrow> int \<Rightarrow> string" where
  "name_of names k = (case map_of names k of None \<Rightarrow> show_int k | Some s \<Rightarrow> s)"

definition code_of :: "(int \<times> string) list \<Rightarrow> string \<Rightarrow> int option" where
  "code_of names s = map_option fst (find (\<lambda>(k, v). v = s) names)"

datatype time_window = W1h | W6h | W12h | W24h | W3d | W7d

fun WINDOW_HOURS :: "time_window \<Rightarrow> int" where
  "WINDOW_HOURS W1h = 1"
| "WINDOW_HOURS W6h = 6"
| "WINDOW_HOURS W12h = 12"
| "WINDOW_HOURS W24h = 24"
| "WINDOW_HOURS W3d = 72"
| "WINDOW_HOURS W7d = 168"

definition resolve_user_timezone :: "(string \<Rightarrow> bool) \<Rightarrow> db \<Rightarrow> string" where
  "resolve_user_timezone available d = (if available (get_timezone d) then get_timezone d else ''UTC'')"

definition exclude_internal :: "bool \<Rightarrow> dns_query_event \<Rightarrow> bool" where
  "exclude_internal include_internal e \<longleftrightarrow> include_internal \<or> \<not> ev_is_internal e"

text \<open>SQL's \<open>LIKE\<close>: a percent sign is any text, an underscore one character, a backslash escapes.\<close>

fun like :: "string \<Rightarrow> string \<Rightarrow> bool" where
  "like [] s = (s = [])"
| "like [c] s =
     (if c = CHR ''%'' then True
      else if c = CHR ''_'' then length s = 1
      else s = [c])"
| "like (c # c2 # p) [] = (c = CHR ''%'' \<and> like (c2 # p) [])"
| "like (c # c2 # p) (x # s) =
     (if c = CHR ''%'' then like (c2 # p) (x # s) \<or> like (c # c2 # p) s
      else if c = CHR ''_'' then like (c2 # p) s
      else if c = CHR 0x5C then c2 = x \<and> like p s
      else c = x \<and> like (c2 # p) s)"

definition ilike :: "string \<Rightarrow> string \<Rightarrow> bool" where
  "ilike pattern s = like (lower pattern) (lower s)"

section \<open>Options of the drop-down lists\<close>

definition client_label :: "string option \<Rightarrow> string option \<Rightarrow> string \<Rightarrow> string" where
  "client_label display_name rdns_name ip =
     (if truthy display_name then the display_name else if truthy rdns_name then the rdns_name else ip)"

text \<open>Nulls come last in an ascending order.\<close>

definition null_key :: "string option \<Rightarrow> bool \<times> string" where
  "null_key v = (case v of None \<Rightarrow> (True, []) | Some s \<Rightarrow> (False, s))"

definition get_client_options :: "db \<Rightarrow> bool \<Rightarrow> (string \<times> string option \<times> string option) list" where
  "get_client_options d include_internal =
     sort_key (\<lambda>(ip, dn, rn). (null_key dn, null_key rn, ip))
       (fromkeys (map (\<lambda>c. (c_ip c, c_display_name c, c_rdns_name c))
         (tbl_select (\<lambda>c. include_internal \<or>
            (\<exists>e \<in> set (rows (db_events d)). ev_client_id e = Some (c_id c) \<and> \<not> ev_is_internal e)) (db_clients d))))"

definition client_options :: "db \<Rightarrow> bool \<Rightarrow> (string \<times> string) list" where
  "client_options d include_internal = map (\<lambda>(ip, dn, rn). (ip, client_label dn rn ip)) (get_client_options d include_internal)"

definition blocklist_options :: "db \<Rightarrow> bool \<Rightarrow> string list" where
  "blocklist_options d include_internal =
     filter (\<lambda>b. b \<noteq> []) (sort (fromkeys (List.map_filter ev_blocklist_name
       (tbl_select (exclude_internal include_internal) (db_events d)))))"

definition get_client_labels :: "db \<Rightarrow> string list \<Rightarrow> (string \<times> string) list" where
  "get_client_labels d client_ips =
     map (\<lambda>c. (c_ip c, client_label (c_display_name c) (c_rdns_name c) (c_ip c)))
       (tbl_select (\<lambda>c. c_ip c \<in> set client_ips) (db_clients d))"

section \<open>The query log\<close>

record log_params =
  lq_page :: nat
  lq_q :: "string option"
  lq_client :: "string option"
  lq_window :: time_window
  lq_rcode :: "string option"
  lq_qtype :: "string option"
  lq_blocked :: "string option"
  lq_blocklist :: "string option"
  lq_view :: string
  lq_top_filter :: string
  lq_include_internal :: bool

definition in_window :: "instant \<Rightarrow> log_params \<Rightarrow> dns_query_event \<Rightarrow> bool" where
  "in_window now p e \<longleftrightarrow> now - hours (WINDOW_HOURS (lq_window p)) \<le> ev_ts e \<and> exclude_internal (lq_include_internal p) e"

text \<open>What a filter that is not given, or names no known code, lets pass is everything.\<close>

definition named_like :: "log_params \<Rightarrow> dns_query_event \<Rightarrow> bool" where
  "named_like p e \<longleftrightarrow> (truthy (lq_q p) \<longrightarrow> ilike (''%'' @ the (lq_q p) @ ''%'') (ev_qname e))"

definition from_client :: "log_params \<Rightarrow> dns_query_event \<Rightarrow> bool" where
  "from_client p e \<longleftrightarrow> (truthy (lq_client p) \<longrightarrow> ev_client_ip e = the (lq_client p))"

definition on_blocklist :: "log_params \<Rightarrow> dns_query_event \<Rightarrow> bool" where
  "on_blocklist p e \<longleftrightarrow> (truthy (lq_blocklist p) \<longrightarrow> ev_blocklist_name e = lq_blocklist p)"

definition top_matches :: "instant \<Rightarrow> log_params \<Rightarrow> dns_query_event \<Rightarrow> bool" where
  "top_matches now p e \<longleftrightarrow>
     in_window now p e \<and> named_like p e \<and> from_client p e \<and> on_blocklist p e \<and>
     (if lq_top_filter p = ''blocked'' then ev_blocked e
      else lq_top_filter p = ''allowed'' \<longrightarrow> \<not> ev_blocked e)"

definition code_matches :: "(int \<times> string) list \<Rightarrow> string option \<Rightarrow> int \<Rightarrow> bool" where
  "code_matches names chosen k \<longleftrightarrow> (truthy chosen \<longrightarrow> (case code_of names (the chosen) of None \<Rightarrow> True | Some v \<Rightarrow> k = v))"

definition log_matches :: "instant \<Rightarrow> log_params \<Rightarrow> dns_query_event \<Rightarrow> bool" where
  "log_matches now p e =
     (let blocked = (if lq_view p = ''blocked'' then Some ''yes'' else lq_blocked p);
          rcode = (if lq_view p = ''failures'' then None else lq_rcode p)
      in in_window now p e \<and>
         (lq_view p = ''failures'' \<longrightarrow> ev_rcode e \<in> {2, 3} \<and> \<not> ev_blocked e) \<and>
         named_like p e \<and> from_client p e \<and>
         code_matches RCODE_NAMES rcode (ev_rcode e) \<and> code_matches QTYPE_NAMES (lq_qtype p) (ev_qtype e) \<and>
         (if blocked = Some ''yes'' then ev_blocked e else blocked = Some ''no'' \<longrightarrow> \<not> ev_blocked e) \<and>
         on_blocklist p e)"

text \<open>\<open>GROUP BY qname ORDER BY count(*) DESC\<close> with the number of blocked queries.\<close>

definition domain_counts :: "dns_query_event list \<Rightarrow> (string \<times> int \<times> int) list" where
  "domain_counts es =
     sort_key (\<lambda>(q, n, b). - n)
       (map (\<lambda>q. (q, int (length (filter (\<lambda>e. ev_qname e = q) es)),
            int (length (filter (\<lambda>e. ev_qname e = q \<and> ev_blocked e) es)))) (fromkeys (map ev_qname es)))"

definition page_of :: "nat \<Rightarrow> 'a list \<Rightarrow> 'a list" where
  "page_of n xs = take DEFAULT_PAGE_SIZE (drop ((n - 1) * DEFAULT_PAGE_SIZE) xs)"

definition page_count :: "nat \<Rightarrow> nat" where
  "page_count n = (n + DEFAULT_PAGE_SIZE - 1) div DEFAULT_PAGE_SIZE"

record log_row =
  lr_ts :: string
  lr_client_ip :: string
  lr_client_label :: string
  lr_qname :: string
  lr_qtype :: string
  lr_rcode :: string
  lr_latency_ms :: "int option"
  lr_blocked :: bool
  lr_node_name :: string

definition log_row_of :: "(string \<Rightarrow> instant \<Rightarrow> string) \<Rightarrow> db \<Rightarrow> (string \<times> string) list \<Rightarrow> dns_query_event \<Rightarrow> log_row" where
  "log_row_of local_text d labels e =
     \<lparr>lr_ts = local_text ''%Y-%m-%d %H:%M:%S'' (ev_ts e), lr_client_ip = ev_client_ip e,
      lr_client_label = (case map_of labels (ev_client_ip e) of None \<Rightarrow> ev_client_ip e | Some l \<Rightarrow> l),
      lr_qname = ev_qname e, lr_qtype = name_of QTYPE_NAMES (ev_qtype e), lr_rcode = name_of RCODE_NAMES (ev_rcode e),
      lr_latency_ms = ev_latency_ms e, lr_blocked = ev_blocked e,
      lr_node_name = (case tbl_find (\<lambda>n. Some (n_id n) = ev_node_id e) (db_nodes d) of None \<Rightarrow> ''Unknown'' | Some n \<Rightarrow> n_name n)\<rparr>"

datatype logs_result =
    LogsLogin
  | TopDomains "(string \<times> int \<times> int) list" nat nat "(string \<times> string) list" "string list"
  | LogEvents "log_row list" nat nat "(string \<times> string) list" "string list"

text \<open>Both views carry their rows, the total, the number of pages and the options.\<close>

definition logs_page :: "(string \<Rightarrow> instant \<Rightarrow> string) \<Rightarrow> instant \<Rightarrow> int option \<Rightarrow> log_params \<Rightarrow> db \<Rightarrow> logs_result" where
  "logs_page local_text now sid p d =
     (case get_current_user sid d of
        None \<Rightarrow> LogsLogin
      | Some u \<Rightarrow>
          if lq_view p = ''top'' then
            (let groups = domain_counts (tbl_select (top_matches now p) (db_events d))
             in TopDomains (page_of (lq_page p) groups) (length groups) (page_count (length groups))
                  (client_options d (lq_include_internal p)) (blocklist_options d (lq_include_internal p)))
          else
            (let found = tbl_select (log_matches now p) (db_events d);
                 events_raw = page_of (lq_page p) (sort_key (\<lambda>e. - ev_ts e) found);
                 labels = get_client_labels d (map ev_client_ip events_raw)
             in LogEvents (map (log_row_of local_text d labels) events_raw) (length found) (page_count (length found))
                  (client_options d (lq_include_internal p)) (blocklist_options d (lq_include_internal p))))"

definition domains_page :: "instant \<Rightarrow> int option \<Rightarrow> nat \<Rightarrow> bool \<Rightarrow> db \<Rightarrow> (string \<times> int \<times> int) list option" where
  "domains_page now sid page include_internal d =
     (case get_current_user sid d of
        None \<Rightarrow> None
      | Some u \<Rightarrow>
          Some (page_of page (domain_counts
            (tbl_select (\<lambda>e. now - hours 24 \<le> ev_ts e \<and> exclude_internal include_internal e) (db_events d)))))"

definition view_redirect :: "string \<Rightarrow> int option \<Rightarrow> bool \<Rightarrow> db \<Rightarrow> response" where
  "view_redirect view sid include_internal d =
     (case get_current_user sid d of
        None \<Rightarrow> RedirectResponse ''/login''
      | Some u \<Rightarrow> RedirectResponse (''/logs?view='' @ view @ (if include_internal then ''&include_internal=1'' else [])))"

definition blocked_page :: "int option \<Rightarrow> bool \<Rightarrow> db \<Rightarrow> response" where
  "blocked_page = view_redirect ''blocked''"

definition failures_page :: "int option \<Rightarrow> bool \<Rightarrow> db \<Rightarrow> response" where
  "failures_page = view_redirect ''failures''"

section \<open>The start page\<close>

record index_data =
  ix_total :: int
  ix_blocked :: int
  ix_hit_rate :: rat
  ix_time_saved :: int
  ix_node_count :: nat
  ix_critical_count :: nat
  ix_warning_count :: nat
  ix_blocking_state :: string
  ix_timezone :: string

definition index_page ::
  "(string \<Rightarrow> bool) \<Rightarrow> instant \<Rightarrow> rat \<Rightarrow> int option \<Rightarrow> db \<Rightarrow> stats_cache \<Rightarrow> index_data option py_result \<times> stats_cache" where
  "index_page available now clock sid d cache =
     (case get_current_user sid d of
        None \<Rightarrow> (Inr None, cache)
      | Some u \<Rightarrow>
          (let (stats, cache1) = get_dashboard_stats now clock 24 d cache;
               node_data = health_node_data d
           in case load_health_thresholds d of
                Inl e \<Rightarrow> (Inl e, cache1)
              | Inr t \<Rightarrow>
                  (let warnings = compute_health_warnings now node_data (Some t)
                   in (Inr (Some \<lparr>ix_total = ds_total_queries stats, ix_blocked = ds_blocked_queries stats,
                         ix_hit_rate = ds_cache_hit_pct stats, ix_time_saved = ds_time_saved_ms stats,
                         ix_node_count = length node_data,
                         ix_critical_count = length (filter (\<lambda>w. hw_severity w = ''critical'') warnings),
                         ix_warning_count = length (filter (\<lambda>w. hw_severity w = ''warning'') warnings),
                         ix_blocking_state = get_blocking_state d, ix_timezone = resolve_user_timezone available d\<rparr>), cache1))))"

section \<open>The history chart\<close>

definition get_bucket_minutes :: "time_window \<Rightarrow> int" where
  "get_bucket_minutes window =
     (let hrs = WINDOW_HOURS window
      in if hrs \<le> 1 then 1 else if hrs \<le> 6 then 5 else if hrs \<le> 24 then 15 else if hrs \<le> 72 then 60 else 120)"

text \<open>
  The minute of the hour rounded down, which is both how the code aligns its first bucket and how the
  query assigns an event to one.
\<close>

definition minute_of_hour :: "instant \<Rightarrow> int" where
  "minute_of_hour t = t mod hours 1 div minutes 1"

definition bucket_of :: "int \<Rightarrow> instant \<Rightarrow> instant" where
  "bucket_of bucket_minutes t = hour_floor t + minutes (minute_of_hour t div bucket_minutes * bucket_minutes)"

function buckets_from :: "int \<Rightarrow> instant \<Rightarrow> instant \<Rightarrow> instant list" where
  "buckets_from step now t = (if step \<le> 0 \<or> now < t then [] else t # buckets_from step now (t + step))"
  by auto

termination
  by (relation "measure (\<lambda>(step, now, t). nat (now - t + 1))") auto

declare buckets_from.simps [simp del]

definition bucket_events :: "int \<Rightarrow> instant \<Rightarrow> bool \<Rightarrow> db \<Rightarrow> instant \<Rightarrow> dns_query_event list" where
  "bucket_events bucket_minutes since include_internal d bucket =
     tbl_select (\<lambda>e. since \<le> ev_ts e \<and> exclude_internal include_internal e \<and> bucket_of bucket_minutes (ev_ts e) = bucket) (db_events d)"

definition is_cached :: "dns_query_event \<Rightarrow> bool" where
  "is_cached e \<longleftrightarrow> \<not> ev_blocked e \<and> (case ev_latency_ms e of None \<Rightarrow> False | Some l \<Rightarrow> l < 5)"

record history =
  hi_labels :: "string list"
  hi_total :: "int list"
  hi_blocked :: "int list"
  hi_cached :: "int list"
  hi_timezone :: string

definition analytics_history ::
  "(string \<Rightarrow> instant \<Rightarrow> string) \<Rightarrow> (string \<Rightarrow> bool) \<Rightarrow> instant \<Rightarrow> int option \<Rightarrow> time_window \<Rightarrow> bool \<Rightarrow> db \<Rightarrow> history option" where
  "analytics_history local_text available now sid window include_internal d =
     (case get_current_user sid d of
        None \<Rightarrow> None
      | Some u \<Rightarrow>
          (let hrs = WINDOW_HOURS window;
               bucket_minutes = get_bucket_minutes window;
               since = now - hours hrs;
               buckets = buckets_from (minutes bucket_minutes) now (bucket_of bucket_minutes since);
               stats = (\<lambda>P bucket. int (length (filter P (bucket_events bucket_minutes since include_internal d bucket))))
           in Some \<lparr>hi_labels = map (local_text (if hrs \<le> 24 then ''%H:%M'' else ''%m/%d %H:%M'')) buckets,
                    hi_total = map (stats (\<lambda>e. True)) buckets, hi_blocked = map (stats ev_blocked) buckets,
                    hi_cached = map (stats is_cached) buckets, hi_timezone = resolve_user_timezone available d\<rparr>))"

section \<open>The contract of a paged query\<close>

text \<open>
  A query that is shown page by page, all pages of one request over the same rows.  Its pages put
  together are its rows, no page is longer than the page size, and the pages after the last are empty.
\<close>

locale paged =
  fixes page_size :: nat and items :: "'p \<Rightarrow> 'a list" and page :: "'p \<Rightarrow> nat \<Rightarrow> 'a list"
  assumes page_size: "0 < page_size"
    and page_slice: "page p (Suc k) = take page_size (drop (k * page_size) (items p))"
begin

lemma pages_prefix: "concat (map (page p) [1..<Suc m]) = take (m * page_size) (items p)"
proof (induction m)
  case (Suc m)
  have "concat (map (page p) [1..<Suc (Suc m)]) = take (m * page_size) (items p) @ page p (Suc m)"
    using Suc by simp
  also have "\<dots> = take (m * page_size + page_size) (items p)"
    unfolding page_slice by (rule take_add [symmetric])
  finally show ?case by (simp add: add.commute)
qed simp

lemma pages_enough: "n \<le> (n + page_size - 1) div page_size * page_size"
proof -
  have "n + page_size - 1 < page_size + (n + page_size - 1) div page_size * page_size"
    using page_size by (rule dividend_less_div_times)
  then show ?thesis using page_size by simp
qed

lemma pages_complete:
  "concat (map (page p) [1..<Suc ((length (items p) + page_size - 1) div page_size)]) = items p"
  unfolding pages_prefix using pages_enough by simp

lemma page_short: "length (page p (Suc k)) \<le> page_size"
  by (simp add: page_slice)

lemma page_after_last: "(length (items p) + page_size - 1) div page_size < k \<Longrightarrow> page p k = []"
proof -
  assume k: "(length (items p) + page_size - 1) div page_size < k"
  then obtain j where j: "k = Suc j" by (cases k) auto
  have "(length (items p) + page_size - 1) div page_size * page_size \<le> j * page_size" using k by (simp add: j)
  then have "length (items p) \<le> j * page_size" using pages_enough [of "length (items p)"] by (rule order_trans [rotated])
  then show ?thesis by (simp add: j page_slice)
qed

end

interpretation pages: paged DEFAULT_PAGE_SIZE "\<lambda>xs. xs" "\<lambda>xs k. page_of k xs"
  by unfold_locales (simp_all add: page_of_def DEFAULT_PAGE_SIZE_def)

lemmas page_count_facts = pages.pages_complete [folded page_count_def] pages.page_after_last [folded page_count_def]

section \<open>Buckets\<close>

lemma buckets_from_mem: "0 < step \<Longrightarrow> b \<in> set (buckets_from step now t) \<longleftrightarrow> t \<le> b \<and> b \<le> now \<and> (b - t) mod step = 0"
proof (induction step now t rule: buckets_from.induct)
  case (1 step now t)
  show ?case
  proof (cases "now < t")
    case True
    then show ?thesis by (subst buckets_from.simps) auto
  next
    case False
    have "b \<in> set (buckets_from step now t) \<longleftrightarrow> b = t \<or> b \<in> set (buckets_from step now (t + step))"
      using 1(2) False by (subst buckets_from.simps) simp
    also have "\<dots> \<longleftrightarrow> b = t \<or> t + step \<le> b \<and> b \<le> now \<and> (b - (t + step)) mod step = 0"
      using 1 False by simp
    also have "(b - (t + step)) mod step = (b - t) mod step"
      by (metis add_diff_cancel_right' diff_diff_eq mod_add_self2 diff_add_cancel)
    also have "b = t \<or> t + step \<le> b \<and> b \<le> now \<and> (b - t) mod step = 0 \<longleftrightarrow> t \<le> b \<and> b \<le> now \<and> (b - t) mod step = 0"
    proof -
      have "t + step \<le> b" if "(b - t) mod step = 0" "t \<le> b" "b \<noteq> t"
        using that zdvd_imp_le [of step "b - t"] by (auto simp: mod_eq_0_iff_dvd)
      then show ?thesis using False 1(2) by auto
    qed
    finally show ?thesis .
  qed
qed

lemma buckets_from_distinct: "0 < step \<Longrightarrow> distinct (buckets_from step now t)"
proof (induction step now t rule: buckets_from.induct)
  case (1 step now t)
  have "t \<notin> set (buckets_from step now (t + step))" using buckets_from_mem [OF 1(2), of t now "t + step"] 1(2) by simp
  then show ?case using 1 by (subst buckets_from.simps) simp
qed

text \<open>Where the width of a bucket divides the hour, buckets are the multiples of the width.\<close>

lemma bucket_of_multiple:
  assumes "b \<in> {1, 5, 15, 60}"
  shows "bucket_of b t = t - t mod minutes b"
proof -
  have mult: "t - t mod 3600000000 + t mod 3600000000 div w * w = t - t mod w" if "w dvd 3600000000" for w :: int
    using mod_mod_cancel [OF that, of t] minus_mod_eq_div_mult [of "t mod 3600000000" w, symmetric] by simp
  have "t mod 3600000000 div 60000000 div b * b * 60000000 = t mod 3600000000 div (60000000 * b) * (60000000 * b)"
    using assms by (auto simp: zdiv_zmult2_eq)
  then show ?thesis
    using mult [of "60000000 * b"] assms
    by (auto simp: bucket_of_def hour_floor_def minute_of_hour_def duration_defs ac_simps)
qed

lemma sum_of_bool_mem: "distinct bs \<Longrightarrow> sum_list (map (\<lambda>b. of_bool (x = b)) bs) = (of_bool (x \<in> set bs) :: int)"
  by (induction bs) auto

lemma sum_over_buckets:
  assumes "distinct bs"
  shows "sum_list (map (\<lambda>b. int (length (filter (\<lambda>e. P e \<and> f e = b) es))) bs) = int (length (filter (\<lambda>e. P e \<and> f e \<in> set bs) es))"
proof (induction es)
  case (Cons e es)
  have "int (length (filter (\<lambda>e. P e \<and> f e = b) (e # es))) =
      int (length (filter (\<lambda>e. P e \<and> f e = b) es)) + of_bool (P e) * of_bool (f e = b)" for b by simp
  then have "sum_list (map (\<lambda>b. int (length (filter (\<lambda>e. P e \<and> f e = b) (e # es)))) bs) =
      sum_list (map (\<lambda>b. int (length (filter (\<lambda>e. P e \<and> f e = b) es))) bs) +
      of_bool (P e) * sum_list (map (\<lambda>b. of_bool (f e = b)) bs)"
    by (simp only: sum_list_addf sum_list_const_mult)
  then show ?case using Cons assms by (simp add: sum_of_bool_mem)
qed simp

lemma in_some_bucket:
  assumes "b \<in> {1, 5, 15, 60}" and "since \<le> t" and "t \<le> now"
  shows "bucket_of b t \<in> set (buckets_from (minutes b) now (bucket_of b since))"
proof -
  have w: "0 < minutes b" using assms(1) by (auto simp: duration_defs)
  have mono: "since - since mod minutes b \<le> t - t mod minutes b"
    using zdiv_mono1 [OF assms(2) w] w by (simp add: minus_mod_eq_mult_div)
  have "(t - t mod minutes b - (since - since mod minutes b)) mod minutes b = 0"
    by (simp add: minus_mod_eq_mult_div right_diff_distrib [symmetric])
  moreover have "t - t mod minutes b \<le> now" using assms(3) pos_mod_sign [OF w, of t] by linarith
  ultimately show ?thesis using mono by (simp add: bucket_of_multiple [OF assms(1)] buckets_from_mem [OF w])
qed

section \<open>Rows of the log\<close>

lemma map_of_selected:
  "ip \<in> S \<Longrightarrow> map_of (map (\<lambda>c. (c_ip c, f c)) (filter (\<lambda>c. c_ip c \<in> S) (xs :: client list))) ip = map_of (map (\<lambda>c. (c_ip c, f c)) xs) ip"
  by (induction xs) auto

lemma labels_restrict:
  assumes "ip \<in> set ips" and "ip \<in> set ips'"
  shows "map_of (get_client_labels d ips) ip = map_of (get_client_labels d ips') ip"
  unfolding get_client_labels_def tbl_select_def map_of_selected [OF assms(1)] map_of_selected [OF assms(2)] ..

lemma log_row_labels:
  "ev_client_ip e \<in> set ips \<Longrightarrow> ev_client_ip e \<in> set ips' \<Longrightarrow>
   log_row_of local_text d (get_client_labels d ips) e = log_row_of local_text d (get_client_labels d ips') e"
  using labels_restrict [of "ev_client_ip e" ips ips' d] by (simp add: log_row_of_def)

lemma log_matches_page [simp]: "log_matches now (p\<lparr>lq_page := k\<rparr>) = log_matches now p"
  by (simp add: fun_eq_iff log_matches_def in_window_def named_like_def from_client_def on_blocklist_def)

lemma set_page_of: "set (page_of k xs) \<subseteq> set xs"
  by (auto simp: page_of_def dest: in_set_takeD in_set_dropD)

section \<open>Properties\<close>

text \<open>
  C35: the history chart counts every event once.  For every window but the seven days, and when no
  event lies in the future, the points of each series add up to the number of events of the window
  that the request asks for, blocked ones and cached ones likewise, and every point has a label.
\<close>

theorem history_counts_every_event:
  assumes "get_current_user sid d = Some u" and "window \<noteq> W7d" and "\<forall>e \<in> set (rows (db_events d)). ev_ts e \<le> now"
    and "counted = filter (\<lambda>e. now - hours (WINDOW_HOURS window) \<le> ev_ts e \<and> (include_internal \<or> \<not> ev_is_internal e)) (rows (db_events d))"
  shows "\<exists>h. analytics_history local_text available now sid window include_internal d = Some h \<and>
    sum_list (hi_total h) = int (length counted) \<and> sum_list (hi_blocked h) = int (length (filter ev_blocked counted)) \<and>
    sum_list (hi_cached h) = int (length (filter is_cached counted)) \<and>
    length (hi_labels h) = length (hi_total h)"
proof -
  let ?b = "get_bucket_minutes window" and ?since = "now - hours (WINDOW_HOURS window)"
  let ?bs = "buckets_from (minutes ?b) now (bucket_of ?b ?since)"
  have b: "?b \<in> {1, 5, 15, 60}" using assms(2) by (cases window) (simp_all add: get_bucket_minutes_def)
  have "0 < minutes ?b" using b by (auto simp: duration_defs)
  note distinct = buckets_from_distinct [OF this, of now "bucket_of ?b ?since"]
  have series: "sum_list (map (\<lambda>k. int (length (filter P (bucket_events ?b ?since include_internal d k)))) ?bs) = int (length (filter P counted))" for P
  proof -
    let ?Q = "\<lambda>e. P e \<and> ?since \<le> ev_ts e \<and> exclude_internal include_internal e"
    have "filter P (bucket_events ?b ?since include_internal d k) = filter (\<lambda>e. ?Q e \<and> bucket_of ?b (ev_ts e) = k) (rows (db_events d))" for k
      by (auto simp: bucket_events_def tbl_select_def intro!: filter_cong)
    then have "sum_list (map (\<lambda>k. int (length (filter P (bucket_events ?b ?since include_internal d k)))) ?bs) =
        int (length (filter (\<lambda>e. ?Q e \<and> bucket_of ?b (ev_ts e) \<in> set ?bs) (rows (db_events d))))"
      using sum_over_buckets [OF distinct, of ?Q "\<lambda>e. bucket_of ?b (ev_ts e)"] by simp
    also have "filter (\<lambda>e. ?Q e \<and> bucket_of ?b (ev_ts e) \<in> set ?bs) (rows (db_events d)) = filter P counted"
      using in_some_bucket [OF b] assms(3) by (auto simp: assms(4) exclude_internal_def intro!: filter_cong)
    finally show ?thesis .
  qed
  show ?thesis using series [of "\<lambda>e. True"] series [of ev_blocked] series [of is_cached]
    by (simp add: analytics_history_def assms(1) Let_def)
qed

definition log_db :: db where
  "log_db = two_clients\<lparr>db_users := \<lparr>rows = [\<lparr>u_id = 1, u_username = ''admin'', u_password_hash = []\<rparr>], next_id = 2\<rparr>\<rparr>"

lemma log_db_user: "get_current_user (Some 1) log_db = Some \<lparr>u_id = 1, u_username = ''admin'', u_password_hash = []\<rparr>"
  by (simp add: get_current_user_def log_db_def tbl_find_def)

theorem history_counts_every_event_witness:
  "\<exists>h. analytics_history (\<lambda>f t. []) (\<lambda>z. True) (hours 12) (Some 1) W6h False log_db = Some h \<and> sum_list (hi_total h) = 2"
proof -
  let ?counted = "filter (\<lambda>e. hours 12 - hours (WINDOW_HOURS W6h) \<le> ev_ts e \<and> (False \<or> \<not> ev_is_internal e)) (rows (db_events log_db))"
  have past: "\<forall>e \<in> set (rows (db_events log_db)). ev_ts e \<le> hours 12"
    by (simp add: log_db_def two_clients_def query_at_def duration_defs)
  have "length ?counted = 2"
    by (simp add: log_db_def two_clients_def query_at_def duration_defs)
  then show ?thesis
    using history_counts_every_event [OF log_db_user _ past refl, where window = W6h and include_internal = False
        and local_text = "\<lambda>f t. []" and available = "\<lambda>z. True"]
    by auto
qed

text \<open>
  For seven days the query groups by the hour, since no minute reaches the width of 120, while the
  chart has a point for every second hour: the events of the hours between are on no point.
\<close>

theorem history_week_skips_hours:
  assumes "(hour_floor (ev_ts e) - hour_floor since) mod hours 2 \<noteq> 0" and "b \<in> set (buckets_from (minutes 120) now (bucket_of 120 since))"
  shows "e \<notin> set (bucket_events (get_bucket_minutes W7d) since include_internal d b)"
proof -
  have "0 \<le> minute_of_hour t" "minute_of_hour t < 120" for t
    using pos_mod_sign [of "3600000000" t] pos_mod_bound [of "3600000000" t] by (simp_all add: minute_of_hour_def duration_defs)
  then have hour: "bucket_of 120 t = hour_floor t" for t by (simp add: bucket_of_def duration_defs)
  have two: "minutes 120 = hours 2" "0 < hours 2" by (simp_all add: duration_defs)
  have "b \<noteq> bucket_of 120 (ev_ts e)" using assms buckets_from_mem [OF two(2), of b now "hour_floor since"] by (auto simp: hour two)
  then show ?thesis by (auto simp: bucket_events_def tbl_select_def get_bucket_minutes_def)
qed



end
