(* ===== verification/Prometheus.thy ===== *)
theory Prometheus
  imports System_Health
begin

text \<open>
  The endpoint a Prometheus server scrapes (\<open>admin-ui/app/routers/metrics.py\<close>): the lines of the
  text exposition format for the statistics of the last day and for the latest metrics of every node.
  A reader of that format, written from its grammar, is the specification of what the text says.
\<close>

section \<open>The latest metrics of a node\<close>

definition get_latest_node_metrics :: "db \<Rightarrow> (string \<times> node_metrics) list" where
  "get_latest_node_metrics d =
     List.map_filter
       (\<lambda>m. if \<exists>m' \<in> set (rows (db_node_metrics d)). nm_node_id m' = nm_node_id m \<and> nm_id m < nm_id m' then None
            else map_option (\<lambda>n. (n_name n, m)) (tbl_find (\<lambda>n. n_id n = nm_node_id m) (db_nodes d)))
       (rows (db_node_metrics d))"

section \<open>The lines of the text\<close>

text \<open>\<open>f"{x:.2f}"\<close> for a number that is not negative.\<close>

definition show_fixed2 :: "rat \<Rightarrow> string" where
  "show_fixed2 x =
     (let n = round_half_even (x * 100)
      in show_int (n div 100) @ ''.'' @ show_int (n mod 100 div 10) @ show_int (n mod 10))"

definition family_head :: "string \<Rightarrow> string \<Rightarrow> string \<Rightarrow> string list" where
  "family_head name help kind = [''# HELP '' @ name @ '' '' @ help, ''# TYPE '' @ name @ '' '' @ kind]"

definition scalar_lines :: "string \<Rightarrow> string \<Rightarrow> string \<Rightarrow> string list" where
  "scalar_lines name help v = family_head name help ''gauge'' @ [name @ '' '' @ v]"

definition summary_lines :: "dashboard_stats \<Rightarrow> string list" where
  "summary_lines stats =
     scalar_lines ''powerblockade_queries_total'' ''Total DNS queries in 24h'' (show_int (max (ds_total_queries stats) 0)) @ [[]] @
     scalar_lines ''powerblockade_blocked_total'' ''Blocked queries in 24h'' (show_int (ds_blocked_queries stats)) @ [[]] @
     scalar_lines ''powerblockade_block_rate'' ''Block percentage'' (show_fixed2 (ds_blocked_pct stats)) @ [[]] @
     scalar_lines ''powerblockade_cache_hits_total'' ''Estimated cache hits in 24h'' (show_int (ds_cache_hits stats)) @ [[]] @
     scalar_lines ''powerblockade_cache_hit_rate'' ''Cache hit percentage'' (show_fixed2 (ds_cache_hit_pct stats)) @ [[]] @
     scalar_lines ''powerblockade_time_saved_seconds'' ''Time saved by cache'' (show_int (trunc_div (ds_time_saved_ms stats) 1000)) @ [[]] @
     scalar_lines ''powerblockade_qps'' ''Queries per second (24h avg)'' (show_fixed2 (ds_qps stats)) @ [[]] @
     scalar_lines ''powerblockade_stats_cache_age_seconds'' ''Age of the cached stats in seconds'' (show_fixed1 (ds_cache_age_seconds stats)) @ [[]] @
     scalar_lines ''powerblockade_rollup_lag_seconds'' ''Seconds since last included rollup bucket'' (show_fixed1 (ds_rollup_lag_seconds stats)) @ [[]] @
     scalar_lines ''powerblockade_stats_edge_delta_total'' ''Raw edge events included in this sample'' (show_int (ds_edge_delta_total stats))"

text \<open>A sample of a node: its name, then the bound of a latency bucket if it has one.\<close>

definition node_line :: "string \<Rightarrow> string \<Rightarrow> string option \<Rightarrow> int \<Rightarrow> string" where
  "node_line name node le v =
     name @ ''{node='' @ [CHR 0x22] @ node @ [CHR 0x22] @
     (case le of None \<Rightarrow> [] | Some b \<Rightarrow> '',le='' @ [CHR 0x22] @ b @ [CHR 0x22]) @ ''} '' @ show_int v"

definition recursor :: "string \<Rightarrow> string" where
  "recursor name = ''powerblockade_recursor_'' @ name"

definition node_family ::
  "string \<Rightarrow> string \<Rightarrow> string \<Rightarrow> (node_metrics \<Rightarrow> (string option \<times> int) list) \<Rightarrow> (string \<times> node_metrics) list \<Rightarrow> string list" where
  "node_family name help kind vals nms =
     [[]] @ family_head (recursor name) help kind @
     concat (map (\<lambda>(node, m). map (\<lambda>(le, v). node_line (recursor name) node le v) (vals m)) nms)"

definition latency_buckets :: "node_metrics \<Rightarrow> (string option \<times> int) list" where
  "latency_buckets m =
     [(Some ''1'', nm_answers_0_1 m), (Some ''10'', nm_answers_1_10 m), (Some ''100'', nm_answers_10_100 m),
      (Some ''1000'', nm_answers_100_1000 m), (Some ''+Inf'', nm_answers_slow m)]"

definition node_lines :: "(string \<times> node_metrics) list \<Rightarrow> string list" where
  "node_lines nms =
     (if nms = [] then []
      else node_family ''cache_hits'' ''Recursor cache hits by node'' ''counter'' (\<lambda>m. [(None, nm_cache_hits m)]) nms @
        node_family ''cache_misses'' ''Recursor cache misses by node'' ''counter'' (\<lambda>m. [(None, nm_cache_misses m)]) nms @
        node_family ''cache_entries'' ''Current cache entries by node'' ''gauge'' (\<lambda>m. [(None, nm_cache_entries m)]) nms @
        node_family ''answers_latency'' ''Answer latency buckets by node'' ''counter'' latency_buckets nms @
        node_family ''concurrent_queries'' ''Current concurrent queries by node'' ''gauge'' (\<lambda>m. [(None, nm_concurrent_queries m)]) nms @
        node_family ''outgoing_timeouts'' ''Outgoing query timeouts by node'' ''counter'' (\<lambda>m. [(None, nm_outgoing_timeouts m)]) nms @
        node_family ''servfail_answers'' ''SERVFAIL responses by node'' ''counter'' (\<lambda>m. [(None, nm_servfail_answers m)]) nms @
        node_family ''questions'' ''Total questions received by node'' ''counter'' (\<lambda>m. [(None, nm_questions m)]) nms @
        node_family ''uptime_seconds'' ''Recursor uptime by node'' ''counter'' (\<lambda>m. [(None, nm_uptime_seconds m)]) nms)"

definition metrics_text :: "instant \<Rightarrow> rat \<Rightarrow> db \<Rightarrow> stats_cache \<Rightarrow> string \<times> stats_cache" where
  "metrics_text now clock d cache =
     (let (stats, cache1) = get_dashboard_stats now clock 24 d cache
      in (join [newline] (summary_lines stats @ node_lines (get_latest_node_metrics d) @ [[]]), cache1))"

section \<open>A reader of the exposition format\<close>

type_synonym sample = "string \<times> (string \<times> string) list \<times> string"

text \<open>The text of a label up to its closing quote, with a backslash before an escaped character.\<close>

fun label_value :: "string \<Rightarrow> (string \<times> string) option" where
  "label_value [] = None"
| "label_value [c] = (if c = CHR 0x22 then Some ([], []) else None)"
| "label_value (c # x # s) =
     (if c = CHR 0x22 then Some ([], x # s)
      else if c = CHR 0x5C then map_option (\<lambda>(v, r). ((if x = CHR ''n'' then newline else x) # v, r)) (label_value s)
      else map_option (\<lambda>(v, r). (c # v, r)) (label_value (x # s)))"

lemma label_value_shorter: "label_value s = Some (v, r) \<Longrightarrow> length r < length s"
  by (induction s arbitrary: v r rule: label_value.induct) (fastforce split: if_splits)+

text \<open>Labels after the opening brace, each a name, an equals sign and a quoted text.\<close>

function read_labels :: "string \<Rightarrow> ((string \<times> string) list \<times> string) option" where
  "read_labels s =
     (let name = takeWhile (\<lambda>c. c \<noteq> CHR ''='') s; rest = drop (length name) s
      in if \<not> startswith [CHR ''='', CHR 0x22] rest then None
         else (case label_value (drop 2 rest) of
                 None \<Rightarrow> None
               | Some (v, r) \<Rightarrow>
                   if startswith ''}'' r then Some ([(name, v)], drop 1 r)
                   else if startswith '','' r then map_option (\<lambda>(ls, t). ((name, v) # ls, t)) (read_labels (drop 1 r))
                   else None))"
  by auto

termination
  by (relation "measure length") (auto dest!: label_value_shorter)

declare read_labels.simps [simp del]

definition read_sample :: "string \<Rightarrow> sample option" where
  "read_sample l =
     (let name = takeWhile (\<lambda>c. c \<noteq> CHR '' '' \<and> c \<noteq> CHR ''{'') l
      in case dropWhile (\<lambda>c. c \<noteq> CHR '' '' \<and> c \<noteq> CHR ''{'') l of
           [] \<Rightarrow> None
         | c # r \<Rightarrow>
             if name = [] then None
             else if c = CHR '' '' then Some (name, [], r)
             else (case read_labels r of
                     None \<Rightarrow> None
                   | Some (ls, t) \<Rightarrow> if startswith '' '' t then Some (name, ls, drop 1 t) else None))"

text \<open>Empty lines and comments say nothing; a line that cannot be read fails the whole scrape.\<close>

fun scrape_lines :: "string list \<Rightarrow> sample list option" where
  "scrape_lines [] = Some []"
| "scrape_lines (l # ls) =
     (if l = [] \<or> startswith ''#'' l then scrape_lines ls
      else (case read_sample l of
              None \<Rightarrow> None
            | Some s \<Rightarrow> map_option (Cons s) (scrape_lines ls)))"

definition scrape :: "string \<Rightarrow> sample list option" where
  "scrape s = scrape_lines (split_on newline s)"

section \<open>What the text says\<close>

definition summary_samples :: "dashboard_stats \<Rightarrow> sample list" where
  "summary_samples stats =
     [(''powerblockade_queries_total'', [], show_int (max (ds_total_queries stats) 0)),
      (''powerblockade_blocked_total'', [], show_int (ds_blocked_queries stats)),
      (''powerblockade_block_rate'', [], show_fixed2 (ds_blocked_pct stats)),
      (''powerblockade_cache_hits_total'', [], show_int (ds_cache_hits stats)),
      (''powerblockade_cache_hit_rate'', [], show_fixed2 (ds_cache_hit_pct stats)),
      (''powerblockade_time_saved_seconds'', [], show_int (trunc_div (ds_time_saved_ms stats) 1000)),
      (''powerblockade_qps'', [], show_fixed2 (ds_qps stats)),
      (''powerblockade_stats_cache_age_seconds'', [], show_fixed1 (ds_cache_age_seconds stats)),
      (''powerblockade_rollup_lag_seconds'', [], show_fixed1 (ds_rollup_lag_seconds stats)),
      (''powerblockade_stats_edge_delta_total'', [], show_int (ds_edge_delta_total stats))]"

definition family_samples ::
  "string \<Rightarrow> (node_metrics \<Rightarrow> (string option \<times> int) list) \<Rightarrow> (string \<times> node_metrics) list \<Rightarrow> sample list" where
  "family_samples name vals nms =
     concat (map (\<lambda>(node, m). map (\<lambda>(le, v). (recursor name,
       (''node'', node) # (case le of None \<Rightarrow> [] | Some b \<Rightarrow> [(''le'', b)]), show_int v)) (vals m)) nms)"

definition node_samples :: "(string \<times> node_metrics) list \<Rightarrow> sample list" where
  "node_samples nms =
     concat (map (\<lambda>(name, vals). family_samples name vals nms)
       [(''cache_hits'', \<lambda>m. [(None, nm_cache_hits m)]), (''cache_misses'', \<lambda>m. [(None, nm_cache_misses m)]),
        (''cache_entries'', \<lambda>m. [(None, nm_cache_entries m)]), (''answers_latency'', latency_buckets),
        (''concurrent_queries'', \<lambda>m. [(None, nm_concurrent_queries m)]),
        (''outgoing_timeouts'', \<lambda>m. [(None, nm_outgoing_timeouts m)]),
        (''servfail_answers'', \<lambda>m. [(None, nm_servfail_answers m)]), (''questions'', \<lambda>m. [(None, nm_questions m)]),
        (''uptime_seconds'', \<lambda>m. [(None, nm_uptime_seconds m)])])"

section \<open>Reading what was written\<close>

text \<open>A text that needs no escaping inside quotes, and a name that ends at a space or a brace.\<close>

definition quotable :: "string \<Rightarrow> bool" where
  "quotable s \<longleftrightarrow> CHR 0x22 \<notin> set s \<and> CHR 0x5C \<notin> set s \<and> newline \<notin> set s"

definition metric_name :: "string \<Rightarrow> bool" where
  "metric_name s \<longleftrightarrow> s \<noteq> [] \<and> hd s \<noteq> CHR ''#'' \<and> CHR '' '' \<notin> set s \<and> CHR ''{'' \<notin> set s \<and> newline \<notin> set s"

lemma label_value_plain:
  "CHR 0x22 \<notin> set v \<Longrightarrow> CHR 0x5C \<notin> set v \<Longrightarrow> label_value (v @ CHR 0x22 # r) = Some (v, r)"
proof (induction v)
  case Nil
  then show ?case by (cases r) simp_all
next
  case (Cons c v)
  then show ?case by (cases "v @ CHR 0x22 # r") auto
qed

lemma scrape_lines_append:
  "scrape_lines (xs @ ys) =
     (case scrape_lines xs of None \<Rightarrow> None | Some a \<Rightarrow> map_option (\<lambda>b. a @ b) (scrape_lines ys))"
proof (induction xs)
  case (Cons l xs)
  then show ?case by (cases "scrape_lines ys") (auto split: option.splits)
qed (cases "scrape_lines ys"; simp)

lemma scrape_lines_fails:
  "l \<in> set ls \<Longrightarrow> l \<noteq> [] \<Longrightarrow> \<not> startswith ''#'' l \<Longrightarrow> read_sample l = None \<Longrightarrow> scrape_lines ls = None"
  by (induction ls) (auto split: option.splits)

lemma name_ends:
  assumes "metric_name name" and "c = CHR '' '' \<or> c = CHR ''{''"
  shows "takeWhile (\<lambda>c. c \<noteq> CHR '' '' \<and> c \<noteq> CHR ''{'') (name @ c # r) = name"
    and "dropWhile (\<lambda>c. c \<noteq> CHR '' '' \<and> c \<noteq> CHR ''{'') (name @ c # r) = c # r"
proof -
  have "\<forall>x \<in> set name. x \<noteq> CHR '' '' \<and> x \<noteq> CHR ''{''" using assms(1) by (auto simp: metric_name_def)
  then show "takeWhile (\<lambda>c. c \<noteq> CHR '' '' \<and> c \<noteq> CHR ''{'') (name @ c # r) = name"
    and "dropWhile (\<lambda>c. c \<noteq> CHR '' '' \<and> c \<noteq> CHR ''{'') (name @ c # r) = c # r"
    using assms(2) by (auto simp: takeWhile_append2 dropWhile_append2)
qed

lemma read_sample_scalar: "metric_name name \<Longrightarrow> read_sample (name @ '' '' @ v) = Some (name, [], v)"
  using name_ends [of name "CHR '' ''" v] by (simp add: read_sample_def metric_name_def)

lemma label_name_ends: "CHR ''='' \<notin> set k \<Longrightarrow> takeWhile (\<lambda>c. c \<noteq> CHR ''='') (k @ CHR ''='' # r) = k"
  by (induction k) auto

lemma read_label:
  "CHR ''='' \<notin> set k \<Longrightarrow> quotable v \<Longrightarrow>
   read_labels (k @ ''='' @ [CHR 0x22] @ v @ [CHR 0x22] @ r) =
     (if startswith ''}'' r then Some ([(k, v)], drop 1 r)
      else if startswith '','' r then map_option (\<lambda>(ls, t). ((k, v) # ls, t)) (read_labels (drop 1 r))
      else None)"
  by (subst read_labels.simps) (simp add: label_name_ends label_value_plain quotable_def startswith_def Let_def)

lemma read_sample_node:
  assumes "metric_name name" and "quotable node" and "case le of None \<Rightarrow> True | Some b \<Rightarrow> quotable b"
  shows "read_sample (node_line name node le v) =
    Some (name, (''node'', node) # (case le of None \<Rightarrow> [] | Some b \<Rightarrow> [(''le'', b)]), show_int v)"
proof (cases le)
  case None
  then show ?thesis
    using name_ends [OF assms(1), of "CHR ''{''" "''node='' @ [CHR 0x22] @ node @ [CHR 0x22] @ ''} '' @ show_int v"] assms(1)
      read_label [of "''node''" node "''} '' @ show_int v"] assms(2)
    by (simp add: read_sample_def node_line_def metric_name_def startswith_def)
next
  case (Some b)
  then show ?thesis
    using name_ends [OF assms(1), of "CHR ''{''" "''node='' @ [CHR 0x22] @ node @ [CHR 0x22] @ '',le='' @ [CHR 0x22] @ b @ [CHR 0x22] @ ''} '' @ show_int v"]
      read_label [of "''node''" node "'',le='' @ [CHR 0x22] @ b @ [CHR 0x22] @ ''} '' @ show_int v"]
      read_label [of "''le''" b "''} '' @ show_int v"] assms
    by (simp add: read_sample_def node_line_def metric_name_def startswith_def)
qed

lemma scrape_family_head [simp]: "scrape_lines (family_head name help kind @ ls) = scrape_lines ls"
  by (simp add: family_head_def startswith_def)

lemma not_comment: "metric_name name \<Longrightarrow> name @ r \<noteq> [] \<and> \<not> startswith ''#'' (name @ r)"
  by (cases name) (auto simp: metric_name_def startswith_def)

lemma scrape_scalar: "metric_name name \<Longrightarrow> scrape_lines (scalar_lines name help v @ ls) = map_option (Cons (name, [], v)) (scrape_lines ls)"
  using not_comment [of name "'' '' @ v"] read_sample_scalar [of name v] by (simp add: scalar_lines_def)

lemma scrape_samples:
  "(\<And>x. x \<in> set xs \<Longrightarrow> f x \<noteq> [] \<and> \<not> startswith ''#'' (f x) \<and> read_sample (f x) = Some (g x)) \<Longrightarrow> scrape_lines (map f xs) = Some (map g xs)"
  by (induction xs) simp_all

lemma scrape_family:
  assumes "metric_name (recursor name)" and "\<forall>(node, m) \<in> set nms. quotable node"
    and "\<And>m. \<forall>(le, v) \<in> set (vals m). case le of None \<Rightarrow> True | Some b \<Rightarrow> quotable b"
  shows "scrape_lines (node_family name help kind vals nms) = Some (family_samples name vals nms)"
proof -
  let ?n = "recursor name"
  have one: "scrape_lines (map (\<lambda>(le, v). node_line ?n node le v) (vals m)) =
      Some (map (\<lambda>(le, v). (?n, (''node'', node) # (case le of None \<Rightarrow> [] | Some b \<Rightarrow> [(''le'', b)]), show_int v)) (vals m))"
    if "quotable node" for node m
  proof (rule scrape_samples)
    fix x assume "x \<in> set (vals m)"
    then have "case fst x of None \<Rightarrow> True | Some b \<Rightarrow> quotable b" using assms(3) [of m] by (auto simp: case_prod_beta)
    from read_sample_node [OF assms(1) that this]
    show "(case x of (le, v) \<Rightarrow> node_line ?n node le v) \<noteq> [] \<and> \<not> startswith ''#'' (case x of (le, v) \<Rightarrow> node_line ?n node le v) \<and>
        read_sample (case x of (le, v) \<Rightarrow> node_line ?n node le v) =
          Some (case x of (le, v) \<Rightarrow> (?n, (''node'', node) # (case le of None \<Rightarrow> [] | Some b \<Rightarrow> [(''le'', b)]), show_int v))"
      using not_comment [OF assms(1)] by (simp add: case_prod_beta node_line_def)
  qed
  have "scrape_lines (concat (map (\<lambda>(node, m). map (\<lambda>(le, v). node_line ?n node le v) (vals m)) nms)) = Some (family_samples name vals nms)"
    using assms(2)
  proof (induction nms)
    case Nil
    then show ?case by (simp add: family_samples_def)
  next
    case (Cons nm nms)
    obtain node m where nm: "nm = (node, m)" by (cases nm)
    with Cons.prems have "quotable node" by simp
    from one [OF this, of m] Cons show ?case by (simp add: nm scrape_lines_append family_samples_def)
  qed
  then show ?thesis by (simp add: node_family_def)
qed

section \<open>Lines have no line breaks\<close>

definition one_line :: "string \<Rightarrow> bool" where
  "one_line s \<longleftrightarrow> newline \<notin> set s"

lemma one_line_simps [simp]:
  "one_line []" "one_line (c # s) \<longleftrightarrow> c \<noteq> newline \<and> one_line s" "one_line (s @ t) \<longleftrightarrow> one_line s \<and> one_line t"
  by (auto simp: one_line_def)

lemma one_line_numbers [simp]: "one_line (show_int i)" "one_line (show_fixed1 x)" "one_line (show_fixed2 x)"
proof -
  show int: "one_line (show_int i)" for i
    using show_int_chars [of newline i] by (auto simp: one_line_def is_digit_def)
  show "one_line (show_fixed1 x)" "one_line (show_fixed2 x)"
    by (simp_all add: show_fixed1_def show_fixed2_def Let_def int)
qed

lemma scalar_one_line: "one_line name \<Longrightarrow> one_line help \<Longrightarrow> one_line v \<Longrightarrow> \<forall>l \<in> set (scalar_lines name help v). one_line l"
  by (simp add: scalar_lines_def family_head_def)

lemma summary_one_line: "\<forall>l \<in> set (summary_lines stats). one_line l"
  unfolding summary_lines_def set_append ball_Un by (intro conjI scalar_one_line) simp_all

lemma family_one_line:
  assumes "one_line (recursor name)" and "one_line help" and "one_line kind" and "\<forall>(node, m) \<in> set nms. one_line node"
    and "\<And>m. \<forall>(le, v) \<in> set (vals m). case le of None \<Rightarrow> True | Some b \<Rightarrow> one_line b"
  shows "\<forall>l \<in> set (node_family name help kind vals nms). one_line l"
proof -
  have "one_line (node_line (recursor name) node le v)" if "(node, m) \<in> set nms" "(le, v) \<in> set (vals m)" for node m le v
    using assms(1,4) assms(5) [of m] that by (cases le) (fastforce simp: node_line_def)+
  then show ?thesis using assms(1-3) by (auto simp: node_family_def family_head_def)
qed

lemma node_lines_one_line:
  assumes "\<forall>(node, m) \<in> set nms. one_line node"
  shows "\<forall>l \<in> set (node_lines nms). one_line l"
proof (cases "nms = []")
  case False
  show ?thesis unfolding node_lines_def if_not_P [OF False] set_append ball_Un
    by (intro conjI family_one_line assms) (simp_all add: latency_buckets_def recursor_def)
qed (simp add: node_lines_def)

lemma scrape_metrics_text:
  assumes "\<forall>(node, m) \<in> set (get_latest_node_metrics d). one_line node"
  shows "scrape (fst (metrics_text now clock d cache)) =
    scrape_lines (summary_lines (fst (get_dashboard_stats now clock 24 d cache)) @ node_lines (get_latest_node_metrics d) @ [[]])"
proof -
  let ?ls = "summary_lines (fst (get_dashboard_stats now clock 24 d cache)) @ node_lines (get_latest_node_metrics d) @ [[]]"
  have "\<forall>l \<in> set ?ls. newline \<notin> set l"
    using summary_one_line [of "fst (get_dashboard_stats now clock 24 d cache)"] node_lines_one_line [OF assms] by (auto simp: one_line_def)
  then have "split_on newline (join [newline] ?ls) = ?ls" by (intro split_on_join) simp_all
  then show ?thesis by (simp add: scrape_def metrics_text_def case_prod_beta)
qed

lemma scrape_summary: "scrape_lines (summary_lines stats @ ls) = map_option (\<lambda>ss. summary_samples stats @ ss) (scrape_lines ls)"
proof (cases "scrape_lines ls")
  case None
  then show ?thesis by (simp add: summary_lines_def scrape_scalar metric_name_def)
next
  case (Some ss)
  then show ?thesis by (simp add: summary_lines_def summary_samples_def scrape_scalar metric_name_def)
qed

lemma scrape_plain_family:
  "metric_name (recursor name) \<Longrightarrow> \<forall>(node, m) \<in> set nms. quotable node \<Longrightarrow>
   scrape_lines (node_family name help kind (\<lambda>m. [(None, f m)]) nms) = Some (family_samples name (\<lambda>m. [(None, f m)]) nms)"
  by (rule scrape_family) simp_all

lemma scrape_bucket_family:
  "metric_name (recursor name) \<Longrightarrow> \<forall>(node, m) \<in> set nms. quotable node \<Longrightarrow>
   scrape_lines (node_family name help kind latency_buckets nms) = Some (family_samples name latency_buckets nms)"
  by (rule scrape_family) (simp_all add: latency_buckets_def quotable_def)

lemma scrape_nodes:
  assumes "\<forall>(node, m) \<in> set nms. quotable node"
  shows "scrape_lines (node_lines nms @ [[]]) = Some (node_samples nms)"
proof (cases "nms = []")
  case True
  then show ?thesis by (simp add: node_lines_def node_samples_def family_samples_def)
next
  case False
  have names: "\<forall>name \<in> {''cache_hits'', ''cache_misses'', ''cache_entries'', ''answers_latency'', ''concurrent_queries'', ''outgoing_timeouts'',
      ''servfail_answers'', ''questions'', ''uptime_seconds''}. metric_name (recursor name)"
    by (simp add: metric_name_def recursor_def)
  then show ?thesis using False
    by (simp add: node_lines_def node_samples_def scrape_lines_append scrape_plain_family [OF _ assms] scrape_bucket_family [OF _ assms])
qed

section \<open>Nodes with metrics\<close>

lemma latest_once:
  assumes "table_wf nm_id (db_node_metrics d)" and "table_wf n_id (db_nodes d)" and "n \<in> set (rows (db_nodes d))"
    and "m \<in> set (rows (db_node_metrics d))" and "nm_node_id m = n_id n"
    and "\<forall>m' \<in> set (rows (db_node_metrics d)). nm_node_id m' = n_id n \<longrightarrow> nm_id m' \<le> nm_id m"
  shows "filter (\<lambda>(node, x). nm_node_id x = n_id n) (get_latest_node_metrics d) = [(n_name n, m)]"
proof -
  let ?ms = "rows (db_node_metrics d)"
  define g where "g = (\<lambda>x :: node_metrics. if \<exists>m' \<in> set ?ms. nm_node_id m' = nm_node_id x \<and> nm_id x < nm_id m' then None
      else map_option (\<lambda>n. (n_name n, x)) (tbl_find (\<lambda>n. n_id n = nm_node_id x) (db_nodes d)))"
  have n: "tbl_find (\<lambda>k. n_id k = n_id n) (db_nodes d) = Some n" by (rule tbl_find_key [OF assms(2,3)])
  have g: "g x = Some (n_name n, m)" if "x = m" for x
    using that assms(5,6) n by (auto simp: not_less g_def)
  have snd_g: "g x = Some y \<Longrightarrow> snd y = x" for x y by (auto simp: g_def split: if_splits)
  have other: "x = m" if "x \<in> set ?ms" "nm_node_id x = n_id n" "g x \<noteq> None" for x
  proof (rule table_wf_key_inj [OF assms(1) that(1) assms(4)])
    have "nm_id m \<le> nm_id x" using that assms(4,5) by (auto split: if_splits simp: not_less g_def)
    with assms(6) that(1,2) show "nm_id x = nm_id m" by force
  qed
  have "filter (\<lambda>(node, x). nm_node_id x = n_id n) (List.map_filter g xs) = (if m \<in> set xs then [(n_name n, m)] else [])"
    if "set xs \<subseteq> set ?ms" "distinct xs" for xs
    using that
  proof (induction xs)
    case Nil
    then show ?case by (simp add: map_filter_simps)
  next
    case (Cons x xs)
    then have IH: "filter (\<lambda>(node, x). nm_node_id x = n_id n) (List.map_filter g xs) = (if m \<in> set xs then [(n_name n, m)] else [])" by simp
    show ?case
    proof (cases "x = m")
      case True
      with Cons.prems(2) IH assms(5) g [OF True] show ?thesis by (simp add: map_filter_simps)
    next
      case False
      have "g x = None \<or> (\<exists>k. g x = Some (k, x) \<and> nm_node_id x \<noteq> n_id n)"
        using other [of x] False Cons.prems(1) snd_g [of x] by (cases "g x") auto
      with False IH show ?thesis by (auto simp: map_filter_simps)
    qed
  qed
  moreover have "distinct ?ms" using assms(1) by (auto simp: table_wf_def distinct_map)
  ultimately show ?thesis using assms(4) by (simp add: get_latest_node_metrics_def g_def)
qed

section \<open>Properties\<close>

text \<open>
  C36: what is scraped is what the server knows.  When no node name needs escaping, reading the text
  by the rules of the exposition format gives the statistics of the last day and, for every family of
  node metrics, one sample (five for the latency buckets) per node that has metrics, taken from the
  row with the greatest key, and nothing else; each such node occurs once.
\<close>

theorem scrape_roundtrip:
  assumes "table_wf nm_id (db_node_metrics d)" and "table_wf n_id (db_nodes d)"
    and "\<forall>n \<in> set (rows (db_nodes d)). quotable (n_name n)"
    and "get_dashboard_stats now clock 24 d cache = (stats, cache1)"
  shows "scrape (fst (metrics_text now clock d cache)) = Some (summary_samples stats @ node_samples (get_latest_node_metrics d)) \<and>
    (\<forall>n \<in> set (rows (db_nodes d)). \<forall>m \<in> set (rows (db_node_metrics d)).
      nm_node_id m = n_id n \<and> (\<forall>m' \<in> set (rows (db_node_metrics d)). nm_node_id m' = n_id n \<longrightarrow> nm_id m' \<le> nm_id m) \<longrightarrow>
      filter (\<lambda>(node, x). nm_node_id x = n_id n) (get_latest_node_metrics d) = [(n_name n, m)])"
proof
  have q: "\<forall>(node, m) \<in> set (get_latest_node_metrics d). quotable node"
    using assms(3) by (auto simp: get_latest_node_metrics_def map_filter_def split: if_splits dest: tbl_find_SomeD)
  then have "\<forall>(node, m) \<in> set (get_latest_node_metrics d). one_line node" by (auto simp: quotable_def one_line_def)
  from scrape_metrics_text [OF this] show "scrape (fst (metrics_text now clock d cache)) = Some (summary_samples stats @ node_samples (get_latest_node_metrics d))"
    using scrape_nodes [OF q] by (simp add: scrape_summary assms(4))
next
  show "\<forall>n \<in> set (rows (db_nodes d)). \<forall>m \<in> set (rows (db_node_metrics d)).
      nm_node_id m = n_id n \<and> (\<forall>m' \<in> set (rows (db_node_metrics d)). nm_node_id m' = n_id n \<longrightarrow> nm_id m' \<le> nm_id m) \<longrightarrow>
      filter (\<lambda>(node, x). nm_node_id x = n_id n) (get_latest_node_metrics d) = [(n_name n, m)]"
    using latest_once [OF assms(1,2)] by blast
qed

theorem scrape_roundtrip_witness:
  "\<exists>stats nms. scrape (fst (metrics_text (minutes 5) 0 health_db Map.empty)) = Some (summary_samples stats @ node_samples nms) \<and> length nms = 1"
proof -
  obtain stats cache1 where stats: "get_dashboard_stats (minutes 5) 0 24 health_db Map.empty = (stats, cache1)" by fastforce
  have wf: "table_wf nm_id (db_node_metrics health_db)" "table_wf n_id (db_nodes health_db)"
    "\<forall>n \<in> set (rows (db_nodes health_db)). quotable (n_name n)"
    by (simp_all add: health_db_def booted_db_def new_node_def table_wf_def quotable_def)
  have "length (get_latest_node_metrics health_db) = 1"
    by (simp add: get_latest_node_metrics_def map_filter_def health_db_def booted_db_def new_node_def tbl_find_def)
  then show ?thesis
    using scrape_roundtrip [OF wf stats] by (intro exI [of _ stats] exI [of _ "get_latest_node_metrics health_db"]) simp
qed

text \<open>
  A quote in a node name ends its label early: then no sample of the whole text is read.
\<close>

theorem quoted_name_fails_scrape:
  assumes "(''a'' @ [CHR 0x22] @ ''b'', m) \<in> set (get_latest_node_metrics d)"
    and "\<forall>(node, m) \<in> set (get_latest_node_metrics d). one_line node"
  shows "scrape (fst (metrics_text now clock d cache)) = None"
proof -
  let ?l = "node_line (recursor ''cache_hits'') (''a'' @ [CHR 0x22] @ ''b'') None (nm_cache_hits m)"
  have "?l \<in> set (node_lines (get_latest_node_metrics d))" using assms(1) by (force simp: node_lines_def node_family_def)
  moreover have "read_sample ?l = None" "?l \<noteq> []" "\<not> startswith ''#'' ?l"
    by (simp_all add: read_sample_def node_line_def recursor_def startswith_def read_labels.simps)
  ultimately show ?thesis
    unfolding scrape_metrics_text [OF assms(2)] by (intro scrape_lines_fails [of ?l]) simp_all
qed

end
