(* ===== verification/Backups.thy ===== *)
theory Backups
  imports System_Health "HOL-Library.AList" "HOL-Library.List_Lexorder" "HOL-Library.Char_ord"
begin

text \<open>
  Backups (\<open>admin-ui/app/routers/backup.py\<close>): dumps of the database and archives of the generated
  configuration in the directory \<open>/backups\<close>, their list, and their download and removal by name.  The
  file system is a table from paths, lists of components, to files and directories.  \<open>pg_dump\<close> and
  \<open>psql\<close> are programs outside the repository: how a run of them ends is a parameter, as are the bytes
  of an archive and the local time printed into a file name.
\<close>

section \<open>Files\<close>

type_synonym path = "string list"

datatype fs_node =
    FileNode (fn_data: string) (fn_mtime: instant)
  | DirNode (fn_size: nat) (fn_mtime: instant)

type_synonym fs = "(path \<times> fs_node) list"

fun st_size :: "fs_node \<Rightarrow> nat" where
  "st_size (FileNode data t) = length data"
| "st_size (DirNode n t) = n"

text \<open>\<open>base / name\<close>: an absolute name starts anew, empty components and single dots are dropped.\<close>

definition path_join :: "path \<Rightarrow> string \<Rightarrow> path" where
  "path_join base name =
     (if startswith ''/'' name then [] else base) @ filter (\<lambda>c. c \<noteq> [] \<and> c \<noteq> ''.'') (split_on CHR ''/'' name)"

definition iterdir :: "path \<Rightarrow> fs \<Rightarrow> (string \<times> fs_node) list" where
  "iterdir p files = map (\<lambda>(q, n). (last q, n)) (filter (\<lambda>(q, n). q \<noteq> [] \<and> butlast q = p) files)"

definition mkdir_p :: "path \<Rightarrow> instant \<Rightarrow> fs \<Rightarrow> fs" where
  "mkdir_p p now files = (if map_of files p = None then AList.update p (DirNode 0 now) files else files)"

text \<open>The suffix of a name: from its last dot, which is neither its first nor its last character.\<close>

definition suffix :: "string \<Rightarrow> string" where
  "suffix name =
     (let tail = rev (takeWhile (\<lambda>c. c \<noteq> CHR ''.'') (rev name))
      in if tail = [] \<or> length name \<le> length tail + 1 then [] else CHR ''.'' # tail)"

definition endswith :: "string \<Rightarrow> string \<Rightarrow> bool" where
  "endswith s e = startswith (rev e) (rev s)"

section \<open>The list of backups\<close>

definition BACKUP_DIR :: path where
  "BACKUP_DIR = [''backups'']"

definition SHARED_DIR :: path where
  "SHARED_DIR = [''shared'']"

fun human_size_from :: "string list \<Rightarrow> rat \<Rightarrow> string" where
  "human_size_from [] sz = show_fixed1 sz @ '' TB''"
| "human_size_from (u # us) sz =
     (if sz < 1024 then show_fixed1 sz @ '' '' @ u else human_size_from us (sz / 1024))"

definition human_size :: "nat \<Rightarrow> string" where
  "human_size sz = human_size_from [''B'', ''KB'', ''MB'', ''GB''] (of_nat sz)"

record backup =
  bk_name :: string
  bk_size :: nat
  bk_size_human :: string
  bk_mtime :: instant
  bk_type :: string

definition backup_of :: "string \<times> fs_node \<Rightarrow> backup" where
  "backup_of f =
     \<lparr>bk_name = fst f, bk_size = st_size (snd f), bk_size_human = human_size (st_size (snd f)), bk_mtime = fn_mtime (snd f),
      bk_type = (if suffix (fst f) = ''.sql'' then ''database'' else ''config'')\<rparr>"

definition get_backups :: "fs \<Rightarrow> backup list" where
  "get_backups files =
     (if map_of files BACKUP_DIR = None then []
      else take 20 (map backup_of (filter (\<lambda>f. suffix (fst f) \<in> {''.sql'', ''.gz''})
             (rev (sort_key fst (iterdir BACKUP_DIR files))))))"

section \<open>The handlers\<close>

datatype backup_response =
    BRedirect string
  | BPage "backup list" string
  | BFile string string string
  | BRaised string

definition backup_page :: "int option \<Rightarrow> fs \<Rightarrow> db \<Rightarrow> backup_response" where
  "backup_page sid files d =
     (case get_current_user sid d of
        None \<Rightarrow> BRedirect ''/login''
      | Some u \<Rightarrow> BPage (get_backups files) (get_timezone d))"

text \<open>How the run of a program ends: its exit code and output, the time limit, or an exception.\<close>

datatype run_result = Finished int string | TimedOut | Broken string

definition create_database_backup :: "run_result \<Rightarrow> string \<Rightarrow> instant \<Rightarrow> int option \<Rightarrow> db \<Rightarrow> fs \<Rightarrow> backup_response \<times> fs" where
  "create_database_backup pg_dump timestamp now sid d files =
     (case get_current_user sid d of
        None \<Rightarrow> (BRedirect ''/login'', files)
      | Some u \<Rightarrow>
          (let backup_file = path_join BACKUP_DIR (''manual-'' @ timestamp @ ''.sql'');
               files1 = mkdir_p BACKUP_DIR now files
           in case pg_dump of
                Finished code out \<Rightarrow>
                  if code = 0
                  then (BRedirect ''/backup?message=Database+backup+created'', AList.update backup_file (FileNode out now) files1)
                  else (BRedirect ''/backup?error=Backup+failed'', files1)
              | TimedOut \<Rightarrow> (BRedirect ''/backup?error=Backup+timed+out'', files1)
              | Broken e \<Rightarrow> (BRedirect (''/backup?error='' @ take 50 e), files1)))"

text \<open>
  The members of an archive: a directory and all below it, under another name.  \<open>pack\<close> is the archive
  as bytes, or, when packing raises, what is on disk by then and the message.
\<close>

definition members :: "path \<Rightarrow> path \<Rightarrow> fs \<Rightarrow> (path \<times> fs_node) list" where
  "members p arcname files =
     map (\<lambda>(q, n). (arcname @ drop (length p) q, n)) (filter (\<lambda>(q, n). take (length p) q = p) files)"

definition config_members :: "fs \<Rightarrow> (path \<times> fs_node) list" where
  "config_members files =
     (let rpz_dir = path_join SHARED_DIR ''rpz''; fz_dir = path_join SHARED_DIR ''forward-zones''
      in (if map_of files rpz_dir \<noteq> None then members rpz_dir [''rpz''] files else []) @
         (if map_of files fz_dir \<noteq> None then members fz_dir [''forward-zones''] files else []))"

definition create_config_backup ::
  "((path \<times> fs_node) list \<Rightarrow> (string \<times> string) + string) \<Rightarrow> string \<Rightarrow> instant \<Rightarrow> int option \<Rightarrow> db \<Rightarrow> fs \<Rightarrow> backup_response \<times> fs" where
  "create_config_backup pack timestamp now sid d files =
     (case get_current_user sid d of
        None \<Rightarrow> (BRedirect ''/login'', files)
      | Some u \<Rightarrow>
          (let backup_file = path_join BACKUP_DIR (''config-'' @ timestamp @ ''.tar.gz'');
               files1 = mkdir_p BACKUP_DIR now files
           in case pack (config_members files1) of
                Inr data \<Rightarrow> (BRedirect ''/backup?message=Config+backup+created'', AList.update backup_file (FileNode data now) files1)
              | Inl (partial, e) \<Rightarrow> (BRedirect (''/backup?error='' @ take 50 e), AList.update backup_file (FileNode partial now) files1)))"

definition valid_name :: "string \<Rightarrow> bool" where
  "valid_name filename \<longleftrightarrow> \<not> (substr_in ''..'' filename \<or> substr_in ''/'' filename)"

text \<open>Opening or unlinking a directory raises.\<close>

definition download_backup :: "string \<Rightarrow> int option \<Rightarrow> db \<Rightarrow> fs \<Rightarrow> backup_response" where
  "download_backup filename sid d files =
     (case get_current_user sid d of
        None \<Rightarrow> BRedirect ''/login''
      | Some u \<Rightarrow>
          if \<not> valid_name filename then BRedirect ''/backup?error=Invalid+filename''
          else (case map_of files (path_join BACKUP_DIR filename) of
                  None \<Rightarrow> BRedirect ''/backup?error=File+not+found''
                | Some (DirNode n t) \<Rightarrow> BRaised ''IsADirectoryError''
                | Some (FileNode data t) \<Rightarrow>
                    BFile data (if endswith filename ''.gz'' then ''application/gzip'' else ''application/sql'')
                      (''attachment; filename='' @ [CHR 0x22] @ filename @ [CHR 0x22])))"

definition delete_backup :: "string \<Rightarrow> int option \<Rightarrow> db \<Rightarrow> fs \<Rightarrow> backup_response \<times> fs" where
  "delete_backup filename sid d files =
     (case get_current_user sid d of
        None \<Rightarrow> (BRedirect ''/login'', files)
      | Some u \<Rightarrow>
          if \<not> valid_name filename then (BRedirect ''/backup?error=Invalid+filename'', files)
          else (case map_of files (path_join BACKUP_DIR filename) of
                  None \<Rightarrow> (BRedirect ''/backup?error=File+not+found'', files)
                | Some (DirNode n t) \<Rightarrow> (BRaised ''IsADirectoryError'', files)
                | Some (FileNode data t) \<Rightarrow>
                    (BRedirect ''/backup?message=Backup+deleted'', AList.delete (path_join BACKUP_DIR filename) files)))"

text \<open>
  A restore runs \<open>psql\<close> on the decoded upload, whose failure to decode is an exception with a message;
  what \<open>psql\<close> was given is returned beside the response.
\<close>

definition restore_database ::
  "(string \<Rightarrow> string + string) \<Rightarrow> (string \<Rightarrow> string + int) \<Rightarrow> string option \<Rightarrow> string \<Rightarrow> int option \<Rightarrow> db \<Rightarrow> backup_response \<times> string option" where
  "restore_database decode psql filename data sid d =
     (case get_current_user sid d of
        None \<Rightarrow> (BRedirect ''/login'', None)
      | Some u \<Rightarrow>
          if \<not> truthy filename \<or> \<not> endswith (the filename) ''.sql'' then (BRedirect ''/backup?error=Invalid+file+type'', None)
          else (case decode data of
                  Inl e \<Rightarrow> (BRedirect (''/backup?error='' @ take 50 e), None)
                | Inr sql \<Rightarrow>
                    (case psql sql of
                       Inr code \<Rightarrow>
                         (BRedirect (if code = 0 then ''/backup?message=Database+restored'' else ''/backup?error=Restore+failed''), Some sql)
                     | Inl e \<Rightarrow> (BRedirect (''/backup?error='' @ take 50 e), Some sql))))"

section \<open>Names and paths\<close>

lemma startswith_slash: "startswith ''/'' s \<longleftrightarrow> (\<exists>t. s = CHR ''/'' # t)"
  by (auto simp: startswith_iff)

lemma substr_slash: "substr_in ''/'' s \<longleftrightarrow> CHR ''/'' \<in> set s"
  by (induction s) (auto simp: startswith_slash)

lemma path_join_valid:
  assumes "valid_name filename"
  shows "path_join base filename = (if filename = [] \<or> filename = ''.'' then base else base @ [filename])"
  using assms by (auto simp: path_join_def valid_name_def substr_slash startswith_slash split_on_no_sep)

text \<open>The dot names the directory itself, so downloading or deleting it raises.\<close>

theorem dot_is_the_directory:
  assumes "get_current_user sid d = Some u" and "map_of files BACKUP_DIR = Some (DirNode n t)"
  shows "download_backup ''.'' sid d files = BRaised ''IsADirectoryError'' \<and>
    delete_backup ''.'' sid d files = (BRaised ''IsADirectoryError'', files)"
proof -
  have "valid_name ''.''" by (simp add: valid_name_def startswith_def)
  from path_join_valid [OF this, of BACKUP_DIR] this show ?thesis
    using assms by (simp add: download_backup_def delete_backup_def)
qed

section \<open>The order of the list\<close>

definition listed :: "fs \<Rightarrow> (string \<times> fs_node) list" where
  "listed files = filter (\<lambda>f. suffix (fst f) \<in> {''.sql'', ''.gz''}) (rev (sort_key fst (iterdir BACKUP_DIR files)))"

lemma get_backups_listed: "get_backups files = (if map_of files BACKUP_DIR = None then [] else map backup_of (take 20 (listed files)))"
  by (simp add: get_backups_def listed_def take_map)

lemma listed_descending: "sorted_wrt (\<lambda>f g. fst g \<le> fst f) (listed files)"
proof -
  have "sorted_wrt (\<lambda>f g. fst f \<le> fst g) (sort_key fst (iterdir BACKUP_DIR files))"
    using sorted_sort_key [of fst "iterdir BACKUP_DIR files"] by (simp add: sorted_map)
  then show ?thesis unfolding listed_def by (intro sorted_wrt_filter) (simp add: sorted_wrt_rev)
qed

lemma config_below_manual: "startswith ''config-'' x \<Longrightarrow> startswith ''manual-'' y \<Longrightarrow> x < (y :: string)"
  by (auto simp: startswith_iff less_char_def)

text \<open>
  The list is by name, the greatest first, and \<open>manual-\<close> is greater than \<open>config-\<close>: with twenty dumps
  of the database no archive of the configuration is listed, however new it is.
\<close>

theorem dumps_hide_archives:
  assumes "20 \<le> length (filter (\<lambda>f. startswith ''manual-'' (fst f)) (listed files))" and "b \<in> set (get_backups files)"
  shows "\<not> startswith ''config-'' (bk_name b)"
proof
  assume config: "startswith ''config-'' (bk_name b)"
  let ?M = "\<lambda>f. startswith ''manual-'' (fst f)"
  obtain i where i: "i < length (listed files)" "i < 20" and b: "b = backup_of (listed files ! i)"
    using assms(2) by (auto simp: get_backups_listed in_set_conv_nth split: if_splits)
  have "fst (listed files ! i) \<ge> fst f" if f: "f \<in> set (drop i (listed files))" for f
  proof -
    obtain j where "f = listed files ! (i + j)" "i + j < length (listed files)"
      using f by (fastforce simp: in_set_conv_nth less_diff_conv add.commute)
    then show ?thesis using sorted_wrt_nth_less [OF listed_descending, of i "i + j"] by (cases "j = 0") auto
  qed
  then have "\<not> ?M f" if "f \<in> set (drop i (listed files))" for f
    using config_below_manual [OF config, of "fst f"] that by (fastforce simp: b backup_of_def)
  then have "filter ?M (drop i (listed files)) = []" by (simp add: filter_empty_conv)
  then have "filter ?M (listed files) = filter ?M (take i (listed files))"
    by (metis append.right_neutral append_take_drop_id filter_append)
  then have "length (filter ?M (listed files)) \<le> i" using length_filter_le [of ?M "take i (listed files)"] by simp
  with assms(1) i(2) show False by simp
qed

section \<open>Properties\<close>

text \<open>
  C37: a name in a request never leaves the backup directory.  Whatever the name, a download returns
  the content of the file of that name directly in the directory or no content at all, a removal
  removes exactly that file or nothing, and without a user neither does anything.
\<close>

theorem backups_confined:
  assumes "map_of files BACKUP_DIR = Some (DirNode n t)"
  shows "(\<forall>data media header. download_backup filename sid d files = BFile data media header \<longrightarrow>
      get_current_user sid d \<noteq> None \<and> CHR ''/'' \<notin> set filename \<and> (\<exists>t. map_of files (BACKUP_DIR @ [filename]) = Some (FileNode data t))) \<and>
    (\<forall>p. map_of (snd (delete_backup filename sid d files)) p \<noteq> map_of files p \<longrightarrow>
      get_current_user sid d \<noteq> None \<and> CHR ''/'' \<notin> set filename \<and> p = BACKUP_DIR @ [filename] \<and>
      map_of (snd (delete_backup filename sid d files)) p = None)"
proof (cases "valid_name filename")
  case True
  then have "CHR ''/'' \<notin> set filename" by (simp add: valid_name_def substr_slash)
  with path_join_valid [OF True, of BACKUP_DIR] assms show ?thesis
    by (auto simp: download_backup_def delete_backup_def True delete_conv split: option.splits fs_node.splits if_splits)
qed (auto simp: download_backup_def delete_backup_def split: option.splits)

definition backup_fs :: fs where
  "backup_fs = [([''backups''], DirNode 0 0), ([''backups'', ''manual-1.sql''], FileNode ''SELECT 1;'' 0), ([''etc''], DirNode 0 0)]"

theorem backups_confined_witness:
  "map_of (snd (delete_backup ''manual-1.sql'' (Some 1) health_db backup_fs)) [''backups'', ''manual-1.sql''] = None \<and>
   map_of (snd (delete_backup ''manual-1.sql'' (Some 1) health_db backup_fs)) [''etc''] = Some (DirNode 0 0)"
proof
  show "map_of (snd (delete_backup ''manual-1.sql'' (Some 1) health_db backup_fs)) [''backups'', ''manual-1.sql''] = None" by code_simp
  have "map_of backup_fs BACKUP_DIR = Some (DirNode 0 0)" by (simp add: backup_fs_def BACKUP_DIR_def)
  then have "map_of (snd (delete_backup ''manual-1.sql'' (Some 1) health_db backup_fs)) [''etc''] = map_of backup_fs [''etc'']"
    using backups_confined [of backup_fs 0 0 "''manual-1.sql''" "Some 1" health_db] by (auto simp: BACKUP_DIR_def)
  then show "map_of (snd (delete_backup ''manual-1.sql'' (Some 1) health_db backup_fs)) [''etc''] = Some (DirNode 0 0)"
    by (simp add: backup_fs_def)
qed

section \<open>Sequences of requests\<close>

datatype backup_request =
    DumpDatabase run_result string instant
  | PackConfig "(path \<times> fs_node) list \<Rightarrow> (string \<times> string) + string" string instant
  | DeleteFile string

fun run_request :: "int option \<Rightarrow> db \<Rightarrow> backup_request \<Rightarrow> fs \<Rightarrow> fs" where
  "run_request sid d (DumpDatabase r stamp now) files = snd (create_database_backup r stamp now sid d files)"
| "run_request sid d (PackConfig pack stamp now) files = snd (create_config_backup pack stamp now sid d files)"
| "run_request sid d (DeleteFile filename) files = snd (delete_backup filename sid d files)"

fun targets :: "backup_request \<Rightarrow> path set" where
  "targets (DumpDatabase r stamp now) = {BACKUP_DIR, path_join BACKUP_DIR (''manual-'' @ stamp @ ''.sql'')}"
| "targets (PackConfig pack stamp now) = {BACKUP_DIR, path_join BACKUP_DIR (''config-'' @ stamp @ ''.tar.gz'')}"
| "targets (DeleteFile filename) = {path_join BACKUP_DIR filename}"

text \<open>The contract of a request: it changes none but its targets.\<close>

locale framed_requests =
  fixes read :: "'s \<Rightarrow> 'p \<Rightarrow> 'v option" and run :: "'r \<Rightarrow> 's \<Rightarrow> 's" and touched :: "'r \<Rightarrow> 'p set"
  assumes frame: "p \<notin> touched r \<Longrightarrow> read (run r s) p = read s p"
begin

lemma kept: "\<forall>r \<in> set rs. p \<notin> touched r \<Longrightarrow> read (fold run rs s) p = read s p"
  by (induction rs arbitrary: s) (simp_all add: frame)

lemma written_kept: "read s p = Some v \<Longrightarrow> \<forall>r \<in> set rs. p \<notin> touched r \<Longrightarrow> read (fold run rs s) p = Some v"
  by (simp add: kept)

end

lemma map_of_mkdir_p: "map_of (mkdir_p q now files) p = (if p = q \<and> map_of files q = None then Some (DirNode 0 now) else map_of files p)"
  by (simp add: mkdir_p_def update_conv)

interpretation requests: framed_requests map_of "run_request sid d" targets for sid d
proof
  fix p r and files :: fs
  assume "p \<notin> targets r"
  then show "map_of (run_request sid d r files) p = map_of files p"
    by (cases r) (auto simp: create_database_backup_def create_config_backup_def delete_backup_def Let_def update_conv delete_conv map_of_mkdir_p
        split: option.splits run_result.splits sum.splits fs_node.splits)
qed

text \<open>
  A backup stays as it was made.  Once a dump of the database succeeds, and through any later
  requests that neither delete that file nor dump in the same second, a download by a user
  returns what \<open>pg_dump\<close> printed; the dump and every one of the requests leave all other backups alone.
\<close>

theorem backup_roundtrip:
  assumes "get_current_user sid d = Some u" and "name = ''manual-'' @ stamp @ ''.sql''" and "valid_name name"
    and "\<forall>r \<in> set rs. BACKUP_DIR @ [name] \<notin> targets r"
    and "create_database_backup (Finished 0 out) stamp now sid d files = (response, files1)"
  shows "response = BRedirect ''/backup?message=Database+backup+created'' \<and>
    download_backup name sid d (fold (run_request sid' d') rs files1) =
      BFile out ''application/sql'' (''attachment; filename='' @ [CHR 0x22] @ name @ [CHR 0x22]) \<and>
    (\<forall>other. other \<noteq> name \<longrightarrow> map_of files1 (BACKUP_DIR @ [other]) = map_of files (BACKUP_DIR @ [other]))"
proof -
  have "name \<noteq> [] \<and> name \<noteq> ''.''" by (simp add: assms(2))
  then have p: "path_join BACKUP_DIR name = BACKUP_DIR @ [name]" by (simp add: path_join_valid [OF assms(3)])
  have files1: "response = BRedirect ''/backup?message=Database+backup+created''" "map_of files1 = (map_of (mkdir_p BACKUP_DIR now files))(BACKUP_DIR @ [name] \<mapsto> FileNode out now)"
    using assms(1,5) p [unfolded assms(2)] by (auto simp: create_database_backup_def Let_def update_conv' assms(2))
  then have "map_of files1 (BACKUP_DIR @ [name]) = Some (FileNode out now)" by simp
  from requests.written_kept [OF this assms(4), of sid' d'] have "map_of (fold (run_request sid' d') rs files1) (BACKUP_DIR @ [name]) = Some (FileNode out now)" .
  moreover have "\<not> endswith name ''.gz''" by (simp add: assms(2) endswith_def startswith_def)
  ultimately show ?thesis using files1 assms(1,3) p by (simp add: download_backup_def map_of_mkdir_p)
qed

theorem backup_roundtrip_witness:
  "\<exists>files1. create_database_backup (Finished 0 ''COPY'') ''7'' 5 (Some 1) health_db [] = (BRedirect ''/backup?message=Database+backup+created'', files1) \<and>
    download_backup ''manual-7.sql'' (Some 1) health_db (fold (run_request None health_db) [DeleteFile ''manual-6.sql''] files1) =
      BFile ''COPY'' ''application/sql'' (''attachment; filename='' @ [CHR 0x22] @ ''manual-7.sql'' @ [CHR 0x22])"
proof -
  have user: "get_current_user (Some 1) health_db = Some \<lparr>u_id = 1, u_username = ''admin'', u_password_hash = []\<rparr>"
    by (simp add: get_current_user_def health_db_def tbl_find_def)
  have valid: "valid_name ''manual-7.sql''" by (simp add: valid_name_def startswith_def)
  have keep: "\<forall>r \<in> set [DeleteFile ''manual-6.sql'']. BACKUP_DIR @ [''manual-7.sql''] \<notin> targets r"
    by (simp add: BACKUP_DIR_def path_join_def startswith_def)
  obtain response files1 where made: "create_database_backup (Finished 0 ''COPY'') ''7'' 5 (Some 1) health_db [] = (response, files1)" by fastforce
  show ?thesis
    using backup_roundtrip [OF user _ valid keep made, where sid' = None and d' = health_db] made by (intro exI [of _ files1]) simp
qed

end
