(* ===== verification/Node_Package.thy ===== *)
theory Node_Package
  imports System_Health
begin

unbundle bit_operations_syntax

text \<open>
  The package of a new secondary (\<open>admin-ui/app/services/node_generator.py\<close>): the environment file
  with its secrets, the compose file, the configuration of the services and their modes in the
  archive.  The archive is the list of its members; its encoding and the random passwords come from
  outside.  The texts are those of the source, each a list of lines that the code writes as one
  indented literal and passes through \<open>textwrap.dedent\<close>, after the values have been put in.
\<close>

section \<open>Removing the indentation of a literal\<close>

definition is_blank :: "char \<Rightarrow> bool" where
  "is_blank c \<longleftrightarrow> c = CHR '' '' \<or> c = CHR 0x09"

fun common_prefix :: "string \<Rightarrow> string \<Rightarrow> string" where
  "common_prefix (x # xs) (y # ys) = (if x = y then x # common_prefix xs ys else [])"
| "common_prefix _ _ = []"

definition margin_of :: "string list \<Rightarrow> string" where
  "margin_of ls =
     (case map (takeWhile is_blank) (filter (\<lambda>l. l \<noteq> []) ls) of
        [] \<Rightarrow> []
      | i # is \<Rightarrow> foldl common_prefix i is)"

definition dedent :: "string \<Rightarrow> string" where
  "dedent s =
     (let ls = map (\<lambda>l. if list_all is_blank l then [] else l) (split_on newline s);
          margin = margin_of ls
      in join [newline] (map (\<lambda>l. if startswith margin l then drop (length margin) l else l) ls))"

text \<open>
  A literal of the source: its lines, those that are not empty indented by eight, and the indentation
  of the closing quotes.
\<close>

definition literal :: "string list \<Rightarrow> string" where
  "literal ls =
     concat (map (\<lambda>l. (if l = [] then [] else replicate 8 (CHR '' '') @ l) @ [newline]) ls) @ replicate 8 (CHR '' '')"

section \<open>The environment file\<close>

definition env_lines :: "string \<Rightarrow> string \<Rightarrow> string \<Rightarrow> string \<Rightarrow> string \<Rightarrow> string \<Rightarrow> string \<Rightarrow> string list" where
  "env_lines pb_version safe_node primary_url node_api_key recursor_api_key recursor_web_password dnsdist_listen_address =
     [''POWERBLOCKADE_REPO=zerostate-io'',
      ''POWERBLOCKADE_VERSION='' @ pb_version,
      ''NODE_NAME='' @ safe_node,
      ''PRIMARY_URL='' @ primary_url,
      ''PRIMARY_API_KEY='' @ node_api_key,
      ''RECURSOR_API_KEY='' @ (if recursor_api_key = [] then ''change-me'' else recursor_api_key),
      ''RECURSOR_WEB_PASSWORD='' @ recursor_web_password,
      ''DNSDIST_LISTEN_ADDRESS='' @ dnsdist_listen_address,
      ''HEARTBEAT_INTERVAL_SECONDS=60'',
      ''CONFIG_SYNC_INTERVAL_SECONDS=300'',
      ''DOCKER_SUBNET=172.30.0.0/24'',
      ''RECURSOR_IP=172.30.0.10'',
      ''DNSTAP_PROCESSOR_IP=172.30.0.20'']"

section \<open>The compose file\<close>

definition init_permissions_service :: "string list" where
  "init_permissions_service =
     [''services:'',
      ''  init-permissions:'',
      ''    image: busybox:1.38.0'',
      ''    container_name: powerblockade-init-permissions'',
      ''    command: sh -c \"chown -R 1000:1000 /shared/rpz && chmod -R 775 /shared/rpz && touch /shared/rpz/.gitkeep && chown 1000:1000 /shared/forward-zones.conf && chmod 664 /shared/forward-zones.conf\"'',
      ''    volumes:'',
      ''      - ./rpz:/shared/rpz'',
      ''      - ./config/forward-zones.conf:/shared/forward-zones.conf'',
      ''    restart: \"no\"'',
      []]"

definition dnsdist_service :: "string list" where
  "dnsdist_service =
     [''  dnsdist:'',
      ''    image: powerdns/dnsdist-20:2.0.8'',
      ''    restart: unless-stopped'',
      ''    entrypoint: [\"/docker-entrypoint.sh\"]'',
      ''    environment:'',
      ''      RECURSOR_IP: ${RECURSOR_IP:-172.30.0.10}'',
      ''      DNSTAP_PROCESSOR_IP: ${DNSTAP_PROCESSOR_IP:-172.30.0.20}'',
      ''      RECURSOR_WAIT_TIMEOUT_SECONDS: ${RECURSOR_WAIT_TIMEOUT_SECONDS:-30}'',
      ''    ports:'',
      ''      - \"${DNSDIST_LISTEN_ADDRESS:-0.0.0.0}:53:53/udp\"'',
      ''      - \"${DNSDIST_LISTEN_ADDRESS:-0.0.0.0}:53:53/tcp\"'',
      ''    volumes:'',
      ''      - ./config/dnsdist.conf.template:/etc/dnsdist/dnsdist.conf.template:ro'',
      ''      - ./docker-entrypoint.sh:/docker-entrypoint.sh:ro'',
      ''      - dnstap-socket:/var/run/dnstap'',
      ''    cap_add:'',
      ''      - NET_BIND_SERVICE'',
      ''    networks:'',
      ''      - default'',
      ''    depends_on:'',
      ''      recursor:'',
      ''        condition: service_healthy'',
      ''    healthcheck:'',
      ''      test: [\"CMD-SHELL\", \"bash -c 'echo >/dev/tcp/127.0.0.1/53' || exit 1\"]'',
      ''      interval: 10s'',
      ''      timeout: 5s'',
      ''      retries: 3'',
      ''      start_period: 10s'',
      []]"

definition recursor_service :: "string list" where
  "recursor_service =
     [''  recursor:'',
      ''    image: ghcr.io/${POWERBLOCKADE_REPO:-zerostate-io}/powerblockade-recursor:${POWERBLOCKADE_VERSION:-latest}'',
      ''    restart: unless-stopped'',
      ''    command: [\"pdns_recursor\", \"--daemon=no\", \"--config-dir=/etc/pdns-recursor\", \"--enable-old-settings\"]'',
      ''    environment:'',
      ''      TZ: ${TIMEZONE:-America/Los_Angeles}'',
      ''      RECURSOR_API_KEY: ${RECURSOR_API_KEY}'',
      ''      # Basic-auth password for the metrics webserver (/metrics'',
      ''      # authenticates with the WEBserver password, never the'',
      ''      # api-key). No default: an unset/invalid value makes the image'',
      ''      # entrypoint generate a random per-start password with a'',
      ''      # warning instead of starting passwordless.'',
      ''      RECURSOR_WEB_PASSWORD: ${RECURSOR_WEB_PASSWORD:-}'',
      ''    expose:'',
      ''      - \"5300\"'',
      ''      - \"8082\"'',
      ''    networks:'',
      ''      default:'',
      ''        ipv4_address: ${RECURSOR_IP:-172.30.0.10}'',
      ''    healthcheck:'',
      ''      test: [\"CMD-SHELL\", \"rec_control --socket-dir=/var/run/pdns-recursor ping | grep -qi pong || exit 1\"]'',
      ''      interval: 10s'',
      ''      timeout: 5s'',
      ''      retries: 3'',
      ''      start_period: 10s'',
      ''    volumes:'',
      ''      # Rendered to /etc/pdns-recursor/recursor.conf by the image'',
      ''      # entrypoint, which substitutes ${RECURSOR_API_KEY} and'',
      ''      # ${RECURSOR_WEB_PASSWORD} (see recursor/docker-entrypoint.sh'',
      ''      # in the repo - same contract as the primary stack).'',
      ''      - ./config/recursor.conf.template:/etc/pdns-recursor/recursor.conf.template:ro'',
      ''      - ./config/rpz.lua:/etc/pdns-recursor/rpz.lua:ro'',
      ''      - ./config/forward-zones.conf:/etc/pdns-recursor/forward-zones.conf:ro'',
      ''      - ./rpz:/etc/pdns-recursor/rpz'',
      ''      - recursor-control-socket:/var/run/pdns-recursor'',
      []]"

definition recursor_reloader_service :: "string list" where
  "recursor_reloader_service =
     [''  recursor-reloader:'',
      ''    image: ghcr.io/${POWERBLOCKADE_REPO:-zerostate-io}/powerblockade-recursor-reloader:${POWERBLOCKADE_VERSION:-latest}'',
      ''    restart: unless-stopped'',
      ''    environment:'',
      ''      RELOADER_SOCKET_DIR: /var/run/pdns-recursor'',
      ''      RELOADER_RPZ_DIR: /shared/rpz'',
      ''      RELOADER_FORWARD_ZONES: /shared/forward-zones.conf'',
      ''      RELOADER_DEBOUNCE_SECONDS: \"2\"'',
      ''    volumes:'',
      ''      - recursor-control-socket:/var/run/pdns-recursor'',
      ''      - ./config/forward-zones.conf:/shared/forward-zones.conf:ro'',
      ''      - ./rpz:/shared/rpz'',
      ''    depends_on:'',
      ''      recursor:'',
      ''        condition: service_healthy'',
      []]"

definition dnstap_processor_service :: "string list" where
  "dnstap_processor_service =
     [''  dnstap-processor:'',
      ''    image: ghcr.io/${POWERBLOCKADE_REPO:-zerostate-io}/powerblockade-dnstap-processor:${POWERBLOCKADE_VERSION:-latest}'',
      ''    restart: unless-stopped'',
      ''    environment:'',
      ''      NODE_NAME: ${NODE_NAME}'',
      ''      DNSTAP_SOCKET: /var/run/dnstap/dnstap.sock'',
      ''      PRIMARY_URL: ${PRIMARY_URL}'',
      ''      PRIMARY_API_KEY: ${PRIMARY_API_KEY}'',
      ''      DNSTAP_LISTEN: \"0.0.0.0:6000\"'',
      ''      # Client subnets flagged is_internal (excluded from analytics).'',
      ''      # Defaults to the docker subnet; comma-separated to add more.'',
      ''      INTERNAL_SUBNETS: ${INTERNAL_SUBNETS:-${DOCKER_SUBNET:-172.30.0.0/24}}'',
      ''    networks:'',
      ''      default:'',
      ''        ipv4_address: ${DNSTAP_PROCESSOR_IP:-172.30.0.20}'',
      ''    volumes:'',
      ''      - dnstap-socket:/var/run/dnstap'',
      ''    depends_on:'',
      ''      dnsdist:'',
      ''        condition: service_healthy'',
      []]"

definition sync_agent_service :: "string list" where
  "sync_agent_service =
     [''  sync-agent:'',
      ''    image: ghcr.io/${POWERBLOCKADE_REPO:-zerostate-io}/powerblockade-sync-agent:${POWERBLOCKADE_VERSION:-latest}'',
      ''    restart: unless-stopped'',
      ''    environment:'',
      ''      NODE_NAME: ${NODE_NAME}'',
      ''      PRIMARY_URL: ${PRIMARY_URL}'',
      ''      PRIMARY_API_KEY: ${PRIMARY_API_KEY}'',
      ''      RECURSOR_API_KEY: ${RECURSOR_API_KEY}'',
      ''      # /metrics requires HTTP basic auth with the webserver'',
      ''      # password (any username); the api-key does not authorize it.'',
      ''      RECURSOR_WEB_PASSWORD: ${RECURSOR_WEB_PASSWORD:-}'',
      ''      RECURSOR_API_URL: http://recursor:8082'',
      ''      HEARTBEAT_INTERVAL_SECONDS: ${HEARTBEAT_INTERVAL_SECONDS:-60}'',
      ''      CONFIG_SYNC_INTERVAL_SECONDS: ${CONFIG_SYNC_INTERVAL_SECONDS:-300}'',
      ''      RPZ_DIR: /rpz'',
      ''      FORWARD_ZONES_PATH: /config/forward-zones.conf'',
      ''    volumes:'',
      ''      - ./config:/config'',
      ''      - ./rpz:/rpz'',
      ''      - metrics-buffer:/var/lib/powerblockade'',
      ''    depends_on:'',
      ''      init-permissions:'',
      ''        condition: service_completed_successfully'',
      ''      recursor:'',
      ''        condition: service_healthy'',
      []]"

definition compose_tail :: "string list" where
  "compose_tail =
     [''volumes:'',
      ''  dnstap-socket:'',
      ''  recursor-control-socket:'',
      ''  metrics-buffer:'',
      [],
      ''networks:'',
      ''  default:'',
      ''    ipam:'',
      ''      config:'',
      ''        - subnet: ${DOCKER_SUBNET:-172.30.0.0/24}'']"

definition compose_lines :: "string list" where
  "compose_lines = init_permissions_service @ dnsdist_service @ recursor_service @ recursor_reloader_service @
     dnstap_processor_service @ sync_agent_service @ compose_tail"

section \<open>The other files\<close>

definition readme_lines :: "string \<Rightarrow> string list" where
  "readme_lines safe_node =
     [''# PowerBlockade Secondary Node: '' @ safe_node,
      [],
      ''## Quick start'',
      [],
      ''1. Copy this folder to your secondary host'',
      ''2. Review `.env`:'',
      ''   - `PRIMARY_URL` - URL of the primary Admin UI (e.g., http://192.168.1.10:8080)'',
      ''   - `RECURSOR_API_KEY` - Set a secure random key'',
      ''   - `RECURSOR_WEB_PASSWORD` - Basic-auth password for the recursor metrics'',
      ''     webserver (pre-generated; replace to rotate, then restart recursor'',
      ''     and sync-agent)'',
      ''   - `DNSDIST_LISTEN_ADDRESS` - Set to host's LAN IP if port 53 conflicts'',
      ''   - `DOCKER_SUBNET` - If changed, also update `webserver-allow-from` in'',
      ''     `config/recursor.conf.template` (it only admits the default'',
      ''     172.30.0.0/16 compose network)'',
      ''3. Run:'',
      [],
      ''   docker compose -f docker-compose.ghcr.yml up -d'',
      [],
      ''## Architecture'',
      [],
      ''This is a headless mirror of the primary node:'',
      ''- **dnsdist** - Receives DNS queries, forwards to recursor, logs client IPs via dnstap'',
      ''- **recursor** - PowerDNS Recursor with RPZ blocking (synced from primary)'',
      ''- **recursor-reloader** - Watches config files and reloads recursor on changes'',
      ''- **dnstap-processor** - Ships query logs to primary'',
      ''- **sync-agent** - Pulls config from primary every 300s, writes changed files,'',
      ''  scrapes authenticated recursor metrics'',
      [],
      ''No admin UI - all management is done via the primary.'',
      [],
      ''## Sync behavior'',
      [],
      ''- Config (RPZ, forward zones) syncs within 300 seconds of changes on primary'',
      ''- Recursor reloads automatically when the reloader sidecar detects changed files'',
      ''- Cache clear commands propagate within 60 seconds'',
      ''- Emergency blocking disable/pause takes effect within 60 seconds'']"

definition recursor_conf_lines :: "string list" where
  "recursor_conf_lines =
     [''local-address=0.0.0.0'',
      ''local-port=5300'',
      ''allow-from=0.0.0.0/0, ::/0'',
      ''threads=4'',
      ''pdns-distributes-queries=yes'',
      ''reuseport=yes'',
      ''max-cache-entries=2000000'',
      ''max-packetcache-entries=1000000'',
      ''packetcache-ttl=86400'',
      ''packetcache-negative-ttl=60'',
      ''packetcache-servfail-ttl=5'',
      ''lua-config-file=/etc/pdns-recursor/rpz.lua'',
      ''forward-zones-file=/etc/pdns-recursor/forward-zones.conf'',
      [],
      ''# API / metrics webserver. Port 8082 is not published to the host;'',
      ''# only in-network services (sync-agent) reach it. Auth matrix'',
      ''# (verified on powerdns/pdns-recursor-53:5.3.10): /metrics requires'',
      ''# HTTP basic auth with webserver-password (any username; the api-key'',
      ''# does NOT authorize /metrics), and an EMPTY webserver-password'',
      ''# leaves the whole webserver unauthenticated - the entrypoint'',
      ''# therefore substitutes a random password with a warning when'',
      ''# RECURSOR_WEB_PASSWORD is unset or invalid. Sources outside'',
      ''# webserver-allow-from are dropped at the TCP level; the allow-from'',
      ''# covers this package's compose network (DOCKER_SUBNET default'',
      ''# 172.30.0.0/24) - update it if you change DOCKER_SUBNET.'',
      ''webserver=yes'',
      ''webserver-address=0.0.0.0'',
      ''webserver-port=8082'',
      ''webserver-allow-from=172.30.0.0/16'',
      ''api-key=${RECURSOR_API_KEY}'',
      ''webserver-password=${RECURSOR_WEB_PASSWORD}'']"

definition dnsdist_conf_lines :: "string list" where
  "dnsdist_conf_lines =
     [''-- Secondary node dnsdist config'',
      ''setLocal('0.0.0.0:53', { reusePort=true })'',
      ''newServer({'',
      ''    address='${RECURSOR_IP}:5300','',
      ''    name='recursor','',
      ''    sockets=4,'',
      ''    -- ECS is dead overhead: the recursor ignores incoming ECS by'',
      ''    -- default, so useClientSubnet=true only added per-miss cost.'',
      ''    -- Experiment E2; rollback: set useClientSubnet=true.'',
      ''    useClientSubnet=false'',
      ''})'',
      ''setServerPolicy(firstAvailable)'',
      [],
      ''local pc = newPacketCache(500000, {'',
      ''  maxTTL=86400,'',
      ''  minTTL=1,'',
      ''  temporaryFailureTTL=5,'',
      ''  -- Experiment E4; rollback: 60.'',
      ''  staleTTL=300,'',
      ''  dontAge=false,'',
      ''  shuffle=true,'',
      ''  -- Required for staleTTL to deliver: without it the cache cleaner'',
      ''  -- purges expired entries on its ~60s cadence while backends are'',
      ''  -- down. Experiment E4; rollback: remove keepStaleData.'',
      ''  keepStaleData=true'',
      ''})'',
      ''getPool('' @ [CHR 0x27] @ [CHR 0x27] @ ''):setCache(pc)'',
      ''-- Experiment E4; rollback: 60.'',
      ''setStaleCacheEntriesTTL(300)'',
      [],
      ''local fs = newFrameStreamTcpLogger('${DNSTAP_PROCESSOR_IP}:6000', {'',
      ''  bufferHint=65536,'',
      ''  flushTimeout=1,'',
      ''  outputQueueSize=64,'',
      ''  queueNotifyThreshold=32,'',
      ''  reopenInterval=5'',
      ''})'',
      ''addResponseAction(AllRule(), DnstapLogResponseAction('powerblockade-dnsdist', fs))'']"

definition docker_entrypoint_lines :: "string list" where
  "docker_entrypoint_lines =
     [''#!/bin/bash'',
      ''set -e'',
      [],
      ''RECURSOR_IP=\"${RECURSOR_IP:-172.30.0.10}\"'',
      ''DNSTAP_PROCESSOR_IP=\"${DNSTAP_PROCESSOR_IP:-172.30.0.20}\"'',
      [],
      ''sed -e \"s/'' @ [CHR 0x5C] @ ''${RECURSOR_IP}/$RECURSOR_IP/g\" '' @ [CHR 0x5C],
      ''    -e \"s/'' @ [CHR 0x5C] @ ''${DNSTAP_PROCESSOR_IP}/$DNSTAP_PROCESSOR_IP/g\" '' @ [CHR 0x5C],
      ''    /etc/dnsdist/dnsdist.conf.template > /tmp/dnsdist.conf'',
      [],
      ''echo \"Generated dnsdist.conf with RECURSOR_IP=$RECURSOR_IP, DNSTAP_PROCESSOR_IP=$DNSTAP_PROCESSOR_IP\"'',
      [],
      ''# Wait for recursor to be reachable; fail closed so Docker retries'',
      ''timeout=${RECURSOR_WAIT_TIMEOUT_SECONDS:-30}'',
      ''elapsed=0'',
      ''recursor_ready=false'',
      ''while [ $elapsed -lt $timeout ]; do'',
      ''    if bash -c \"echo >/dev/tcp/$RECURSOR_IP/5300\" 2>/dev/null; then'',
      ''        echo \"recursor is ready (${elapsed}s)\"'',
      ''        recursor_ready=true'',
      ''        break'',
      ''    fi'',
      ''    sleep 1'',
      ''    elapsed=$((elapsed + 1))'',
      ''done'',
      [],
      ''if [ \"$recursor_ready\" != \"true\" ]; then'',
      ''    echo \"ERROR: recursor not ready after ${timeout}s; refusing to start dnsdist without a backend\" >&2'',
      ''    exit 1'',
      ''fi'',
      [],
      ''exec dnsdist --supervised -C /tmp/dnsdist.conf'']"

definition rpz_lua_lines :: "string list" where
  "rpz_lua_lines =
     [''rpzFile(\"/etc/pdns-recursor/rpz/blocklist-combined.rpz\", {'',
      ''  policyName = \"blocklist-combined\",'',
      ''  defpol = Policy.NXDOMAIN,'',
      ''})'',
      [],
      ''rpzFile(\"/etc/pdns-recursor/rpz/whitelist.rpz\", {'',
      ''  policyName = \"whitelist\",'',
      ''  defpol = Policy.PASSTHRU,'',
      ''})'']"

section \<open>The archive\<close>

record zip_entry =
  ze_name :: string
  ze_external_attr :: int
  ze_content :: string

definition entry :: "string \<Rightarrow> string \<Rightarrow> int \<Rightarrow> zip_entry" where
  "entry name data mode = \<lparr>ze_name = name, ze_external_attr = push_bit 16 (mode AND 0xFFFF), ze_content = data\<rparr>"

text \<open>Modes are octal in the source: 0o644 is 420, 0o600 is 384, 0o755 is 493, 0o664 is 436, 0o775 is 509.\<close>

definition generate_secondary_package_zip ::
  "string \<Rightarrow> string \<Rightarrow> string \<Rightarrow> string \<Rightarrow> string \<Rightarrow> string \<Rightarrow> string \<Rightarrow> zip_entry list" where
  "generate_secondary_package_zip recursor_web_password pb_version node_name primary_url node_api_key recursor_api_key dnsdist_listen_address =
     (let safe_node = strip node_name;
          url = rstrip_by (\<lambda>c. c = CHR ''/'') primary_url;
          env = dedent (literal (env_lines pb_version safe_node url node_api_key recursor_api_key recursor_web_password dnsdist_listen_address))
      in [entry ''docker-compose.ghcr.yml'' (dedent (literal compose_lines)) 420,
          entry ''.env'' env 384,
          entry ''README.md'' (dedent (literal (readme_lines safe_node))) 420,
          entry ''config/recursor.conf.template'' (dedent (literal recursor_conf_lines)) 420,
          entry ''config/dnsdist.conf.template'' (dedent (literal dnsdist_conf_lines)) 420,
          entry ''docker-entrypoint.sh'' (dedent (literal docker_entrypoint_lines)) 493,
          entry ''config/rpz.lua'' (dedent (literal rpz_lua_lines)) 420,
          entry ''config/forward-zones.conf'' (''# managed by primary'' @ [newline]) 436,
          entry ''rpz/'' [] 509,
          entry ''rpz/.gitkeep'' [] 436])"

text \<open>
  The download of a package: the node is looked up or made as \<open>nodes_generate\<close> says, then its key and
  a fresh key of the recursor go into the package.
\<close>

definition generated_package ::
  "instant \<Rightarrow> string \<Rightarrow> string \<Rightarrow> string \<Rightarrow> string \<Rightarrow> int option \<Rightarrow> string \<Rightarrow> string \<Rightarrow> db \<Rightarrow> (string \<times> zip_entry list) option \<times> db" where
  "generated_package now api_key recursor_api_key recursor_web_password pb_version sid name primary_url d =
     (case nodes_generate now api_key sid name d of
        (JSONOk, d1) \<Rightarrow>
          (case tbl_find (\<lambda>n. n_name n = strip name) (db_nodes d1) of
             None \<Rightarrow> (None, d1)
           | Some n \<Rightarrow>
               (Some (''powerblockade-secondary-'' @ n_name n @ ''.zip'',
                  generate_secondary_package_zip recursor_web_password pb_version (n_name n) primary_url (n_api_key n)
                    recursor_api_key ''0.0.0.0''), d1))
      | (_, d1) \<Rightarrow> (None, d1))"

section \<open>Indented literals\<close>

definition margin8 :: string where
  "margin8 = replicate 8 (CHR '' '')"

definition indented :: "string \<Rightarrow> string" where
  "indented l = (if l = [] then [] else margin8 @ l)"

definition plain_lines :: "string list \<Rightarrow> bool" where
  "plain_lines ls \<longleftrightarrow>
     list_all (\<lambda>l. newline \<notin> set l \<and> (l = [] \<or> \<not> list_all is_blank l)) ls \<and> list_ex (\<lambda>l. l \<noteq> [] \<and> \<not> is_blank (hd l)) ls"

lemma join_terminated: "join [newline] (ls @ [t]) = concat (map (\<lambda>l. l @ [newline]) ls) @ t"
proof (induction ls)
  case (Cons l ls)
  then show ?case by (cases ls) simp_all
qed simp

lemma literal_lines: "literal ls = join [newline] (map indented ls @ [margin8])"
  unfolding join_terminated literal_def indented_def margin8_def by (simp add: comp_def)

lemma margin8_nonempty [simp]: "margin8 \<noteq> []"
  by (simp add: margin8_def)

lemma common_prefix_pad: "common_prefix (q @ s) (q @ t) = q @ common_prefix s t"
  by (induction q) simp_all

lemma foldl_common_prefix_pad: "foldl common_prefix (q @ t) (map (\<lambda>u. q @ u) ts) = q @ foldl common_prefix t ts"
  by (induction ts arbitrary: t) (simp_all add: common_prefix_pad)

lemma common_prefix_Nil [simp]: "common_prefix [] t = []" "common_prefix t [] = []"
  by (cases t; simp)+

lemma foldl_common_prefix_Nil: "foldl common_prefix [] ts = []"
  by (induction ts) simp_all

lemma foldl_common_prefix_empty: "[] \<in> set ts \<Longrightarrow> foldl common_prefix t ts = []"
  by (induction ts arbitrary: t) (auto simp: foldl_common_prefix_Nil)

lemma takeWhile_pad: "takeWhile is_blank (margin8 @ l) = margin8 @ takeWhile is_blank l"
  by (simp add: margin8_def is_blank_def numeral_eq_Suc)

lemma margin_of_indented:
  assumes "\<exists>l \<in> set ls. l \<noteq> [] \<and> \<not> is_blank (hd l)"
  shows "margin_of (map indented ls @ [[]]) = margin8"
proof -
  let ?ts = "map (takeWhile is_blank) (filter (\<lambda>l. l \<noteq> []) ls)"
  have ind: "map (takeWhile is_blank) (filter (\<lambda>l. l \<noteq> []) (map indented ls @ [[]])) = map (\<lambda>u. margin8 @ u) ?ts"
    by (induction ls) (simp_all add: indented_def takeWhile_pad)
  have empty: "[] \<in> set ?ts"
  proof -
    obtain l where l: "l \<in> set ls" "l \<noteq> []" "\<not> is_blank (hd l)" using assms by blast
    have "takeWhile is_blank l = []" using l(2,3) by (cases l) simp_all
    with l(1,2) show ?thesis by force
  qed
  then obtain t ts where ts: "?ts = t # ts" by (cases ?ts) auto
  have "foldl common_prefix t ts = []"
    using empty foldl_common_prefix_empty [of ts t] by (auto simp: ts foldl_common_prefix_Nil)
  then show ?thesis by (simp only: margin_of_def ind ts list.map list.case foldl_common_prefix_pad append_Nil2)
qed

lemma dedent_literal:
  assumes "plain_lines ls"
  shows "dedent (literal ls) = concat (map (\<lambda>l. l @ [newline]) ls)"
proof -
  have nl: "newline \<notin> set l" and blank: "l = [] \<or> \<not> list_all is_blank l" if "l \<in> set ls" for l
    using assms that by (auto simp: plain_lines_def list_all_iff)
  have "split_on newline (literal ls) = map indented ls @ [margin8]"
    unfolding literal_lines using nl by (intro split_on_join) (auto simp: indented_def margin8_def)
  moreover have "map (\<lambda>l. if list_all is_blank l then [] else l) (map indented ls @ [margin8]) = map indented ls @ [[]]"
    using blank by (auto simp: indented_def margin8_def is_blank_def list_all_iff)
  moreover have "margin_of (map indented ls @ [[]]) = margin8"
    using assms by (intro margin_of_indented) (auto simp: plain_lines_def list_ex_iff)
  moreover have "map (\<lambda>l. if startswith margin8 l then drop (length margin8) l else l) (map indented ls @ [[]]) = ls @ [[]]"
    by (induction ls) (auto simp: indented_def startswith_def margin8_def)
  ultimately show ?thesis unfolding dedent_def Let_def by (simp only: join_terminated append_Nil2)
qed

lemma split_terminated: "list_all (\<lambda>l. newline \<notin> set l) ls \<Longrightarrow> split_on newline (concat (map (\<lambda>l. l @ [newline]) ls)) = ls @ [[]]"
  using split_on_join [of "ls @ [[]]" newline] join_terminated [of ls "[]"] by (auto simp: list_all_iff)

section \<open>Reading an environment file\<close>

definition read_env :: "string \<Rightarrow> (string \<times> string) list" where
  "read_env s =
     map (\<lambda>l. (takeWhile (\<lambda>c. c \<noteq> CHR ''='') l, drop 1 (dropWhile (\<lambda>c. c \<noteq> CHR ''='') l)))
       (filter (\<lambda>l. CHR ''='' \<in> set l) (split_on newline s))"

definition env_values :: "string \<Rightarrow> string \<Rightarrow> string \<Rightarrow> string \<Rightarrow> string \<Rightarrow> string \<Rightarrow> string \<Rightarrow> (string \<times> string) list" where
  "env_values pb_version safe_node primary_url node_api_key recursor_api_key recursor_web_password dnsdist_listen_address =
     [(''POWERBLOCKADE_REPO'', ''zerostate-io''), (''POWERBLOCKADE_VERSION'', pb_version), (''NODE_NAME'', safe_node),
      (''PRIMARY_URL'', primary_url), (''PRIMARY_API_KEY'', node_api_key),
      (''RECURSOR_API_KEY'', if recursor_api_key = [] then ''change-me'' else recursor_api_key),
      (''RECURSOR_WEB_PASSWORD'', recursor_web_password), (''DNSDIST_LISTEN_ADDRESS'', dnsdist_listen_address),
      (''HEARTBEAT_INTERVAL_SECONDS'', ''60''), (''CONFIG_SYNC_INTERVAL_SECONDS'', ''300''), (''DOCKER_SUBNET'', ''172.30.0.0/24''),
      (''RECURSOR_IP'', ''172.30.0.10''), (''DNSTAP_PROCESSOR_IP'', ''172.30.0.20'')]"

lemma env_lines_plain:
  assumes "\<forall>v \<in> {pb_version, safe_node, url, key, rkey, pw, addr}. newline \<notin> set v"
  shows "plain_lines (env_lines pb_version safe_node url key rkey pw addr)"
  using assms by (simp add: plain_lines_def env_lines_def is_blank_def)

lemma read_env_lines:
  assumes "\<forall>v \<in> {pb_version, safe_node, url, key, rkey, pw, addr}. newline \<notin> set v"
  shows "read_env (dedent (literal (env_lines pb_version safe_node url key rkey pw addr))) =
    env_values pb_version safe_node url key rkey pw addr"
proof -
  let ?ls = "env_lines pb_version safe_node url key rkey pw addr"
  have "plain_lines ?ls" by (rule env_lines_plain [OF assms])
  moreover from this have "list_all (\<lambda>l. newline \<notin> set l) ?ls" by (simp add: plain_lines_def list_all_iff)
  ultimately have "split_on newline (dedent (literal ?ls)) = ?ls @ [[]]" by (simp only: dedent_literal split_terminated)
  then show ?thesis by (simp add: read_env_def) (simp add: env_lines_def env_values_def)
qed

section \<open>References and mounts of the compose file\<close>

text \<open>Variables in braces, each with whether a default follows, and the sources of bind mounts.\<close>

fun env_refs :: "string \<Rightarrow> (string \<times> bool) list" where
  "env_refs [] = []"
| "env_refs (c # s) =
     (if c = CHR ''$'' \<and> startswith ''{'' s
      then (let name = takeWhile (\<lambda>x. x \<noteq> CHR '':'' \<and> x \<noteq> CHR ''}'') (drop 1 s)
            in (name, startswith '':-'' (drop (1 + length name) s)) # env_refs s)
      else env_refs s)"

definition mount_of :: "string \<Rightarrow> string option" where
  "mount_of l =
     (let t = lstrip_by is_blank l
      in if startswith ''- ./'' t then Some (takeWhile (\<lambda>c. c \<noteq> CHR '':'') (drop 4 t)) else None)"

text \<open>A path is in the archive as a file, or as a directory with members.\<close>

definition in_archive :: "string list \<Rightarrow> string \<Rightarrow> bool" where
  "in_archive names p \<longleftrightarrow> list_ex (\<lambda>n. n = p \<or> startswith (p @ ''/'') n) names"

definition archive_names :: "string list" where
  "archive_names = [''docker-compose.ghcr.yml'', ''.env'', ''README.md'', ''config/recursor.conf.template'', ''config/dnsdist.conf.template'',
     ''docker-entrypoint.sh'', ''config/rpz.lua'', ''config/forward-zones.conf'', ''rpz/'', ''rpz/.gitkeep'']"

definition env_names :: "string list" where
  "env_names = map fst (env_values [] [] [] [] [] [] [])"

lemma compose_plain: "plain_lines compose_lines"
  by code_simp

lemma compose_refs_defined: "list_all (\<lambda>l. list_all (\<lambda>(v, dflt). dflt \<or> v \<in> set env_names) (env_refs l)) compose_lines"
  by code_simp

lemma compose_mounts_present: "list_all (\<lambda>l. case mount_of l of None \<Rightarrow> True | Some p \<Rightarrow> in_archive archive_names p) compose_lines"
  by code_simp

section \<open>Properties\<close>

abbreviation package_member :: "string \<Rightarrow> zip_entry list \<Rightarrow> zip_entry option" where
  "package_member name pkg \<equiv> find (\<lambda>e. ze_name e = name) pkg"

lemma set_url: "newline \<notin> set url \<Longrightarrow> newline \<notin> set (rstrip_by P url)" "newline \<notin> set name \<Longrightarrow> newline \<notin> set (strip name)"
  using set_rstrip_by [of P url] set_strip [of name] by auto

lemma lstrip_by_id: "s = [] \<or> \<not> p (hd s) \<Longrightarrow> lstrip_by p s = s"
  by (cases s) (auto simp: lstrip_by_def)

lemma rstrip_by_id: "s = [] \<or> \<not> p (last s) \<Longrightarrow> rstrip_by p s = s"
  by (cases s rule: rev_cases) (auto simp: rstrip_by_def)

lemma strip_strip: "strip (strip s) = strip s"
proof -
  let ?l = "lstrip_by is_space s"
  have "rstrip_by is_space ?l = [] \<or> \<not> is_space (hd (rstrip_by is_space ?l))"
  proof (cases "?l = []")
    case False
    then show ?thesis using hd_rstrip_by [of is_space ?l] hd_lstrip_by [of is_space s] by metis
  qed (simp add: rstrip_by_def)
  then have "lstrip_by is_space (strip s) = strip s" unfolding strip_def by (rule lstrip_by_id)
  moreover have "rstrip_by is_space (strip s) = strip s" unfolding strip_def using last_rstrip_by by (intro rstrip_by_id) blast
  ultimately show ?thesis by (metis strip_def)
qed

lemma find_distinct: "distinct (map f xs) \<Longrightarrow> x \<in> set xs \<Longrightarrow> find (\<lambda>y. f y = f x) xs = Some x"
  by (induction xs) auto

lemma package_env:
  assumes "pkg = generate_secondary_package_zip pw ver name url key rkey addr"
    and "\<forall>v \<in> {ver, name, url, key, rkey, pw, addr}. newline \<notin> set v"
  obtains env where "package_member ''.env'' pkg = Some env"
    and "read_env (ze_content env) = env_values ver (strip name) (rstrip_by (\<lambda>c. c = CHR ''/'') url) key rkey pw addr"
proof -
  let ?url = "rstrip_by (\<lambda>c. c = CHR ''/'') url"
  have "\<forall>v \<in> {ver, strip name, ?url, key, rkey, pw, addr}. newline \<notin> set v" using assms(2) by (simp add: set_url)
  from read_env_lines [OF this] show ?thesis
    by (intro that [of "entry ''.env'' (dedent (literal (env_lines ver (strip name) ?url key rkey pw addr))) 384"])
      (simp_all add: assms(1) generate_secondary_package_zip_def Let_def entry_def)
qed



text \<open>
  Secrets are in the environment file only, and that is readable by its owner alone.  The other
  members of two packages for a node are the same whatever the two keys and the password are.
\<close>

theorem package_secrets_confined:
  "filter (\<lambda>e. ze_name e \<noteq> ''.env'') (generate_secondary_package_zip pw ver name url key rkey addr) =
     filter (\<lambda>e. ze_name e \<noteq> ''.env'') (generate_secondary_package_zip pw' ver name url key' rkey' addr) \<and>
   map (\<lambda>e. drop_bit 16 (ze_external_attr e) AND 63) (filter (\<lambda>e. ze_name e = ''.env'') (generate_secondary_package_zip pw ver name url key rkey addr)) = [0]"
  by (simp add: generate_secondary_package_zip_def Let_def entry_def)

lemma package_node:
  assumes "nodes_ok d" and "generated_package now api_key rkey pw ver sid name url d = (Some (fname, pkg), d1)"
    and "api_key \<noteq> []" and "\<forall>n \<in> set (rows (db_nodes d)). n_api_key n \<noteq> [] \<and> newline \<notin> set (n_api_key n)"
    and "\<forall>v \<in> {ver, name, url, api_key, rkey, pw}. newline \<notin> set v"
  obtains env n where "package_member ''.env'' pkg = Some env" and "nodes_ok d1"
    and "get_node_from_api_key (Some (n_api_key n)) d1 = Inr n" and "n_name n = strip name" and "n_name n \<noteq> []"
    and "pkg = generate_secondary_package_zip pw ver (n_name n) url (n_api_key n) rkey ''0.0.0.0''"
    and "read_env (ze_content env) = env_values ver (n_name n) (rstrip_by (\<lambda>c. c = CHR ''/'') url) (n_api_key n) rkey pw ''0.0.0.0''"
proof -
  obtain n where gen: "nodes_generate now api_key sid name d = (JSONOk, d1)"
    and n: "tbl_find (\<lambda>n. n_name n = strip name) (db_nodes d1) = Some n"
    and pkg: "pkg = generate_secondary_package_zip pw ver (n_name n) url (n_api_key n) rkey ''0.0.0.0''"
    using assms(2) by (auto simp: generated_package_def split: prod.splits response.splits option.splits)
  have n': "n \<in> set (rows (db_nodes d1))" "n_name n = strip name" using tbl_find_SomeD [OF n] by simp_all
  have ok1: "nodes_ok d1" using generate_ok [OF assms(1), of now api_key sid name] by (simp add: gen)
  then have dist: "distinct (map n_api_key (rows (db_nodes d1)))" by (simp add: nodes_ok_def)
  have key: "n_api_key n \<noteq> [] \<and> newline \<notin> set (n_api_key n)"
    using gen n'(1) assms(3-5) by (auto simp: nodes_generate_def insert_node_def Let_def new_node_def split: option.splits if_splits)
  have plain: "\<forall>v \<in> {ver, n_name n, url, n_api_key n, rkey, pw, ''0.0.0.0''}. newline \<notin> set v"
    using assms(5) key by (simp add: n'(2) set_url)
  obtain env where env: "package_member ''.env'' pkg = Some env"
    "read_env (ze_content env) = env_values ver (strip (n_name n)) (rstrip_by (\<lambda>c. c = CHR ''/'') url) (n_api_key n) rkey pw ''0.0.0.0''"
    using package_env [OF pkg plain] .
  have "tbl_find (\<lambda>x. n_api_key x = n_api_key n) (db_nodes d1) = Some n"
    unfolding tbl_find_def using dist n'(1) by (rule find_distinct)
  moreover have "strip name \<noteq> []" using gen by (auto simp: nodes_generate_def Let_def split: option.splits if_splits)
  ultimately show ?thesis
    using env key n'(2) pkg ok1 by (intro that [of env n]) (simp_all add: get_node_from_api_key_def strip_strip)
qed

text \<open>
  A generated package lets its node in.  The key in the environment file is the one with which
  the node of the requested name authenticates, and the name there is the one of the node; this holds
  for a new node and for one that exists.
\<close>

theorem package_authenticates:
  assumes "nodes_ok d" and "generated_package now api_key rkey pw ver sid name url d = (Some (fname, pkg), d1)"
    and "api_key \<noteq> []" and "\<forall>n \<in> set (rows (db_nodes d)). n_api_key n \<noteq> [] \<and> newline \<notin> set (n_api_key n)"
    and "\<forall>v \<in> {ver, name, url, api_key, rkey, pw}. newline \<notin> set v"
  shows "\<exists>env n k. package_member ''.env'' pkg = Some env \<and> map_of (read_env (ze_content env)) ''PRIMARY_API_KEY'' = Some k \<and>
    get_node_from_api_key (Some k) d1 = Inr n \<and> n_name n = strip name \<and> map_of (read_env (ze_content env)) ''NODE_NAME'' = Some (n_name n)"
proof -
  obtain env n where "package_member ''.env'' pkg = Some env" "get_node_from_api_key (Some (n_api_key n)) d1 = Inr n" "n_name n = strip name"
    "read_env (ze_content env) = env_values ver (n_name n) (rstrip_by (\<lambda>c. c = CHR ''/'') url) (n_api_key n) rkey pw ''0.0.0.0''"
    by (rule package_node [OF assms])
  then show ?thesis by (intro exI [of _ env] exI [of _ n] exI [of _ "n_api_key n"]) (simp add: env_values_def)
qed

theorem package_authenticates_witness:
  "\<exists>fname pkg d1 env n k. generated_package 0 ''k2'' ''r'' ''pw'' ''1.0'' (Some 1) '' east '' ''http://p'' health_db = (Some (fname, pkg), d1) \<and>
    package_member ''.env'' pkg = Some env \<and> map_of (read_env (ze_content env)) ''PRIMARY_API_KEY'' = Some k \<and>
    get_node_from_api_key (Some k) d1 = Inr n \<and> n_name n = ''east''"
proof -
  have ok: "nodes_ok health_db"
    by (simp add: nodes_ok_def health_db_def booted_db_def new_node_def table_wf_def row_ok_def naive_def)
  have east: "strip '' east '' = ''east''" by (simp add: strip_def rstrip_by_def lstrip_by_def is_space_def)
  obtain fname pkg d1 where gen: "generated_package 0 ''k2'' ''r'' ''pw'' ''1.0'' (Some 1) '' east '' ''http://p'' health_db = (Some (fname, pkg), d1)"
    by (simp add: generated_package_def nodes_generate_def get_current_user_def east health_db_def booted_db_def new_node_def insert_node_def tbl_find_def)
  have keys: "\<forall>n \<in> set (rows (db_nodes health_db)). n_api_key n \<noteq> [] \<and> newline \<notin> set (n_api_key n)"
    by (simp add: health_db_def booted_db_def new_node_def)
  have plain: "\<forall>v \<in> {''1.0'', '' east '', ''http://p'', ''k2'', ''r'', ''pw''}. newline \<notin> set v" by simp
  obtain env n k where "package_member ''.env'' pkg = Some env" "map_of (read_env (ze_content env)) ''PRIMARY_API_KEY'' = Some k"
    "get_node_from_api_key (Some k) d1 = Inr n" "n_name n = ''east''"
    using package_authenticates [OF ok gen _ keys plain] unfolding east by auto
  with gen show ?thesis by blast
qed

text \<open>
  A line break in a node name takes the indentation from no line: the name ends early, all variables of
  the file keep eight blanks, and what follows the break is a variable of its own.
\<close>

theorem line_break_in_name:
  "read_env (dedent (literal (env_lines ''1.0'' (''a'' @ [newline] @ ''PRIMARY_URL=http://other'') ''http://p'' ''k'' ''r'' ''pw'' ''0.0.0.0''))) ! 2 =
     (margin8 @ ''NODE_NAME'', ''a'') \<and>
   map_of (read_env (dedent (literal (env_lines ''1.0'' (''a'' @ [newline] @ ''PRIMARY_URL=http://other'') ''http://p'' ''k'' ''r'' ''pw'' ''0.0.0.0''))))
     ''PRIMARY_URL'' = Some ''http://other''"
  by code_simp

end
