(* ===== verification/Migrations.thy ===== *)
theory Migrations
  imports Settings_Store "HOL-Library.Multiset"
begin

text \<open>
  The schema of the database and its nineteen migrations (\<open>admin-ui/alembic/versions\<close>).  A migration
  is a list of operations on a schema; an operation PostgreSQL would refuse fails: a table or index
  that exists already, a missing table, column, index or constraint, a foreign key without its target,
  the removal of a table that others refer to.  The classes of \<open>admin-ui/app/models\<close> declare the
  columns the program expects.  The data migration of the settings works on the settings table.
\<close>

section \<open>Operations on a schema\<close>

datatype sql_type = IntegerType | BigIntegerType | VarChar nat | TextType | BooleanType | DateTimeType bool | JSONBType

datatype column_attr =
    PrimaryKey
  | NotNull
  | Unique
  | Indexed
  | ServerDefault string
  | References string string string

datatype column_def = Column (cd_name: string) (cd_type: sql_type) (cd_attrs: "column_attr list")

datatype constraint_def =
    PrimaryKeyOn "string list"
  | UniqueOn "string option" "string list"
  | ForeignOn string string string string

datatype schema_op =
    CreateTable string "column_def list" "constraint_def list"
  | DropTable string
  | AddColumn string column_def
  | DropColumn string string
  | CreateIndex string string "string list"
  | DropIndex string
  | CreateUnique string string "string list"
  | DropConstraint string string
  | Execute

record column =
  cn_name :: string
  cn_type :: sql_type
  cn_null :: bool
  cn_default :: "string option"

record table_schema =
  tc_columns :: "column list"
  tc_primary :: "string list"
  tc_uniques :: "(string \<times> string list) list"
  tc_foreign :: "(string \<times> string \<times> string \<times> string) list"
  tc_indexes :: "(string \<times> string list) list"

type_synonym schema = "(string \<times> table_schema) list"

definition quoted :: "string \<Rightarrow> string" where
  "quoted s = [CHR 0x27] @ s @ [CHR 0x27]"

definition column_of :: "column_def \<Rightarrow> column" where
  "column_of c =
     \<lparr>cn_name = cd_name c, cn_type = cd_type c,
      cn_null = (\<not> list_ex (\<lambda>a. a = NotNull \<or> a = PrimaryKey) (cd_attrs c)),
      cn_default = (case List.map_filter (\<lambda>a. case a of ServerDefault s \<Rightarrow> Some s | _ \<Rightarrow> None) (cd_attrs c) of [] \<Rightarrow> None | s # _ \<Rightarrow> Some s)\<rparr>"

text \<open>A unique column gets a constraint, an indexed one an index, with the names the tools give.\<close>

definition primary_of :: "column_def \<Rightarrow> string list" where
  "primary_of c = (if PrimaryKey \<in> set (cd_attrs c) then [cd_name c] else [])"

definition uniques_of :: "string \<Rightarrow> column_def \<Rightarrow> (string \<times> string list) list" where
  "uniques_of tn c = (if Unique \<in> set (cd_attrs c) then [(tn @ ''_'' @ cd_name c @ ''_key'', [cd_name c])] else [])"

definition foreign_of :: "column_def \<Rightarrow> (string \<times> string \<times> string \<times> string) list" where
  "foreign_of c = List.map_filter (\<lambda>a. case a of References t r od \<Rightarrow> Some (cd_name c, t, r, od) | _ \<Rightarrow> None) (cd_attrs c)"

definition indexes_of :: "string \<Rightarrow> column_def \<Rightarrow> (string \<times> string list) list" where
  "indexes_of tn c = (if Indexed \<in> set (cd_attrs c) then [(''ix_'' @ tn @ ''_'' @ cd_name c, [cd_name c])] else [])"

definition with_column :: "string \<Rightarrow> column_def \<Rightarrow> table_schema \<Rightarrow> table_schema" where
  "with_column tn c ts =
     ts\<lparr>tc_columns := tc_columns ts @ [column_of c], tc_primary := tc_primary ts @ primary_of c,
        tc_uniques := tc_uniques ts @ uniques_of tn c, tc_foreign := tc_foreign ts @ foreign_of c,
        tc_indexes := tc_indexes ts @ indexes_of tn c\<rparr>"

definition new_table :: "string \<Rightarrow> column_def list \<Rightarrow> constraint_def list \<Rightarrow> table_schema" where
  "new_table tn cols cons =
     \<lparr>tc_columns = map column_of cols,
      tc_primary = concat (map primary_of cols) @ concat (map (\<lambda>x. case x of PrimaryKeyOn cs \<Rightarrow> cs | _ \<Rightarrow> []) cons),
      tc_uniques = concat (map (uniques_of tn) cols) @
        concat (map (\<lambda>x. case x of UniqueOn name cs \<Rightarrow>
          [(case name of None \<Rightarrow> tn @ ''_'' @ join ''_'' cs @ ''_key'' | Some n \<Rightarrow> n, cs)] | _ \<Rightarrow> []) cons),
      tc_foreign = concat (map foreign_of cols) @ concat (map (\<lambda>x. case x of ForeignOn c t r od \<Rightarrow> [(c, t, r, od)] | _ \<Rightarrow> []) cons),
      tc_indexes = concat (map (indexes_of tn) cols)\<rparr>"

definition column_names :: "table_schema \<Rightarrow> string list" where
  "column_names ts = map cn_name (tc_columns ts)"

text \<open>Tables, indexes and the indexes of unique constraints share their names.\<close>

definition relation_names :: "schema \<Rightarrow> string list" where
  "relation_names s = concat (map (\<lambda>(tn, ts). tn # map fst (tc_uniques ts) @ map fst (tc_indexes ts)) s)"

text \<open>
  A constraint or index names columns of its table (an entry with a parenthesis is an expression), and
  a foreign key a column that exists.
\<close>

definition has_column :: "schema \<Rightarrow> string \<Rightarrow> string \<Rightarrow> bool" where
  "has_column s tn c = (case map_of s tn of None \<Rightarrow> False | Some ts \<Rightarrow> c \<in> set (column_names ts))"

definition table_ok :: "schema \<Rightarrow> table_schema \<Rightarrow> bool" where
  "table_ok s ts \<longleftrightarrow>
     distinct (column_names ts) \<and> list_all (\<lambda>c. CHR ''('' \<notin> set c) (column_names ts) \<and>
     list_all (\<lambda>c. c \<in> set (column_names ts)) (tc_primary ts) \<and>
     list_all (\<lambda>(n, cs). list_all (\<lambda>c. c \<in> set (column_names ts)) cs) (tc_uniques ts) \<and>
     list_all (\<lambda>(n, cs). list_all (\<lambda>c. c \<in> set (column_names ts) \<or> CHR ''('' \<in> set c) cs) (tc_indexes ts) \<and>
     list_all (\<lambda>(c, t, r, od). c \<in> set (column_names ts) \<and> has_column s t r) (tc_foreign ts)"

definition fresh_names :: "string list \<Rightarrow> schema \<Rightarrow> bool" where
  "fresh_names names s \<longleftrightarrow> distinct names \<and> list_all (\<lambda>n. n \<notin> set (relation_names s)) names"

text \<open>A table or column cannot go while a foreign key of another table refers to it.\<close>

definition referred :: "schema \<Rightarrow> string \<Rightarrow> (string \<Rightarrow> bool) \<Rightarrow> bool" where
  "referred s tn P = list_ex (\<lambda>(t, ts). t \<noteq> tn \<and> list_ex (\<lambda>(c, t', r, od). t' = tn \<and> P r) (tc_foreign ts)) s"

definition alter :: "string \<Rightarrow> (table_schema \<Rightarrow> table_schema) \<Rightarrow> schema \<Rightarrow> schema" where
  "alter tn f s = map (\<lambda>(t, ts). if t = tn then (t, f ts) else (t, ts)) s"

text \<open>Dropping a column drops the constraints and indexes it is part of.\<close>

definition without_column :: "string \<Rightarrow> table_schema \<Rightarrow> table_schema" where
  "without_column c ts =
     \<lparr>tc_columns = filter (\<lambda>x. cn_name x \<noteq> c) (tc_columns ts), tc_primary = filter (\<lambda>x. x \<noteq> c) (tc_primary ts),
      tc_uniques = filter (\<lambda>(n, cs). c \<notin> set cs) (tc_uniques ts), tc_foreign = filter (\<lambda>(x, t, r, od). x \<noteq> c) (tc_foreign ts),
      tc_indexes = filter (\<lambda>(n, cs). c \<notin> set cs) (tc_indexes ts)\<rparr>"

fun apply_op :: "schema_op \<Rightarrow> schema \<Rightarrow> schema option" where
  "apply_op (CreateTable tn cols cons) s =
     (let ts = new_table tn cols cons
      in if fresh_names (relation_names [(tn, ts)]) s \<and> table_ok (s @ [(tn, ts)]) ts then Some (s @ [(tn, ts)]) else None)"
| "apply_op (DropTable tn) s =
     (if map_of s tn = None \<or> referred s tn (\<lambda>r. True) then None else Some (filter (\<lambda>(t, ts). t \<noteq> tn) s))"
| "apply_op (AddColumn tn c) s =
     (case map_of s tn of
        None \<Rightarrow> None
      | Some ts \<Rightarrow>
          if fresh_names (map fst (uniques_of tn c) @ map fst (indexes_of tn c)) s \<and> table_ok s (with_column tn c ts)
          then Some (alter tn (with_column tn c) s) else None)"
| "apply_op (DropColumn tn c) s =
     (if has_column s tn c \<and> \<not> referred s tn (\<lambda>r. r = c) then Some (alter tn (without_column c) s) else None)"
| "apply_op (CreateIndex name tn cs) s =
     (if map_of s tn \<noteq> None \<and> fresh_names [name] s \<and> list_all (\<lambda>c. has_column s tn c \<or> CHR ''('' \<in> set c) cs
      then Some (alter tn (\<lambda>ts. ts\<lparr>tc_indexes := tc_indexes ts @ [(name, cs)]\<rparr>) s) else None)"
| "apply_op (DropIndex name) s =
     (if list_ex (\<lambda>(t, ts). name \<in> set (map fst (tc_indexes ts))) s
      then Some (map (\<lambda>(t, ts). (t, ts\<lparr>tc_indexes := filter (\<lambda>(n, cs). n \<noteq> name) (tc_indexes ts)\<rparr>)) s) else None)"
| "apply_op (CreateUnique name tn cs) s =
     (if map_of s tn \<noteq> None \<and> fresh_names [name] s \<and> list_all (has_column s tn) cs
      then Some (alter tn (\<lambda>ts. ts\<lparr>tc_uniques := tc_uniques ts @ [(name, cs)]\<rparr>) s) else None)"
| "apply_op (DropConstraint name tn) s =
     (case map_of s tn of
        None \<Rightarrow> None
      | Some ts \<Rightarrow>
          if name \<in> set (map fst (tc_uniques ts))
          then Some (alter tn (\<lambda>ts. ts\<lparr>tc_uniques := filter (\<lambda>(n, cs). n \<noteq> name) (tc_uniques ts)\<rparr>) s) else None)"
| "apply_op Execute s = Some s"

fun run_ops :: "schema_op list \<Rightarrow> schema \<Rightarrow> schema option" where
  "run_ops [] s = Some s"
| "run_ops (x # xs) s = (case apply_op x s of None \<Rightarrow> None | Some s1 \<Rightarrow> run_ops xs s1)"

section \<open>The migrations\<close>

definition upgrade_0001 :: "schema_op list" where
  "upgrade_0001 =
     [CreateTable ''users''
        [Column ''id'' IntegerType [PrimaryKey],
         Column ''username'' (VarChar 100) [NotNull, Unique],
         Column ''password_hash'' (VarChar 255) [NotNull],
         Column ''created_at'' (DateTimeType False) [ServerDefault ''NOW()'', NotNull],
         Column ''last_login'' (DateTimeType False) []]
        [],
      CreateTable ''nodes''
        [Column ''id'' IntegerType [PrimaryKey],
         Column ''name'' (VarChar 255) [NotNull, Unique],
         Column ''api_key'' (VarChar 64) [NotNull, Unique],
         Column ''ip_address'' (VarChar 45) [],
         Column ''version'' (VarChar 20) [],
         Column ''status'' (VarChar 20) [ServerDefault (quoted ''pending''), NotNull],
         Column ''last_seen'' (DateTimeType False) [],
         Column ''last_error'' TextType [],
         Column ''config_version'' IntegerType [ServerDefault ''0'', NotNull],
         Column ''queries_total'' BigIntegerType [ServerDefault ''0'', NotNull],
         Column ''queries_blocked'' BigIntegerType [ServerDefault ''0'', NotNull],
         Column ''created_at'' (DateTimeType False) [ServerDefault ''NOW()'', NotNull]]
        []]"

definition downgrade_0001 :: "schema_op list" where
  "downgrade_0001 =
     [DropTable ''nodes'',
      DropTable ''users'']"

definition upgrade_0002 :: "schema_op list" where
  "upgrade_0002 =
     [CreateTable ''clients''
        [Column ''id'' BigIntegerType [PrimaryKey],
         Column ''ip'' (VarChar 64) [NotNull, Unique],
         Column ''display_name'' (VarChar 255) [],
         Column ''rdns_name'' (VarChar 255) [],
         Column ''rdns_last_resolved_at'' (DateTimeType True) [],
         Column ''rdns_last_error'' TextType [],
         Column ''created_at'' (DateTimeType True) [ServerDefault ''NOW()'', NotNull],
         Column ''last_seen'' (DateTimeType True) []]
        [],
      CreateTable ''client_name_resolution_rules''
        [Column ''id'' BigIntegerType [PrimaryKey],
         Column ''name'' (VarChar 255) [NotNull],
         Column ''cidr'' (VarChar 64) [NotNull],
         Column ''resolvers'' TextType [NotNull],
         Column ''enabled'' BooleanType [ServerDefault ''true'', NotNull],
         Column ''priority'' IntegerType [ServerDefault ''100'', NotNull],
         Column ''created_at'' (DateTimeType True) [ServerDefault ''NOW()'', NotNull]]
        [],
      CreateTable ''blocklists''
        [Column ''id'' BigIntegerType [PrimaryKey],
         Column ''name'' (VarChar 255) [NotNull],
         Column ''url'' TextType [NotNull, Unique],
         Column ''format'' (VarChar 50) [NotNull],
         Column ''enabled'' BooleanType [ServerDefault ''true'', NotNull],
         Column ''update_frequency_hours'' IntegerType [ServerDefault ''24'', NotNull],
         Column ''last_updated'' (DateTimeType True) [],
         Column ''last_update_status'' (VarChar 20) [],
         Column ''last_error'' TextType [],
         Column ''entry_count'' IntegerType [ServerDefault ''0'', NotNull],
         Column ''etag'' (VarChar 255) [],
         Column ''last_modified'' (VarChar 255) [],
         Column ''created_at'' (DateTimeType True) [ServerDefault ''NOW()'', NotNull]]
        [],
      CreateTable ''manual_entries''
        [Column ''id'' BigIntegerType [PrimaryKey],
         Column ''domain'' (VarChar 255) [NotNull, Unique],
         Column ''entry_type'' (VarChar 10) [NotNull],
         Column ''comment'' TextType [],
         Column ''created_at'' (DateTimeType True) [ServerDefault ''NOW()'', NotNull]]
        [],
      CreateTable ''forward_zones_global''
        [Column ''id'' BigIntegerType [PrimaryKey],
         Column ''domain'' (VarChar 255) [NotNull, Unique],
         Column ''servers'' TextType [NotNull],
         Column ''enabled'' BooleanType [ServerDefault ''true'', NotNull],
         Column ''note'' TextType [],
         Column ''created_at'' (DateTimeType True) [ServerDefault ''NOW()'', NotNull]]
        [],
      CreateTable ''forward_zones_node''
        [Column ''id'' BigIntegerType [PrimaryKey],
         Column ''node_id'' IntegerType [References ''nodes'' ''id'' ''CASCADE'', NotNull],
         Column ''domain'' (VarChar 255) [NotNull],
         Column ''servers'' TextType [NotNull],
         Column ''enabled'' BooleanType [ServerDefault ''true'', NotNull],
         Column ''note'' TextType [],
         Column ''created_at'' (DateTimeType True) [ServerDefault ''NOW()'', NotNull]]
        [UniqueOn (Some ''uq_forward_zones_node'') [''node_id'', ''domain'']],
      CreateTable ''config_versions''
        [Column ''component'' (VarChar 50) [PrimaryKey],
         Column ''version'' BigIntegerType [ServerDefault ''0'', NotNull],
         Column ''updated_at'' (DateTimeType True) [ServerDefault ''NOW()'', NotNull]]
        [],
      CreateTable ''dns_query_events''
        [Column ''id'' BigIntegerType [PrimaryKey],
         Column ''event_id'' (VarChar 64) [Unique],
         Column ''ts'' (DateTimeType True) [NotNull, Indexed],
         Column ''node_id'' IntegerType [References ''nodes'' ''id'' ''SET NULL''],
         Column ''client_ip'' (VarChar 64) [NotNull, Indexed],
         Column ''client_id'' BigIntegerType [References ''clients'' ''id'' ''SET NULL''],
         Column ''qname'' TextType [NotNull],
         Column ''qtype'' IntegerType [NotNull],
         Column ''rcode'' IntegerType [NotNull],
         Column ''blocked'' BooleanType [NotNull],
         Column ''block_reason'' (VarChar 50) [],
         Column ''blocklist_name'' (VarChar 255) [],
         Column ''latency_ms'' IntegerType []]
        [],
      CreateIndex ''ix_dns_query_events_client_ts'' ''dns_query_events'' [''client_ip'', ''ts'']]"

definition downgrade_0002 :: "schema_op list" where
  "downgrade_0002 =
     [DropIndex ''ix_dns_query_events_client_ts'',
      DropTable ''dns_query_events'',
      DropTable ''config_versions'',
      DropTable ''forward_zones_node'',
      DropTable ''forward_zones_global'',
      DropTable ''manual_entries'',
      DropTable ''blocklists'',
      DropTable ''client_name_resolution_rules'',
      DropTable ''clients'']"

definition upgrade_0003 :: "schema_op list" where
  "upgrade_0003 =
     [AddColumn ''blocklists'' (Column ''list_type'' (VarChar 10) [ServerDefault (quoted ''block''), NotNull])]"

definition downgrade_0003 :: "schema_op list" where
  "downgrade_0003 =
     [DropColumn ''blocklists'' ''list_type'']"

definition upgrade_0004 :: "schema_op list" where
  "upgrade_0004 =
     [CreateTable ''forward_zones''
        [Column ''id'' BigIntegerType [NotNull],
         Column ''domain'' (VarChar 255) [NotNull],
         Column ''servers'' TextType [NotNull],
         Column ''description'' TextType [],
         Column ''enabled'' BooleanType [ServerDefault ''true'', NotNull],
         Column ''node_id'' BigIntegerType [],
         Column ''created_at'' (DateTimeType True) [ServerDefault ''NOW()'', NotNull],
         Column ''updated_at'' (DateTimeType True) [ServerDefault ''NOW()'', NotNull]]
        [PrimaryKeyOn [''id''],
         UniqueOn None [''domain''],
         ForeignOn ''node_id'' ''nodes'' ''id'' ''CASCADE''],
      CreateIndex ''ix_forward_zones_node_id'' ''forward_zones'' [''node_id'']]"

definition downgrade_0004 :: "schema_op list" where
  "downgrade_0004 =
     [DropIndex ''ix_forward_zones_node_id'',
      DropTable ''forward_zones'']"

definition upgrade_0005 :: "schema_op list" where
  "upgrade_0005 =
     [CreateTable ''client_resolver_rules''
        [Column ''id'' BigIntegerType [NotNull],
         Column ''subnet'' (VarChar 64) [NotNull],
         Column ''nameserver'' (VarChar 255) [NotNull],
         Column ''enabled'' BooleanType [ServerDefault ''true'', NotNull],
         Column ''priority'' IntegerType [ServerDefault ''100'', NotNull],
         Column ''description'' (VarChar 255) [],
         Column ''created_at'' (DateTimeType True) [ServerDefault ''NOW()'', NotNull],
         Column ''updated_at'' (DateTimeType True) []]
        [PrimaryKeyOn [''id''],
         UniqueOn None [''subnet'']],
      CreateIndex ''ix_client_resolver_rules_priority'' ''client_resolver_rules'' [''priority'']]"

definition downgrade_0005 :: "schema_op list" where
  "downgrade_0005 =
     [DropIndex ''ix_client_resolver_rules_priority'',
      DropTable ''client_resolver_rules'']"

definition upgrade_0006 :: "schema_op list" where
  "upgrade_0006 =
     [CreateTable ''query_rollups''
        [Column ''id'' BigIntegerType [NotNull],
         Column ''bucket_start'' (DateTimeType True) [NotNull],
         Column ''granularity'' (VarChar 10) [NotNull],
         Column ''client_id'' BigIntegerType [],
         Column ''node_id'' BigIntegerType [],
         Column ''total_queries'' BigIntegerType [ServerDefault ''0'', NotNull],
         Column ''blocked_queries'' BigIntegerType [ServerDefault ''0'', NotNull],
         Column ''nxdomain_count'' BigIntegerType [ServerDefault ''0'', NotNull],
         Column ''servfail_count'' BigIntegerType [ServerDefault ''0'', NotNull],
         Column ''cache_hits'' BigIntegerType [ServerDefault ''0'', NotNull],
         Column ''avg_latency_ms'' IntegerType [],
         Column ''unique_domains'' BigIntegerType [ServerDefault ''0'', NotNull],
         Column ''created_at'' (DateTimeType True) [ServerDefault ''NOW()'', NotNull],
         Column ''updated_at'' (DateTimeType True) []]
        [PrimaryKeyOn [''id''],
         ForeignOn ''client_id'' ''clients'' ''id'' ''CASCADE'',
         ForeignOn ''node_id'' ''nodes'' ''id'' ''CASCADE'',
         UniqueOn (Some ''uq_rollup_bucket'') [''bucket_start'', ''granularity'', ''client_id'', ''node_id'']],
      CreateIndex ''ix_rollup_bucket_start'' ''query_rollups'' [''bucket_start''],
      CreateIndex ''ix_rollup_granularity'' ''query_rollups'' [''granularity'']]"

definition downgrade_0006 :: "schema_op list" where
  "downgrade_0006 =
     [DropIndex ''ix_rollup_granularity'',
      DropIndex ''ix_rollup_bucket_start'',
      DropTable ''query_rollups'']"

definition upgrade_0007 :: "schema_op list" where
  "upgrade_0007 =
     [CreateTable ''settings''
        [Column ''id'' IntegerType [NotNull],
         Column ''key'' (VarChar 64) [NotNull],
         Column ''value'' TextType [NotNull],
         Column ''updated_at'' (DateTimeType True) []]
        [PrimaryKeyOn [''id''],
         UniqueOn None [''key'']]]"

definition downgrade_0007 :: "schema_op list" where
  "downgrade_0007 =
     [DropTable ''settings'']"

definition upgrade_0008 :: "schema_op list" where
  "upgrade_0008 =
     [CreateTable ''config_changes''
        [Column ''id'' BigIntegerType [PrimaryKey],
         Column ''entity_type'' (VarChar 50) [NotNull, Indexed],
         Column ''entity_id'' BigIntegerType [Indexed],
         Column ''action'' (VarChar 20) [NotNull],
         Column ''actor_user_id'' BigIntegerType [References ''users'' ''id'' ''SET NULL''],
         Column ''before_data'' JSONBType [],
         Column ''after_data'' JSONBType [],
         Column ''comment'' TextType [],
         Column ''created_at'' (DateTimeType True) [ServerDefault ''NOW()'', NotNull, Indexed]]
        []]"

definition downgrade_0008 :: "schema_op list" where
  "downgrade_0008 =
     [DropTable ''config_changes'']"

definition upgrade_0009 :: "schema_op list" where
  "upgrade_0009 =
     [AddColumn ''dns_query_events'' (Column ''event_seq'' BigIntegerType []),
      CreateUnique ''uq_node_event_seq'' ''dns_query_events'' [''node_id'', ''event_seq'']]"

definition downgrade_0009 :: "schema_op list" where
  "downgrade_0009 =
     [DropConstraint ''uq_node_event_seq'' ''dns_query_events'',
      DropColumn ''dns_query_events'' ''event_seq'']"

definition upgrade_0010 :: "schema_op list" where
  "upgrade_0010 =
     [CreateTable ''node_metrics''
        [Column ''id'' BigIntegerType [PrimaryKey],
         Column ''node_id'' BigIntegerType [References ''nodes'' ''id'' ''CASCADE'', NotNull],
         Column ''ts'' (DateTimeType True) [ServerDefault ''NOW()'', NotNull],
         Column ''cache_hits'' BigIntegerType [ServerDefault (quoted ''0''), NotNull],
         Column ''cache_misses'' BigIntegerType [ServerDefault (quoted ''0''), NotNull],
         Column ''cache_entries'' BigIntegerType [ServerDefault (quoted ''0''), NotNull],
         Column ''packetcache_hits'' BigIntegerType [ServerDefault (quoted ''0''), NotNull],
         Column ''packetcache_misses'' BigIntegerType [ServerDefault (quoted ''0''), NotNull],
         Column ''answers_0_1'' BigIntegerType [ServerDefault (quoted ''0''), NotNull],
         Column ''answers_1_10'' BigIntegerType [ServerDefault (quoted ''0''), NotNull],
         Column ''answers_10_100'' BigIntegerType [ServerDefault (quoted ''0''), NotNull],
         Column ''answers_100_1000'' BigIntegerType [ServerDefault (quoted ''0''), NotNull],
         Column ''answers_slow'' BigIntegerType [ServerDefault (quoted ''0''), NotNull],
         Column ''concurrent_queries'' BigIntegerType [ServerDefault (quoted ''0''), NotNull],
         Column ''outgoing_timeouts'' BigIntegerType [ServerDefault (quoted ''0''), NotNull],
         Column ''servfail_answers'' BigIntegerType [ServerDefault (quoted ''0''), NotNull],
         Column ''nxdomain_answers'' BigIntegerType [ServerDefault (quoted ''0''), NotNull],
         Column ''questions'' BigIntegerType [ServerDefault (quoted ''0''), NotNull],
         Column ''all_outqueries'' BigIntegerType [ServerDefault (quoted ''0''), NotNull],
         Column ''uptime_seconds'' BigIntegerType [ServerDefault (quoted ''0''), NotNull]]
        [],
      CreateIndex ''ix_node_metrics_node_id'' ''node_metrics'' [''node_id''],
      CreateIndex ''ix_node_metrics_ts'' ''node_metrics'' [''ts'']]"

definition downgrade_0010 :: "schema_op list" where
  "downgrade_0010 =
     [DropIndex ''ix_node_metrics_ts'',
      DropIndex ''ix_node_metrics_node_id'',
      DropTable ''node_metrics'']"

definition upgrade_0011 :: "schema_op list" where
  "upgrade_0011 =
     [CreateTable ''client_groups''
        [Column ''id'' IntegerType [PrimaryKey],
         Column ''name'' (VarChar 100) [Unique, NotNull],
         Column ''description'' TextType [],
         Column ''cidr'' (VarChar 50) [],
         Column ''color'' (VarChar 20) [ServerDefault (quoted ''slate''), NotNull],
         Column ''created_at'' (DateTimeType True) [ServerDefault ''NOW()'', NotNull]]
        [],
      AddColumn ''clients'' (Column ''group_id'' IntegerType [References ''client_groups'' ''id'' ''SET NULL'']),
      CreateIndex ''ix_clients_group_id'' ''clients'' [''group_id'']]"

definition downgrade_0011 :: "schema_op list" where
  "downgrade_0011 =
     [DropIndex ''ix_clients_group_id'',
      DropColumn ''clients'' ''group_id'',
      DropTable ''client_groups'']"

definition upgrade_0012 :: "schema_op list" where
  "upgrade_0012 =
     [AddColumn ''blocklists'' (Column ''schedule_enabled'' BooleanType [ServerDefault ''false'', NotNull]),
      AddColumn ''blocklists'' (Column ''schedule_start'' (VarChar 5) []),
      AddColumn ''blocklists'' (Column ''schedule_end'' (VarChar 5) []),
      AddColumn ''blocklists'' (Column ''schedule_days'' (VarChar 30) [])]"

definition downgrade_0012 :: "schema_op list" where
  "downgrade_0012 =
     [DropColumn ''blocklists'' ''schedule_days'',
      DropColumn ''blocklists'' ''schedule_end'',
      DropColumn ''blocklists'' ''schedule_start'',
      DropColumn ''blocklists'' ''schedule_enabled'']"

definition upgrade_0013 :: "schema_op list" where
  "upgrade_0013 =
     [CreateTable ''blocklist_entries''
        [Column ''id'' BigIntegerType [PrimaryKey],
         Column ''domain'' (VarChar 255) [NotNull, Indexed],
         Column ''blocklist_id'' BigIntegerType [References ''blocklists'' ''id'' ''CASCADE'', NotNull, Indexed],
         Column ''created_at'' (DateTimeType True) [ServerDefault ''NOW()'', NotNull]]
        [],
      CreateUnique ''uq_blocklist_entry_domain_list'' ''blocklist_entries'' [''domain'', ''blocklist_id''],
      CreateIndex ''ix_blocklist_entries_domain_lower'' ''blocklist_entries'' [''LOWER(domain)'']]"

definition downgrade_0013 :: "schema_op list" where
  "downgrade_0013 =
     [DropIndex ''ix_blocklist_entries_domain_lower'',
      DropConstraint ''uq_blocklist_entry_domain_list'' ''blocklist_entries'',
      DropTable ''blocklist_entries'']"

definition upgrade_0014 :: "schema_op list" where
  "upgrade_0014 =
     [DropConstraint ''uq_node_event_seq'' ''dns_query_events'']"

definition downgrade_0014 :: "schema_op list" where
  "downgrade_0014 =
     [CreateUnique ''uq_node_event_seq'' ''dns_query_events'' [''node_id'', ''event_seq'']]"

definition upgrade_0015 :: "schema_op list" where
  "upgrade_0015 =
     [CreateTable ''node_commands''
        [Column ''id'' IntegerType [PrimaryKey],
         Column ''node_id'' IntegerType [References ''nodes'' ''id'' ''CASCADE''],
         Column ''command'' (VarChar 64) [NotNull],
         Column ''params'' TextType [],
         Column ''created_at'' (DateTimeType True) [ServerDefault ''NOW()''],
         Column ''executed_at'' (DateTimeType True) [],
         Column ''result'' TextType []]
        [],
      CreateIndex ''ix_node_commands_pending'' ''node_commands'' [''node_id'', ''executed_at'']]"

definition downgrade_0015 :: "schema_op list" where
  "downgrade_0015 =
     [DropIndex ''ix_node_commands_pending'',
      DropTable ''node_commands'']"

definition upgrade_0016 :: "schema_op list" where
  "upgrade_0016 =
     [AddColumn ''nodes'' (Column ''last_heartbeat'' (DateTimeType False) []),
      AddColumn ''nodes'' (Column ''quarantine_entry_time'' (DateTimeType False) []),
      AddColumn ''nodes'' (Column ''quarantine_reason'' TextType []),
      AddColumn ''nodes'' (Column ''approved_by'' IntegerType []),
      AddColumn ''nodes'' (Column ''approved_at'' (DateTimeType False) []),
      Execute]"

definition downgrade_0016 :: "schema_op list" where
  "downgrade_0016 =
     [DropColumn ''nodes'' ''approved_at'',
      DropColumn ''nodes'' ''approved_by'',
      DropColumn ''nodes'' ''quarantine_reason'',
      DropColumn ''nodes'' ''quarantine_entry_time'',
      DropColumn ''nodes'' ''last_heartbeat'']"

definition upgrade_0017 :: "schema_op list" where
  "upgrade_0017 =
     [CreateIndex ''ix_node_metrics_node_id_ts'' ''node_metrics'' [''node_id'', ''ts'']]"

definition downgrade_0017 :: "schema_op list" where
  "downgrade_0017 =
     [DropIndex ''ix_node_metrics_node_id_ts'']"

definition upgrade_0018 :: "schema_op list" where
  "upgrade_0018 =
     [AddColumn ''dns_query_events'' (Column ''is_internal'' BooleanType [NotNull, ServerDefault ''false'']),
      CreateIndex ''ix_dns_query_events_is_internal'' ''dns_query_events'' [''is_internal'']]"

definition downgrade_0018 :: "schema_op list" where
  "downgrade_0018 =
     [DropIndex ''ix_dns_query_events_is_internal'',
      DropColumn ''dns_query_events'' ''is_internal'']"

definition upgrade_0019 :: "schema_op list" where
  "upgrade_0019 =
     [Execute]"

definition downgrade_0019 :: "schema_op list" where
  "downgrade_0019 =
     [Execute]"

record migration =
  mg_revision :: string
  mg_down_revision :: "string option"
  mg_upgrade :: "schema_op list"
  mg_downgrade :: "schema_op list"

definition migrations :: "migration list" where
  "migrations =
     [\<lparr>mg_revision = ''0001'', mg_down_revision = None, mg_upgrade = upgrade_0001, mg_downgrade = downgrade_0001\<rparr>,
      \<lparr>mg_revision = ''0002'', mg_down_revision = Some ''0001'', mg_upgrade = upgrade_0002, mg_downgrade = downgrade_0002\<rparr>,
      \<lparr>mg_revision = ''0003'', mg_down_revision = Some ''0002'', mg_upgrade = upgrade_0003, mg_downgrade = downgrade_0003\<rparr>,
      \<lparr>mg_revision = ''0004'', mg_down_revision = Some ''0003'', mg_upgrade = upgrade_0004, mg_downgrade = downgrade_0004\<rparr>,
      \<lparr>mg_revision = ''0005'', mg_down_revision = Some ''0004'', mg_upgrade = upgrade_0005, mg_downgrade = downgrade_0005\<rparr>,
      \<lparr>mg_revision = ''0006'', mg_down_revision = Some ''0005'', mg_upgrade = upgrade_0006, mg_downgrade = downgrade_0006\<rparr>,
      \<lparr>mg_revision = ''0007_settings'', mg_down_revision = Some ''0006'', mg_upgrade = upgrade_0007, mg_downgrade = downgrade_0007\<rparr>,
      \<lparr>mg_revision = ''0008_config_changes'', mg_down_revision = Some ''0007_settings'', mg_upgrade = upgrade_0008, mg_downgrade = downgrade_0008\<rparr>,
      \<lparr>mg_revision = ''0009_event_seq'', mg_down_revision = Some ''0008_config_changes'', mg_upgrade = upgrade_0009, mg_downgrade = downgrade_0009\<rparr>,
      \<lparr>mg_revision = ''0010_node_metrics'', mg_down_revision = Some ''0009_event_seq'', mg_upgrade = upgrade_0010, mg_downgrade = downgrade_0010\<rparr>,
      \<lparr>mg_revision = ''0011_client_groups'', mg_down_revision = Some ''0010_node_metrics'', mg_upgrade = upgrade_0011, mg_downgrade = downgrade_0011\<rparr>,
      \<lparr>mg_revision = ''0012_blocklist_schedules'', mg_down_revision = Some ''0011_client_groups'', mg_upgrade = upgrade_0012, mg_downgrade = downgrade_0012\<rparr>,
      \<lparr>mg_revision = ''0013_blocklist_entries'', mg_down_revision = Some ''0012_blocklist_schedules'', mg_upgrade = upgrade_0013, mg_downgrade = downgrade_0013\<rparr>,
      \<lparr>mg_revision = ''0014_drop_node_event_seq'', mg_down_revision = Some ''0013_blocklist_entries'', mg_upgrade = upgrade_0014, mg_downgrade = downgrade_0014\<rparr>,
      \<lparr>mg_revision = ''0015_node_commands'', mg_down_revision = Some ''0014_drop_node_event_seq'', mg_upgrade = upgrade_0015, mg_downgrade = downgrade_0015\<rparr>,
      \<lparr>mg_revision = ''0016'', mg_down_revision = Some ''0015_node_commands'', mg_upgrade = upgrade_0016, mg_downgrade = downgrade_0016\<rparr>,
      \<lparr>mg_revision = ''0017_node_metrics_longterm_index'', mg_down_revision = Some ''0016'', mg_upgrade = upgrade_0017, mg_downgrade = downgrade_0017\<rparr>,
      \<lparr>mg_revision = ''0018_is_internal'', mg_down_revision = Some ''0017_node_metrics_longterm_index'', mg_upgrade = upgrade_0018, mg_downgrade = downgrade_0018\<rparr>,
      \<lparr>mg_revision = ''0019_precache_warming_dnsdist'', mg_down_revision = Some ''0018_is_internal'', mg_upgrade = upgrade_0019, mg_downgrade = downgrade_0019\<rparr>]"

section \<open>The tables the classes declare\<close>

text \<open>Per table its columns, with their type and whether they may be null, and its unique constraints.\<close>

type_synonym model_table = "string \<times> (string \<times> sql_type \<times> bool) list \<times> string list list"

definition model_users :: model_table where
  "model_users =
       (''users'',
         [(''id'', IntegerType, False),
          (''username'', VarChar 100, False),
          (''password_hash'', VarChar 255, False),
          (''created_at'', DateTimeType False, False),
          (''last_login'', DateTimeType False, True)],
         [[''username'']])"

definition model_nodes :: model_table where
  "model_nodes =
       (''nodes'',
         [(''id'', IntegerType, False),
          (''name'', VarChar 255, False),
          (''api_key'', VarChar 64, False),
          (''ip_address'', VarChar 45, True),
          (''version'', VarChar 20, True),
          (''status'', VarChar 20, False),
          (''last_seen'', DateTimeType False, True),
          (''last_heartbeat'', DateTimeType False, True),
          (''last_error'', TextType, True),
          (''quarantine_entry_time'', DateTimeType False, True),
          (''quarantine_reason'', TextType, True),
          (''approved_by'', IntegerType, True),
          (''approved_at'', DateTimeType False, True),
          (''config_version'', IntegerType, False),
          (''queries_total'', BigIntegerType, False),
          (''queries_blocked'', BigIntegerType, False),
          (''created_at'', DateTimeType False, False)],
         [[''name''], [''api_key'']])"

definition model_clients :: model_table where
  "model_clients =
       (''clients'',
         [(''id'', BigIntegerType, False),
          (''ip'', VarChar 64, False),
          (''display_name'', VarChar 255, True),
          (''rdns_name'', VarChar 255, True),
          (''rdns_last_resolved_at'', DateTimeType True, True),
          (''rdns_last_error'', TextType, True),
          (''group_id'', IntegerType, True),
          (''created_at'', DateTimeType True, False),
          (''last_seen'', DateTimeType True, True)],
         [[''ip'']])"

definition model_client_groups :: model_table where
  "model_client_groups =
       (''client_groups'',
         [(''id'', IntegerType, False),
          (''name'', VarChar 100, False),
          (''description'', TextType, True),
          (''cidr'', VarChar 50, True),
          (''color'', VarChar 20, False),
          (''created_at'', DateTimeType True, False)],
         [[''name'']])"

definition model_client_resolver_rules :: model_table where
  "model_client_resolver_rules =
       (''client_resolver_rules'',
         [(''id'', BigIntegerType, False),
          (''subnet'', VarChar 64, False),
          (''nameserver'', VarChar 255, False),
          (''enabled'', BooleanType, False),
          (''priority'', IntegerType, False),
          (''description'', VarChar 255, True),
          (''created_at'', DateTimeType True, False),
          (''updated_at'', DateTimeType True, True)],
         [[''subnet'']])"

definition model_blocklists :: model_table where
  "model_blocklists =
       (''blocklists'',
         [(''id'', BigIntegerType, False),
          (''name'', VarChar 255, False),
          (''url'', TextType, False),
          (''format'', VarChar 50, False),
          (''list_type'', VarChar 10, False),
          (''enabled'', BooleanType, False),
          (''update_frequency_hours'', IntegerType, False),
          (''last_updated'', DateTimeType True, True),
          (''last_update_status'', VarChar 20, True),
          (''last_error'', TextType, True),
          (''entry_count'', IntegerType, False),
          (''etag'', VarChar 255, True),
          (''last_modified'', VarChar 255, True),
          (''schedule_enabled'', BooleanType, False),
          (''schedule_start'', VarChar 5, True),
          (''schedule_end'', VarChar 5, True),
          (''schedule_days'', VarChar 20, True),
          (''created_at'', DateTimeType True, False)],
         [[''url'']])"

definition model_blocklist_entries :: model_table where
  "model_blocklist_entries =
       (''blocklist_entries'',
         [(''id'', BigIntegerType, False),
          (''domain'', VarChar 255, False),
          (''blocklist_id'', BigIntegerType, False),
          (''created_at'', DateTimeType True, False)],
         [[''domain'', ''blocklist_id'']])"

definition model_manual_entries :: model_table where
  "model_manual_entries =
       (''manual_entries'',
         [(''id'', BigIntegerType, False),
          (''domain'', VarChar 255, False),
          (''entry_type'', VarChar 10, False),
          (''comment'', TextType, True),
          (''created_at'', DateTimeType True, False)],
         [[''domain'']])"

definition model_forward_zones :: model_table where
  "model_forward_zones =
       (''forward_zones'',
         [(''id'', BigIntegerType, False),
          (''domain'', VarChar 255, False),
          (''servers'', TextType, False),
          (''description'', TextType, True),
          (''enabled'', BooleanType, False),
          (''node_id'', BigIntegerType, True),
          (''created_at'', DateTimeType True, False),
          (''updated_at'', DateTimeType True, True)],
         [[''domain'']])"

definition model_config_changes :: model_table where
  "model_config_changes =
       (''config_changes'',
         [(''id'', BigIntegerType, False),
          (''entity_type'', VarChar 50, False),
          (''entity_id'', BigIntegerType, True),
          (''action'', VarChar 20, False),
          (''actor_user_id'', BigIntegerType, True),
          (''before_data'', JSONBType, True),
          (''after_data'', JSONBType, True),
          (''comment'', TextType, True),
          (''created_at'', DateTimeType True, False)],
         [])"

definition model_dns_query_events :: model_table where
  "model_dns_query_events =
       (''dns_query_events'',
         [(''id'', BigIntegerType, False),
          (''event_id'', VarChar 64, True),
          (''event_seq'', BigIntegerType, True),
          (''ts'', DateTimeType True, False),
          (''node_id'', IntegerType, True),
          (''client_ip'', VarChar 64, False),
          (''client_id'', BigIntegerType, True),
          (''is_internal'', BooleanType, False),
          (''qname'', TextType, False),
          (''qtype'', IntegerType, False),
          (''rcode'', IntegerType, False),
          (''blocked'', BooleanType, False),
          (''block_reason'', VarChar 50, True),
          (''blocklist_name'', VarChar 255, True),
          (''latency_ms'', IntegerType, True)],
         [[''node_id'', ''event_seq''], [''event_id'']])"

definition model_node_commands :: model_table where
  "model_node_commands =
       (''node_commands'',
         [(''id'', IntegerType, False),
          (''node_id'', IntegerType, True),
          (''command'', VarChar 64, False),
          (''params'', TextType, True),
          (''created_at'', DateTimeType True, False),
          (''executed_at'', DateTimeType True, True),
          (''result'', TextType, True)],
         [])"

definition model_node_metrics :: model_table where
  "model_node_metrics =
       (''node_metrics'',
         [(''id'', BigIntegerType, False),
          (''node_id'', BigIntegerType, False),
          (''ts'', DateTimeType True, False),
          (''cache_hits'', BigIntegerType, False),
          (''cache_misses'', BigIntegerType, False),
          (''cache_entries'', BigIntegerType, False),
          (''packetcache_hits'', BigIntegerType, False),
          (''packetcache_misses'', BigIntegerType, False),
          (''answers_0_1'', BigIntegerType, False),
          (''answers_1_10'', BigIntegerType, False),
          (''answers_10_100'', BigIntegerType, False),
          (''answers_100_1000'', BigIntegerType, False),
          (''answers_slow'', BigIntegerType, False),
          (''concurrent_queries'', BigIntegerType, False),
          (''outgoing_timeouts'', BigIntegerType, False),
          (''servfail_answers'', BigIntegerType, False),
          (''nxdomain_answers'', BigIntegerType, False),
          (''questions'', BigIntegerType, False),
          (''all_outqueries'', BigIntegerType, False),
          (''uptime_seconds'', BigIntegerType, False)],
         [])"

definition model_query_rollups :: model_table where
  "model_query_rollups =
       (''query_rollups'',
         [(''id'', BigIntegerType, False),
          (''bucket_start'', DateTimeType True, False),
          (''granularity'', VarChar 10, False),
          (''client_id'', BigIntegerType, True),
          (''node_id'', BigIntegerType, True),
          (''total_queries'', BigIntegerType, False),
          (''blocked_queries'', BigIntegerType, False),
          (''nxdomain_count'', BigIntegerType, False),
          (''servfail_count'', BigIntegerType, False),
          (''cache_hits'', BigIntegerType, False),
          (''avg_latency_ms'', IntegerType, True),
          (''unique_domains'', BigIntegerType, False),
          (''created_at'', DateTimeType True, False),
          (''updated_at'', DateTimeType True, True)],
         [[''bucket_start'', ''granularity'', ''client_id'', ''node_id'']])"

definition model_settings :: model_table where
  "model_settings =
       (''settings'',
         [(''id'', IntegerType, False),
          (''key'', VarChar 64, False),
          (''value'', TextType, False),
          (''updated_at'', DateTimeType True, True)],
         [[''key'']])"

definition model_tables :: "model_table list" where
  "model_tables =
     [model_users, model_nodes, model_clients, model_client_groups, model_client_resolver_rules, model_blocklists, model_blocklist_entries, model_manual_entries, model_forward_zones, model_config_changes, model_dns_query_events, model_node_commands, model_node_metrics, model_query_rollups, model_settings]"

section \<open>Migrations of rows\<close>

text \<open>The statements of two migrations change rows.  The time of the last change of a setting is not modelled.\<close>

definition backfill_last_heartbeat :: "db \<Rightarrow> db" where
  "backfill_last_heartbeat d =
     d\<lparr>db_nodes := tbl_update (\<lambda>n. n_last_heartbeat n = None \<and> n_last_seen n \<noteq> None) (\<lambda>n. n\<lparr>n_last_heartbeat := n_last_seen n\<rparr>) (db_nodes d)\<rparr>"

definition FLIPS :: "(string \<times> string \<times> string) list" where
  "FLIPS = [(''precache_dns_server'', ''recursor'', ''dnsdist''), (''precache_dns_port'', ''5300'', ''53'')]"

definition flip :: "string \<Rightarrow> string \<Rightarrow> string \<Rightarrow> db \<Rightarrow> db" where
  "flip key old new d =
     d\<lparr>db_settings := tbl_update (\<lambda>r. s_key r = key \<and> s_value r = old) (\<lambda>r. r\<lparr>s_value := new\<rparr>) (db_settings d)\<rparr>"

definition upgrade_settings_0019 :: "db \<Rightarrow> db" where
  "upgrade_settings_0019 d = fold (\<lambda>(key, old, new). flip key old new) FLIPS d"

definition downgrade_settings_0019 :: "db \<Rightarrow> db" where
  "downgrade_settings_0019 d = fold (\<lambda>(key, old, new). flip key new old) FLIPS d"

section \<open>Running and undoing migrations\<close>

fun upgrade_all :: "migration list \<Rightarrow> schema \<Rightarrow> schema option" where
  "upgrade_all [] s = Some s"
| "upgrade_all (m # ms) s = (case run_ops (mg_upgrade m) s of None \<Rightarrow> None | Some s1 \<Rightarrow> upgrade_all ms s1)"

text \<open>A downgrade takes the migrations back, the last one first.\<close>

fun downgrade_all :: "migration list \<Rightarrow> schema \<Rightarrow> schema option" where
  "downgrade_all [] s = Some s"
| "downgrade_all (m # ms) s = (case downgrade_all ms s of None \<Rightarrow> None | Some s1 \<Rightarrow> run_ops (mg_downgrade m) s1)"

text \<open>The operation that takes another one back; a removal and a change of rows have none.\<close>

fun undo_op :: "schema_op \<Rightarrow> schema_op option" where
  "undo_op (CreateTable tn cols cons) = Some (DropTable tn)"
| "undo_op (AddColumn tn c) = Some (DropColumn tn (cd_name c))"
| "undo_op (CreateIndex name tn cs) = Some (DropIndex name)"
| "undo_op (CreateUnique name tn cs) = Some (DropConstraint name tn)"
| "undo_op _ = None"

definition additive :: "schema_op list \<Rightarrow> bool" where
  "additive xs = list_all (\<lambda>x. x = Execute \<or> undo_op x \<noteq> None) xs"

definition undo_ops :: "schema_op list \<Rightarrow> schema_op list" where
  "undo_ops xs = rev (List.map_filter undo_op xs)"

definition schema_part :: "schema_op list \<Rightarrow> schema_op list" where
  "schema_part xs = filter (\<lambda>x. x \<noteq> Execute) xs"

lemma run_schema_part: "run_ops (schema_part xs) s = run_ops xs s"
  by (induction xs arbitrary: s) (auto simp: schema_part_def split: option.splits)

section \<open>Sound schemas\<close>

definition schema_ok :: "schema \<Rightarrow> bool" where
  "schema_ok s \<longleftrightarrow> distinct (relation_names s) \<and> list_all (\<lambda>(tn, ts). table_ok s ts) s"

lemma relation_names_append [simp]: "relation_names (s @ t) = relation_names s @ relation_names t"
  by (simp add: relation_names_def)

lemma relation_names_Nil [simp]: "relation_names [] = []"
  by (simp add: relation_names_def)

lemma tables_in_relations: "fst ` set s \<subseteq> set (relation_names s)"
  by (force simp: relation_names_def)

lemma schema_ok_tables: "schema_ok s \<Longrightarrow> distinct (map fst s)"
proof -
  have "distinct (relation_names s) \<Longrightarrow> distinct (map fst s)"
  proof (induction s)
    case (Cons x s)
    obtain tn ts where x: "x = (tn, ts)" by (cases x)
    have "set (relation_names [x]) \<inter> set (relation_names s) = {}" "distinct (relation_names s)"
      using Cons.prems relation_names_append [of "[x]" s] by auto
    moreover have "tn \<in> set (relation_names [x])" by (simp add: x relation_names_def)
    ultimately show ?case using Cons.IH tables_in_relations [of s] by (auto simp: x)
  qed simp
  then show "schema_ok s \<Longrightarrow> distinct (map fst s)" by (simp add: schema_ok_def)
qed

lemma schema_ok_empty: "schema_ok []"
  by (simp add: schema_ok_def)

lemma map_of_mem: "schema_ok s \<Longrightarrow> (tn, ts) \<in> set s \<Longrightarrow> map_of s tn = Some ts"
  using schema_ok_tables by (simp add: map_of_is_SomeI)

lemma table_ok_mono: "table_ok s ts \<Longrightarrow> (\<And>t c. has_column s t c \<Longrightarrow> has_column s' t c) \<Longrightarrow> table_ok s' ts"
  by (auto simp: table_ok_def list_all_iff)

lemma schema_ok_foreign: "schema_ok s \<Longrightarrow> (t, ts) \<in> set s \<Longrightarrow> (c, t', r, od) \<in> set (tc_foreign ts) \<Longrightarrow> has_column s t' r"
  by (fastforce simp: schema_ok_def table_ok_def list_all_iff)

lemma has_columnD: "has_column s tn c \<Longrightarrow> tn \<in> fst ` set s"
  unfolding dom_map_of_conv_image_fst [symmetric] by (auto simp: has_column_def split: option.splits)

section \<open>Altering a table\<close>

lemma map_of_alter: "map_of (alter tn f s) t = (if t = tn then map_option f (map_of s t) else map_of s t)"
  by (induction s) (auto simp: alter_def)

lemma alter_fst: "map fst (alter tn f s) = map fst s"
  by (induction s) (auto simp: alter_def)

lemma alter_undone:
  assumes "schema_ok s" and "map_of s tn = Some ts" and "g (f ts) = ts"
  shows "alter tn g (alter tn f s) = s"
proof -
  have "g (f x) = x" if "(tn, x) \<in> set s" for x
    using map_of_mem [OF assms(1) that] assms(2,3) by auto
  then show ?thesis by (auto simp: alter_def intro!: map_idI)
qed

text \<open>What a change of one table does to the names in use.\<close>

lemma mset_relation_names_alter:
  assumes "distinct (map fst s)" and "map_of s tn = Some ts" and "mset (relation_names [(tn, f ts)]) = mset new + mset (relation_names [(tn, ts)])"
  shows "mset (relation_names (alter tn f s)) = mset new + mset (relation_names s)"
  using assms(1,2)
proof (induction s)
  case (Cons x s)
  obtain t x' where x: "x = (t, x')" by (cases x)
  have split: "relation_names (y # u) = relation_names [y] @ relation_names u" for y u
    using relation_names_append [of "[y]" u] by simp
  show ?case
  proof (cases "t = tn")
    case True
    then have "tn \<notin> fst ` set s" using Cons.prems(1) by (simp add: x)
    then have "alter tn f s = s" by (force simp: alter_def intro!: map_idI)
    with True Cons.prems(2) assms(3) show ?thesis
      using split [of "(tn, f ts)" s] split [of "(tn, ts)" s] by (simp add: alter_def x)
  next
    case False
    with Cons have "mset (relation_names (alter tn f s)) = mset new + mset (relation_names s)" by (simp add: x)
    with False show ?thesis
      using split [of x "alter tn f s"] split [of x s] by (simp add: alter_def x)
  qed
qed simp

lemma schema_ok_alter:
  assumes ok: "schema_ok s" and tn: "map_of s tn = Some ts" and fresh: "fresh_names new s"
    and names: "mset (relation_names [(tn, f ts)]) = mset new + mset (relation_names [(tn, ts)])"
    and cols: "set (column_names ts) \<subseteq> set (column_names (f ts))" and table: "table_ok s (f ts)"
  shows "schema_ok (alter tn f s)"
proof -
  have "mset (relation_names (alter tn f s)) = mset (new @ relation_names s)"
    using mset_relation_names_alter [where f = f, OF schema_ok_tables [OF ok] tn names] by simp
  moreover have "distinct (new @ relation_names s)"
    using fresh ok by (auto simp: fresh_names_def schema_ok_def list_all_iff)
  ultimately have "distinct (relation_names (alter tn f s))" using mset_eq_imp_distinct_iff by blast
  moreover have mono: "has_column (alter tn f s) t c" if "has_column s t c" for t c
    using that cols tn by (auto simp: has_column_def map_of_alter split: option.splits)
  have "table_ok (alter tn f s) x" if "(t, x) \<in> set (alter tn f s)" for t x
  proof (cases "t = tn")
    case True
    with that obtain y where "(tn, y) \<in> set s" "x = f y" by (auto simp: alter_def split: if_splits)
    then have "x = f ts" using map_of_mem [OF ok] tn by fastforce
    with table_ok_mono [OF table mono] show ?thesis by simp
  next
    case False
    with that have "(t, x) \<in> set s" by (auto simp: alter_def split: if_splits)
    then have "table_ok s x" using ok by (auto simp: schema_ok_def list_all_iff)
    then show ?thesis by (rule table_ok_mono [OF _ mono])
  qed
  ultimately show ?thesis by (auto simp: schema_ok_def list_all_iff)
qed

section \<open>Taking an operation back\<close>

lemma fresh_not_in: "fresh_names names s \<Longrightarrow> n \<in> set names \<Longrightarrow> n \<notin> set (relation_names s)"
  by (auto simp: fresh_names_def list_all_iff)

lemma in_relations:
  assumes "(t, ts) \<in> set s" and "(n, cs) \<in> set (tc_uniques ts) \<or> (n, cs) \<in> set (tc_indexes ts)"
  shows "n \<in> set (relation_names s)"
proof -
  have "n \<in> set (relation_names [(t, ts)])" using assms(2) image_eqI [of n fst "(n, cs)"] by (auto simp: relation_names_def)
  then show ?thesis using split_list [OF assms(1)] relation_names_append by (metis (no_types, lifting) UnCI append_Cons append_Nil set_append)
qed

lemma create_table_undone:
  assumes ok: "schema_ok s" and "apply_op (CreateTable tn cols cons) s = Some s1"
  shows "apply_op (DropTable tn) s1 = Some s \<and> schema_ok s1"
proof -
  obtain ts where s1: "s1 = s @ [(tn, ts)]" and fresh: "fresh_names (relation_names [(tn, ts)]) s" and new: "table_ok s1 ts"
    using assms(2) by (auto simp: Let_def split: if_splits)
  have "tn \<in> set (relation_names [(tn, ts)])" by (simp add: relation_names_def)
  from fresh_not_in [OF fresh this] have tn: "tn \<notin> fst ` set s" using tables_in_relations by blast
  have "\<not> referred s1 tn (\<lambda>r. True)"
  proof
    assume "referred s1 tn (\<lambda>r. True)"
    then obtain t x c r od where "(t, x) \<in> set s" "(c, tn, r, od) \<in> set (tc_foreign x)" by (auto simp: referred_def s1 list_ex_iff)
    from has_columnD [OF schema_ok_foreign [OF ok this]] tn show False by contradiction
  qed
  moreover have "map_of s1 tn \<noteq> None" by (simp add: s1 map_of_eq_None_iff)
  moreover have "filter (\<lambda>(t, ts). t \<noteq> tn) s1 = s" using tn by (force simp: s1 filter_id_conv)
  moreover have mono: "has_column s1 t c" if "has_column s t c" for t c
    using that by (auto simp: has_column_def s1 map_add_def split: option.splits)
  have "schema_ok s1"
    using ok fresh new table_ok_mono [OF _ mono] by (fastforce simp: schema_ok_def s1 fresh_names_def list_all_iff)
  ultimately show ?thesis by simp
qed

lemma without_with_column:
  assumes "table_ok s ts" and "table_ok s' (with_column tn c ts)"
  shows "without_column (cd_name c) (with_column tn c ts) = ts"
proof -
  let ?n = "cd_name c"
  have names: "column_names (with_column tn c ts) = column_names ts @ [?n]" by (simp add: column_names_def with_column_def column_of_def)
  then have n: "?n \<notin> set (column_names ts)" "CHR ''('' \<notin> set ?n" using assms(2) by (auto simp: table_ok_def)
  have "filter (\<lambda>x. cn_name x \<noteq> ?n) (tc_columns ts) = tc_columns ts" using n(1) by (force simp: column_names_def filter_id_conv)
  moreover have "filter (\<lambda>x. x \<noteq> ?n) (tc_primary ts) = tc_primary ts" "filter (\<lambda>(m, cs). ?n \<notin> set cs) (tc_uniques ts) = tc_uniques ts"
    "filter (\<lambda>(x, t, r, od). x \<noteq> ?n) (tc_foreign ts) = tc_foreign ts" "filter (\<lambda>(m, cs). ?n \<notin> set cs) (tc_indexes ts) = tc_indexes ts"
    using assms(1) n by (fastforce simp: table_ok_def list_all_iff filter_id_conv)+
  moreover have "filter (\<lambda>(x, t, r, od). x \<noteq> ?n) (List.map_filter (\<lambda>a. case a of References t r od \<Rightarrow> Some (?n, t, r, od) | _ \<Rightarrow> None) as) = []" for as
    by (induction as) (auto simp: map_filter_simps split: column_attr.splits)
  ultimately show ?thesis
    by (simp add: without_column_def with_column_def column_of_def primary_of_def uniques_of_def foreign_of_def indexes_of_def)
qed

lemma add_column_undone:
  assumes ok: "schema_ok s" and "apply_op (AddColumn tn c) s = Some s1"
  shows "apply_op (DropColumn tn (cd_name c)) s1 = Some s \<and> schema_ok s1"
proof -
  let ?f = "with_column tn c"
  let ?new = "map fst (uniques_of tn c) @ map fst (indexes_of tn c)"
  obtain ts where ts: "map_of s tn = Some ts" and fresh: "fresh_names ?new s" and table: "table_ok s (?f ts)" and s1: "s1 = alter tn ?f s"
    using assms(2) by (auto split: option.splits if_splits)
  have names: "column_names (?f x) = column_names x @ [cd_name c]" for x by (simp add: column_names_def with_column_def column_of_def)
  have "table_ok s ts" using ok map_of_SomeD [OF ts] by (auto simp: schema_ok_def list_all_iff)
  from alter_undone [where f = ?f and g = "without_column (cd_name c)", OF ok ts without_with_column [OF this table]] have "alter tn (without_column (cd_name c)) s1 = s" by (simp add: s1)
  moreover have "has_column s1 tn (cd_name c)" by (simp add: has_column_def s1 map_of_alter ts names)
  moreover have "\<not> referred s1 tn (\<lambda>r. r = cd_name c)"
  proof
    assume "referred s1 tn (\<lambda>r. r = cd_name c)"
    then obtain t x k od where "(t, x) \<in> set s" "(k, tn, cd_name c, od) \<in> set (tc_foreign x)"
      by (auto simp: referred_def s1 list_ex_iff alter_def split: if_splits)
    from schema_ok_foreign [OF ok this] have "cd_name c \<in> set (column_names ts)" by (simp add: has_column_def ts)
    then show False using table by (simp add: table_ok_def names)
  qed
  moreover have "schema_ok s1" unfolding s1
  proof (rule schema_ok_alter [where f = ?f, OF ok ts fresh _ _ table])
    show "mset (relation_names [(tn, ?f ts)]) = mset ?new + mset (relation_names [(tn, ts)])"
      by (simp add: relation_names_def with_column_def)
  qed (simp add: names subset_insertI)
  ultimately show ?thesis by simp
qed

lemma create_index_undone:
  assumes ok: "schema_ok s" and "apply_op (CreateIndex name tn cs) s = Some s1"
  shows "apply_op (DropIndex name) s1 = Some s \<and> schema_ok s1"
proof -
  let ?f = "\<lambda>ts. ts\<lparr>tc_indexes := tc_indexes ts @ [(name, cs)]\<rparr>"
  obtain ts where ts: "map_of s tn = Some ts" and fresh: "fresh_names [name] s" and s1: "s1 = alter tn ?f s"
    and cols: "\<forall>c \<in> set cs. has_column s tn c \<or> CHR ''('' \<in> set c"
    using assms(2) by (auto simp: list_all_iff split: option.splits if_splits)
  have name: "n \<noteq> name" if "(t, x) \<in> set s" "(n, ks) \<in> set (tc_indexes x)" for t x n ks
    using in_relations [of t x s n ks] fresh_not_in [OF fresh, of name] that by auto
  have "list_ex (\<lambda>(t, ts). name \<in> set (map fst (tc_indexes ts))) s1"
    using map_of_SomeD [OF ts] by (force simp: s1 alter_def list_ex_iff)
  moreover have "map (\<lambda>(t, ts). (t, ts\<lparr>tc_indexes := filter (\<lambda>(n, cs). n \<noteq> name) (tc_indexes ts)\<rparr>)) s1 = s"
  proof -
    have "filter (\<lambda>(n, ks). n \<noteq> name) (tc_indexes x) = tc_indexes x" if "(t, x) \<in> set s" for t x
      using name [OF that] by (auto simp: filter_id_conv)
    then show ?thesis by (auto simp: s1 alter_def intro!: map_idI)
  qed
  moreover have "table_ok s ts" using ok map_of_SomeD [OF ts] by (auto simp: schema_ok_def list_all_iff)
  then have table: "table_ok s (?f ts)" using cols by (auto simp: table_ok_def column_names_def has_column_def ts list_all_iff)
  have "schema_ok s1" unfolding s1
    by (rule schema_ok_alter [where f = ?f, OF ok ts fresh _ _ table]) (simp_all add: relation_names_def column_names_def)
  ultimately show ?thesis by simp
qed

lemma create_unique_undone:
  assumes ok: "schema_ok s" and "apply_op (CreateUnique name tn cs) s = Some s1"
  shows "apply_op (DropConstraint name tn) s1 = Some s \<and> schema_ok s1"
proof -
  let ?f = "\<lambda>ts. ts\<lparr>tc_uniques := tc_uniques ts @ [(name, cs)]\<rparr>" and ?g = "\<lambda>ts. ts\<lparr>tc_uniques := filter (\<lambda>(n, cs). n \<noteq> name) (tc_uniques ts)\<rparr>"
  obtain ts where ts: "map_of s tn = Some ts" and fresh: "fresh_names [name] s" and s1: "s1 = alter tn ?f s"
    and cols: "\<forall>c \<in> set cs. has_column s tn c"
    using assms(2) by (auto simp: list_all_iff split: option.splits if_splits)
  have "filter (\<lambda>(n, ks). n \<noteq> name) (tc_uniques ts) = tc_uniques ts"
    using in_relations [OF map_of_SomeD [OF ts]] fresh_not_in [OF fresh, of name] by (auto simp: filter_id_conv)
  then have "?g (?f ts) = ts" by simp
  from alter_undone [where f = ?f and g = ?g, OF ok ts this] have "alter tn ?g s1 = s" unfolding s1 .
  moreover have "map_of s1 tn = Some (?f ts)" by (simp add: s1 map_of_alter ts)
  moreover have "table_ok s ts" using ok map_of_SomeD [OF ts] by (auto simp: schema_ok_def list_all_iff)
  then have table: "table_ok s (?f ts)" using cols by (auto simp: table_ok_def column_names_def has_column_def ts list_all_iff)
  have "schema_ok s1" unfolding s1
    by (rule schema_ok_alter [where f = ?f, OF ok ts fresh _ _ table]) (simp_all add: relation_names_def column_names_def)
  ultimately show ?thesis by simp
qed

lemma op_undone:
  assumes "schema_ok s" and "apply_op x s = Some s1" and "undo_op x = Some y"
  shows "apply_op y s1 = Some s \<and> schema_ok s1"
proof (cases x)
  case (CreateTable tn cols cons)
  then show ?thesis using create_table_undone [OF assms(1)] assms(2,3) by (auto simp del: apply_op.simps)
next
  case (AddColumn tn c)
  then show ?thesis using add_column_undone [OF assms(1)] assms(2,3) by (auto simp del: apply_op.simps)
next
  case (CreateIndex name tn cs)
  then show ?thesis using create_index_undone [OF assms(1)] assms(2,3) by (auto simp del: apply_op.simps)
next
  case (CreateUnique name tn cs)
  then show ?thesis using create_unique_undone [OF assms(1)] assms(2,3) by (auto simp del: apply_op.simps)
qed (use assms(3) in simp_all)

lemma run_ops_append: "run_ops (xs @ ys) s = (case run_ops xs s of None \<Rightarrow> None | Some s1 \<Rightarrow> run_ops ys s1)"
  by (induction xs arbitrary: s) (auto split: option.splits)

lemma ops_undone:
  "schema_ok s \<Longrightarrow> additive xs \<Longrightarrow> run_ops xs s = Some s1 \<Longrightarrow> run_ops (undo_ops xs) s1 = Some s \<and> schema_ok s1"
proof (induction xs arbitrary: s)
  case Nil
  then show ?case by (simp add: undo_ops_def map_filter_simps)
next
  case (Cons x xs)
  obtain s2 where s2: "apply_op x s = Some s2" and rest: "run_ops xs s2 = Some s1"
    using Cons.prems(3) by (auto split: option.splits)
  show ?case
  proof (cases "undo_op x")
    case None
    with Cons.prems(2) have "x = Execute" by (simp add: additive_def)
    with s2 rest Cons show ?thesis by (simp add: additive_def undo_ops_def map_filter_simps)
  next
    case (Some y)
    from op_undone [OF Cons.prems(1) s2 this] have y: "apply_op y s2 = Some s" "schema_ok s2" by simp_all
    with Cons.IH [OF y(2) _ rest] Cons.prems(2) have "run_ops (undo_ops xs) s1 = Some s2" "schema_ok s1" by (simp_all add: additive_def)
    with y(1) Some show ?thesis by (simp add: undo_ops_def map_filter_simps run_ops_append del: apply_op.simps)
  qed
qed

section \<open>The contract of reversible steps\<close>

text \<open>
  Steps that may fail and that their reverse takes back from a good state.  Then a sequence of them is
  taken back by the reverses in the opposite order, from any point to any earlier one.
\<close>

locale reversible =
  fixes ahead :: "'m \<Rightarrow> 's \<Rightarrow> 's option" and behind :: "'m \<Rightarrow> 's \<Rightarrow> 's option" and good :: "'m \<Rightarrow> 's \<Rightarrow> bool"
  assumes reversed: "good m s \<Longrightarrow> ahead m s = Some s1 \<Longrightarrow> behind m s1 = Some s"
begin

fun go :: "'m list \<Rightarrow> 's \<Rightarrow> 's option" where
  "go [] s = Some s"
| "go (m # ms) s = (case ahead m s of None \<Rightarrow> None | Some s1 \<Rightarrow> go ms s1)"

fun return :: "'m list \<Rightarrow> 's \<Rightarrow> 's option" where
  "return [] s = Some s"
| "return (m # ms) s = (case return ms s of None \<Rightarrow> None | Some s1 \<Rightarrow> behind m s1)"

fun all_good :: "'m list \<Rightarrow> 's \<Rightarrow> bool" where
  "all_good [] s = True"
| "all_good (m # ms) s = (good m s \<and> (case ahead m s of None \<Rightarrow> False | Some s1 \<Rightarrow> all_good ms s1))"

lemma go_append: "go (ms @ ns) s = (case go ms s of None \<Rightarrow> None | Some s1 \<Rightarrow> go ns s1)"
  by (induction ms arbitrary: s) (auto split: option.splits)

lemma all_good_append: "all_good (ms @ ns) s \<Longrightarrow> \<exists>s1. go ms s = Some s1 \<and> all_good ns s1"
  by (induction ms arbitrary: s) (auto split: option.splits)

lemma all_good_join: "go ms s = Some s1 \<Longrightarrow> all_good ms s \<Longrightarrow> all_good (ms @ ns) s = all_good ns s1"
  by (induction ms arbitrary: s) (auto split: option.splits)

lemma return_go: "all_good ms s \<Longrightarrow> \<exists>s1. go ms s = Some s1 \<and> return ms s1 = Some s"
proof (induction ms arbitrary: s)
  case (Cons m ms)
  then obtain s2 where s2: "good m s" "ahead m s = Some s2" "all_good ms s2" by (auto split: option.splits)
  from Cons.IH [OF s2(3)] obtain s1 where "go ms s2 = Some s1" "return ms s1 = Some s2" by blast
  with s2 reversed [OF s2(1,2)] show ?case by (intro exI [of _ s1]) simp
qed simp

lemma back_to:
  assumes "all_good (ms @ ns @ rest) s"
  shows "\<exists>s1 s2. go ms s = Some s1 \<and> go (ms @ ns) s = Some s2 \<and> return ns s2 = Some s1"
proof -
  obtain s1 where s1: "go ms s = Some s1" "all_good (ns @ rest) s1" using all_good_append [OF assms] by blast
  have "all_good ns s1"
  proof -
    have "all_good (ns @ rest) s1 \<Longrightarrow> all_good ns s1" for s1
      by (induction ns arbitrary: s1) (auto split: option.splits)
    with s1(2) show ?thesis by blast
  qed
  from return_go [OF this] s1(1) show ?thesis by (auto simp: go_append)
qed

end

text \<open>A migration is taken back when its downgrade is the reverse of its upgrade, or as evaluation shows.\<close>

definition reversed_here :: "migration \<Rightarrow> schema \<Rightarrow> bool" where
  "reversed_here m s \<longleftrightarrow>
     schema_ok s \<and> additive (mg_upgrade m) \<and> schema_part (mg_downgrade m) = undo_ops (mg_upgrade m) \<or>
     (\<forall>s1. run_ops (mg_upgrade m) s = Some s1 \<longrightarrow> run_ops (mg_downgrade m) s1 = Some s)"

interpretation schema_steps: reversible "\<lambda>m. run_ops (mg_upgrade m)" "\<lambda>m. run_ops (mg_downgrade m)" reversed_here
  by unfold_locales (metis reversed_here_def ops_undone run_schema_part)

lemma go_upgrade_all: "schema_steps.go ms s = upgrade_all ms s"
  by (induction ms arbitrary: s) (auto split: option.splits)

lemma return_downgrade_all: "schema_steps.return ms s = downgrade_all ms s"
  by (induction ms) (auto split: option.splits)

lemma all_good_additive:
  "schema_ok s \<Longrightarrow> list_all (\<lambda>m. additive (mg_upgrade m) \<and> schema_part (mg_downgrade m) = undo_ops (mg_upgrade m)) ms \<Longrightarrow>
   upgrade_all ms s = Some s1 \<Longrightarrow> schema_steps.all_good ms s \<and> schema_ok s1"
proof (induction ms arbitrary: s)
  case (Cons m ms)
  obtain s2 where s2: "run_ops (mg_upgrade m) s = Some s2" "upgrade_all ms s2 = Some s1" using Cons.prems(3) by (auto split: option.splits)
  with ops_undone [OF Cons.prems(1) _ s2(1)] Cons.prems(2) have "schema_ok s2" by simp
  from Cons.IH [OF this _ s2(2)] Cons.prems(2) have "schema_steps.all_good ms s2 \<and> schema_ok s1" by simp
  moreover have "reversed_here m s" using Cons.prems(1,2) by (simp add: reversed_here_def)
  ultimately show ?case using s2(1) by simp
qed simp

lemma most_additive: "list_all (\<lambda>m. additive (mg_upgrade m) \<and> schema_part (mg_downgrade m) = undo_ops (mg_upgrade m)) (take 13 migrations @ drop 14 migrations)"
  by code_simp

text \<open>
  Differences between a schema and the classes: columns whose type or nullability differ, tables with
  other column names, and unique constraints that the classes declare and the table lacks.
\<close>

definition column_differences :: "schema \<Rightarrow> (string \<times> string) list" where
  "column_differences s =
     concat (map (\<lambda>(tn, cols, us).
       map (\<lambda>(c, ty, nl). (tn, c))
         (filter (\<lambda>(c, ty, nl). case map_of s tn of None \<Rightarrow> True
            | Some ts \<Rightarrow> \<not> list_ex (\<lambda>x. cn_name x = c \<and> cn_type x = ty \<and> cn_null x = nl) (tc_columns ts)) cols)) model_tables)"

definition same_column_names :: "schema \<Rightarrow> bool" where
  "same_column_names s =
     list_all (\<lambda>(tn, cols, us). case map_of s tn of None \<Rightarrow> False
       | Some ts \<Rightarrow> length (column_names ts) = length cols \<and> list_all (\<lambda>(c, x). c \<in> set (column_names ts)) cols) model_tables"

definition missing_uniques :: "schema \<Rightarrow> (string \<times> string list) list" where
  "missing_uniques s =
     concat (map (\<lambda>(tn, cols, us).
       map (\<lambda>u. (tn, u)) (filter (\<lambda>u. case map_of s tn of None \<Rightarrow> True | Some ts \<Rightarrow> u \<notin> set (map snd (tc_uniques ts))) us)) model_tables)"

text \<open>Removing a constraint keeps a schema sound.\<close>

lemma list_all_filter: "list_all P xs \<Longrightarrow> list_all P (filter Q xs)"
  by (induction xs) simp_all

lemma table_ok_fewer_uniques: "table_ok s ts \<Longrightarrow> table_ok s (ts\<lparr>tc_uniques := filter Q (tc_uniques ts)\<rparr>)"
  by (simp add: table_ok_def column_names_def list_all_filter)

lemma drop_constraint_ok:
  assumes ok: "schema_ok s" and "apply_op (DropConstraint name tn) s = Some s1"
  shows "schema_ok s1"
proof -
  let ?g = "\<lambda>ts. ts\<lparr>tc_uniques := filter (\<lambda>(n, cs). n \<noteq> name) (tc_uniques ts)\<rparr>"
  obtain ts where ts: "map_of s tn = Some ts" and s1: "s1 = alter tn ?g s" using assms(2) by (auto split: option.splits if_splits)
  have restored: "alter tn (\<lambda>_. ts) s1 = s" unfolding s1 by (rule alter_undone [OF ok ts]) (rule refl)
  have "distinct (map fst s1)" using schema_ok_tables [OF ok] by (simp add: s1 alter_fst)
  moreover have "map_of s1 tn = Some (?g ts)" by (simp add: s1 map_of_alter ts)
  moreover have "mset (relation_names [(tn, ts)]) =
      mset (map fst (filter (\<lambda>(n, cs). n = name) (tc_uniques ts))) + mset (relation_names [(tn, ?g ts)])"
  proof -
    have "mset (map fst us) = mset (map fst (filter (\<lambda>(n, cs). n = name) us)) + mset (map fst (filter (\<lambda>(n, cs). n \<noteq> name) us))" for us :: "(string \<times> string list) list"
      by (induction us) auto
    then show ?thesis by (simp add: relation_names_def)
  qed
  ultimately have "mset (relation_names s) = mset (map fst (filter (\<lambda>(n, cs). n = name) (tc_uniques ts)) @ relation_names s1)"
    using mset_relation_names_alter [of s1 tn "?g ts" "\<lambda>_. ts" "map fst (filter (\<lambda>(n, cs). n = name) (tc_uniques ts))"]
    by (simp add: restored)
  then have "distinct (relation_names s1)" using ok mset_eq_imp_distinct_iff by (fastforce simp: schema_ok_def)
  moreover have mono: "has_column s1 t c" if "has_column s t c" for t c
    using that by (auto simp: has_column_def s1 map_of_alter column_names_def split: option.splits if_splits)
  have "table_ok s1 x" if x: "(t, x) \<in> set s1" for t x
  proof -
    obtain y where y: "(t, y) \<in> set s" "x = y \<or> x = ?g y" using x by (auto simp: s1 alter_def split: if_splits)
    then have "table_ok s y" using ok by (auto simp: schema_ok_def list_all_iff)
    then have "table_ok s x" using y(2) table_ok_fewer_uniques by blast
    then show ?thesis by (rule table_ok_mono [OF _ mono])
  qed
  ultimately show ?thesis by (auto simp: schema_ok_def list_all_iff)
qed

text \<open>One evaluation of the migrations on the empty database gives the facts below.\<close>

lemma migrations_evaluated:
  "case upgrade_all (take 13 migrations) [] of None \<Rightarrow> False
   | Some s \<Rightarrow> (case run_ops upgrade_0014 s of None \<Rightarrow> False
     | Some s1 \<Rightarrow> run_ops downgrade_0014 s1 = Some s \<and>
         (case upgrade_all (drop 14 migrations) s1 of None \<Rightarrow> False
          | Some h \<Rightarrow> same_column_names h \<and>
              column_differences h = [(''blocklists'', ''schedule_days''), (''forward_zones'', ''updated_at''), (''node_commands'', ''created_at'')] \<and>
              missing_uniques h = [(''dns_query_events'', [''node_id'', ''event_seq''])]))"
  by code_simp

lemma migrations_split: "migrations = take 13 migrations @ [migrations ! 13] @ drop 14 migrations"
  by (simp add: migrations_def)

lemma migration_14: "mg_upgrade (migrations ! 13) = upgrade_0014" "mg_downgrade (migrations ! 13) = downgrade_0014"
  by (simp_all add: migrations_def)

lemma upgrade_all_append: "upgrade_all (ms @ ns) s = (case upgrade_all ms s of None \<Rightarrow> None | Some s1 \<Rightarrow> upgrade_all ns s1)"
  by (induction ms arbitrary: s) (auto split: option.splits)

lemma head_schema:
  obtains h where "upgrade_all migrations [] = Some h" and "schema_steps.all_good migrations []" and "schema_ok h" and "same_column_names h"
    and "column_differences h = [(''blocklists'', ''schedule_days''), (''forward_zones'', ''updated_at''), (''node_commands'', ''created_at'')]"
    and "missing_uniques h = [(''dns_query_events'', [''node_id'', ''event_seq''])]"
proof -
  obtain s s1 h where s: "upgrade_all (take 13 migrations) [] = Some s" and s1: "run_ops upgrade_0014 s = Some s1" "run_ops downgrade_0014 s1 = Some s"
    and h: "upgrade_all (drop 14 migrations) s1 = Some h" "same_column_names h"
      "column_differences h = [(''blocklists'', ''schedule_days''), (''forward_zones'', ''updated_at''), (''node_commands'', ''created_at'')]"
      "missing_uniques h = [(''dns_query_events'', [''node_id'', ''event_seq''])]"
    using migrations_evaluated by (auto split: option.splits)
  have adds: "list_all (\<lambda>m. additive (mg_upgrade m) \<and> schema_part (mg_downgrade m) = undo_ops (mg_upgrade m)) (take 13 migrations)"
    "list_all (\<lambda>m. additive (mg_upgrade m) \<and> schema_part (mg_downgrade m) = undo_ops (mg_upgrade m)) (drop 14 migrations)"
    using most_additive by simp_all
  have first: "schema_steps.all_good (take 13 migrations) []" "schema_ok s" using all_good_additive [OF schema_ok_empty adds(1) s] by simp_all
  have "schema_ok s1"
    using drop_constraint_ok [OF first(2), of "''uq_node_event_seq''" "''dns_query_events''" s1] s1(1) by (simp add: upgrade_0014_def del: apply_op.simps split: option.splits)
  from all_good_additive [OF this adds(2) h(1)] have rest: "schema_steps.all_good (drop 14 migrations) s1" "schema_ok h" by simp_all
  have "reversed_here (migrations ! 13) s" using s1 by (simp add: reversed_here_def migration_14)
  with rest(1) s1(1) have "schema_steps.all_good ([migrations ! 13] @ drop 14 migrations) s" by (simp add: migration_14)
  with first(1) s have "schema_steps.all_good (take 13 migrations @ [migrations ! 13] @ drop 14 migrations) []"
    by (simp add: schema_steps.all_good_join go_upgrade_all)
  then have good: "schema_steps.all_good migrations []" by (simp only: migrations_split [symmetric])
  have "upgrade_all (take 13 migrations @ [migrations ! 13] @ drop 14 migrations) [] = Some h"
    by (simp only: upgrade_all_append s) (simp add: migration_14 s1(1) h(1))
  then have "upgrade_all migrations [] = Some h" by (simp only: migrations_split [symmetric])
  from that [OF this good rest(2) h(2-4)] show ?thesis .
qed

section \<open>Properties\<close>

text \<open>
  C39: a downgrade undoes exactly what was upgraded.  All nineteen migrations apply to the empty
  database without an error, and from the schema after any of them the downgrades back to any earlier
  one succeed and give the schema as it was there.
\<close>

theorem migrations_reversible:
  assumes "j \<le> k"
  shows "\<exists>sj sk. upgrade_all (take j migrations) [] = Some sj \<and> upgrade_all (take k migrations) [] = Some sk \<and>
    downgrade_all (drop j (take k migrations)) sk = Some sj"
proof -
  obtain h where "schema_steps.all_good migrations []" using head_schema by blast
  moreover have "migrations = take j migrations @ drop j (take k migrations) @ drop k migrations"
    using assms by (metis append.assoc append_take_drop_id min.absorb1 take_take)
  ultimately have "schema_steps.all_good (take j migrations @ drop j (take k migrations) @ drop k migrations) []" by simp
  moreover have "take j migrations @ drop j (take k migrations) = take k migrations"
    using assms by (metis append_take_drop_id min.absorb1 take_take)
  ultimately show ?thesis
    using schema_steps.back_to [of "take j migrations" "drop j (take k migrations)" "drop k migrations" "[]"]
    by (simp add: go_upgrade_all return_downgrade_all)
qed

theorem migrations_reversible_witness:
  "\<exists>sj sk. upgrade_all (take 3 migrations) [] = Some sj \<and> upgrade_all (take 14 migrations) [] = Some sk \<and>
    downgrade_all (drop 3 (take 14 migrations)) sk = Some sj"
  using migrations_reversible [of 3 14] by simp

text \<open>
  C40: the migrated database has the tables and columns the classes declare.  Every class finds its
  table with the same columns, of the same type and nullability, but for three: \<open>schedule_days\<close> of
  \<open>blocklists\<close>, \<open>updated_at\<close> of \<open>forward_zones\<close> and \<open>created_at\<close> of \<open>node_commands\<close>; the only unique
  constraint that a class declares and the database lacks is the one on the sequence numbers of events.
  The schema itself is sound: names are unique, constraints and foreign keys name what exists.
\<close>

theorem migrations_match_models:
  "\<exists>h. upgrade_all migrations [] = Some h \<and> schema_ok h \<and> same_column_names h \<and>
    column_differences h = [(''blocklists'', ''schedule_days''), (''forward_zones'', ''updated_at''), (''node_commands'', ''created_at'')] \<and>
    missing_uniques h = [(''dns_query_events'', [''node_id'', ''event_seq''])]"
  by (rule head_schema) blast

text \<open>The revisions form one chain, their names differ and fit the 32 characters of the version table.\<close>

theorem revisions_linear:
  "map mg_down_revision migrations = None # map (\<lambda>m. Some (mg_revision m)) (butlast migrations) \<and>
   distinct (map mg_revision migrations) \<and> list_all (\<lambda>m. length (mg_revision m) \<le> 32) migrations"
  by (simp add: migrations_def)

section \<open>The migration of the settings\<close>

lemma find_flip:
  "find (\<lambda>r. s_key r = k) (map (\<lambda>r. if s_key r = key \<and> s_value r = old then r\<lparr>s_value := new\<rparr> else r) rs) =
     map_option (\<lambda>r. if s_key r = key \<and> s_value r = old then r\<lparr>s_value := new\<rparr> else r) (find (\<lambda>r. s_key r = k) (rs :: setting list))"
  by (induction rs) auto

lemma get_setting_flip:
  assumes "map_of DEFAULTS key \<noteq> Some old" and "old \<noteq> []"
  shows "get_setting (flip key old new d) k = (if k = key \<and> get_setting d k = old then new else get_setting d k)"
proof (cases "find (\<lambda>r. s_key r = k) (rows (db_settings d))")
  case None
  with assms show ?thesis by (auto simp: get_setting_def flip_def tbl_find_def find_flip split: option.splits)
next
  case (Some r)
  then have "s_key r = k" by (auto simp: find_Some_iff)
  with Some show ?thesis by (auto simp: get_setting_def flip_def tbl_find_def find_flip)
qed

text \<open>
  The settings migration repoints old defaults and nothing else.  Read afterwards, the server of
  the cache warmer is \<open>dnsdist\<close> where it was \<open>recursor\<close> and its port is 53 where it was 5300, each on
  its own; every other value of these two and of every other setting is what it was; and running the
  migration again changes no setting.
\<close>

theorem settings_migration_exact:
  "get_setting (upgrade_settings_0019 d) k =
     (if k = ''precache_dns_server'' \<and> get_setting d k = ''recursor'' then ''dnsdist''
      else if k = ''precache_dns_port'' \<and> get_setting d k = ''5300'' then ''53''
      else get_setting d k) \<and>
   upgrade_settings_0019 (upgrade_settings_0019 d) = upgrade_settings_0019 d"
proof
  have "map_of DEFAULTS ''precache_dns_server'' \<noteq> Some ''recursor''" "map_of DEFAULTS ''precache_dns_port'' \<noteq> Some ''5300''"
    by (simp_all add: DEFAULTS_def)
  then show "get_setting (upgrade_settings_0019 d) k =
     (if k = ''precache_dns_server'' \<and> get_setting d k = ''recursor'' then ''dnsdist''
      else if k = ''precache_dns_port'' \<and> get_setting d k = ''5300'' then ''53''
      else get_setting d k)"
    by (auto simp: upgrade_settings_0019_def FLIPS_def get_setting_flip)
  show "upgrade_settings_0019 (upgrade_settings_0019 d) = upgrade_settings_0019 d"
    by (auto simp: upgrade_settings_0019_def FLIPS_def flip_def tbl_update_def)
qed

end
