(* ===== verification/Precache_Pages.thy ===== *)
theory Precache_Pages
  imports Boot_Burst System_Health
begin

text \<open>
  The page of the cache warmer and its buttons (\<open>admin-ui/app/routers/precache.py\<close>): the hit rate and
  the time saved of the last day, what is warm, the summary of the boot burst, and warming on demand.
  The threshold of a hit comes from the environment, the name of a query type from the DNS library.
\<close>

section \<open>Statistics\<close>

definition external_since :: "instant \<Rightarrow> dns_query_event \<Rightarrow> bool" where
  "external_since since e \<longleftrightarrow> since \<le> ev_ts e \<and> \<not> ev_is_internal e"

text \<open>A comparison with a null latency is not true.\<close>

definition answered_within :: "(int \<Rightarrow> bool) \<Rightarrow> instant \<Rightarrow> dns_query_event \<Rightarrow> bool" where
  "answered_within P since e \<longleftrightarrow>
     since \<le> ev_ts e \<and> \<not> ev_blocked e \<and> (case ev_latency_ms e of None \<Rightarrow> False | Some l \<Rightarrow> P l) \<and> \<not> ev_is_internal e"

definition avg_latency :: "dns_query_event list \<Rightarrow> rat" where
  "avg_latency es =
     (let ls = List.map_filter ev_latency_ms es in if ls = [] then 0 else of_int (sum_list ls) / of_nat (length ls))"

definition top_names :: "nat \<Rightarrow> dns_query_event list \<Rightarrow> (string \<times> nat) list" where
  "top_names n es =
     take n (sort_key (\<lambda>(q, k). - int k) (map (\<lambda>q. (q, length (filter (\<lambda>e. ev_qname e = q) es))) (fromkeys (map ev_qname es))))"

definition by_qtype :: "(pair \<times> pair_ttl) list \<Rightarrow> (int \<times> nat) list" where
  "by_qtype entries = map (\<lambda>t. (t, length (filter (\<lambda>(p, x). snd p = t) entries))) (fromkeys (map (\<lambda>(p, x). snd p) entries))"

definition qtype_counts :: "(int \<Rightarrow> string) \<Rightarrow> (pair \<times> pair_ttl) list \<Rightarrow> (string \<times> nat) list" where
  "qtype_counts to_text entries = map (\<lambda>(t, k). (to_text t, k)) (take 5 (sort_key (\<lambda>(t, k). - int k) (by_qtype entries)))"

section \<open>The page\<close>

record precache_view =
  pv_total :: nat
  pv_cache_hits :: nat
  pv_cache_misses :: int
  pv_hit_rate :: rat
  pv_time_saved_total :: rat
  pv_time_saved_per_query :: rat
  pv_top_cached :: "(string \<times> nat) list"
  pv_warmable_count :: nat
  pv_qtype_counts :: "(string \<times> nat) list"
  pv_enabled :: bool
  pv_domain_count :: int
  pv_refresh_minutes :: int
  pv_ignore_ttl :: bool
  pv_custom_refresh :: int
  pv_dns_server :: string
  pv_dns_port :: int
  pv_max_queries :: int
  pv_stats :: "nat \<times> nat \<times> nat"
  pv_burst_enabled :: bool
  pv_burst_concurrency :: int
  pv_burst_qps :: rat
  pv_burst_summary :: "boot_burst_result option"

definition precache_page ::
  "int \<Rightarrow> (int \<Rightarrow> string) \<Rightarrow> instant \<Rightarrow> int option \<Rightarrow> (pair \<times> pair_ttl) list \<Rightarrow> burst_state \<Rightarrow> db \<Rightarrow> precache_view option py_result" where
  "precache_page threshold to_text now sid entries s d =
     (case get_current_user sid d of
        None \<Rightarrow> Inr None
      | Some u \<Rightarrow>
          (let since = now - hours 24;
               total = length (tbl_select (external_since since) (db_events d));
               hit_events = tbl_select (answered_within (\<lambda>l. l < threshold) since) (db_events d);
               miss_events = tbl_select (answered_within (\<lambda>l. threshold \<le> l) since) (db_events d);
               cache_hits = length hit_events;
               per_query = avg_latency miss_events - avg_latency hit_events
           in case get_precache_domain_count d of Inl e \<Rightarrow> Inl e | Inr domain_count \<Rightarrow>
             (case get_precache_refresh_minutes d of Inl e \<Rightarrow> Inl e | Inr refresh_minutes \<Rightarrow>
             (case get_precache_custom_refresh_minutes d of Inl e \<Rightarrow> Inl e | Inr custom_refresh \<Rightarrow>
             (case get_precache_dns_port d of Inl e \<Rightarrow> Inl e | Inr dns_port \<Rightarrow>
             (case get_precache_max_queries_per_pass d of Inl e \<Rightarrow> Inl e | Inr max_queries \<Rightarrow>
             (case get_precache_boot_burst_concurrency d of Inl e \<Rightarrow> Inl e | Inr concurrency \<Rightarrow>
             (case get_precache_boot_burst_qps d of Inl e \<Rightarrow> Inl e | Inr qps \<Rightarrow>
               Inr (Some \<lparr>pv_total = total, pv_cache_hits = cache_hits, pv_cache_misses = int total - int cache_hits,
                 pv_hit_rate = (if 0 < total then of_nat cache_hits / of_nat total * 100 else 0),
                 pv_time_saved_total = per_query * of_nat cache_hits, pv_time_saved_per_query = per_query,
                 pv_top_cached = top_names 10 hit_events,
                 pv_warmable_count = length (get_top_pairs_to_warm now 24 domain_count None d),
                 pv_qtype_counts = qtype_counts to_text entries, pv_enabled = get_precache_enabled d,
                 pv_domain_count = domain_count, pv_refresh_minutes = refresh_minutes, pv_ignore_ttl = get_precache_ignore_ttl d,
                 pv_custom_refresh = custom_refresh, pv_dns_server = get_precache_dns_server d, pv_dns_port = dns_port,
                 pv_max_queries = max_queries, pv_stats = get_precache_stats now entries,
                 pv_burst_enabled = get_precache_boot_burst_enabled d, pv_burst_concurrency = concurrency, pv_burst_qps = qps,
                 pv_burst_summary = bst_last_result s\<rparr>)))))))))"

text \<open>Without a burst since the start the status is a fixed answer, here no result.\<close>

datatype burst_status = StatusLogin | NeverRun | LastBurst boot_burst_result

definition boot_burst_status :: "int option \<Rightarrow> burst_state \<Rightarrow> db \<Rightarrow> burst_status" where
  "boot_burst_status sid s d =
     (case get_current_user sid d of
        None \<Rightarrow> StatusLogin
      | Some u \<Rightarrow> (case bst_last_result s of None \<Rightarrow> NeverRun | Some r \<Rightarrow> LastBurst r))"

section \<open>Warming on demand\<close>

text \<open>The response, and the pairs with the server and port that a background task warms.\<close>

definition trigger_warm_cache :: "instant \<Rightarrow> int option \<Rightarrow> db \<Rightarrow> (response \<times> (pair list \<times> string \<times> int) option) py_result" where
  "trigger_warm_cache now sid d =
     (case get_current_user sid d of
        None \<Rightarrow> Inr (RedirectResponse ''/login'', None)
      | Some u \<Rightarrow>
          (case get_precache_dns_port d of Inl e \<Rightarrow> Inl e | Inr dns_port \<Rightarrow>
          (case get_precache_domain_count d of Inl e \<Rightarrow> Inl e | Inr domain_count \<Rightarrow>
          (case get_precache_max_queries_per_pass d of Inl e \<Rightarrow> Inl e | Inr max_queries \<Rightarrow>
            (let pairs = get_top_pairs_to_warm now 24 domain_count (Some (nat max_queries)) d
             in if pairs \<noteq> []
                then Inr (RedirectResponse (''/precache?warmed=Warming '' @ show_nat (length pairs) @ '' (name, type) pairs''),
                       Some (pairs, get_precache_dns_server d, dns_port))
                else Inr (RedirectResponse ''/precache?warmed=No pairs to warm'', None))))))"

section \<open>Averages\<close>

lemma map_filter_latency:
  "\<forall>e \<in> set es. \<exists>l. ev_latency_ms e = Some l \<and> P l \<Longrightarrow>
   length (List.map_filter ev_latency_ms es) = length es \<and> (\<forall>l \<in> set (List.map_filter ev_latency_ms es). P l)"
  by (induction es) (auto simp: map_filter_simps)

lemma avg_latency_above:
  assumes "\<forall>e \<in> set es. \<exists>l. ev_latency_ms e = Some l \<and> t \<le> l" and "es \<noteq> []"
  shows "of_int t \<le> avg_latency es"
proof -
  let ?ls = "List.map_filter ev_latency_ms es"
  have ls: "length ?ls = length es" "\<forall>l \<in> set ?ls. t \<le> l" using map_filter_latency [of es "\<lambda>l. t \<le> l"] assms(1) by auto
  have "int (length xs) * t \<le> sum_list xs" if "\<forall>l \<in> set xs. t \<le> l" for xs
    using that by (induction xs) (auto simp: algebra_simps)
  from this [OF ls(2)] have "of_int (int (length ?ls) * t) \<le> (of_int (sum_list ?ls) :: rat)" by (simp only: of_int_le_iff)
  moreover have "?ls \<noteq> []" "0 < length ?ls" using ls(1) assms(2) by auto
  ultimately show ?thesis by (simp add: avg_latency_def Let_def field_simps)
qed

lemma avg_latency_below:
  assumes "\<forall>e \<in> set es. \<exists>l. ev_latency_ms e = Some l \<and> l \<le> t" and "es \<noteq> []"
  shows "avg_latency es \<le> of_int t"
proof -
  let ?ls = "List.map_filter ev_latency_ms es"
  have ls: "length ?ls = length es" "\<forall>l \<in> set ?ls. l \<le> t" using map_filter_latency [of es "\<lambda>l. l \<le> t"] assms(1) by auto
  have "sum_list xs \<le> int (length xs) * t" if "\<forall>l \<in> set xs. l \<le> t" for xs
    using that by (induction xs) (auto simp: algebra_simps)
  from this [OF ls(2)] have "(of_int (sum_list ?ls) :: rat) \<le> of_int (int (length ?ls) * t)" by (simp only: of_int_le_iff)
  moreover have "?ls \<noteq> []" "0 < length ?ls" using ls(1) assms(2) by auto
  ultimately show ?thesis by (simp add: avg_latency_def Let_def field_simps)
qed

lemma length_filter_mono: "(\<And>x. P x \<Longrightarrow> Q x) \<Longrightarrow> length (filter P xs) \<le> length (filter Q xs)"
  by (induction xs) (auto intro: le_SucI)

lemma avg_latency_empty: "avg_latency [] = 0"
  by (simp add: avg_latency_def map_filter_simps)

section \<open>Properties\<close>

text \<open>
  The numbers of the page fit together.  The hits are among the queries of the last day, hits and
  misses add up to them, the hit rate is a percentage; and when some query missed the cache the time
  saved is not negative.
\<close>

theorem precache_numbers:
  assumes "precache_page threshold to_text now sid entries s d = Inr (Some v)" and "0 < threshold"
  shows "pv_cache_hits v \<le> pv_total v \<and> int (pv_cache_hits v) + pv_cache_misses v = int (pv_total v) \<and>
    0 \<le> pv_hit_rate v \<and> pv_hit_rate v \<le> 100 \<and> length (pv_top_cached v) \<le> 10 \<and>
    ((\<exists>e \<in> set (rows (db_events d)). answered_within (\<lambda>l. threshold \<le> l) (now - hours 24) e) \<longrightarrow>
      0 \<le> pv_time_saved_per_query v \<and> 0 \<le> pv_time_saved_total v)"
proof -
  let ?hit = "filter (answered_within (\<lambda>l. l < threshold) (now - hours 24)) (rows (db_events d))"
  let ?miss = "filter (answered_within (\<lambda>l. threshold \<le> l) (now - hours 24)) (rows (db_events d))"
  have v: "pv_total v = length (filter (external_since (now - hours 24)) (rows (db_events d)))" "pv_cache_hits v = length ?hit"
    "pv_cache_misses v = int (pv_total v) - int (pv_cache_hits v)"
    "pv_hit_rate v = (if 0 < pv_total v then of_nat (pv_cache_hits v) / of_nat (pv_total v) * 100 else 0)"
    "pv_time_saved_per_query v = avg_latency ?miss - avg_latency ?hit" "pv_time_saved_total v = pv_time_saved_per_query v * of_nat (pv_cache_hits v)"
    "pv_top_cached v = top_names 10 ?hit"
    using assms(1) by (auto simp: precache_page_def Let_def tbl_select_def split: option.splits sum.splits)
  have le: "pv_cache_hits v \<le> pv_total v"
    unfolding v(1,2) by (rule length_filter_mono) (simp add: answered_within_def external_since_def)
  have rate: "0 \<le> pv_hit_rate v \<and> pv_hit_rate v \<le> 100" using le by (simp add: v(4) divide_le_eq)
  have "0 \<le> pv_time_saved_per_query v" if "?miss \<noteq> []"
  proof -
    have "of_int threshold \<le> avg_latency ?miss" using that by (intro avg_latency_above) (auto simp: answered_within_def split: option.splits)
    moreover have "avg_latency ?hit \<le> of_int threshold"
    proof (cases "?hit = []")
      case False
      then show ?thesis by (intro avg_latency_below) (auto simp: answered_within_def split: option.splits)
    qed (use assms(2) in \<open>simp add: avg_latency_empty\<close>)
    ultimately show ?thesis by (simp add: v(5))
  qed
  then have saved: "(\<exists>e \<in> set (rows (db_events d)). answered_within (\<lambda>l. threshold \<le> l) (now - hours 24) e) \<longrightarrow>
      0 \<le> pv_time_saved_per_query v \<and> 0 \<le> pv_time_saved_total v"
    by (auto simp: v(6) filter_empty_conv)
  show ?thesis using le rate saved by (simp add: v(3,7) top_names_def)
qed

text \<open>With hits and no miss the page shows a negative time: the mean of no misses counts as zero.\<close>

theorem time_saved_negative_without_misses:
  assumes "precache_page threshold to_text now sid entries s d = Inr (Some v)"
    and "\<forall>e \<in> set (rows (db_events d)). \<not> answered_within (\<lambda>l. threshold \<le> l) (now - hours 24) e"
    and "\<forall>e \<in> set (rows (db_events d)). answered_within (\<lambda>l. l < threshold) (now - hours 24) e \<longrightarrow> (\<exists>l. ev_latency_ms e = Some l \<and> 1 \<le> l)"
    and "0 < pv_cache_hits v"
  shows "pv_time_saved_total v < 0"
proof -
  let ?hit = "filter (answered_within (\<lambda>l. l < threshold) (now - hours 24)) (rows (db_events d))"
  have v: "pv_cache_hits v = length ?hit"
    "pv_time_saved_total v = (avg_latency (filter (answered_within (\<lambda>l. threshold \<le> l) (now - hours 24)) (rows (db_events d))) - avg_latency ?hit) * of_nat (length ?hit)"
    using assms(1) by (auto simp: precache_page_def Let_def tbl_select_def split: option.splits sum.splits)
  have "filter (answered_within (\<lambda>l. threshold \<le> l) (now - hours 24)) (rows (db_events d)) = []" using assms(2) by (simp add: filter_empty_conv)
  moreover have "of_int 1 \<le> avg_latency ?hit" using assms(3,4) by (intro avg_latency_above) (auto simp: v(1))
  moreover have "(0 :: rat) < of_nat (length ?hit)" using assms(4) by (simp only: v(1) of_nat_0_less_iff)
  ultimately show ?thesis unfolding v(2) by (simp add: avg_latency_empty mult_less_0_iff)
qed

text \<open>
  Warming on demand asks for distinct pairs that clients were answered in the last day, at most as many
  as the settings allow.
\<close>

theorem trigger_within_limits:
  assumes "trigger_warm_cache now sid d = Inr (r, Some (pairs, server, port))"
    and "get_precache_domain_count d = Inr count" and "get_precache_max_queries_per_pass d = Inr limit"
  shows "pairs \<noteq> [] \<and> distinct pairs \<and> length pairs \<le> nat limit \<and> length pairs \<le> nat count \<and>
    (\<forall>p \<in> set pairs. \<exists>e \<in> set (rows (db_events d)). warmable (now - hours 24) e \<and> p = (ev_qname e, ev_qtype e))"
proof -
  have pairs: "pairs = get_top_pairs_to_warm now 24 count (Some (nat limit)) d" "pairs \<noteq> []"
    using assms by (auto simp: trigger_warm_cache_def Let_def split: option.splits sum.splits if_splits)
  have "set pairs \<subseteq> set (map (\<lambda>e. (ev_qname e, ev_qtype e)) (filter (warmable (now - hours 24)) (rows (db_events d))))"
    unfolding pairs(1) get_top_pairs_to_warm_def Let_def tbl_select_def by (auto dest!: in_set_takeD)
  moreover have "distinct pairs" unfolding pairs(1) get_top_pairs_to_warm_def Let_def by (simp add: distinct_take)
  moreover have "length pairs \<le> nat limit \<and> length pairs \<le> nat count" unfolding pairs(1) get_top_pairs_to_warm_def Let_def by (simp add: min_le_iff_disj)
  ultimately show ?thesis using pairs(2) by auto
qed

end
