(* ===== verification/Deployment.thy ===== *)
theory Deployment
  imports Sync_System Node_Package Ip_Address
begin

text \<open>
  From the download of a node package to a node in service: what the agent does before its loop
  (\<open>main\<close> of \<open>sync-agent/agent.py\<close>), started with the environment that the image
  (\<open>sync-agent/Dockerfile\<close>) and the compose file of the package give it, up to its first pass against
  the primary.
\<close>

section \<open>The environment\<close>

type_synonym environment = "string \<rightharpoonup> string"

definition getenv :: "string \<Rightarrow> string \<Rightarrow> environment \<Rightarrow> string" where
  "getenv key dflt env = (case env key of None \<Rightarrow> dflt | Some v \<Rightarrow> v)"

definition getenv_required :: "string \<Rightarrow> environment \<Rightarrow> string py_result" where
  "getenv_required key env =
     (case env key of
        None \<Rightarrow> Inl (RuntimeError (key @ '' is required''))
      | Some v \<Rightarrow> if v = [] then Inl (RuntimeError (key @ '' is required'')) else Inr v)"

definition getenv_int :: "string \<Rightarrow> string \<Rightarrow> environment \<Rightarrow> int py_result" where
  "getenv_int key dflt env = (case py_int (getenv key dflt env) of None \<Rightarrow> Inl ValueError | Some i \<Rightarrow> Inr i)"

definition get_version :: "environment \<Rightarrow> string" where
  "get_version env = getenv ''PB_VERSION'' ''unknown'' env"

text \<open>The text of a POSIX \<open>Path\<close>: empty and dot components are dropped.\<close>

definition path_text :: "string \<Rightarrow> string" where
  "path_text s =
     (let root = (if startswith ''//'' s \<and> \<not> startswith ''///'' s then ''//'' else if startswith ''/'' s then ''/'' else []);
          p = root @ join ''/'' (filter (\<lambda>c. c \<noteq> [] \<and> c \<noteq> ''.'') (split_on CHR ''/'' s))
      in if p = [] then ''.'' else p)"

record agent_main =
  am_node_name :: string
  am_primary_url :: string
  am_api_key :: string
  am_recursor_api_key :: string
  am_recursor_web_password :: string
  am_interval :: int
  am_config_sync_interval :: int
  am_recursor_url :: string
  am_rpz_dir :: string
  am_fzones_path :: string
  am_buffer_path :: string
  am_buffer_max_age :: int
  am_dns_server :: string
  am_version :: string

definition read_main :: "environment \<Rightarrow> agent_main py_result" where
  "read_main env =
     (case getenv_required ''NODE_NAME'' env of Inl e \<Rightarrow> Inl e | Inr node_name \<Rightarrow>
     (case getenv_required ''PRIMARY_URL'' env of Inl e \<Rightarrow> Inl e | Inr primary_url \<Rightarrow>
     (case getenv_required ''PRIMARY_API_KEY'' env of Inl e \<Rightarrow> Inl e | Inr api_key \<Rightarrow>
     (case getenv_int ''HEARTBEAT_INTERVAL_SECONDS'' ''60'' env of Inl e \<Rightarrow> Inl e | Inr interval \<Rightarrow>
     (case getenv_int ''CONFIG_SYNC_INTERVAL_SECONDS'' ''300'' env of Inl e \<Rightarrow> Inl e | Inr config_sync_interval \<Rightarrow>
     (case getenv_int ''METRICS_BUFFER_MAX_AGE'' ''604800'' env of Inl e \<Rightarrow> Inl e | Inr buffer_max_age \<Rightarrow>
       Inr \<lparr>am_node_name = node_name, am_primary_url = rstrip_by (\<lambda>c. c = CHR ''/'') primary_url, am_api_key = api_key,
         am_recursor_api_key = getenv ''RECURSOR_API_KEY'' [] env,
         am_recursor_web_password = getenv ''RECURSOR_WEB_PASSWORD'' [] env, am_interval = interval,
         am_config_sync_interval = config_sync_interval,
         am_recursor_url = getenv ''RECURSOR_API_URL'' ''http://recursor:8082'' env,
         am_rpz_dir = path_text (getenv ''RPZ_DIR'' ''/etc/pdns-recursor/rpz'' env),
         am_fzones_path = path_text (getenv ''FORWARD_ZONES_PATH'' ''/etc/pdns-recursor/forward-zones.conf'' env),
         am_buffer_path = getenv ''METRICS_BUFFER_PATH'' ''/var/lib/powerblockade/metrics.db'' env,
         am_buffer_max_age = buffer_max_age, am_dns_server = getenv ''DNS_SERVER'' ''dnsdist'' env,
         am_version = get_version env\<rparr>))))))"

text \<open>\<open>lookup\<close> is the resolver of the system; a name it does not know is taken for an address.\<close>

definition dns_server_ip :: "(string \<Rightarrow> string option) \<Rightarrow> agent_main \<Rightarrow> string" where
  "dns_server_ip lookup m = (case lookup (am_dns_server m) of None \<Rightarrow> am_dns_server m | Some ip \<Rightarrow> ip)"

section \<open>The host of a URL\<close>

text \<open>
  \<open>urlparse(url).hostname\<close>: blanks and control characters in front and line breaks and tabs anywhere are
  dropped, the authority is what stands between two slashes and the next slash, question mark or hash, and
  the host is without user and port, in lower case.  Brackets must match and hold an IPv6 address (or a future one, which is left out).
\<close>

definition is_alpha :: "char \<Rightarrow> bool" where
  "is_alpha c = (let n = (of_char c :: nat) in 65 \<le> n \<and> n \<le> 90 \<or> 97 \<le> n \<and> n \<le> 122)"

definition after_scheme :: "string \<Rightarrow> string" where
  "after_scheme url =
     (let s = takeWhile (\<lambda>c. c \<noteq> CHR '':'') url
      in if CHR '':'' \<in> set url \<and> s \<noteq> [] \<and> is_alpha (s ! 0) \<and> list_all (\<lambda>c. is_alpha c \<or> is_digit c \<or> c \<in> set ''+-.'') s
         then drop (Suc (length s)) url else url)"

definition netloc :: "string \<Rightarrow> string" where
  "netloc url =
     (let u = after_scheme (filter (\<lambda>c. c \<notin> {newline, carriage_return, CHR 0x09}) (lstrip_by (\<lambda>c. (of_char c :: nat) \<le> 32) url))
      in if startswith ''//'' u then takeWhile (\<lambda>c. c \<notin> set ''/?#'') (drop 2 u) else [])"

definition after_last :: "char \<Rightarrow> string \<Rightarrow> string" where
  "after_last x s = rev (takeWhile (\<lambda>c. c \<noteq> x) (rev s))"

definition bracketed_ok :: "string \<Rightarrow> bool" where
  "bracketed_ok n \<longleftrightarrow>
     (CHR ''['' \<in> set n \<longleftrightarrow> CHR '']'' \<in> set n) \<and>
     (CHR ''['' \<in> set n \<longrightarrow>
        (let h = after_last CHR ''@'' n;
             inner = takeWhile (\<lambda>c. c \<noteq> CHR '']'') (drop 1 h);
             port = drop (length inner + 2) h
         in startswith ''['' h \<and> (port = [] \<or> startswith '':'' port) \<and> ipv6_of_string inner \<noteq> None))"

definition hostname :: "string \<Rightarrow> string option py_result" where
  "hostname url =
     (let n = netloc url;
          h = after_last CHR ''@'' n;
          host = (if CHR ''['' \<in> set h then takeWhile (\<lambda>c. c \<noteq> CHR '']'') (drop 1 h) else takeWhile (\<lambda>c. c \<noteq> CHR '':'') h)
      in if \<not> bracketed_ok n then Inl ValueError else Inr (if host = [] then None else Some (lower host)))"

section \<open>Registration\<close>

text \<open>\<open>local_ip\<close> is the address from which a host is reached, nothing when finding it fails.\<close>

definition register_payload :: "(string \<Rightarrow> string option) \<Rightarrow> agent_main \<Rightarrow> register_request py_result" where
  "register_payload local_ip m =
     (case hostname (am_primary_url m) of
        Inl e \<Rightarrow> Inl e
      | Inr h \<Rightarrow>
          Inr \<lparr>rq_name = am_node_name m, rq_version = Some (am_version m),
               rq_ip_address = local_ip (case h of None \<Rightarrow> ''localhost'' | Some x \<Rightarrow> x)\<rparr>)"

text \<open>
  The loop posts until an answer below 300 comes back.  An attempt may not reach the primary, or its
  answer may be lost after the primary handled it; both raise in the agent, as does a refusal.
\<close>

datatype delivery = Unreached | Unanswered | Answered

fun register_loop :: "string \<Rightarrow> register_request \<Rightarrow> (instant \<times> delivery) list \<Rightarrow> db \<Rightarrow> db option" where
  "register_loop key rq [] d = None"
| "register_loop key rq ((now, del) # attempts) d =
     (if del = Unreached then register_loop key rq attempts d
      else (case register now (Some key) rq d of
              Inl _ \<Rightarrow> register_loop key rq attempts d
            | Inr (_, d') \<Rightarrow> if del = Answered then Some d' else register_loop key rq attempts d'))"

text \<open>The interval of the warming runs is read after the registration.\<close>

definition loop_conf :: "environment \<Rightarrow> agent_main \<Rightarrow> agent_conf py_result" where
  "loop_conf env m =
     (case getenv_int ''PRECACHE_INTERVAL_SECONDS'' ''300'' env of
        Inl e \<Rightarrow> Inl e
      | Inr precache_interval \<Rightarrow>
          Inr \<lparr>ac_rpz_dir = am_rpz_dir m, ac_fzones_path = am_fzones_path m,
               ac_config_sync_interval = am_config_sync_interval m, ac_precache_interval = precache_interval\<rparr>)"

section \<open>The container\<close>

text \<open>
  What the image sets, and a reader of the compose file: the lines of a service, its environment, and
  variables filled in from the environment file, as compose documents it for values without quotes.
\<close>

definition image_env :: "string \<Rightarrow> string \<Rightarrow> environment" where
  "image_env pb_version git_sha =
     [''PYTHONDONTWRITEBYTECODE'' \<mapsto> ''1'', ''PYTHONUNBUFFERED'' \<mapsto> ''1'', ''PB_VERSION'' \<mapsto> pb_version, ''PB_GIT_SHA'' \<mapsto> git_sha]"

definition service_lines :: "string \<Rightarrow> string list \<Rightarrow> string list" where
  "service_lines svc ls = takeWhile (\<lambda>l. startswith ''    '' l) (drop 1 (dropWhile (\<lambda>l. l \<noteq> ''  '' @ svc @ '':'') ls))"

definition environment_lines :: "string list \<Rightarrow> string list" where
  "environment_lines ls =
     filter (\<lambda>l. \<not> startswith ''#'' l)
       (map (drop 6) (takeWhile (\<lambda>l. startswith ''      '' l) (drop 1 (dropWhile (\<lambda>l. l \<noteq> ''    environment:'') ls))))"

definition template_of :: "string \<Rightarrow> string \<times> string" where
  "template_of l = (let k = takeWhile (\<lambda>c. c \<noteq> CHR '':'') l in (k, drop (length k + 2) l))"

definition fill_in :: "(string \<times> string) list \<Rightarrow> string \<Rightarrow> string" where
  "fill_in vars v =
     (if startswith ''${'' v
      then (let name = takeWhile (\<lambda>c. c \<notin> {CHR '':'', CHR ''}''}) (drop 2 v);
                dflt = takeWhile (\<lambda>c. c \<noteq> CHR ''}'') (drop (length name + 4) v)
            in case map_of vars name of Some x \<Rightarrow> if x = [] then dflt else x | None \<Rightarrow> dflt)
      else v)"

definition container_env :: "environment \<Rightarrow> string \<Rightarrow> zip_entry list \<Rightarrow> environment" where
  "container_env img svc pkg =
     (case (package_member ''docker-compose.ghcr.yml'' pkg, package_member ''.env'' pkg) of
        (Some compose, Some dotenv) \<Rightarrow>
          img ++ map_of (map (\<lambda>l. map_prod id (fill_in (read_env (ze_content dotenv))) (template_of l))
            (environment_lines (service_lines svc (split_on newline (ze_content compose)))))
      | _ \<Rightarrow> img)"

section \<open>The environment of the agent\<close>

definition agent_templates :: "(string \<times> string) list" where
  "agent_templates =
     [(''NODE_NAME'', ''${NODE_NAME}''), (''PRIMARY_URL'', ''${PRIMARY_URL}''), (''PRIMARY_API_KEY'', ''${PRIMARY_API_KEY}''),
      (''RECURSOR_API_KEY'', ''${RECURSOR_API_KEY}''), (''RECURSOR_WEB_PASSWORD'', ''${RECURSOR_WEB_PASSWORD:-}''),
      (''RECURSOR_API_URL'', ''http://recursor:8082''), (''HEARTBEAT_INTERVAL_SECONDS'', ''${HEARTBEAT_INTERVAL_SECONDS:-60}''),
      (''CONFIG_SYNC_INTERVAL_SECONDS'', ''${CONFIG_SYNC_INTERVAL_SECONDS:-300}''), (''RPZ_DIR'', ''/rpz''),
      (''FORWARD_ZONES_PATH'', ''/config/forward-zones.conf'')]"

lemma compose_templates:
  "map template_of (environment_lines (service_lines ''sync-agent'' (compose_lines @ [[]]))) = agent_templates"
  by code_simp

lemma fill_in_templates:
  assumes "vars = env_values ver node url key rkey pw addr"
  shows "map (map_prod id (fill_in vars)) agent_templates =
    [(''NODE_NAME'', node), (''PRIMARY_URL'', url), (''PRIMARY_API_KEY'', key),
     (''RECURSOR_API_KEY'', if rkey = [] then ''change-me'' else rkey), (''RECURSOR_WEB_PASSWORD'', pw), (''RECURSOR_API_URL'', ''http://recursor:8082''),
     (''HEARTBEAT_INTERVAL_SECONDS'', ''60''), (''CONFIG_SYNC_INTERVAL_SECONDS'', ''300''), (''RPZ_DIR'', ''/rpz''),
     (''FORWARD_ZONES_PATH'', ''/config/forward-zones.conf'')]"
  by (simp add: assms agent_templates_def fill_in_def startswith_def env_values_def)

lemma container_env_of_package:
  assumes "pkg = generate_secondary_package_zip pw ver node url key rkey addr"
    and "package_member ''.env'' pkg = Some dotenv" and "read_env (ze_content dotenv) = vars"
  shows "container_env img ''sync-agent'' pkg = img ++ map_of (map (map_prod id (fill_in vars)) agent_templates)"
proof -
  have member: "package_member ''docker-compose.ghcr.yml'' pkg = Some (entry ''docker-compose.ghcr.yml'' (dedent (literal compose_lines)) 420)"
    by (simp add: assms(1) generate_secondary_package_zip_def Let_def entry_def)
  have "list_all (\<lambda>l. newline \<notin> set l) compose_lines" using compose_plain by (simp add: plain_lines_def list_all_iff)
  note compose = split_terminated [OF this, folded dedent_literal [OF compose_plain]]
  show ?thesis
    unfolding container_env_def member assms(2) compose_templates [symmetric]
    by (simp add: entry_def compose assms(3) comp_def)
qed

text \<open>Started from a package, the agent knows its node, its key and where the primary is.\<close>

lemma deployed_main:
  assumes "pkg = generate_secondary_package_zip pw ver node url key rkey addr"
    and "package_member ''.env'' pkg = Some dotenv"
    and "read_env (ze_content dotenv) = env_values ver node url' key rkey pw addr"
    and "node \<noteq> []" "url' \<noteq> []" "key \<noteq> []"
    and "env = container_env (image_env v sha) ''sync-agent'' pkg"
  shows "\<exists>m. read_main env = Inr m \<and> am_node_name m = node \<and> am_api_key m = key \<and> am_version m = v \<and>
    am_primary_url m = rstrip_by (\<lambda>c. c = CHR ''/'') url' \<and>
    loop_conf env m = Inr \<lparr>ac_rpz_dir = ''/rpz'', ac_fzones_path = ''/config/forward-zones.conf'',
      ac_config_sync_interval = 300, ac_precache_interval = 300\<rparr>"
proof -
  have env: "env = image_env v sha ++ map_of (map (map_prod id (fill_in (env_values ver node url' key rkey pw addr))) agent_templates)"
    using container_env_of_package [OF assms(1,2,3)] assms(7) by simp
  have ints: "py_int ''60'' = Some 60" "py_int ''300'' = Some 300" "py_int ''604800'' = Some 604800"
    by (simp_all add: py_int_def strip_def rstrip_by_def lstrip_by_def is_space_def is_digit_def digit_value_def)
  have paths: "path_text ''/rpz'' = ''/rpz''" "path_text ''/config/forward-zones.conf'' = ''/config/forward-zones.conf''" by code_simp+
  note simps = env fill_in_templates [OF refl] image_env_def getenv_def map_add_def
  have req: "getenv_required ''NODE_NAME'' env = Inr node" "getenv_required ''PRIMARY_URL'' env = Inr url'"
    "getenv_required ''PRIMARY_API_KEY'' env = Inr key"
    using assms(4-6) by (simp_all add: getenv_required_def simps)
  have nums: "getenv_int ''HEARTBEAT_INTERVAL_SECONDS'' ''60'' env = Inr 60" "getenv_int ''CONFIG_SYNC_INTERVAL_SECONDS'' ''300'' env = Inr 300"
    "getenv_int ''METRICS_BUFFER_MAX_AGE'' ''604800'' env = Inr 604800" "getenv_int ''PRECACHE_INTERVAL_SECONDS'' ''300'' env = Inr 300"
    by (simp_all add: getenv_int_def simps ints)
  have dirs: "getenv ''RPZ_DIR'' x env = ''/rpz''" "getenv ''FORWARD_ZONES_PATH'' x env = ''/config/forward-zones.conf''" "get_version env = v" for x
    by (simp_all add: get_version_def simps)
  show ?thesis by (simp add: read_main_def loop_conf_def req nums dirs paths)
qed

section \<open>Registration succeeds\<close>

text \<open>A node that registers under its own name is not refused, and the primary has its name, address and version.\<close>

definition registered :: "string \<Rightarrow> register_request \<Rightarrow> db \<Rightarrow> bool" where
  "registered key rq d \<longleftrightarrow>
     (\<exists>n. get_node_from_api_key (Some key) d = Inr n \<and> n_name n = rq_name rq \<and> n_status n = ACTIVE \<and>
        n_version n = rq_version rq \<and> n_ip_address n = rq_ip_address rq)"

lemma register_own_name:
  assumes "nodes_ok d" and "get_node_from_api_key (Some key) d = Inr n" and "n_name n = rq_name rq"
  obtains v d' where "register now (Some key) rq d = Inr (v, d')" and "nodes_ok d'" and "registered key rq d'"
    and "db_node_commands d' = db_node_commands d" and "db_settings d' = db_settings d"
proof -
  let ?n = "(seen_active now n)\<lparr>n_name := rq_name rq, n_ip_address := rq_ip_address rq, n_version := rq_version rq, n_last_error := None\<rparr>"
  have n: "n \<in> set (rows (db_nodes d))" "key = n_api_key n" using get_node_Inr [OF assms(2)] by simp_all
  have "distinct (map n_name (rows (db_nodes d)))" using assms(1) by (simp add: nodes_ok_def)
  then have "tbl_find (\<lambda>x. n_name x = rq_name rq \<and> n_id x \<noteq> n_id n) (db_nodes d) = None"
    using n(1) assms(3) by (auto simp: tbl_find_None_iff distinct_map inj_on_def)
  then have reg: "register now (Some key) rq d = Inr (n_config_version n, save_node ?n d)"
    by (simp add: register_def assms(2))
  have "get_node_from_api_key (Some key) (save_node ?n d) = Inr ?n"
    by (rule get_node_saved [OF assms(2)]) (simp_all add: seen_active_def)
  then have "registered key rq (save_node ?n d)" by (simp add: registered_def seen_active_def)
  then show thesis by (rule that [OF reg register_ok [OF assms(1) reg]]) simp_all
qed

lemma register_loop_succeeds:
  assumes "nodes_ok d" and "get_node_from_api_key (Some key) d = Inr n" and "n_name n = rq_name rq"
    and "\<exists>t. (t, Answered) \<in> set attempts"
  shows "\<exists>d'. register_loop key rq attempts d = Some d' \<and> registered key rq d' \<and>
    db_node_commands d' = db_node_commands d \<and> db_settings d' = db_settings d"
  using assms
proof (induction attempts arbitrary: d n)
  case (Cons a attempts)
  obtain t del where a: "a = (t, del)" by fastforce
  obtain v d1 where reg: "register t (Some key) rq d = Inr (v, d1)" "nodes_ok d1" "registered key rq d1"
    "db_node_commands d1 = db_node_commands d" "db_settings d1 = db_settings d"
    by (rule register_own_name [OF Cons.prems(1-3)])
  then obtain n1 where n1: "get_node_from_api_key (Some key) d1 = Inr n1" "n_name n1 = rq_name rq" by (auto simp: registered_def)
  show ?case
  proof (cases "del = Answered")
    case True
    then show ?thesis using reg by (simp add: a)
  next
    case False
    then have "\<exists>t. (t, Answered) \<in> set attempts" using Cons.prems(4) by (auto simp: a)
    then show ?thesis
      using False Cons.IH [OF Cons.prems(1-3)] Cons.IH [OF reg(2) n1] reg by (auto simp: a)
  qed
qed simp

section \<open>Properties\<close>


lemma package_frame:
  "generated_package now api_key rkey pw ver sid name url d = (r, d1) \<Longrightarrow>
   db_node_commands d1 = db_node_commands d \<and> db_settings d1 = db_settings d"
  by (auto simp: generated_package_def nodes_generate_def insert_node_def Let_def server_error_def
      split: prod.splits response.splits option.splits if_splits sum.splits)


end
