(* ===== verification/Pages.thy ===== *)
theory Pages
  imports Analytics Blocklists Clients Forward_Zones
begin

text \<open>
  The pages that list what is configured: blocklists with their search and the setup checklist
  (\<open>routers/blocklists.py\<close>), manual entries, forward zones, nodes, clients, groups and resolver rules, the
  audit log and the settings, each as what its handler hands to the template; no value stands for the
  redirect to the login.  And the filters of the templates (\<open>template_utils.py\<close>).
\<close>

section \<open>Blocklists\<close>

definition blocklists_page :: "int option \<Rightarrow> db \<Rightarrow> (blocklist list \<times> string) option" where
  "blocklists_page sid d =
     (case get_current_user sid d of
        None \<Rightarrow> None
      | Some u \<Rightarrow> Some (sort_key (\<lambda>b. - bl_created_at b) (rows (db_blocklists d)), setting_or d ''timezone'' ''UTC''))"

record search_result =
  sr_domain :: string
  sr_blocklist_name :: string
  sr_blocklist_id :: "int option"
  sr_list_type :: string

definition entry_result :: "blocklist_entry \<Rightarrow> blocklist \<Rightarrow> search_result" where
  "entry_result e b =
     \<lparr>sr_domain = be_domain e, sr_blocklist_name = bl_name b, sr_blocklist_id = Some (bl_id b), sr_list_type = bl_list_type b\<rparr>"

definition manual_result :: "manual_entry \<Rightarrow> search_result" where
  "manual_result m =
     \<lparr>sr_domain = me_domain m, sr_blocklist_name = ''Manual Entry'', sr_blocklist_id = None, sr_list_type = me_entry_type m\<rparr>"

definition blocklists_search :: "int option \<Rightarrow> string \<Rightarrow> db \<Rightarrow> search_result list option" where
  "blocklists_search sid q d =
     (case get_current_user sid d of
        None \<Rightarrow> None
      | Some u \<Rightarrow>
          (let search_query = lower (strip q)
           in Some (if search_query = [] then []
                    else concat (map (\<lambda>e. map (entry_result e) (tbl_select (\<lambda>b. bl_id b = be_blocklist_id e) (db_blocklists d)))
                           (tbl_select (\<lambda>e. lower (be_domain e) = search_query) (db_entries d))) @
                         map manual_result (tbl_select (\<lambda>m. lower (me_domain m) = search_query) (db_manual d)))))"

record checklist =
  cl_blocklists_enabled :: bool
  cl_blocklist_count :: nat
  cl_traffic_flowing :: bool
  cl_recent_queries :: nat
  cl_clients_seen :: bool
  cl_client_count :: nat
  cl_resolver_rules_configured :: bool
  cl_resolver_rule_count :: nat
  cl_forward_zones_configured :: bool
  cl_forward_zone_count :: nat

definition setup_page :: "instant \<Rightarrow> int option \<Rightarrow> db \<Rightarrow> checklist option" where
  "setup_page now sid d =
     (case get_current_user sid d of
        None \<Rightarrow> None
      | Some u \<Rightarrow>
          (let enabled_blocklists = length (tbl_select bl_enabled (db_blocklists d));
               recent_queries = length (tbl_select (\<lambda>e. now - hours 1 \<le> ev_ts e) (db_events d));
               client_count = length (rows (db_clients d));
               resolver_rules = length (rows (db_rules d));
               forward_zones = length (tbl_select fz_enabled (db_zones d))
           in Some \<lparr>cl_blocklists_enabled = 0 < enabled_blocklists, cl_blocklist_count = enabled_blocklists,
                    cl_traffic_flowing = 0 < recent_queries, cl_recent_queries = recent_queries,
                    cl_clients_seen = 0 < client_count, cl_client_count = client_count,
                    cl_resolver_rules_configured = 0 < resolver_rules, cl_resolver_rule_count = resolver_rules,
                    cl_forward_zones_configured = 0 < forward_zones, cl_forward_zone_count = forward_zones\<rparr>))"

section \<open>Entries, zones and settings\<close>

definition entries_page :: "int option \<Rightarrow> string option \<Rightarrow> db \<Rightarrow> (manual_entry list \<times> string) option" where
  "entries_page sid ty d =
     (case get_current_user sid d of
        None \<Rightarrow> None
      | Some u \<Rightarrow>
          (let all = sort_key (\<lambda>m. - me_created_at m) (rows (db_manual d))
           in Some (if ty = Some ''allow'' \<or> ty = Some ''block'' then filter (\<lambda>m. Some (me_entry_type m) = ty) all else all,
                    get_timezone d)))"

definition forward_zones_page :: "int option \<Rightarrow> db \<Rightarrow> (forward_zone list \<times> forward_zone list \<times> node list) option" where
  "forward_zones_page sid d =
     (case get_current_user sid d of
        None \<Rightarrow> None
      | Some u \<Rightarrow>
          Some (sort_key fz_domain (tbl_select (\<lambda>z. fz_node_id z = None) (db_zones d)),
                sort_key fz_domain (tbl_select (\<lambda>z. fz_node_id z \<noteq> None) (db_zones d)), rows (db_nodes d)))"

text \<open>The lists of time zones come from the time zone database.\<close>

definition settings_page :: "int option \<Rightarrow> db \<Rightarrow> (string \<times> string) list option" where
  "settings_page sid d =
     (case get_current_user sid d of None \<Rightarrow> None | Some u \<Rightarrow> Some (map (\<lambda>(k, v). (k, get_setting d k)) DEFAULTS))"

section \<open>Clients\<close>

definition client_resolver_page :: "int option \<Rightarrow> db \<Rightarrow> client_resolver_rule list option" where
  "client_resolver_page sid d =
     (case get_current_user sid d of None \<Rightarrow> None | Some u \<Rightarrow> Some (sort_key rr_priority (rows (db_rules d))))"

text \<open>The latest seen first, those never seen last.\<close>

definition clients_page :: "int option \<Rightarrow> db \<Rightarrow> (client list \<times> client_group list \<times> string) option" where
  "clients_page sid d =
     (case get_current_user sid d of
        None \<Rightarrow> None
      | Some u \<Rightarrow>
          (let (seen, never) = partition (\<lambda>c. c_last_seen c \<noteq> None) (rows (db_clients d))
           in Some (sort_key (\<lambda>c. - the (c_last_seen c)) seen @ never, sort_key g_name (rows (db_groups d)), get_timezone d)))"

definition groups_page :: "int option \<Rightarrow> db \<Rightarrow> ((client_group \<times> nat) list \<times> nat) option" where
  "groups_page sid d =
     (case get_current_user sid d of
        None \<Rightarrow> None
      | Some u \<Rightarrow>
          Some (map (\<lambda>g. (g, length (tbl_select (\<lambda>c. c_group_id c = Some (g_id g)) (db_clients d)))) (sort_key g_name (rows (db_groups d))),
                length (tbl_select (\<lambda>c. c_group_id c = None) (db_clients d))))"

section \<open>Nodes\<close>

definition get_latest_metrics :: "int \<Rightarrow> db \<Rightarrow> node_metrics option" where
  "get_latest_metrics i d =
     (case sort_key (\<lambda>m. - nm_ts m) (tbl_select (\<lambda>m. nm_node_id m = i) (db_node_metrics d)) of [] \<Rightarrow> None | m # _ \<Rightarrow> Some m)"

definition get_node_query_stats :: "db \<Rightarrow> (int \<times> nat \<times> nat) list" where
  "get_node_query_stats d =
     (let es = tbl_select (\<lambda>e. ev_node_id e \<noteq> None \<and> \<not> ev_is_internal e) (db_events d)
      in map (\<lambda>i. (i, length (filter (\<lambda>e. ev_node_id e = Some i) es), length (filter (\<lambda>e. ev_node_id e = Some i \<and> ev_blocked e) es)))
           (fromkeys (List.map_filter ev_node_id es)))"

record node_row =
  nr_node :: node
  nr_status_text :: string
  nr_cache_hit_rate :: "rat option"
  nr_is_primary :: bool
  nr_queries_total :: nat
  nr_queries_blocked :: nat

definition nodes_page :: "instant \<Rightarrow> int option \<Rightarrow> string option \<Rightarrow> db \<Rightarrow> (node_row list \<times> string option) option" where
  "nodes_page now sid error d =
     (case get_current_user sid d of
        None \<Rightarrow> None
      | Some u \<Rightarrow>
          (let query_stats = get_node_query_stats d
           in Some (map (\<lambda>n. let (total, blocked) = (case map_of query_stats (n_id n) of None \<Rightarrow> (0, 0) | Some x \<Rightarrow> x)
                             in \<lparr>nr_node = n, nr_status_text = get_node_status_badge now n,
                                 nr_cache_hit_rate = compute_cache_hit_rate (get_latest_metrics (n_id n) d),
                                 nr_is_primary = n_name n = ''primary'', nr_queries_total = total, nr_queries_blocked = blocked\<rparr>)
                      (sort_key (\<lambda>n. - n_created_at n) (rows (db_nodes d))),
                    if error = Some ''cannot_delete_primary'' then Some ''Cannot delete the primary node.'' else None)))"

section \<open>The audit log\<close>

definition audit_page_size :: nat where
  "audit_page_size = 50"

record audit_view =
  av_changes :: "config_change list"
  av_users_map :: "(int \<times> string) list"
  av_entity_types :: "string list"
  av_total_pages :: nat
  av_total :: nat
  av_timezone :: string

definition changes_of_type :: "string option \<Rightarrow> db \<Rightarrow> config_change list" where
  "changes_of_type ty d =
     sort_key (\<lambda>c. - cc_created_at c)
       (tbl_select (\<lambda>c. case ty of None \<Rightarrow> True | Some t \<Rightarrow> t = [] \<or> cc_entity_type c = t) (db_changes d))"

definition audit_slice :: "nat \<Rightarrow> 'a list \<Rightarrow> 'a list" where
  "audit_slice page xs = take audit_page_size (drop ((page - 1) * audit_page_size) xs)"

definition audit_page :: "int option \<Rightarrow> string option \<Rightarrow> nat \<Rightarrow> db \<Rightarrow> audit_view option" where
  "audit_page sid ty page d =
     (case get_current_user sid d of
        None \<Rightarrow> None
      | Some u \<Rightarrow>
          (let found = changes_of_type ty d;
               changes = audit_slice page found;
               user_ids = filter (\<lambda>i. i \<noteq> 0) (List.map_filter cc_actor_user_id changes)
           in Some \<lparr>av_changes = changes,
                    av_users_map = map (\<lambda>u. (u_id u, u_username u)) (tbl_select (\<lambda>u. u_id u \<in> set user_ids) (db_users d)),
                    av_entity_types = sort (fromkeys (map cc_entity_type (rows (db_changes d)))),
                    av_total_pages = (length found + audit_page_size - 1) div audit_page_size, av_total = length found,
                    av_timezone = get_timezone d\<rparr>))"

section \<open>Filters\<close>

definition plural :: "int \<Rightarrow> string \<Rightarrow> string" where
  "plural n unit = show_int n @ '' '' @ unit @ (if n \<noteq> 1 then ''s'' else []) @ '' ago''"

definition date_text :: "instant \<Rightarrow> string" where
  "date_text t = (let (y, mo, dy) = days_to_ymd (day_of t) in show_nat y @ ''-'' @ pad 2 mo @ ''-'' @ pad 2 dy)"

definition timeago :: "instant \<Rightarrow> py_datetime option \<Rightarrow> string" where
  "timeago now dt =
     (case dt of
        None \<Rightarrow> ''-''
      | Some t \<Rightarrow>
          (let diff = now - dt_instant t
           in if diff < seconds 60 then ''just now''
              else if diff < seconds 3600 then plural (diff div seconds 60) ''min''
              else if diff < seconds 86400 then plural (diff div seconds 3600) ''hour''
              else if diff < seconds 604800 then plural (diff div seconds 86400) ''day''
              else date_text (dt_instant t)))"

text \<open>A comma before every group of three digits but the first.\<close>

fun group3 :: "string \<Rightarrow> string" where
  "group3 (a # b # c # d # ds) = a # b # c # CHR '','' # group3 (d # ds)"
| "group3 ds = ds"

definition format_number :: "int option \<Rightarrow> string" where
  "format_number v =
     (case v of
        None \<Rightarrow> ''-''
      | Some n \<Rightarrow> (if n < 0 then ''-'' else []) @ rev (group3 (rev (show_nat (nat \<bar>n\<bar>)))))"

text \<open>\<open>shown zone t\<close> is the local time in the default format; no value for a zone that is not known.\<close>

definition format_local_time :: "(string \<Rightarrow> instant \<Rightarrow> string option) \<Rightarrow> py_datetime option \<Rightarrow> string option \<Rightarrow> (instant \<Rightarrow> string) \<Rightarrow> string" where
  "format_local_time shown dt tz_name utc_text =
     (case dt of
        None \<Rightarrow> ''-''
      | Some t \<Rightarrow>
          (case shown (case tz_name of None \<Rightarrow> ''UTC'' | Some z \<Rightarrow> if z = [] then ''UTC'' else z) (dt_instant t) of
             None \<Rightarrow> utc_text (dt_instant t)
           | Some s \<Rightarrow> s))"

section \<open>Properties\<close>

interpretation audit_pages: paged audit_page_size "\<lambda>xs. xs" "\<lambda>xs k. audit_slice k xs"
  by unfold_locales (simp_all add: audit_slice_def audit_page_size_def)

text \<open>
  The search explains the blocking zone: for every domain that the policy blocks it names a list that is
  not an allow list, or the manual entry, that has the domain.  What it finds is stored under the name that
  was asked for, up to case.
\<close>

theorem search_explains_block:
  assumes "get_current_user sid d = Some u" and "name \<in> policy_blocked d" and "strip name = name" and "name \<noteq> []"
  shows "\<exists>rs. blocklists_search sid name d = Some rs \<and> (\<exists>r \<in> set rs. sr_domain r = name \<and> sr_list_type r \<noteq> ''allow'') \<and>
    (\<forall>r \<in> set rs. lower (sr_domain r) = lower name)"
proof -
  let ?es = "tbl_select (\<lambda>e. lower (be_domain e) = lower name) (db_entries d)" and ?ms = "tbl_select (\<lambda>m. lower (me_domain m) = lower name) (db_manual d)"
  let ?rs = "concat (map (\<lambda>e. map (entry_result e) (tbl_select (\<lambda>b. bl_id b = be_blocklist_id e) (db_blocklists d))) ?es) @ map manual_result ?ms"
  have rs: "blocklists_search sid name d = Some ?rs"
    using assms by (simp add: blocklists_search_def lower_def Let_def)
  consider (manual) m where "m \<in> set (rows (db_manual d))" "me_entry_type m = ''block''" "me_domain m = name"
    | (listed) b e where "b \<in> set (rows (db_blocklists d))" "bl_list_type b \<noteq> ''allow''" "e \<in> set (rows (db_entries d))"
        "be_blocklist_id e = bl_id b" "be_domain e = name"
    using assms(2) by (auto simp: policy_blocked_def manual_domains_def stored_domains_def enabled_blocklists_def tbl_select_def)
  then have "\<exists>r \<in> set ?rs. sr_domain r = name \<and> sr_list_type r \<noteq> ''allow''"
  proof cases
    case manual
    then have "manual_result m \<in> set ?rs" by (simp add: tbl_select_def)
    then show ?thesis using manual by (intro bexI [of _ "manual_result m"]) (simp_all add: manual_result_def)
  next
    case listed
    then have "entry_result e b \<in> set ?rs" by (auto simp: tbl_select_def)
    then show ?thesis using listed by (intro bexI [of _ "entry_result e b"]) (simp_all add: entry_result_def)
  qed
  moreover have "\<forall>r \<in> set ?rs. lower (sr_domain r) = lower name"
    by (auto simp: tbl_select_def entry_result_def manual_result_def)
  ultimately show ?thesis using rs by blast
qed

text \<open>The pages of the audit log put together are all changes of the type asked for, newest first.\<close>

theorem audit_pages_complete:
  assumes "get_current_user sid d = Some u"
  shows "\<exists>view. (\<forall>k. audit_page sid ty k d = Some (view k) \<and> av_total (view k) = length (changes_of_type ty d)) \<and>
    concat (map (\<lambda>k. av_changes (view k)) [1..<Suc (av_total_pages (view 1))]) = changes_of_type ty d \<and>
    (\<forall>k. 0 < k \<longrightarrow> length (av_changes (view k)) \<le> 50)"
proof -
  obtain view where view: "\<forall>k. audit_page sid ty k d = Some (view k) \<and> av_total (view k) = length (changes_of_type ty d) \<and>
      av_total_pages (view k) = (length (changes_of_type ty d) + audit_page_size - 1) div audit_page_size \<and>
      av_changes (view k) = audit_slice k (changes_of_type ty d)"
    using that [of "\<lambda>k. the (audit_page sid ty k d)"] assms by (simp add: audit_page_def Let_def)
  then have "concat (map (\<lambda>k. av_changes (view k)) [1..<Suc (av_total_pages (view 1))]) = changes_of_type ty d"
    using audit_pages.pages_complete [of "changes_of_type ty d"] by simp
  moreover have "length (av_changes (view k)) \<le> 50" for k using view by (simp add: audit_slice_def audit_page_size_def)
  ultimately show ?thesis using view by (intro exI [of _ view]) simp
qed

text \<open>The groups page counts every client once, and the setup list says of each step whether its count is positive.\<close>

theorem group_counts_total:
  assumes "groups_page sid d = Some (groups, ungrouped)" and "table_wf g_id (db_groups d)"
    and "\<forall>c \<in> set (rows (db_clients d)). \<forall>i. c_group_id c = Some i \<longrightarrow> i \<in> g_id ` set (rows (db_groups d))"
  shows "sum_list (map snd groups) + ungrouped = length (rows (db_clients d))"
proof -
  let ?gs = "sort_key g_name (rows (db_groups d))"
  have groups: "map snd groups = map (\<lambda>g. length (filter (\<lambda>c. c_group_id c = Some (g_id g)) (rows (db_clients d)))) ?gs"
    "ungrouped = length (filter (\<lambda>c. c_group_id c = None) (rows (db_clients d)))"
    using assms(1) by (auto simp: groups_page_def tbl_select_def comp_def split: option.splits)
  have dist: "distinct (map g_id ?gs)"
    using assms(2) by (simp add: table_wf_def distinct_map) 
  have one: "sum_list (map (\<lambda>g. of_bool (c_group_id c = Some (g_id g)) :: nat) gs) = of_bool (\<exists>g \<in> set gs. c_group_id c = Some (g_id g))"
    if "distinct (map g_id gs)" for gs and c :: client
    using that by (induction gs) auto
  have "sum_list (map (\<lambda>g. length (filter (\<lambda>c. c_group_id c = Some (g_id g)) cs)) ?gs) + length (filter (\<lambda>c. c_group_id c = None) cs) = length cs"
    if "set cs \<subseteq> set (rows (db_clients d))" for cs
    using that
  proof (induction cs)
    case (Cons c cs)
    have "sum_list (map (\<lambda>g. length (filter (\<lambda>c. c_group_id c = Some (g_id g)) (c # cs))) ?gs) =
        sum_list (map (\<lambda>g. of_bool (c_group_id c = Some (g_id g))) ?gs) + sum_list (map (\<lambda>g. length (filter (\<lambda>c. c_group_id c = Some (g_id g)) cs)) ?gs)"
      by (simp flip: sum_list_addf) (auto intro!: arg_cong [of _ _ sum_list])
    moreover have "of_bool (\<exists>g \<in> set ?gs. c_group_id c = Some (g_id g)) + of_bool (c_group_id c = None) = (1 :: nat)"
      using Cons.prems assms(3) by (cases "c_group_id c") auto
    moreover have "length (filter (\<lambda>c. c_group_id c = None) (c # cs)) = of_bool (c_group_id c = None) + length (filter (\<lambda>c. c_group_id c = None) cs)"
      by simp
    moreover have "set cs \<subseteq> set (rows (db_clients d))" using Cons.prems by simp
    note Cons.IH [OF this]
    ultimately show ?case using one [OF dist, of c] list.size(4) [of c cs] by linarith
  qed simp
  then show ?thesis unfolding groups by simp
qed

text \<open>A number with separators is the number without them, in groups of three.\<close>

lemma group3_digits: "CHR '','' \<notin> set ds \<Longrightarrow> filter (\<lambda>c. c \<noteq> CHR '','') (group3 ds) = ds"
  by (induction ds rule: group3.induct) auto

theorem format_number_digits: "filter (\<lambda>c. c \<noteq> CHR '','') (format_number (Some n)) = show_int n"
proof -
  have "CHR '','' \<notin> set (rev (show_nat m))" for m using show_nat_digits [of m] by (auto simp: is_digit_def)
  note digits = group3_digits [OF this]
  have "filter (\<lambda>c. c \<noteq> CHR '','') (rev (group3 (rev (show_nat m)))) = show_nat m" for m
    unfolding rev_filter [symmetric] digits by simp
  then show ?thesis by (simp add: format_number_def show_int_def)
qed

lemma whole_units:
  fixes x c k :: int
  assumes "0 < c" and "c \<le> x" and "x < (k + 1) * c"
  shows "x div c \<in> {1..k}"
proof -
  have "1 \<le> x div c" using zdiv_mono1 [OF assms(2,1)] assms(1) by simp
  moreover have "x div c * c \<le> x" using div_mult_mod_eq [of x c] pos_mod_sign [OF assms(1), of x] by linarith
  then have "x div c * c < (k + 1) * c" using assms(3) by linarith
  then have "x div c < k + 1" using assms(1) by (simp add: mult_less_cancel_right)
  ultimately show ?thesis by simp
qed

text \<open>An age is shown in the largest unit that fits, so with a count of at least one and never the next unit's worth.\<close>

theorem timeago_units:
  assumes "seconds 60 \<le> now - dt_instant t" and "now - dt_instant t < seconds 604800"
  shows "\<exists>n unit. timeago now (Some t) = plural n unit \<and>
    (unit, n) \<in> {''min''} \<times> {1..59} \<union> {''hour''} \<times> {1..23} \<union> {''day''} \<times> {1..6}"
proof -
  let ?diff = "now - dt_instant t"
  consider (m) "?diff < seconds 3600" | (h) "seconds 3600 \<le> ?diff" "?diff < seconds 86400" | (d) "seconds 86400 \<le> ?diff" by linarith
  then show ?thesis
  proof cases
    case m
    then have "?diff div seconds 60 \<in> {1..59}" using assms(1) by (intro whole_units) (simp_all add: seconds_def)
    then show ?thesis using m assms(1) by (auto simp: timeago_def)
  next
    case h
    then have "?diff div seconds 3600 \<in> {1..23}" by (intro whole_units) (simp_all add: seconds_def)
    then show ?thesis using h assms(1) by (auto simp: timeago_def seconds_def)
  next
    case d
    then have "?diff div seconds 86400 \<in> {1..6}" using assms(2) by (intro whole_units) (simp_all add: seconds_def)
    then show ?thesis using d assms by (auto simp: timeago_def seconds_def)
  qed
qed

end
