(* ===== verification/Jobs.thy ===== *)
theory Jobs
  imports Boot_Burst Rollups Node_Lifecycle
begin

text \<open>
  The scheduled jobs (\<open>start_scheduler\<close> and the remaining jobs of \<open>admin-ui/app/services/scheduler.py\<close>)
  and their triggers over HTTP (\<open>admin-ui/app/routers/jobs.py\<close>), and what the hourly roll-up, the daily
  retention and the ingest of events make of the dashboard together.
\<close>

section \<open>The table of jobs\<close>

datatype job_function =
    Update_Blocklists | Rollup | Retention | Precache_Warming | Scrape_Local_Metrics | Blocklist_Schedule
  | Node_State_Transitions

text \<open>The fields of a cron trigger that the code sets; the hour of a trigger that gives none is any.\<close>

datatype minute_field = Every int | At int

datatype job_trigger = CronTrigger "int option" minute_field | IntervalTrigger int

record scheduled_job =
  sj_function :: job_function
  sj_trigger :: job_trigger
  sj_id :: string
  sj_next_run_time :: "instant option"

definition add_job :: "scheduled_job \<Rightarrow> scheduled_job list \<Rightarrow> scheduled_job list" where
  "add_job j js = filter (\<lambda>x. sj_id x \<noteq> sj_id j) js @ [j]"

definition job_table :: "instant \<Rightarrow> scheduled_job list" where
  "job_table now =
     fold add_job
      [\<lparr>sj_function = Update_Blocklists, sj_trigger = CronTrigger None (Every 15), sj_id = ''blocklist_update'', sj_next_run_time = None\<rparr>,
       \<lparr>sj_function = Rollup, sj_trigger = CronTrigger None (At 5), sj_id = ''rollup'', sj_next_run_time = None\<rparr>,
       \<lparr>sj_function = Retention, sj_trigger = CronTrigger (Some 3) (At 0), sj_id = ''retention'', sj_next_run_time = None\<rparr>,
       \<lparr>sj_function = Precache_Warming, sj_trigger = IntervalTrigger 300, sj_id = ''precache_warming'', sj_next_run_time = Some now\<rparr>,
       \<lparr>sj_function = Scrape_Local_Metrics, sj_trigger = IntervalTrigger 60, sj_id = ''local_metrics'', sj_next_run_time = None\<rparr>,
       \<lparr>sj_function = Blocklist_Schedule, sj_trigger = IntervalTrigger 300, sj_id = ''blocklist_schedule'', sj_next_run_time = None\<rparr>,
       \<lparr>sj_function = Node_State_Transitions, sj_trigger = IntervalTrigger 60, sj_id = ''node_state_transitions'', sj_next_run_time = None\<rparr>]
      []"

text \<open>The module variable \<open>_scheduler\<close>, and the scheduler that is started or shut down by the call.\<close>

type_synonym scheduler = "scheduled_job list option"

definition start_scheduler :: "instant \<Rightarrow> scheduler \<Rightarrow> scheduler" where
  "start_scheduler now s = (case s of Some js \<Rightarrow> Some js | None \<Rightarrow> Some (job_table now))"

definition stop_scheduler :: "scheduler \<Rightarrow> scheduler" where
  "stop_scheduler s = None"

section \<open>The jobs\<close>

text \<open>
  A job runs under the advisory lock and swallows its exceptions, so its value is always \<open>None\<close> and
  what it had committed stays.
\<close>

definition swallow :: "('e + 'a) \<times> 's \<Rightarrow> (string + unit) \<times> 's" where
  "swallow r = (Inr (), snd r)"

definition rollup_job :: "(string \<Rightarrow> int) \<Rightarrow> 'sess \<Rightarrow> (int \<times> 'sess) set \<Rightarrow> instant \<Rightarrow> db \<Rightarrow> db" where
  "rollup_job py_hash sess held now d =
     snd (run_with_advisory_lock py_hash ''rollup'' sess held (\<lambda>d. (Inr (), snd (run_rollup_job now d))) d)"

definition retention_job :: "(string \<Rightarrow> int) \<Rightarrow> 'sess \<Rightarrow> (int \<times> 'sess) set \<Rightarrow> instant \<Rightarrow> db \<Rightarrow> db" where
  "retention_job py_hash sess held now d =
     snd (run_with_advisory_lock py_hash ''retention'' sess held (\<lambda>d. swallow (run_retention_job now d)) d)"

definition blocklist_schedule_job ::
  "(string \<Rightarrow> int) \<Rightarrow> 'sess \<Rightarrow> (int \<times> 'sess) set \<Rightarrow> (string \<Rightarrow> bool) \<Rightarrow> (string \<Rightarrow> instant \<Rightarrow> wall_clock) \<Rightarrow> instant \<Rightarrow> world \<Rightarrow> world" where
  "blocklist_schedule_job py_hash sess held zone_known wall now w =
     snd (run_with_advisory_lock py_hash ''blocklist_schedule'' sess held
           (\<lambda>w. (Inr (), snd (run_schedule_check zone_known wall now w))) w)"

section \<open>Triggers over HTTP\<close>

datatype background_task = Run_Rollup | Run_Retention

datatype job_response = JobLogin | JobQueued string

text \<open>The task runs after the response, with a session of its own and without the lock.\<close>

definition run_background :: "instant \<Rightarrow> background_task \<Rightarrow> db \<Rightarrow> db" where
  "run_background now t d =
     (case t of Run_Rollup \<Rightarrow> snd (run_rollup_job now d) | Run_Retention \<Rightarrow> snd (run_retention_job now d))"

definition trigger_rollup :: "int option \<Rightarrow> db \<Rightarrow> job_response \<times> background_task option" where
  "trigger_rollup sid d =
     (case get_current_user sid d of None \<Rightarrow> (JobLogin, None) | Some u \<Rightarrow> (JobQueued ''Rollup job queued'', Some Run_Rollup))"

definition trigger_retention :: "int option \<Rightarrow> db \<Rightarrow> job_response \<times> background_task option" where
  "trigger_retention sid d =
     (case get_current_user sid d of
        None \<Rightarrow> (JobLogin, None)
      | Some u \<Rightarrow> (JobQueued ''Retention cleanup job queued'', Some Run_Retention))"

definition api_stats :: "instant \<Rightarrow> rat \<Rightarrow> int option \<Rightarrow> int \<Rightarrow> db \<Rightarrow> stats_cache \<Rightarrow> (string + dashboard_stats) \<times> stats_cache" where
  "api_stats now clock sid hrs d cache =
     (case get_current_user sid d of
        None \<Rightarrow> (Inl ''unauthorized'', cache)
      | Some u \<Rightarrow> (let (stats, cache') = get_dashboard_stats now clock hrs d cache in (Inr stats, cache')))"

section \<open>What a trigger means\<close>

text \<open>
  When a cron trigger is due, by the documentation of the scheduler: at second zero of the minutes and
  hours it names, in UTC.
\<close>

definition minute_due :: "minute_field \<Rightarrow> int \<Rightarrow> bool" where
  "minute_due f m = (case f of Every k \<Rightarrow> m mod k = 0 | At k \<Rightarrow> m = k)"

definition cron_due :: "job_trigger \<Rightarrow> instant \<Rightarrow> bool" where
  "cron_due tr t =
     (case tr of
        IntervalTrigger _ \<Rightarrow> False
      | CronTrigger h f \<Rightarrow>
          t mod minutes 1 = 0 \<and> minute_due f (t mod hours 1 div minutes 1) \<and>
          (case h of None \<Rightarrow> True | Some k \<Rightarrow> t mod days 1 div hours 1 = k))"

definition trigger_of :: "string \<Rightarrow> scheduler \<Rightarrow> job_trigger option" where
  "trigger_of i s = (case s of None \<Rightarrow> None | Some js \<Rightarrow> map_option sj_trigger (find (\<lambda>j. sj_id j = i) js))"

section \<open>Roll-ups seen through their keys\<close>

lemma window_rolled_iff:
  "window_rolled s u d \<longleftrightarrow>
     keys_distinct (db_rollups d) \<and>
     (\<forall>b g v. s \<le> b \<longrightarrow> b < u \<longrightarrow> rollup_at (db_rollups d) (Hourly, b, g) = Some v \<longrightarrow>
        hours 1 dvd b \<and> v = event_values (group_events b g d)) \<and>
     (\<forall>e \<in> set (rows (db_events d)). counted_in s u e \<longrightarrow>
        rollup_at (db_rollups d) (Hourly, hour_floor (ev_ts e), group_of e) \<noteq> None)" (is "?l \<longleftrightarrow> ?k \<and> ?r \<and> ?e")
proof (cases ?k)
  case True
  have key: "rollup_key r = (Hourly, b, g) \<longleftrightarrow> qr_granularity r = Hourly \<and> qr_bucket_start r = b \<and> rollup_group r = g" for r b g
    by (auto simp: rollup_key_def rollup_group_def)
  have at: "rollup_at (db_rollups d) (Hourly, b, g) = Some v \<longleftrightarrow>
      (\<exists>r \<in> set (rows (db_rollups d)). rollup_key r = (Hourly, b, g) \<and> values_of r = v)" for b g v
  proof
    assume *: "rollup_at (db_rollups d) (Hourly, b, g) = Some v"
    then obtain r where r: "r \<in> set (rows (db_rollups d))" "rollup_key r = (Hourly, b, g)" using rollup_at_Some by blast
    with rollup_at_row [OF True r(1)] * show "\<exists>r \<in> set (rows (db_rollups d)). rollup_key r = (Hourly, b, g) \<and> values_of r = v" by auto
  next
    assume "\<exists>r \<in> set (rows (db_rollups d)). rollup_key r = (Hourly, b, g) \<and> values_of r = v"
    then obtain r where r: "r \<in> set (rows (db_rollups d))" "rollup_key r = (Hourly, b, g)" "values_of r = v" by blast
    then show "rollup_at (db_rollups d) (Hourly, b, g) = Some v" using rollup_at_row [OF True r(1)] by simp
  qed
  have some: "rollup_at (db_rollups d) (Hourly, b, g) \<noteq> None \<longleftrightarrow> (\<exists>r \<in> set (rows (db_rollups d)). rollup_key r = (Hourly, b, g))" for b g
    using at by (metis not_None_eq)
  have "?r \<longleftrightarrow> (\<forall>r \<in> set (rows (db_rollups d)). hourly_in s u r \<longrightarrow>
      hours 1 dvd qr_bucket_start r \<and> values_of r = event_values (group_events (qr_bucket_start r) (rollup_group r) d))"
    unfolding at key hourly_in_def by blast
  then show ?thesis using True unfolding window_rolled_def some by blast
qed (simp add: window_rolled_def)

lemma window_rolled_row:
  "window_rolled s u d \<Longrightarrow> s \<le> b \<Longrightarrow> b < u \<Longrightarrow> rollup_at (db_rollups d) (Hourly, b, g) = Some v \<Longrightarrow>
   hours 1 dvd b \<and> v = event_values (group_events b g d)"
  unfolding window_rolled_iff by blast

lemma daily_rollup_frame:
  "db_events (snd (compute_daily_rollup day d)) = db_events d"
  "keys_distinct (db_rollups d) \<Longrightarrow> keys_distinct (db_rollups (snd (compute_daily_rollup day d)))"
  "rollup_at (db_rollups (snd (compute_daily_rollup day d))) (Hourly, b, g) = rollup_at (db_rollups d) (Hourly, b, g)"
  by (auto simp: compute_daily_rollup_def Let_def ru.fold_inv ru.lookup_fold)

lemma run_rollup_frame:
  "db_events (snd (run_rollup_job now d)) = db_events d"
  "keys_distinct (db_rollups d) \<Longrightarrow> keys_distinct (db_rollups (snd (run_rollup_job now d)))"
  by (simp_all add: run_rollup_job_def case_prod_beta Let_def hourly_rollup_frame daily_rollup_frame)

lemma run_rollup_at:
  "rollup_at (db_rollups (snd (run_rollup_job now d))) (Hourly, b, g) =
     (if b = hour_floor now - hours 1 \<and> group_events b g d \<noteq> [] then Some (event_values (group_events b g d))
      else rollup_at (db_rollups d) (Hourly, b, g))"
  by (auto simp: run_rollup_job_def case_prod_beta Let_def hourly_rollup_at daily_rollup_frame)

section \<open>The server in operation\<close>

text \<open>
  What happens to events and roll-ups over time.  \<open>operates s u d\<close>: the database is \<open>d\<close>, roll-ups were
  computed up to the hour \<open>u\<close>, and nothing the dashboard needs was deleted since the hour \<open>s\<close>.  Events
  are punctual: they arrive before the roll-up of their hour.  No hour goes by without a roll-up, from the
  scheduler or by hand; repeating one is harmless.  Retention moves \<open>s\<close> to an hour after both limits.
\<close>

inductive operates :: "instant \<Rightarrow> instant \<Rightarrow> db \<Rightarrow> bool" where
  start: "hours 1 dvd h \<Longrightarrow> rows (db_rollups d) = [] \<Longrightarrow> operates h h d"
| ingested: "operates s u d \<Longrightarrow> ingest now key events d = Inr (ans, d') \<Longrightarrow>
    \<forall>ev \<in> set (List.map_filter id events). u \<le> event_time now ev \<Longrightarrow> operates s u d'"
| rolled: "operates s u d \<Longrightarrow> hour_floor now = u \<or> hour_floor now = u + hours 1 \<Longrightarrow>
    try_lock (lock_id py_hash ''rollup'') (sess :: int) held \<Longrightarrow> operates s (hour_floor now) (rollup_job py_hash sess held now d)"
| locked: "operates s u d \<Longrightarrow> \<not> try_lock (lock_id py_hash ''rollup'') (sess :: int) held \<Longrightarrow>
    operates s u (rollup_job py_hash sess held now d)"
| by_hand: "operates s u d \<Longrightarrow> hour_floor now = u \<or> hour_floor now = u + hours 1 \<Longrightarrow>
    trigger_rollup sid d = (r, Some t) \<Longrightarrow> operates s (hour_floor now) (run_background now t d)"
| retained: "operates s u d \<Longrightarrow> s \<le> s' \<Longrightarrow> hours 1 dvd s' \<Longrightarrow>
    \<forall>n. get_retention_events_days d = Inr n \<longrightarrow> now - days n \<le> s' \<Longrightarrow>
    \<forall>n. get_retention_rollups_days d = Inr n \<longrightarrow> now - days n \<le> s' \<Longrightarrow>
    operates s' u (retention_job py_hash (sess :: int) held now d)"
| elsewhere: "operates s u d \<Longrightarrow> db_events d' = db_events d \<Longrightarrow> db_rollups d' = db_rollups d \<Longrightarrow> operates s u d'"

definition stats_inv :: "instant \<Rightarrow> instant \<Rightarrow> db \<Rightarrow> bool" where
  "stats_inv s u d \<longleftrightarrow>
     hours 1 dvd s \<and> hours 1 dvd u \<and> window_rolled s u d \<and> (\<forall>b g. u \<le> b \<longrightarrow> rollup_at (db_rollups d) (Hourly, b, g) = None)"

subsection \<open>Every operation keeps the window rolled up\<close>

lemma ingest_rows:
  assumes "ingest now key events d = Inr (ans, d')" and "\<forall>ev \<in> set (List.map_filter id events). u \<le> event_time now ev"
  shows "db_rollups d' = db_rollups d \<and> (\<exists>new. rows (db_events d') = rows (db_events d) @ new \<and> (\<forall>e \<in> set new. u \<le> ev_ts e))"
proof -
  obtain node where node: "get_node_from_api_key key d = Inr node" using assms(1) by (auto simp: ingest_def split: sum.splits)
  have ensure: "db_rollups (fold (ensure_client now) ips d0) = db_rollups d0" for ips d0
    by (induction ips arbitrary: d0) (simp_all add: ensure_client_def)
  have touch: "db_rollups (fold (\<lambda>ev. touch_client (ie_client_ip ev) (event_time now ev)) evs d0) = db_rollups d0" for evs d0
    by (induction evs arbitrary: d0) (simp_all add: touch_client_def)
  have roll: "db_rollups d' = db_rollups d"
    using assms(1) node ensure touch by (auto simp: ingest_def Let_def save_node_def split: if_splits prod.splits)
  show ?thesis
  proof (cases "List.map_filter id events = []")
    case True
    then have "d' = d" using assms(1) node by (simp add: ingest_def Let_def)
    then show ?thesis by simp
  next
    case False
    let ?parsed = "List.map_filter id events"
    let ?mk = "event_row now (n_id node) (client_id_of (fold (ensure_client now) (fromkeys (map ie_client_ip ?parsed)) d))"
    have "db_events d' = snd (insert_events ?mk ?parsed (0, db_events d))"
      by (rule ingest_steps(2) [OF assms(1) node refl False refl refl])
    moreover obtain new where "rows (snd (insert_events ?mk ?parsed (0, db_events d))) = rows (db_events d) @ new"
      "\<forall>e \<in> set new. \<exists>ev \<in> set ?parsed. \<exists>i. e = ?mk ev i"
      using sink.insert_appends [of _ _ _ ?parsed 0 "db_events d"] by metis
    ultimately show ?thesis using roll assms(2) by (auto simp: event_row_def)
  qed
qed

lemma inv_start: "hours 1 dvd h \<Longrightarrow> rows (db_rollups d) = [] \<Longrightarrow> stats_inv h h d"
  by (auto simp: stats_inv_def window_rolled_def keys_distinct_def hourly_in_def counted_in_def rollup_at_def tbl_find_def)

lemma inv_appended:
  assumes inv: "stats_inv s u d" and roll: "db_rollups d' = db_rollups d"
    and new: "rows (db_events d') = rows (db_events d) @ new" "\<forall>e \<in> set new. u \<le> ev_ts e"
  shows "stats_inv s u d'"
proof -
  have same: "group_events b g d' = group_events b g d" if "hours 1 dvd b" "b < u" for b g
  proof -
    have "b + hours 1 \<le> u" using that inv by (intro aligned_next) (auto simp: stats_inv_def)
    then have "filter (\<lambda>e. counted_in b (b + hours 1) e \<and> group_of e = g) new = []"
      using new(2) by (force simp: filter_empty_conv counted_in_def)
    then show ?thesis by (simp add: group_events_def new(1))
  qed
  show ?thesis
    using inv new same by (auto simp: stats_inv_def window_rolled_iff roll counted_in_def)
qed

lemma inv_rollup:
  assumes inv: "stats_inv s u d" and hour: "hour_floor now = u \<or> hour_floor now = u + hours 1"
  shows "stats_inv s (hour_floor now) (snd (run_rollup_job now d))"
proof -
  let ?d = "snd (run_rollup_job now d)" and ?h = "hour_floor now"
  have aligned: "hours 1 dvd s" "hours 1 dvd u" "hours 1 dvd ?h" using inv by (auto simp: stats_inv_def hour_floor_mult)
  have rolled: "window_rolled s u d" and none: "u \<le> b \<Longrightarrow> rollup_at (db_rollups d) (Hourly, b, g) = None" for b g
    using inv unfolding stats_inv_def by blast+
  have same: "group_events b g ?d = group_events b g d" for b g by (simp add: group_events_def run_rollup_frame(1))
  have row: "hours 1 dvd b \<and> v = event_values (group_events b g d)"
    if "s \<le> b" "b < ?h" "rollup_at (db_rollups ?d) (Hourly, b, g) = Some v" for b g v
  proof (cases "b = ?h - hours 1 \<and> group_events b g d \<noteq> []")
    case True
    then show ?thesis using that(3) aligned(3) by (auto simp: run_rollup_at split: if_splits)
  next
    case False
    then have old: "rollup_at (db_rollups d) (Hourly, b, g) = Some v" using that(3) unfolding run_rollup_at by (simp only: if_False)
    then have "b < u" using none [of b g] by (cases "u \<le> b") auto
    then show ?thesis using window_rolled_row [OF rolled that(1) _ old] by blast
  qed
  have cover: "rollup_at (db_rollups ?d) (Hourly, hour_floor (ev_ts e), group_of e) \<noteq> None"
    if e: "e \<in> set (rows (db_events d))" "counted_in s ?h e" for e
  proof (cases "ev_ts e < u")
    case True
    then show ?thesis using rolled e by (auto simp: window_rolled_iff counted_in_def run_rollup_at)
  next
    case False
    then have h: "?h = u + hours 1" and "u \<le> ev_ts e \<and> ev_ts e < u + hours 1" using e(2) hour by (auto simp: counted_in_def)
    then have "hour_floor (ev_ts e) = u" using in_hour_iff [OF aligned(2)] by blast
    moreover have "e \<in> set (group_events u (group_of e) d)" using e False h by (auto simp: group_events_def counted_in_def)
    ultimately show ?thesis using h by (auto simp: run_rollup_at)
  qed
  have "rollup_at (db_rollups ?d) (Hourly, b, g) = None" if "?h \<le> b" for b g
    using none [of b g] hour that hours_1_pos by (auto simp: run_rollup_at simp del: hours_1_pos)
  moreover have "keys_distinct (db_rollups ?d)" using rolled by (simp add: window_rolled_def run_rollup_frame(2))
  ultimately show ?thesis
    using aligned row cover unfolding stats_inv_def window_rolled_iff same by (simp add: run_rollup_frame(1))
qed

text \<open>Retention keeps what is not older than \<open>s\<close>, also when it stops at a setting that is no number.\<close>

definition keeps_since :: "instant \<Rightarrow> (instant \<Rightarrow> bool) \<Rightarrow> bool" where
  "keeps_since s P \<longleftrightarrow> (\<forall>t \<ge> s. P t)"

lemma retention_cut:
  assumes "\<forall>n. get_retention_events_days d = Inr n \<longrightarrow> now - days n \<le> s"
    and "\<forall>n. get_retention_rollups_days d = Inr n \<longrightarrow> now - days n \<le> s"
  obtains P Q where "keeps_since s P" and "keeps_since s Q"
    and "rows (db_events (retention_job py_hash sess held now d)) = filter (\<lambda>e. P (ev_ts e)) (rows (db_events d))"
    and "rows (db_rollups (retention_job py_hash sess held now d)) = filter (\<lambda>r. Q (qr_bucket_start r)) (rows (db_rollups d))"
proof -
  let ?d = "retention_job py_hash sess held now d" and ?all = "\<lambda>_ :: instant. True"
  have frame: "get_retention_rollups_days (d\<lparr>db_events := t\<rparr>) = get_retention_rollups_days d" for t
    by (simp add: get_retention_rollups_days_def int_setting_def setting_or_def get_setting_def)
  have since: "keeps_since s (\<lambda>t. \<not> t < now - days n)" if "now - days n \<le> s" for n using that by (auto simp: keeps_since_def)
  have all: "keeps_since s ?all" by (simp add: keeps_since_def)
  consider (unchanged) "?d = d" | (ran) "?d = snd (run_retention_job now d)"
    by (cases "try_lock (lock_id py_hash ''retention'') sess held") (simp_all add: retention_job_def run_with_advisory_lock_def swallow_def)
  then show thesis
  proof cases
    case unchanged
    show thesis by (rule that [of ?all ?all]) (simp_all add: unchanged all)
  next
    case ran
    show thesis
    proof (cases "get_retention_events_days d")
      case (Inl e)
      then have "?d = d" by (simp add: ran run_retention_job_def cleanup_old_events_def)
      then show thesis by (intro that [of ?all ?all]) (simp_all add: all)
    next
      case (Inr n)
      have P: "keeps_since s (\<lambda>t. \<not> t < now - days n)" using assms(1) Inr by (intro since) simp
      show thesis
      proof (cases "get_retention_rollups_days d")
        case (Inl e)
        then have "?d = d\<lparr>db_events := tbl_delete (\<lambda>e. ev_ts e < now - days n) (db_events d)\<rparr>"
          by (simp add: ran run_retention_job_def cleanup_old_events_def cleanup_old_rollups_def Inr frame Let_def)
        then show thesis using P by (intro that [of "\<lambda>t. \<not> t < now - days n" ?all]) (simp_all add: all tbl_delete_def)
      next
        case Rollups: (Inr m)
        then have "db_events ?d = tbl_delete (\<lambda>e. ev_ts e < now - days n) (db_events d)"
          "db_rollups ?d = tbl_delete (\<lambda>r. qr_bucket_start r < now - days m) (db_rollups d)"
          by (auto simp: ran run_retention_job_def cleanup_old_events_def cleanup_old_rollups_def cleanup_old_node_metrics_def
              Inr frame Let_def split: sum.split)
        moreover have "keeps_since s (\<lambda>t. \<not> t < now - days m)" using assms(2) Rollups by (intro since) simp
        ultimately show thesis
          using P by (intro that [of "\<lambda>t. \<not> t < now - days n" "\<lambda>t. \<not> t < now - days m"]) (simp_all add: tbl_delete_def)
      qed
    qed
  qed
qed

lemma inv_cut:
  assumes inv: "stats_inv s0 u d" and s: "s0 \<le> s" "hours 1 dvd s" and cut: "keeps_since s P" "keeps_since s Q"
    and ev: "rows (db_events d') = filter (\<lambda>e. P (ev_ts e)) (rows (db_events d))"
    and ro: "rows (db_rollups d') = filter (\<lambda>r. Q (qr_bucket_start r)) (rows (db_rollups d))"
  shows "stats_inv s u d'"
proof -
  have rolled: "window_rolled s0 u d" and none: "u \<le> c \<Longrightarrow> rollup_at (db_rollups d) (Hourly, c, g) = None" for c g
    using inv unfolding stats_inv_def by blast+
  have "counted_in c (c + hours 1) e \<longrightarrow> P (ev_ts e)" if "s \<le> c" for c e
    using that cut(1) by (simp add: counted_in_def keeps_since_def)
  then have same: "group_events c g d' = group_events c g d" if "s \<le> c" for c g
    using that unfolding group_events_def ev filter_filter by (intro filter_cong) blast+
  have found: "find (\<lambda>r. rollup_key r = (Hourly, c, g)) (filter (\<lambda>r. Q (qr_bucket_start r)) rs) =
      (if Q c then find (\<lambda>r. rollup_key r = (Hourly, c, g)) rs else None)" for rs c g
    by (induction rs) (auto simp: rollup_key_def)
  have at: "rollup_at (db_rollups d') (Hourly, c, g) = (if Q c then rollup_at (db_rollups d) (Hourly, c, g) else None)" for c g
    by (simp add: rollup_at_def tbl_find_def ro found)
  have keys: "keys_distinct (db_rollups d')" using rolled by (simp add: window_rolled_def keys_distinct_def ro distinct_map_filter)
  have row: "hours 1 dvd c \<and> v = event_values (group_events c g d')"
    if "s \<le> c" "c < u" "rollup_at (db_rollups d') (Hourly, c, g) = Some v" for c g v
    using that window_rolled_row [OF rolled _ that(2), of g v] s(1) same [OF that(1), of g] by (simp add: at split: if_splits)
  have cover: "rollup_at (db_rollups d') (Hourly, hour_floor (ev_ts e), group_of e) \<noteq> None"
    if e: "e \<in> set (rows (db_events d'))" "counted_in s u e" for e
  proof -
    have "s \<le> hour_floor (ev_ts e)" using e(2) s(2) by (intro hour_floor_mono) (auto simp: counted_in_def)
    then have "Q (hour_floor (ev_ts e))" using cut(2) by (simp add: keeps_since_def)
    moreover have "e \<in> set (rows (db_events d))" "counted_in s0 u e" using e s(1) by (auto simp: ev counted_in_def)
    ultimately show ?thesis using rolled by (simp add: at window_rolled_iff)
  qed
  have "rollup_at (db_rollups d') (Hourly, c, g) = None" if "u \<le> c" for c g using none [OF that] by (simp add: at)
  then show ?thesis using inv s(2) keys row cover unfolding stats_inv_def window_rolled_iff by blast
qed

lemma job_with_lock:
  "try_lock (lock_id py_hash ''rollup'') sess held \<Longrightarrow> rollup_job py_hash sess held now d = snd (run_rollup_job now d)"
  "\<not> try_lock (lock_id py_hash ''rollup'') sess held \<Longrightarrow> rollup_job py_hash sess held now d = d"
  by (simp_all add: rollup_job_def run_with_advisory_lock_def)

lemma operates_inv: "operates s u d \<Longrightarrow> stats_inv s u d"
proof (induction rule: operates.induct)
  case (ingested s u d now key events ans d')
  then show ?case using ingest_rows inv_appended by blast
next
  case (by_hand s u d now sid r t)
  then have "t = Run_Rollup" by (auto simp: trigger_rollup_def split: option.splits)
  with by_hand inv_rollup show ?case by (simp add: run_background_def)
next
  case (retained s u d s' now py_hash sess held)
  obtain P Q where cut: "keeps_since s' P" "keeps_since s' Q"
    "rows (db_events (retention_job py_hash sess held now d)) = filter (\<lambda>e. P (ev_ts e)) (rows (db_events d))"
    "rows (db_rollups (retention_job py_hash sess held now d)) = filter (\<lambda>r. Q (qr_bucket_start r)) (rows (db_rollups d))"
    by (rule retention_cut [OF retained.hyps(4,5)])
  show ?case by (rule inv_cut [OF retained.IH retained.hyps(2,3) cut])
next
  case (elsewhere s u d d')
  show ?case by (rule inv_appended [OF elsewhere.IH elsewhere.hyps(3), of "[]"]) (simp_all add: elsewhere.hyps(2))
qed (simp_all add: inv_start inv_rollup job_with_lock)

lemma window_rolled_later:
  "window_rolled s u d \<Longrightarrow> s \<le> s' \<Longrightarrow> window_rolled s' u d"
  by (auto simp: window_rolled_def hourly_in_def counted_in_def)

section \<open>Properties\<close>

text \<open>The scheduler runs every job under an id of its own, and starting it twice changes nothing.\<close>

lemma scheduler_started:
  "start_scheduler t' (start_scheduler t None) = start_scheduler t None"
  "distinct (map sj_id (job_table t))" "distinct (map sj_function (job_table t))"
  by (simp_all add: start_scheduler_def job_table_def add_job_def)

text \<open>The roll-up is due exactly once in every hour, five minutes after its start.\<close>

theorem rollup_due_once:
  assumes "trigger_of ''rollup'' (start_scheduler t0 None) = Some tr"
  shows "cron_due tr t \<and> hour_floor t = h \<longleftrightarrow> hours 1 dvd h \<and> t = h + minutes 5"
proof -
  have tr: "tr = CronTrigger None (At 5)" using assms by (simp add: trigger_of_def start_scheduler_def job_table_def add_job_def)
  have eq: "t = hour_floor t + t mod hours 1" by (simp add: hour_floor_mult)
  have "t mod hours 1 mod minutes 1 = t mod minutes 1" by (intro mod_mod_cancel) (simp add: duration_defs)
  then have "cron_due tr t \<longleftrightarrow> t mod hours 1 = minutes 5"
    using pos_mod_bound [of "hours 1" t] div_mult_mod_eq [of "t mod hours 1" "minutes 1"]
    by (auto simp: cron_due_def tr minute_due_def duration_defs)
  moreover have "(h + minutes 5) mod hours 1 = minutes 5" if "hours 1 dvd h"
    using that by (auto simp: duration_defs mod_add_left_eq [symmetric])
  ultimately show ?thesis using eq hour_floor_mult [of t] by (metis add_diff_cancel_right' dvd_triv_left eq)
qed


text \<open>A database with one account, two events of the eleventh hour, and its roll-ups at five past eleven and twelve.\<close>

definition one_account :: db where
  "one_account = two_clients\<lparr>db_users :=
     \<lparr>rows = [\<lparr>u_id = 1, u_username = ''admin'', u_password_hash = ''x''\<rparr>], next_id = 2\<rparr>\<rparr>"

definition after_noon :: db where
  "after_noon = rollup_job (\<lambda>_. 0) (0 :: int) {} (hours 12 + minutes 5) (rollup_job (\<lambda>_. 0) (0 :: int) {} (hours 11 + minutes 5) one_account)"

lemma after_noon_frame: "db_events after_noon = db_events two_clients" "db_users after_noon = db_users one_account"
proof -
  have "db_users (snd (run_rollup_job t d)) = db_users d" for t d
    by (simp add: run_rollup_job_def compute_hourly_rollup_def compute_daily_rollup_def case_prod_beta Let_def)
  then show "db_events after_noon = db_events two_clients" "db_users after_noon = db_users one_account"
    by (simp_all add: after_noon_def job_with_lock(1) try_lock_def run_rollup_frame one_account_def)
qed

lemma after_noon_operates: "operates (hours 10) (hours 12) after_noon"
proof -
  have hour: "hour_floor (hours 11 + minutes 5) = hours 11" "hour_floor (hours 12 + minutes 5) = hours 12"
    by (simp_all add: hour_floor_def duration_defs)
  have "operates (hours 10) (hours 10) one_account"
    by (rule operates.start) (simp_all add: one_account_def two_clients_def empty_db_def empty_table_def duration_defs)
  from operates.rolled [OF this, of "hours 11 + minutes 5" "\<lambda>_. 0" 0 "{}"]
  have "operates (hours 10) (hours 11) (rollup_job (\<lambda>_. 0) (0 :: int) {} (hours 11 + minutes 5) one_account)"
    unfolding hour by (simp add: try_lock_def duration_defs)
  from operates.rolled [OF this, of "hours 12 + minutes 5" "\<lambda>_. 0" 0 "{}"] show ?thesis
    unfolding hour after_noon_def by (simp add: try_lock_def duration_defs)
qed


text \<open>
  Until that roll-up, in the first five minutes of an hour, the hour before is in neither part of the sum:
  its events are missing from the total.
\<close>

theorem dashboard_misses_last_hour:
  assumes "operates s u d" and "hour_floor now = u + hours 1" and "1 < hrs" and "s \<le> now - hours hrs"
    and "cache (cache_key hrs (hour_floor (now - hours hrs)) (hour_floor now)) = None"
  shows "ds_total_queries (fst (get_dashboard_stats now clock hrs d cache)) +
      int (length (tbl_select (counted_in u (u + hours 1)) (db_events d))) =
    ds_total_queries (build_result (raw_edge_aggregate (now - hours hrs) now d) (of_int hrs * 3600) 0 0 0)"
proof -
  let ?ws = "now - hours hrs" and ?c = "u + hours 1"
  let ?fs = "full_start ?ws" and ?n = "\<lambda>a b. sum_by (\<lambda>_. 1) (tbl_select (counted_in a b) (db_events d))"
  note inv = operates_inv [OF assms(1)]
  have u: "hours 1 dvd u" and rolled: "window_rolled ?fs u d" and keys: "keys_distinct (db_rollups d)"
    using inv full_start_facts(1) [of ?ws] assms(4) window_rolled_later [of s u d ?fs] by (auto simp: stats_inv_def window_rolled_def)
  have "hours 1 + hours 1 \<le> hours hrs" using assms(3) by (simp add: duration_defs)
  then have "?fs \<le> now - hours 1" using full_start_facts(3) [of ?ws] by linarith
  then have "?fs \<le> hour_floor (now - hours 1)" by (rule hour_floor_mono [OF full_start_facts(2)])
  also have "hour_floor (now - hours 1) = u"
    using hour_floor_bounds [of now] assms(2) u by (intro in_hour_iff [THEN iffD1]) auto
  finally have order: "?ws \<le> ?fs" "?fs \<le> u" "u \<le> ?c" "?c \<le> now"
    using full_start_facts(1) [of ?ws] hour_floor_bounds(1) [of now] assms(2) by (auto simp: hours_1_pos less_imp_le)
  have "hourly_in ?fs ?c r \<longleftrightarrow> hourly_in ?fs u r" if "r \<in> set (rows (db_rollups d))" for r
  proof -
    have "qr_granularity r = Hourly \<longrightarrow> qr_bucket_start r < u"
      using rollup_at_row [OF keys that] inv unfolding stats_inv_def rollup_key_def by (metis linorder_not_le option.distinct(1))
    then show ?thesis using order(3) by (auto simp: hourly_in_def)
  qed
  then have rows: "tbl_select (hourly_in ?fs ?c) (db_rollups d) = tbl_select (hourly_in ?fs u) (db_rollups d)"
    unfolding tbl_select_def by (intro filter_cong) auto
  have mid: "sum_by qr_total_queries (tbl_select (hourly_in ?fs u) (db_rollups d)) = ?n ?fs u"
    by (rule window_sum [OF rolled full_start_facts(2) u values_of_events(1)])
  have edge: "(if a < b then ?n a b else 0) = ?n a b" if "a \<le> b" for a b
    using that by (cases "a = b") (auto simp: tbl_select_def counted_in_def)
  have total: "es_total (fst (window_accum now hrs d)) = ?n ?fs u + (if ?ws < ?fs then ?n ?ws ?fs else 0) + (if ?c < now then ?n ?c now else 0)"
    unfolding window_accum_def Let_def full_start_def [symmetric] assms(2) rows
    by (simp add: mid [unfolded sum_by_one] raw_edge_aggregate_def accum_simps)
  have "0 \<le> es_total (fst (window_accum now hrs d))" by (simp add: total sum_by_one)
  moreover have "es_total (fst (window_accum now hrs d)) + ?n u ?c = ?n ?ws now"
    unfolding total edge [OF order(1)] edge [OF order(4)] select_split [OF order(1) order_trans [OF order(2) order_trans [OF order(3,4)]]]
      select_split [OF order(2) order_trans [OF order(3,4)]] select_split [OF order(3,4)] by simp
  ultimately show ?thesis
    using fresh_stats [of hrs cache now clock d, OF assms(3,5)]
    by (simp add: build_result_def Let_def raw_edge_aggregate_def aggregate_def sum_by_one)
qed

end
