(* ===== verification/Startup.thy ===== *)
theory Startup
  imports Web_Security Jobs
begin

text \<open>
  The start and the end of the admin interface (\<open>lifespan\<close> of \<open>admin-ui/app/main.py\<close>): the security
  check, the administrator's account, the primary's own node, the scheduler and the thread of the boot
  burst, in this order.  The fields of \<open>admin-ui/app/settings.py\<close> that are read here are a record.
\<close>

section \<open>Settings\<close>

record app_settings =
  as_admin_username :: string
  as_admin_password :: string
  as_admin_secret_key :: string
  as_primary_api_key :: "string option"
  as_local_node_api_key :: "string option"
  as_node_name :: "string option"
  as_pb_version :: string
  as_pb_git_sha :: string
  as_pb_build_date :: string
  as_node_protocol_version :: int
  as_node_protocol_min_supported :: int

text \<open>The values without an environment; a value there replaces the one here.\<close>

definition default_settings :: app_settings where
  "default_settings =
     \<lparr>as_admin_username = ''admin'', as_admin_password = ''change-me'', as_admin_secret_key = ''change-me'', as_primary_api_key = None,
      as_local_node_api_key = None, as_node_name = None, as_pb_version = ''v0.10.0'', as_pb_git_sha = ''unknown'',
      as_pb_build_date = ''unknown'', as_node_protocol_version = 1, as_node_protocol_min_supported = 1\<rparr>"

definition or_else :: "string option \<Rightarrow> string \<Rightarrow> string" where
  "or_else v dflt = (case v of None \<Rightarrow> dflt | Some x \<Rightarrow> if x = [] then dflt else x)"

definition primary_name :: "app_settings \<Rightarrow> string \<Rightarrow> string" where
  "primary_name cf host = or_else (as_node_name cf) host"

text \<open>\<open>sha256\<close> gives the digest in hexadecimal.\<close>

definition primary_key :: "(string \<Rightarrow> string) \<Rightarrow> app_settings \<Rightarrow> string \<Rightarrow> string" where
  "primary_key sha256 cf host =
     or_else (as_local_node_api_key cf) (sha256 (primary_name cf host @ '':'' @ as_admin_secret_key cf))"

section \<open>The life of the server\<close>

record server =
  sv_db :: db
  sv_scheduler :: scheduler
  sv_burst_thread :: bool

datatype startup = Exits | Raises py_error server | Serves server

text \<open>
  What is read of the process: two environment variables, the name of the host, the clock, and a salt.
  Each account and node statement commits on its own.
\<close>

record process =
  pr_testing :: string
  pr_allow_insecure :: string
  pr_host :: string
  pr_now :: instant
  pr_salt :: string

definition lifespan_start ::
  "(string \<Rightarrow> string) \<Rightarrow> (string \<Rightarrow> string) \<Rightarrow> (string \<Rightarrow> string \<Rightarrow> string) \<Rightarrow> (string \<Rightarrow> string \<Rightarrow> bool option) \<Rightarrow>
   app_settings \<Rightarrow> process \<Rightarrow> server \<Rightarrow> startup" where
  "lifespan_start sha sha256 hashpw checkpw cf pr s =
     (if lower (pr_testing pr) = ''true'' then Serves s
      else if \<not> validate_security_settings (pr_allow_insecure pr) (as_admin_password cf) (as_admin_secret_key cf)
                  (or_else (as_primary_api_key cf) []) then Exits
      else
        (let d1 = bootstrap_admin sha hashpw checkpw (pr_salt pr) (as_admin_username cf) (as_admin_password cf) (sv_db s)
         in case bootstrap_primary_node (pr_now pr) (primary_name cf (pr_host pr)) (primary_key sha256 cf (pr_host pr)) d1 of
              Inl e \<Rightarrow> Raises e (s\<lparr>sv_db := d1\<rparr>)
            | Inr d2 \<Rightarrow> Serves (s\<lparr>sv_db := d2, sv_scheduler := start_scheduler (pr_now pr) (sv_scheduler s), sv_burst_thread := True\<rparr>)))"

definition lifespan_end :: "process \<Rightarrow> server \<Rightarrow> server" where
  "lifespan_end pr s = (if lower (pr_testing pr) = ''true'' then s else s\<lparr>sv_scheduler := stop_scheduler (sv_scheduler s)\<rparr>)"

text \<open>A new process has no scheduler and no thread; the database is what is left.\<close>

definition new_process :: "db \<Rightarrow> server" where
  "new_process d = \<lparr>sv_db = d, sv_scheduler = None, sv_burst_thread = False\<rparr>"

record version_info =
  vi_version :: string
  vi_git_sha :: string
  vi_build_date :: string
  vi_api_protocol_version :: int
  vi_api_protocol_min_supported :: int

definition version :: "app_settings \<Rightarrow> int option \<Rightarrow> version_info py_result" where
  "version cf user_id =
     (case user_id of
        None \<Rightarrow> Inl (HTTPException 401 ''Authentication required'')
      | Some i \<Rightarrow>
          if i = 0 then Inl (HTTPException 401 ''Authentication required'')
          else Inr \<lparr>vi_version = as_pb_version cf, vi_git_sha = as_pb_git_sha cf, vi_build_date = as_pb_build_date cf,
                    vi_api_protocol_version = as_node_protocol_version cf,
                    vi_api_protocol_min_supported = as_node_protocol_min_supported cf\<rparr>)"

section \<open>Facts\<close>

lemma bootstrap_admin_frame [simp]:
  "db_nodes (bootstrap_admin sha hashpw checkpw salt name password d) = db_nodes d"
  by (simp add: bootstrap_admin_def split: option.split)

lemma nodes_ok_cong: "db_nodes d' = db_nodes d \<Longrightarrow> nodes_ok d' = nodes_ok d"
  by (simp add: nodes_ok_def)

text \<open>The identity of a node, and that the primary's own node is in the table.\<close>

definition identity :: "node \<Rightarrow> int \<times> string \<times> string \<times> node_status" where
  "identity n = (n_id n, n_name n, n_api_key n, n_status n)"

lemma bootstrap_primary:
  assumes "nodes_ok d"
    and "tbl_find (\<lambda>n. n_name n = name) (db_nodes d) = None \<longrightarrow> (\<forall>n \<in> set (rows (db_nodes d)). n_api_key n \<noteq> key)"
  obtains d' n where "bootstrap_primary_node now name key d = Inr d'" and "nodes_ok d'" and "db_users d' = db_users d"
    and "tbl_find (\<lambda>n. n_name n = name) (db_nodes d') = Some n" and "n_last_seen n = Some (Naive now)"
    and "tbl_find (\<lambda>n. n_name n = name) (db_nodes d) \<noteq> None \<longrightarrow> map identity (rows (db_nodes d')) = map identity (rows (db_nodes d))"
    and "tbl_find (\<lambda>n. n_name n = name) (db_nodes d) = None \<longrightarrow> n_status n = ACTIVE \<and> n_api_key n = key"
proof (cases "tbl_find (\<lambda>n. n_name n = name) (db_nodes d)")
  case None
  let ?n = "new_node now name key ACTIVE (Some (Naive now)) (next_id (db_nodes d))" and ?d = "d\<lparr>db_nodes := tbl_insert (new_node now name key ACTIVE (Some (Naive now))) (db_nodes d)\<rparr>"
  have "insert_node (new_node now name key ACTIVE (Some (Naive now))) d = Inr ?d"
    using None assms(2) by (auto simp: insert_node_def Let_def new_node_def tbl_find_None_iff)
  then have boot: "bootstrap_primary_node now name key d = Inr ?d" by (simp add: bootstrap_primary_node_def None)
  have "nodes_ok ?d" using bootstrap_ok [OF assms(1) boot] .
  moreover have "tbl_find (\<lambda>n. n_name n = name) (db_nodes ?d) = Some ?n"
    using None by (simp add: tbl_find_def find_append new_node_def)
  ultimately show ?thesis using boot None by (intro that [of ?d ?n]) (simp_all add: new_node_def)
next
  case (Some n)
  let ?n = "n\<lparr>n_last_seen := Some (Naive now)\<rparr>"
  have n: "n \<in> set (rows (db_nodes d))" "n_name n = name" using tbl_find_SomeD [OF Some] by simp_all
  have boot: "bootstrap_primary_node now name key d = Inr (save_node ?n d)" by (simp add: bootstrap_primary_node_def Some)
  have wf: "table_wf n_id (db_nodes d)" using assms(1) by (simp add: nodes_ok_def)
  have rows: "rows (db_nodes (save_node ?n d)) = map (\<lambda>x. if n_id x = n_id n then ?n else x) (rows (db_nodes d))"
    by (simp add: save_node_def)
  have same: "x = n" if "x \<in> set (rows (db_nodes d))" "n_id x = n_id n" for x using table_wf_key_inj [OF wf that(1) n(1) that(2)] .
  have ids: "map identity (rows (db_nodes (save_node ?n d))) = map identity (rows (db_nodes d))"
    unfolding rows using same by (auto simp: identity_def)
  have "find (\<lambda>x. n_name x = name) (map (\<lambda>x. if n_id x = n_id n then ?n else x) xs) = Some ?n"
    if "find (\<lambda>x. n_name x = name) xs = Some n" "set xs \<subseteq> set (rows (db_nodes d))" for xs
    using that n same by (induction xs) (auto split: if_splits)
  then have "tbl_find (\<lambda>x. n_name x = name) (db_nodes (save_node ?n d)) = Some ?n"
    using Some unfolding tbl_find_def rows by simp
  then show ?thesis using boot bootstrap_ok [OF assms(1) boot] ids Some by (intro that [of "save_node ?n d" ?n]) (simp_all add: save_node_def)
qed

section \<open>Properties\<close>

text \<open>
  C10: the server comes up ready, and comes up again.  With secure settings and a key of the primary that no
  other node has, the start ends in service: the configured administrator can log in, the primary's own
  node is known and just seen, and every job is scheduled.  A restart with the same settings changes no
  account and no node but for the time it was seen.
\<close>

theorem startup_ready:
  assumes bcrypt: "\<forall>p salt. checkpw p (hashpw p salt) = Some True"
    and ok: "table_wf u_id (db_users d)" "nodes_ok d" and real: "lower (pr_testing pr) \<noteq> ''true''" "pr_testing pr' = pr_testing pr" "pr_host pr' = pr_host pr"
    and secure: "security_issues (as_admin_password cf) (as_admin_secret_key cf) (or_else (as_primary_api_key cf) []) = []"
    and free: "tbl_find (\<lambda>n. n_name n = primary_name cf (pr_host pr)) (db_nodes d) = None \<longrightarrow>
      (\<forall>n \<in> set (rows (db_nodes d)). n_api_key n \<noteq> primary_key sha256 cf (pr_host pr))"
  shows "\<exists>s s' u n. lifespan_start sha sha256 hashpw checkpw cf pr (new_process d) = Serves s \<and>
    login_post sha checkpw (as_admin_username cf) (as_admin_password cf) (sv_db s) None = (RedirectResponse ''/'', Some (u_id u)) \<and>
    get_current_user (Some (u_id u)) (sv_db s) = Some u \<and> u_username u = as_admin_username cf \<and>
    tbl_find (\<lambda>n. n_name n = primary_name cf (pr_host pr)) (db_nodes (sv_db s)) = Some n \<and> n_last_seen n = Some (Naive (pr_now pr)) \<and>
    sv_scheduler s = Some (job_table (pr_now pr)) \<and>
    lifespan_start sha sha256 hashpw checkpw cf pr' (new_process (sv_db (lifespan_end pr s))) = Serves s' \<and>
    db_users (sv_db s') = db_users (sv_db s) \<and> map identity (rows (db_nodes (sv_db s'))) = map identity (rows (db_nodes (sv_db s)))"
proof -
  let ?name = "primary_name cf (pr_host pr)" and ?key = "primary_key sha256 cf (pr_host pr)"
  let ?admin = "\<lambda>salt. bootstrap_admin sha hashpw checkpw salt (as_admin_username cf) (as_admin_password cf)"
  let ?d1 = "?admin (pr_salt pr) d"
  obtain u where u: "login_post sha checkpw (as_admin_username cf) (as_admin_password cf) ?d1 None = (RedirectResponse ''/'', Some (u_id u))"
    "get_current_user (Some (u_id u)) ?d1 = Some u" "u_username u = as_admin_username cf"
    and again: "?admin (pr_salt pr') ?d1 = ?d1"
    using admin_can_log_in [where checkpw = checkpw and hashpw = hashpw, OF bcrypt ok(1) refl] by blast
  have ok1: "nodes_ok ?d1" using ok(2) by (subst nodes_ok_cong) simp_all
  obtain d2 n where d2: "bootstrap_primary_node (pr_now pr) ?name ?key ?d1 = Inr d2" "nodes_ok d2" "db_users d2 = db_users ?d1"
    "tbl_find (\<lambda>n. n_name n = ?name) (db_nodes d2) = Some n" "n_last_seen n = Some (Naive (pr_now pr))"
    by (rule bootstrap_primary [OF ok1, of ?name ?key "pr_now pr"]) (use free in simp_all)
  define s where "s = \<lparr>sv_db = d2, sv_scheduler = Some (job_table (pr_now pr)), sv_burst_thread = True\<rparr>"
  have start: "lifespan_start sha sha256 hashpw checkpw cf pr (new_process d) = Serves s"
    using real(1) secure d2(1) by (simp add: lifespan_start_def validate_security_settings_def new_process_def start_scheduler_def s_def)
  have users: "?admin (pr_salt pr') d2 = d2"
  proof -
    have "\<exists>x. tbl_find (\<lambda>x. u_username x = as_admin_username cf) (db_users ?d1) = Some x \<and> verify_password sha checkpw (as_admin_password cf) (u_password_hash x)"
      using u(1) by (auto simp: login_post_def split: option.splits if_splits)
    then show ?thesis using d2(3) by (auto simp: bootstrap_admin_def)
  qed
  obtain d3 where d3: "bootstrap_primary_node (pr_now pr') ?name ?key d2 = Inr d3" "db_users d3 = db_users d2"
    "map identity (rows (db_nodes d3)) = map identity (rows (db_nodes d2))"
    by (rule bootstrap_primary [OF d2(2), of ?name ?key "pr_now pr'"]) (use d2(4) in simp_all)
  have "login_post sha checkpw (as_admin_username cf) (as_admin_password cf) d2 None = (RedirectResponse ''/'', Some (u_id u))"
    "get_current_user (Some (u_id u)) d2 = Some u"
    using u(1,2) by (simp_all only: login_post_def get_current_user_def d2(3))
  moreover have "lifespan_start sha sha256 hashpw checkpw cf pr' (new_process (sv_db (lifespan_end pr s))) =
      Serves \<lparr>sv_db = d3, sv_scheduler = Some (job_table (pr_now pr')), sv_burst_thread = True\<rparr>"
    using real secure users d3(1)
    by (simp add: lifespan_start_def lifespan_end_def validate_security_settings_def new_process_def start_scheduler_def s_def)
  ultimately show ?thesis using start u(3) d2(4,5) d3(2,3) by (auto simp: s_def)
qed

definition secure_settings :: app_settings where
  "secure_settings = default_settings\<lparr>as_admin_password := ''correct horse battery'', as_admin_secret_key := ''0123456789abcdef0123456789abcdef'',
     as_primary_api_key := Some ''fedcba9876543210fedcba9876543210'', as_node_name := Some ''primary''\<rparr>"

definition first_process :: process where
  "first_process = \<lparr>pr_testing = [], pr_allow_insecure = [], pr_host = ''host'', pr_now = 5, pr_salt = []\<rparr>"

theorem startup_ready_witness:
  "\<exists>s n. lifespan_start (\<lambda>x. x) (\<lambda>x. x) (\<lambda>p salt. p) (\<lambda>p h. Some (h = p)) secure_settings first_process (new_process empty_db) = Serves s \<and>
     tbl_find (\<lambda>n. n_name n = ''primary'') (db_nodes (sv_db s)) = Some n \<and> n_last_seen n = Some (Naive 5)"
proof -
  let ?check = "\<lambda>p h. Some (h = (p :: string))" and ?hash = "\<lambda>p salt. p :: string"
  have bcrypt: "\<forall>p salt. ?check p (?hash p salt) = Some True" by simp
  have users: "table_wf u_id (db_users empty_db)" by (simp add: empty_db_def empty_table_def table_wf_def)
  have nodes: "nodes_ok empty_db" by (simp add: nodes_ok_def empty_db_def empty_table_def table_wf_def)
  have real: "lower (pr_testing first_process) \<noteq> ''true''" by (simp add: first_process_def lower_def)
  have secure: "security_issues (as_admin_password secure_settings) (as_admin_secret_key secure_settings) (or_else (as_primary_api_key secure_settings) []) = []"
    by code_simp
  have free: "tbl_find (\<lambda>n. n_name n = primary_name secure_settings (pr_host first_process)) (db_nodes empty_db) = None \<longrightarrow>
      (\<forall>n \<in> set (rows (db_nodes empty_db)). n_api_key n \<noteq> primary_key (\<lambda>x. x) secure_settings (pr_host first_process))"
    by (simp add: empty_db_def empty_table_def)
  have name: "primary_name secure_settings (pr_host first_process) = ''primary''" "pr_now first_process = 5"
    by (simp_all add: primary_name_def or_else_def secure_settings_def first_process_def)
  show ?thesis
    using startup_ready [where checkpw = ?check and hashpw = ?hash and sha = "\<lambda>x. x", OF bcrypt users nodes real refl refl secure free]
    unfolding name by blast
qed

text \<open>
  The status of the primary's node is left as it was, and the scrape of its own recursor looks for an active
  one: a primary that went stale stays so through restarts, without metrics, until events are ingested.
\<close>

theorem stale_primary_not_recovered:
  assumes "nodes_ok d" and "tbl_find (\<lambda>n. n_name n = primary_name cf (pr_host pr)) (db_nodes d) = Some n" and "n_status n \<noteq> ACTIVE"
    and "lifespan_start sha sha256 hashpw checkpw cf pr (new_process d) = Serves s"
  shows "scrape_local_recursor_metrics t recursor_url (primary_name cf (pr_host pr)) reply (sv_db s) = sv_db s"
proof -
  let ?name = "primary_name cf (pr_host pr)"
  have inactive: "\<forall>x \<in> set (rows (db_nodes (sv_db s))). n_name x = ?name \<longrightarrow> n_status x \<noteq> ACTIVE"
  proof -
    have "map identity (rows (db_nodes (sv_db s))) = map identity (rows (db_nodes d))"
    proof (cases "lower (pr_testing pr) = ''true''")
      case True
      then show ?thesis using assms(4) by (auto simp: lifespan_start_def new_process_def)
    next
      case False
      let ?d1 = "bootstrap_admin sha hashpw checkpw (pr_salt pr) (as_admin_username cf) (as_admin_password cf) d"
      have ok1: "nodes_ok ?d1" using assms(1) by (subst nodes_ok_cong) simp_all
      obtain d2 where "bootstrap_primary_node (pr_now pr) ?name (primary_key sha256 cf (pr_host pr)) ?d1 = Inr d2"
        "map identity (rows (db_nodes d2)) = map identity (rows (db_nodes ?d1))"
        by (rule bootstrap_primary [OF ok1, of ?name "primary_key sha256 cf (pr_host pr)" "pr_now pr"]) (use assms(2) in simp_all)
      then show ?thesis using assms(4) False by (auto simp: lifespan_start_def new_process_def Let_def split: if_splits)
    qed
    then have same: "identity ` set (rows (db_nodes (sv_db s))) = identity ` set (rows (db_nodes d))" by (metis list.set_map)
    have own: "x = n" if "x \<in> set (rows (db_nodes d))" "n_name x = ?name" for x
      using that assms(1) tbl_find_SomeD [OF assms(2)] by (auto simp: nodes_ok_def distinct_map inj_on_def)
    show ?thesis
    proof (intro ballI impI)
      fix x assume x: "x \<in> set (rows (db_nodes (sv_db s)))" "n_name x = ?name"
      have "identity x \<in> identity ` set (rows (db_nodes d))" unfolding same [symmetric] using x(1) by (rule imageI)
      then obtain y where y: "y \<in> set (rows (db_nodes d))" "identity y = identity x" by auto
      then have "y = n" using x(2) by (intro own) (simp_all add: identity_def)
      then show "n_status x \<noteq> ACTIVE" using y(2) assms(3) by (simp add: identity_def)
    qed
  qed
  then have "tbl_find (\<lambda>n. n_name n = ?name \<and> n_status n = ACTIVE) (db_nodes (sv_db s)) = None" by (auto simp: tbl_find_None_iff)
  then show ?thesis by (simp add: scrape_local_recursor_metrics_def)
qed

end
