(* ===== verification/Web_App.thy ===== *)
theory Web_App
  imports Audit_Rollback Web_Security Clients Backups Precache_Pages Jobs
begin

text \<open>
  The web application as a whole (\<open>admin-ui/app/main.py\<close>): the CSRF middleware in front of every
  handler that changes something, the session behind the pages and the key behind the node protocol.
  A request carries its parsed form or payload and what its handler takes from outside: the clock,
  downloads, programs.  A request whose form does not parse is answered before any handler runs.
\<close>

section \<open>Requests\<close>

text \<open>
  One constructor for each route of a page that accepts a POST, with the fields of its form, but for the
  login, which changes the session only (\<open>login_post\<close>).  A file name in a path has no slash:
  another one does not match the route.
\<close>

datatype ui_action =
    Ui_Timezone string
  | Ui_Retention int int int
  | Ui_Health_Thresholds rat rat rat rat rat int
  | Ui_Precache_Settings precache_form
  | Ui_Precache_Warm
  | Ui_Blocking_Disable
  | Ui_Blocking_Enable
  | Ui_Blocking_Pause int
  | Ui_Clear_Cache
  | Ui_Blocklists_Add string string string string int
  | Ui_Blocklists_Add_Preset string string string string
  | Ui_Blocklists_Frequency int int
  | Ui_Blocklists_Toggle int
  | Ui_Blocklists_Schedule int bool string string "string list"
  | Ui_Blocklists_Delete int
  | Ui_Blocklists_Apply
  | Ui_Entries_Add string string string string
  | Ui_Entries_Delete int
  | Ui_Resolver_Add string string string int
  | Ui_Resolver_Toggle int
  | Ui_Resolver_Delete int
  | Ui_Clients_Set_Name int string
  | Ui_Clients_Resolve int
  | Ui_Groups_Create string string string string
  | Ui_Groups_Delete int
  | Ui_Groups_Update int string string string string
  | Ui_Groups_Auto_Assign
  | Ui_Clients_Set_Group int "int option"
  | Ui_Zones_Add string string string bool string
  | Ui_Zones_Toggle int
  | Ui_Zones_Delete int
  | Ui_Zones_Apply
  | Ui_Nodes_Generate string
  | Ui_Nodes_Delete int
  | Ui_Nodes_Force_Sync int
  | Ui_Nodes_Clear_Error int
  | Ui_Audit_Rollback int
  | Ui_Jobs_Rollup
  | Ui_Jobs_Retention
  | Ui_Backup_Database
  | Ui_Backup_Config
  | Ui_Backup_Delete string
  | Ui_Backup_Restore "string option" string

datatype node_action =
    Api_Register register_request
  | Api_Heartbeat heartbeat_request
  | Api_Ingest "ingest_event option list"
  | Api_Metrics metrics_request
  | Api_Command_Result command_result_request

datatype action = Ui ui_action | Api node_action

primrec ui_route :: "ui_action \<Rightarrow> string" where
  "ui_route (Ui_Timezone tz) = ''/settings/timezone''"
| "ui_route (Ui_Retention e r m) = ''/settings/retention''"
| "ui_route (Ui_Health_Thresholds a b c d e f) = ''/settings/health-thresholds''"
| "ui_route (Ui_Precache_Settings f) = ''/precache/settings''"
| "ui_route Ui_Precache_Warm = ''/precache/warm''"
| "ui_route Ui_Blocking_Disable = ''/api/blocking/disable''"
| "ui_route Ui_Blocking_Enable = ''/api/blocking/enable''"
| "ui_route (Ui_Blocking_Pause n) = ''/api/blocking/pause''"
| "ui_route Ui_Clear_Cache = ''/api/blocking/clear-cache''"
| "ui_route (Ui_Blocklists_Add a b c d f) = ''/blocklists/add''"
| "ui_route (Ui_Blocklists_Add_Preset a b c d) = ''/blocklists/add-preset''"
| "ui_route (Ui_Blocklists_Frequency i f) = ''/blocklists/update-frequency''"
| "ui_route (Ui_Blocklists_Toggle i) = ''/blocklists/toggle''"
| "ui_route (Ui_Blocklists_Schedule i on start stop ds) = ''/blocklists/update-schedule''"
| "ui_route (Ui_Blocklists_Delete i) = ''/blocklists/delete''"
| "ui_route Ui_Blocklists_Apply = ''/blocklists/apply''"
| "ui_route (Ui_Entries_Add a b c r) = ''/entries/add''"
| "ui_route (Ui_Entries_Delete i) = ''/entries/delete''"
| "ui_route (Ui_Resolver_Add a b c p) = ''/clients/resolver/add''"
| "ui_route (Ui_Resolver_Toggle i) = ''/clients/resolver/toggle''"
| "ui_route (Ui_Resolver_Delete i) = ''/clients/resolver/delete''"
| "ui_route (Ui_Clients_Set_Name i n) = ''/clients/set-name''"
| "ui_route (Ui_Clients_Resolve i) = ''/clients/resolve''"
| "ui_route (Ui_Groups_Create a b c d) = ''/clients/groups/create''"
| "ui_route (Ui_Groups_Delete i) = ''/clients/groups/delete''"
| "ui_route (Ui_Groups_Update i a b c d) = ''/clients/groups/update''"
| "ui_route Ui_Groups_Auto_Assign = ''/clients/groups/auto-assign''"
| "ui_route (Ui_Clients_Set_Group i g) = ''/clients/set-group''"
| "ui_route (Ui_Zones_Add a b c g n) = ''/forwardzones/add''"
| "ui_route (Ui_Zones_Toggle i) = ''/forwardzones/toggle''"
| "ui_route (Ui_Zones_Delete i) = ''/forwardzones/delete''"
| "ui_route Ui_Zones_Apply = ''/forwardzones/apply''"
| "ui_route (Ui_Nodes_Generate n) = ''/nodes/generate''"
| "ui_route (Ui_Nodes_Delete i) = ''/nodes/delete''"
| "ui_route (Ui_Nodes_Force_Sync i) = ''/nodes/force-sync''"
| "ui_route (Ui_Nodes_Clear_Error i) = ''/nodes/clear-error''"
| "ui_route (Ui_Audit_Rollback i) = ''/audit/rollback''"
| "ui_route Ui_Jobs_Rollup = ''/jobs/rollup''"
| "ui_route Ui_Jobs_Retention = ''/jobs/retention''"
| "ui_route Ui_Backup_Database = ''/backup/database''"
| "ui_route Ui_Backup_Config = ''/backup/config''"
| "ui_route (Ui_Backup_Delete f) = ''/backup/delete/'' @ f"
| "ui_route (Ui_Backup_Restore f x) = ''/backup/restore/database''"

primrec node_route :: "node_action \<Rightarrow> string" where
  "node_route (Api_Register p) = ''/api/node-sync/register''"
| "node_route (Api_Heartbeat p) = ''/api/node-sync/heartbeat''"
| "node_route (Api_Ingest es) = ''/api/node-sync/ingest''"
| "node_route (Api_Metrics p) = ''/api/node-sync/metrics''"
| "node_route (Api_Command_Result p) = ''/api/node-sync/commands/result''"

primrec route :: "action \<Rightarrow> string" where
  "route (Ui a) = ui_route a"
| "route (Api a) = node_route a"

text \<open>
  What a handler takes from outside: the time, downloads, the recursor's answer, how Python prints
  floats, the time zones, name lookups, the failing call of a write, a new key, the outcomes of
  \<open>pg_dump\<close>, \<open>tar\<close> and \<open>psql\<close>, the last with what it makes of the database, and the digest.
\<close>

record outside =
  o_now :: instant
  o_fetch :: fetcher
  o_flush :: flush_reply
  o_float_str :: "rat \<Rightarrow> string"
  o_zone_known :: "string \<Rightarrow> bool"
  o_resolve :: "string \<Rightarrow> int \<Rightarrow> string \<Rightarrow> string list option"
  o_fail :: "fs_call option"
  o_partial :: nat
  o_tmp :: string
  o_api_key :: string
  o_pg_dump :: run_result
  o_timestamp :: string
  o_pack :: "(path \<times> fs_node) list \<Rightarrow> (string \<times> string) + string"
  o_decode :: "string \<Rightarrow> string + string"
  o_psql :: "string \<Rightarrow> string + int"
  o_psql_db :: "string \<Rightarrow> db \<Rightarrow> db"
  o_sha :: "string \<Rightarrow> string"
  o_csrf_token :: string

record web_request =
  wq_session :: session
  wq_api_key :: "string option"
  wq_cookie :: "string option"
  wq_header :: "string option"
  wq_content_type :: string
  wq_body :: "string option"
  wq_action :: action
  wq_outside :: outside

definition http_of :: "web_request \<Rightarrow> http_request" where
  "http_of r =
     \<lparr>hr_method = ''POST'', hr_path = route (wq_action r), hr_cookie = wq_cookie r, hr_header = wq_header r,
      hr_content_type = wq_content_type r, hr_body = wq_body r\<rparr>"

section \<open>State and responses\<close>

text \<open>Beside database and files: the directory of backups, and tasks to run after the response.\<close>

datatype queued_task =
    Q_Job background_task
  | Q_Warm "pair list" string int
  | Q_Resolve "string list"

record app_state =
  app_world :: world
  app_backups :: fs
  app_queue :: "queued_task list"

datatype web_response =
    Reply response
  | Reply_Backup backup_response
  | Reply_Job job_response
  | Reply_Zones nat
  | Reply_Node
  | Reply_Raised py_error
  | Reply_Csrf_Failed

definition on_db :: "(db \<Rightarrow> response \<times> db) \<Rightarrow> app_state \<Rightarrow> web_response \<times> app_state" where
  "on_db h s =
     (case h (w_db (app_world s)) of (r, d) \<Rightarrow> (Reply r, s\<lparr>app_world := (app_world s)\<lparr>w_db := d\<rparr>\<rparr>))"

definition on_world :: "(world \<Rightarrow> response \<times> world) \<Rightarrow> app_state \<Rightarrow> web_response \<times> app_state" where
  "on_world h s = (case h (app_world s) of (r, w) \<Rightarrow> (Reply r, s\<lparr>app_world := w\<rparr>))"

definition on_backups :: "(db \<Rightarrow> fs \<Rightarrow> backup_response \<times> fs) \<Rightarrow> app_state \<Rightarrow> web_response \<times> app_state" where
  "on_backups h s =
     (case h (w_db (app_world s)) (app_backups s) of (r, files) \<Rightarrow> (Reply_Backup r, s\<lparr>app_backups := files\<rparr>))"

definition on_job :: "(db \<Rightarrow> job_response \<times> background_task option) \<Rightarrow> app_state \<Rightarrow> web_response \<times> app_state" where
  "on_job h s =
     (case h (w_db (app_world s)) of
        (r, None) \<Rightarrow> (Reply_Job r, s)
      | (r, Some t) \<Rightarrow> (Reply_Job r, s\<lparr>app_queue := app_queue s @ [Q_Job t]\<rparr>))"

definition on_warm :: "(db \<Rightarrow> (response \<times> (pair list \<times> string \<times> int) option) py_result) \<Rightarrow> app_state \<Rightarrow> web_response \<times> app_state" where
  "on_warm h s =
     (case h (w_db (app_world s)) of
        Inl e \<Rightarrow> (Reply_Raised e, s)
      | Inr (r, None) \<Rightarrow> (Reply r, s)
      | Inr (r, Some (ps, server, dns_port)) \<Rightarrow> (Reply r, s\<lparr>app_queue := app_queue s @ [Q_Warm ps server dns_port]\<rparr>))"

definition on_zones :: "(world \<Rightarrow> (response + nat) \<times> world) \<Rightarrow> app_state \<Rightarrow> web_response \<times> app_state" where
  "on_zones h s =
     (case h (app_world s) of
        (Inl r, w) \<Rightarrow> (Reply r, s\<lparr>app_world := w\<rparr>)
      | (Inr n, w) \<Rightarrow> (Reply_Zones n, s\<lparr>app_world := w\<rparr>))"

definition on_restore ::
  "(string \<Rightarrow> db \<Rightarrow> db) \<Rightarrow> (db \<Rightarrow> backup_response \<times> string option) \<Rightarrow> app_state \<Rightarrow> web_response \<times> app_state" where
  "on_restore psql_db h s =
     (case h (w_db (app_world s)) of
        (r, None) \<Rightarrow> (Reply_Backup r, s)
      | (r, Some sql) \<Rightarrow>
          (Reply_Backup r, s\<lparr>app_world := (app_world s)\<lparr>w_db := psql_db sql (w_db (app_world s))\<rparr>\<rparr>))"

text \<open>A node's call that raises has changed nothing.\<close>

definition on_node_db :: "(db \<Rightarrow> db py_result) \<Rightarrow> app_state \<Rightarrow> web_response \<times> app_state" where
  "on_node_db h s =
     (case h (w_db (app_world s)) of
        Inl e \<Rightarrow> (Reply_Raised e, s)
      | Inr d \<Rightarrow> (Reply_Node, s\<lparr>app_world := (app_world s)\<lparr>w_db := d\<rparr>\<rparr>))"

section \<open>Dispatch\<close>

primrec handle_ui :: "outside \<Rightarrow> session \<Rightarrow> ui_action \<Rightarrow> app_state \<Rightarrow> web_response \<times> app_state" where
  "handle_ui x sid (Ui_Timezone tz) = on_db (settings_update_timezone (o_zone_known x) sid tz)"
| "handle_ui x sid (Ui_Retention e r m) = on_db (settings_update_retention sid e r m)"
| "handle_ui x sid (Ui_Health_Thresholds hw hc sf t sl st) =
     on_db (settings_update_health_thresholds (o_float_str x) sid hw hc sf t sl st)"
| "handle_ui x sid (Ui_Precache_Settings f) = on_db (update_precache_settings (o_float_str x) sid f)"
| "handle_ui x sid Ui_Precache_Warm = on_warm (trigger_warm_cache (o_now x) sid)"
| "handle_ui x sid Ui_Blocking_Disable = on_world (blocking_disable (o_now x) sid)"
| "handle_ui x sid Ui_Blocking_Enable = on_world (blocking_enable (o_now x) sid)"
| "handle_ui x sid (Ui_Blocking_Pause n) = on_world (blocking_pause (o_now x) sid n)"
| "handle_ui x sid Ui_Clear_Cache = on_db (clear_cache (o_flush x) (o_now x) sid)"
| "handle_ui x sid (Ui_Blocklists_Add name url fmt t f) = on_db (blocklists_add (o_now x) sid name url fmt t f)"
| "handle_ui x sid (Ui_Blocklists_Add_Preset name url fmt t) = on_db (blocklists_add_preset (o_now x) sid name url fmt t)"
| "handle_ui x sid (Ui_Blocklists_Frequency i f) = on_db (blocklists_update_frequency (o_now x) sid i f)"
| "handle_ui x sid (Ui_Blocklists_Toggle i) = on_db (blocklists_toggle (o_now x) sid i)"
| "handle_ui x sid (Ui_Blocklists_Schedule i on start stop ds) =
     on_db (blocklists_update_schedule (o_now x) sid i on start stop ds)"
| "handle_ui x sid (Ui_Blocklists_Delete i) = on_db (blocklists_delete (o_now x) sid i)"
| "handle_ui x sid Ui_Blocklists_Apply = on_world (blocklists_apply (o_fetch x) (o_now x) sid)"
| "handle_ui x sid (Ui_Entries_Add domain t comment referer) = on_db (entries_add (o_now x) sid domain t comment referer)"
| "handle_ui x sid (Ui_Entries_Delete i) = on_db (entries_delete (o_now x) sid i)"
| "handle_ui x sid (Ui_Resolver_Add subnet server descr p) = on_db (client_resolver_add sid subnet server descr p)"
| "handle_ui x sid (Ui_Resolver_Toggle i) = on_db (client_resolver_toggle sid i)"
| "handle_ui x sid (Ui_Resolver_Delete i) = on_db (client_resolver_delete sid i)"
| "handle_ui x sid (Ui_Clients_Set_Name i n) = on_db (clients_set_name sid i n)"
| "handle_ui x sid (Ui_Clients_Resolve i) = on_db (clients_resolve (o_resolve x) (o_now x) sid i)"
| "handle_ui x sid (Ui_Groups_Create name descr cidr color) = on_db (create_group sid name descr cidr color)"
| "handle_ui x sid (Ui_Groups_Delete i) = on_db (delete_group sid i)"
| "handle_ui x sid (Ui_Groups_Update i name descr cidr color) = on_db (update_group sid i name descr cidr color)"
| "handle_ui x sid Ui_Groups_Auto_Assign = on_db (auto_assign_groups sid)"
| "handle_ui x sid (Ui_Clients_Set_Group i g) = on_db (set_client_group sid i g)"
| "handle_ui x sid (Ui_Zones_Add domain servers descr everywhere n) =
     on_db (forward_zones_add (o_now x) sid domain servers descr everywhere n)"
| "handle_ui x sid (Ui_Zones_Toggle i) = on_db (forward_zones_toggle (o_now x) sid i)"
| "handle_ui x sid (Ui_Zones_Delete i) = on_db (forward_zones_delete (o_now x) sid i)"
| "handle_ui x sid Ui_Zones_Apply = on_zones (forward_zones_apply (o_fail x) (o_partial x) (o_tmp x) sid)"
| "handle_ui x sid (Ui_Nodes_Generate name) = on_db (nodes_generate (o_now x) (o_api_key x) sid name)"
| "handle_ui x sid (Ui_Nodes_Delete i) = on_db (nodes_delete sid i)"
| "handle_ui x sid (Ui_Nodes_Force_Sync i) = on_db (nodes_force_sync sid i)"
| "handle_ui x sid (Ui_Nodes_Clear_Error i) = on_db (nodes_clear_error sid i)"
| "handle_ui x sid (Ui_Audit_Rollback i) = on_db (rollback_change (o_now x) sid i)"
| "handle_ui x sid Ui_Jobs_Rollup = on_job (trigger_rollup sid)"
| "handle_ui x sid Ui_Jobs_Retention = on_job (trigger_retention sid)"
| "handle_ui x sid Ui_Backup_Database = on_backups (create_database_backup (o_pg_dump x) (o_timestamp x) (o_now x) sid)"
| "handle_ui x sid Ui_Backup_Config = on_backups (create_config_backup (o_pack x) (o_timestamp x) (o_now x) sid)"
| "handle_ui x sid (Ui_Backup_Delete filename) = on_backups (delete_backup filename sid)"
| "handle_ui x sid (Ui_Backup_Restore filename data) =
     on_restore (o_psql_db x) (restore_database (o_decode x) (o_psql x) filename data sid)"

primrec handle_node :: "outside \<Rightarrow> string option \<Rightarrow> node_action \<Rightarrow> app_state \<Rightarrow> web_response \<times> app_state" where
  "handle_node x key (Api_Register p) = on_node_db (\<lambda>d. map_sum id snd (register (o_now x) key p d))"
| "handle_node x key (Api_Heartbeat p) =
     (\<lambda>s. case heartbeat (o_sha x) (o_now x) key p (app_world s) of
            Inl e \<Rightarrow> (Reply_Raised e, s)
          | Inr (version, w) \<Rightarrow> (Reply_Node, s\<lparr>app_world := w\<rparr>))"
| "handle_node x key (Api_Ingest es) =
     (\<lambda>s. case ingest (o_now x) key es (w_db (app_world s)) of
            Inl e \<Rightarrow> (Reply_Raised e, s)
          | Inr ((n, name, ips), d) \<Rightarrow>
              (Reply_Node, s\<lparr>app_world := (app_world s)\<lparr>w_db := d\<rparr>,
                 app_queue := app_queue s @ (if ips = [] then [] else [Q_Resolve ips])\<rparr>))"
| "handle_node x key (Api_Metrics p) = on_node_db (\<lambda>d. map_sum id snd (metrics (o_now x) key p d))"
| "handle_node x key (Api_Command_Result p) = on_node_db (report_command_result (o_now x) key p)"

definition handle :: "web_request \<Rightarrow> app_state \<Rightarrow> web_response \<times> app_state" where
  "handle r s =
     (case wq_action r of
        Ui a \<Rightarrow> handle_ui (wq_outside r) (wq_session r) a s
      | Api a \<Rightarrow> handle_node (wq_outside r) (wq_api_key r) a s)"

text \<open>The middleware, then the handler.  A comparison that raises is an internal error.\<close>

definition serve :: "web_request \<Rightarrow> app_state \<Rightarrow> web_response \<times> app_state" where
  "serve r s =
     (case csrf_call exempt_paths (o_csrf_token (wq_outside r)) (http_of r) of
        Forwarded token need_cookie \<Rightarrow> handle r s
      | Forbidden \<Rightarrow> (Reply_Csrf_Failed, s)
      | CsrfRaised \<Rightarrow> (Reply server_error, s))"

definition serve_all :: "web_request list \<Rightarrow> app_state \<Rightarrow> app_state" where
  "serve_all rs s = fold (\<lambda>r s. snd (serve r s)) rs s"

section \<open>Who may change something\<close>

text \<open>The token of the cookie, or the one just drawn when there is none, has to come back with the form.\<close>

definition expected_token :: "web_request \<Rightarrow> string" where
  "expected_token r = (if truthy (wq_cookie r) then the (wq_cookie r) else o_csrf_token (wq_outside r))"

definition carries_token :: "web_request \<Rightarrow> bool" where
  "carries_token r \<longleftrightarrow> take 5 (route (wq_action r)) = ''/api/'' \<or> submitted_token (http_of r) = Some (expected_token r)"

definition authorised :: "web_request \<Rightarrow> app_state \<Rightarrow> bool" where
  "authorised r s \<longleftrightarrow> get_current_user (wq_session r) (w_db (app_world s)) \<noteq> None \<and> carries_token r"

definition is_api :: "web_request \<Rightarrow> bool" where
  "is_api r = (case wq_action r of Ui a \<Rightarrow> False | Api a \<Rightarrow> True)"

definition restores :: "web_request \<Rightarrow> bool" where
  "restores r = (case wq_action r of Ui (Ui_Backup_Restore f x) \<Rightarrow> True | _ \<Rightarrow> False)"

text \<open>
  The interface of a gate: a request that is not allowed changes nothing, and the requests in
  \<open>keeps\<close> do not change who is allowed.
\<close>

locale gate =
  fixes allowed :: "'r \<Rightarrow> 's \<Rightarrow> bool" and step :: "'r \<Rightarrow> 's \<Rightarrow> 's"
  assumes denied: "\<not> allowed r s \<Longrightarrow> step r s = s"
begin

lemma change_was_allowed: "step r s \<noteq> s \<Longrightarrow> allowed r s"
  using denied by blast

end

locale stable_gate = gate +
  fixes keeps :: "'a \<Rightarrow> bool"
  assumes stable: "keeps r' \<Longrightarrow> allowed r (step r' s) = allowed r s"
begin

lemma purge: "list_all keeps rs \<Longrightarrow> fold step rs s = fold step (filter (\<lambda>r. allowed r s) rs) s"
proof (induction rs arbitrary: s)
  case (Cons r rs)
  then have keep: "(\<lambda>q. allowed q (step r s)) = (\<lambda>q. allowed q s)" using stable by simp
  from Cons have "fold step rs (step r s) = fold step (filter (\<lambda>q. allowed q s) rs) (step r s)"
    using Cons.IH [of "step r s"] by (simp add: keep)
  then show ?case using denied [of r s] by simp
qed simp

end

section \<open>The gates hold\<close>

lemma routes_exempt: "is_exempt exempt_paths (http_of r) \<longleftrightarrow> take 5 (route (wq_action r)) = ''/api/''"
proof (cases "wq_action r")
  case (Ui a)
  then show ?thesis by (cases a) (simp_all add: is_exempt_def exempt_paths_def http_of_def)
next
  case (Api a)
  then show ?thesis by (cases a) (simp_all add: is_exempt_def exempt_paths_def http_of_def)
qed

lemma csrf_forwarded:
  assumes "csrf_call exempt_paths (o_csrf_token (wq_outside r)) (http_of r) = Forwarded t b"
  shows "carries_token r"
proof (cases "is_exempt exempt_paths (http_of r)")
  case True
  then show ?thesis by (simp add: carries_token_def routes_exempt)
next
  case False
  moreover have "hr_method (http_of r) \<notin> set SAFE_METHODS" by (simp add: http_of_def SAFE_METHODS_def)
  moreover have "hr_cookie (http_of r) = wq_cookie r" by (simp add: http_of_def)
  ultimately show ?thesis using assms
    by (auto simp: csrf_call_def Let_def carries_token_def expected_token_def split: option.splits if_splits)
qed

lemma handle_ui_no_user:
  assumes "get_current_user sid (w_db (app_world s)) = None"
  shows "snd (handle_ui x sid a s) = s"
  using assms
  by (cases a) (simp_all add: on_db_def on_world_def on_backups_def on_job_def on_warm_def on_zones_def on_restore_def
      settings_update_timezone_def settings_update_retention_def settings_update_health_thresholds_def
      update_precache_settings_def trigger_warm_cache_def blocking_disable_def blocking_enable_def blocking_pause_def
      clear_cache_def blocklists_add_def blocklists_add_preset_def edit_blocklist_def blocklists_update_frequency_def
      blocklists_toggle_def blocklists_update_schedule_def blocklists_delete_def blocklists_apply_def entries_add_def
      entries_delete_def client_resolver_add_def client_resolver_toggle_def client_resolver_delete_def clients_set_name_def
      clients_resolve_def create_group_def delete_group_def update_group_def auto_assign_groups_def set_client_group_def
      forward_zones_add_def forward_zones_toggle_def forward_zones_delete_def forward_zones_apply_def nodes_generate_def
      nodes_delete_def edit_node_def nodes_force_sync_def nodes_clear_error_def rollback_change_def trigger_rollup_def
      trigger_retention_def create_database_backup_def create_config_backup_def delete_backup_def restore_database_def)

text \<open>Without a known key every call of the node protocol is answered with an error.\<close>

lemma handle_node_no_key:
  assumes "get_node_from_api_key key (w_db (app_world s)) = Inl e"
  shows "handle_node x key a s = (Reply_Raised e, s)"
  using assms
  by (cases a) (simp_all add: on_node_db_def register_def heartbeat_def ingest_def metrics_def report_command_result_def)

definition ui_allowed :: "web_request \<Rightarrow> app_state \<Rightarrow> bool" where
  "ui_allowed r s \<longleftrightarrow> is_api r \<or> authorised r s"

text \<open>Who is logged in is read from the table of users alone.\<close>

lemma ui_allowed_cong:
  "db_users (w_db (app_world s')) = db_users (w_db (app_world s)) \<Longrightarrow> ui_allowed r s' = ui_allowed r s"
  using get_current_user_frame [of "w_db (app_world s')" "w_db (app_world s)" "wq_session r"]
  by (simp only: ui_allowed_def authorised_def)

interpretation web: gate ui_allowed "\<lambda>r s. snd (serve r s)"
proof
  fix r s
  assume "\<not> ui_allowed r s"
  then have no: "\<not> authorised r s" and ui: "\<not> is_api r" unfolding ui_allowed_def by blast+
  from ui obtain a where a: "wq_action r = Ui a" unfolding is_api_def by (cases "wq_action r") simp_all
  show "snd (serve r s) = s"
  proof (cases "csrf_call exempt_paths (o_csrf_token (wq_outside r)) (http_of r)")
    case (Forwarded t b)
    then have "get_current_user (wq_session r) (w_db (app_world s)) = None"
      using no csrf_forwarded [of r t b] by (auto simp: authorised_def)
    then show ?thesis using Forwarded by (simp add: serve_def handle_def a handle_ui_no_user)
  qed (simp_all add: serve_def)
qed

end
