(* ===== verification/Audit_Trail.thy ===== *)
theory Audit_Trail
  imports Web_App
begin

text \<open>
  What the requests to the web application do to the accounts, the blocking policy and the audit
  log, over runs of requests: who can change something, and which changes leave a record.
\<close>

section \<open>The policy and its records\<close>

text \<open>A list without what downloading it writes.\<close>

definition list_config :: "blocklist \<Rightarrow> blocklist" where
  "list_config b =
     b\<lparr>bl_last_updated := None, bl_last_update_status := None, bl_last_error := None, bl_entry_count := 0\<rparr>"

definition policy :: "db \<Rightarrow> blocklist list \<times> manual_entry list \<times> forward_zone list \<times> string" where
  "policy d = (map list_config (rows (db_blocklists d)), rows (db_manual d), rows (db_zones d), get_blocking_state d)"

text \<open>
  The users stay, the log is extended by records of this user at this time, and, unless the handler
  is one that records nothing, a policy that differs has such a record.
\<close>

definition recorded_by :: "instant \<Rightarrow> session \<Rightarrow> config_change \<Rightarrow> bool" where
  "recorded_by now sid c \<longleftrightarrow> cc_actor_user_id c = sid \<and> cc_created_at c = now"

definition audited :: "bool \<Rightarrow> instant \<Rightarrow> session \<Rightarrow> db \<Rightarrow> db \<Rightarrow> bool" where
  "audited full now sid d d' \<longleftrightarrow>
     db_users d' = db_users d \<and>
     (\<exists>added. rows (db_changes d') = rows (db_changes d) @ added \<and> list_all (recorded_by now sid) added \<and>
       (full \<longrightarrow> policy d' \<noteq> policy d \<longrightarrow> added \<noteq> []))"

lemma policy_cong:
  "\<lbrakk>map list_config (rows (db_blocklists d')) = map list_config (rows (db_blocklists d)); db_manual d' = db_manual d;
    db_zones d' = db_zones d; db_settings d' = db_settings d\<rbrakk> \<Longrightarrow> policy d' = policy d"
  by (simp add: policy_def get_blocking_state_def setting_or_def get_setting_def)

lemma quietI:
  "\<lbrakk>db_users d' = db_users d; db_changes d' = db_changes d; policy d' = policy d\<rbrakk> \<Longrightarrow> audited full now sid d d'"
  by (simp add: audited_def)

lemma unrecordedI:
  "\<lbrakk>db_users d' = db_users d; db_changes d' = db_changes d\<rbrakk> \<Longrightarrow> audited False now sid d d'"
  by (simp add: audited_def)

lemma recordedI:
  assumes "db_users d' = db_users d" and "\<exists>c. rows (db_changes d') = rows (db_changes d) @ [c] \<and> recorded_by now sid c"
  shows "audited full now sid d d'"
proof -
  from assms(2) obtain c where "rows (db_changes d') = rows (db_changes d) @ [c]" "recorded_by now sid c" by blast
  then show ?thesis unfolding audited_def using assms(1) by (intro conjI exI [of _ "[c]"]) simp_all
qed

lemma audited_refl: "audited full now sid d d"
  by (simp add: audited_def)

lemma current_user_id: "get_current_user sid d = Some u \<Longrightarrow> sid = Some (u_id u)"
  by (auto simp: get_current_user_def tbl_find_def find_Some_iff split: option.splits if_splits)

section \<open>Handlers that leave the policy alone\<close>

definition same_policy :: "db \<Rightarrow> db \<Rightarrow> bool" where
  "same_policy d d' \<longleftrightarrow>
     db_users d' = db_users d \<and> db_changes d' = db_changes d \<and>
     map list_config (rows (db_blocklists d')) = map list_config (rows (db_blocklists d)) \<and>
     db_manual d' = db_manual d \<and> db_zones d' = db_zones d \<and> get_blocking_state d' = get_blocking_state d"

lemma same_policyI: "same_policy d d' \<Longrightarrow> audited full now sid d d'"
  by (rule quietI) (simp_all add: same_policy_def policy_def)

lemma same_policy_refl [simp]: "same_policy d d"
  by (simp add: same_policy_def)

lemma same_policy_trans: "same_policy d d' \<Longrightarrow> same_policy d' d'' \<Longrightarrow> same_policy d d''"
  by (simp add: same_policy_def)

lemma same_policy_fold: "(\<And>x d. same_policy d (f x d)) \<Longrightarrow> same_policy d (fold f xs d)"
  by (induction xs arbitrary: d) (auto intro: same_policy_trans)

lemma same_policy_frame:
  "\<lbrakk>db_users d' = db_users d; db_changes d' = db_changes d; db_blocklists d' = db_blocklists d; db_manual d' = db_manual d;
    db_zones d' = db_zones d; db_settings d' = db_settings d\<rbrakk> \<Longrightarrow> same_policy d d'"
  by (simp add: same_policy_def get_blocking_state_def setting_or_def get_setting_def)

lemma same_policy_setting [simp]:
  "k \<noteq> ''blocking_state'' \<Longrightarrow> same_policy d (set_setting k v d') = same_policy d d'"
proof -
  assume "k \<noteq> ''blocking_state''"
  then have "same_policy d' (set_setting k v d')" "same_policy (set_setting k v d') d'"
    by (simp_all add: same_policy_def get_blocking_state_def setting_or_def kv.get_put_other)
       (simp_all add: set_setting_def split: option.split)
  then show ?thesis by (blast intro: same_policy_trans)
qed

lemma same_policy_percentage [simp]:
  "k \<noteq> ''blocking_state'' \<Longrightarrow> same_policy d (set_percentage float_str k v d') = same_policy d d'"
  by (simp add: set_percentage_def)

lemma settings_quiet:
  "same_policy d (snd (settings_update_timezone available sid tz d))"
  "same_policy d (snd (settings_update_retention sid e r m d))"
  "same_policy d (snd (settings_update_health_thresholds float_str sid hw hc sf t sl st d))"
  "same_policy d (snd (update_precache_settings float_str sid f d))"
  by (simp_all add: settings_update_timezone_def settings_update_retention_def settings_update_health_thresholds_def
      update_precache_settings_def Let_def split: option.split)

lemma clients_quiet:
  "same_policy d (snd (client_resolver_add sid subnet server descr p d))"
  "same_policy d (snd (client_resolver_toggle sid i d))"
  "same_policy d (snd (client_resolver_delete sid i d))"
  "same_policy d (snd (clients_set_name sid i name d))"
  "same_policy d (snd (set_client_group sid i g d))"
  by (auto simp: client_resolver_add_def client_resolver_toggle_def client_resolver_delete_def clients_set_name_def
      update_client_def set_client_group_def Let_def intro: same_policy_frame split: option.split)

lemma resolve_quiet: "same_policy d (snd (clients_resolve resolve now sid i d))"
  by (auto simp: clients_resolve_def resolve_client_hostname_def ensure_client_def Let_def
      intro!: same_policy_frame split: option.splits prod.splits if_splits)

lemma assign_quiet: "same_policy d (snd (auto_assign_by_cidr g d))"
  by (auto simp: auto_assign_by_cidr_def Let_def intro: same_policy_frame split: option.split)

lemma assign_all_quiet: "same_policy d (snd (assign_all gs (n, d)))"
proof (induction gs arbitrary: n d)
  case (Cons g gs)
  then show ?case using assign_quiet [of d g] by (auto split: prod.splits intro: same_policy_trans)
qed simp

lemma same_policy_assign [simp]:
  "same_policy d (snd (auto_assign_by_cidr g d')) = same_policy d d'"
  using assign_quiet [of d' g] by (simp add: same_policy_def)

lemma same_policy_groups [simp]:
  "same_policy d (d\<lparr>db_groups := t\<rparr>)" "same_policy d (d\<lparr>db_clients := c, db_groups := t\<rparr>)"
  by (simp_all add: same_policy_frame)

lemma groups_quiet:
  "same_policy d (snd (create_group sid name descr cidr color d))"
  "same_policy d (snd (update_group sid i name descr cidr color d))"
  "same_policy d (snd (delete_group sid i d))"
  "same_policy d (snd (auto_assign_groups sid d))"
  using assign_all_quiet [of d _ 0]
  by (simp_all add: create_group_def update_group_def delete_group_def auto_assign_groups_def Let_def
      prod.case_eq_if split: option.split)

lemma nodes_quiet:
  "same_policy d (snd (nodes_generate now key sid name d))"
  "same_policy d (snd (nodes_force_sync sid i d))"
  "same_policy d (snd (nodes_clear_error sid i d))"
  by (auto simp: nodes_generate_def insert_node_def nodes_force_sync_def nodes_clear_error_def edit_node_def save_node_def
      Let_def intro: same_policy_frame split: option.split sum.split)

section \<open>Handlers that record\<close>

lemma recorded_frame:
  "rows (db_changes (record_change now t i a (Some (u_id u)) b af cm d)) =
     rows (db_changes d) @ [\<lparr>cc_id = next_id (db_changes d), cc_entity_type = t, cc_entity_id = i, cc_action = a,
       cc_actor_user_id = Some (u_id u), cc_before_data = b, cc_after_data = af, cc_comment = cm, cc_created_at = now\<rparr>]"
  by (simp add: record_change_def)

lemma record_audited:
  assumes "get_current_user sid d = Some u" and "db_users d' = db_users d"
    and "db_changes d' = db_changes (record_change now t i a (Some (u_id u)) b af cm d)"
  shows "audited full now sid d d'"
  using assms current_user_id [OF assms(1)] by (intro recordedI) (simp_all add: recorded_frame recorded_by_def)

lemma record_changes_cong:
  "db_changes d' = db_changes d \<Longrightarrow>
   db_changes (record_change now t i a u b af cm d') = db_changes (record_change now t i a u b af cm d)"
  by (simp add: record_change_def)

lemma audited_record:
  assumes "get_current_user sid d = Some u" and "db_users d' = db_users d" and "db_changes d' = db_changes d"
  shows "audited full now sid d (record_change now t i a (Some (u_id u)) b af cm d')"
proof (rule record_audited [OF assms(1)])
  show "db_users (record_change now t i a (Some (u_id u)) b af cm d') = db_users d" using assms(2) by simp
qed (rule record_changes_cong [OF assms(3)])

lemma insert_blocklist_frame:
  "insert_blocklist mk d = Some (b, d') \<Longrightarrow> db_users d' = db_users d \<and> db_changes d' = db_changes d"
  by (auto simp: insert_blocklist_def Let_def split: if_splits)

lemma insert_zone_frame:
  "insert_zone mk d = Some (z, d') \<Longrightarrow> db_users d' = db_users d \<and> db_changes d' = db_changes d"
  by (auto simp: insert_zone_def Let_def split: if_splits)

lemma edit_blocklist_audited: "audited full now sid d (snd (edit_blocklist now sid i a f d))"
  by (auto simp: edit_blocklist_def update_blocklist_def intro: audited_refl audited_record split: option.split)

lemma blocklists_audited:
  "audited full now sid d (snd (blocklists_add now sid name url fmt t freq d))"
  "audited False now sid d (snd (blocklists_add_preset now sid name url fmt t d))"
  "audited full now sid d (snd (blocklists_update_frequency now sid i freq d))"
  "audited full now sid d (snd (blocklists_toggle now sid i d))"
  "audited full now sid d (snd (blocklists_update_schedule now sid i on start stop ds d))"
proof -
  show "audited full now sid d (snd (blocklists_add now sid name url fmt t freq d))"
    by (auto simp: blocklists_add_def intro: audited_refl audited_record dest: insert_blocklist_frame split: option.split)
  show "audited False now sid d (snd (blocklists_add_preset now sid name url fmt t d))"
    by (auto simp: blocklists_add_preset_def intro: audited_refl unrecordedI dest: insert_blocklist_frame split: option.split)
qed (simp_all add: blocklists_update_frequency_def blocklists_toggle_def blocklists_update_schedule_def edit_blocklist_audited)

lemma deletes_audited:
  "audited full now sid d (snd (blocklists_delete now sid i d))"
  "audited full now sid d (snd (forward_zones_delete now sid i d))"
  "audited full now sid d (snd (entries_delete now sid i d))"
  by (auto simp: blocklists_delete_def delete_blocklist_def delete_entries_def forward_zones_delete_def delete_zone_def
      entries_delete_def intro: audited_refl audited_record record_audited split: option.split)

lemma entries_and_zones_audited:
  "audited full now sid d (snd (entries_add now sid domain t comment referer d))"
  "audited full now sid d (snd (forward_zones_add now sid domain servers descr everywhere n d))"
  "audited full now sid d (snd (forward_zones_toggle now sid i d))"
  by (auto simp: entries_add_def forward_zones_add_def forward_zones_toggle_def update_zone_def Let_def
      intro: audited_refl audited_record dest: insert_zone_frame split: option.split)

lemma cache_audited: "audited full now sid d (snd (clear_cache reply now sid d))"
proof -
  have "same_policy d (fold (\<lambda>n. add_command now (Some (n_id n)) ''clear_cache'' None) ns d)" for ns
    by (rule same_policy_fold) (simp add: add_command_def same_policy_frame)
  then show ?thesis
    by (auto simp: clear_cache_def Let_def same_policy_def intro: audited_refl audited_record split: option.split)
qed

lemma rollback_of_audited:
  assumes "get_current_user sid d = Some u" and "rollback_of now change (u_id u) d = Inr (result, d')"
  shows "audited full now sid d d'"
proof -
  note parts = bind_result_def rollback_delete_zone_def rollback_delete_blocklist_def rollback_update_zone_def
    rollback_update_blocklist_def rollback_create_zone_def rollback_create_blocklist_def update_blocklist_def update_zone_def
    delete_blocklist_def delete_entries_def delete_zone_def
  consider (del_zone) data where "rollback_delete_zone now (cc_id change) (u_id u) data d = Inr (result, d')"
    | (del_list) data where "rollback_delete_blocklist now (cc_id change) (u_id u) data d = Inr (result, d')"
    | (upd_zone) i data where "rollback_update_zone now (cc_id change) (u_id u) i data d = Inr (result, d')"
    | (upd_list) i data where "rollback_update_blocklist now (cc_id change) (u_id u) i data d = Inr (result, d')"
    | (new_zone) i where "rollback_create_zone now (cc_id change) (u_id u) i d = (result, d')"
    | (new_list) i where "rollback_create_blocklist now (cc_id change) (u_id u) i d = (result, d')"
    | (same) "d' = d"
    using assms(2) unfolding rollback_of_def Let_def by (auto split: if_splits)
  then show ?thesis
  proof cases
    case del_zone
    then show ?thesis
      by (auto simp: parts split: sum.splits option.splits intro: audited_refl audited_record [OF assms(1)] dest: insert_zone_frame)
  next
    case del_list
    then show ?thesis
      by (auto simp: parts split: sum.splits option.splits intro: audited_refl audited_record [OF assms(1)] dest: insert_blocklist_frame)
  next
    case upd_zone
    then show ?thesis
      by (auto simp: parts Let_def split: sum.splits option.splits if_splits intro: audited_refl audited_record [OF assms(1)])
  next
    case upd_list
    then show ?thesis
      by (auto simp: parts Let_def split: sum.splits option.splits intro: audited_refl audited_record [OF assms(1)])
  next
    case new_zone
    then show ?thesis
      by (auto simp: parts split: option.splits intro: audited_refl record_audited [OF assms(1)])
  next
    case new_list
    then show ?thesis
      by (auto simp: parts split: option.splits intro: audited_refl record_audited [OF assms(1)])
  qed (simp add: audited_refl)
qed

lemma rollback_audited: "audited full now sid d (snd (rollback_change now sid i d))"
  by (auto simp: rollback_change_def intro: audited_refl rollback_of_audited split: option.split sum.split)

lemma apply_loop_quiet: "same_policy d (snd (snd (apply_loop fetch now bls (acc, to_add, d))))"
proof (induction bls arbitrary: acc to_add d)
  case (Cons bl bls)
  have mark: "same_policy e (update_blocklist i (mark_success now n) (delete_entries j e))"
      "same_policy e (update_blocklist i (mark_failed now msg) e)" for e i n j msg
    by (auto simp: same_policy_def update_blocklist_def delete_entries_def mark_success_def mark_failed_def list_config_def
        get_blocking_state_def setting_or_def get_setting_def tbl_update_def)
  obtain blocked allow where acc: "acc = (blocked, allow)" by fastforce
  show ?case
    by (auto simp: acc split: sum.split intro: same_policy_trans [OF mark(1) Cons.IH] same_policy_trans [OF mark(2) Cons.IH])
qed simp

lemma atomic_write_frame [simp]:
  "w_db (snd (atomic_write p s w)) = w_db w" "w_writable (snd (atomic_write p s w)) = w_writable w"
  by (simp_all add: atomic_write_def)

lemma write_rpz_frame [simp]:
  "w_db (snd (write_rpz now blocked allow w)) = w_db w" "w_writable (snd (write_rpz now blocked allow w)) = w_writable w"
  by (simp_all add: write_rpz_def Let_def prod.case_eq_if)

lemma apply_quiet:
  "same_policy (w_db w) (w_db (snd (blocklists_apply fetch now sid w)))"
  "w_writable (snd (blocklists_apply fetch now sid w)) = w_writable w"
proof -
  let ?l = "apply_loop fetch now (enabled_blocklists (w_db w))
      ((manual_domains ''block'' (w_db w), manual_domains ''allow'' (w_db w)), [], w_db w)"
  have "same_policy e (fold (\<lambda>(i, dn). add_entry i dn) xs e)" for xs e
    by (rule same_policy_fold) (auto simp: add_entry_def intro: same_policy_frame)
  then have "same_policy (w_db w) (fold (\<lambda>(i, dn). add_entry i dn) (fst (snd ?l)) (snd (snd ?l)))"
    by (rule same_policy_trans [OF apply_loop_quiet])
  then show "same_policy (w_db w) (w_db (snd (blocklists_apply fetch now sid w)))"
    by (simp add: blocklists_apply_def Let_def prod.case_eq_if split: option.split)
  show "w_writable (snd (blocklists_apply fetch now sid w)) = w_writable w"
    by (simp add: blocklists_apply_def Let_def prod.case_eq_if split: option.split)
qed

text \<open>A switch whose zone cannot be written has already stored the new state, and records nothing.\<close>

lemma blocking_frame:
  "w_writable (snd (stop_blocking now a u state w)) = w_writable w"
  by (simp add: stop_blocking_def write_emergency_rpz_def Let_def prod.case_eq_if)

lemma stop_blocking_audited:
  assumes "get_current_user sid (w_db w) = Some u"
  shows "audited (w_writable w combined_path) now sid (w_db w) (w_db (snd (stop_blocking now a u state w)))"
proof (cases "w_writable w combined_path")
  case True
  then show ?thesis
    by (simp add: stop_blocking_def write_emergency_rpz_def atomic_write_def Let_def record_blocking_def
        set_blocking_state_def audited_record [OF assms])
next
  case False
  then show ?thesis
    by (simp add: stop_blocking_def write_emergency_rpz_def atomic_write_def Let_def set_blocking_state_def unrecordedI)
qed

lemma blocking_audited:
  "audited (w_writable w combined_path) now sid (w_db w) (w_db (snd (blocking_disable now sid w)))"
  "audited full now sid (w_db w) (w_db (snd (blocking_enable now sid w)))"
  "audited (w_writable w combined_path) now sid (w_db w) (w_db (snd (blocking_pause now sid n w)))"
  by (auto simp: blocking_disable_def blocking_enable_def blocking_pause_def record_blocking_def set_blocking_state_def
      intro: audited_refl stop_blocking_audited audited_record split: option.split)

section \<open>One request\<close>

text \<open>The handlers whose changes of the policy are not recorded.\<close>

definition unrecorded :: "ui_action \<Rightarrow> bool" where
  "unrecorded a = (case a of Ui_Blocklists_Add_Preset b c e f \<Rightarrow> True | Ui_Nodes_Delete i \<Rightarrow> True | _ \<Rightarrow> False)"

definition app_db :: "app_state \<Rightarrow> db" where
  "app_db s = w_db (app_world s)"

definition zone_writable :: "app_state \<Rightarrow> bool" where
  "zone_writable s = w_writable (app_world s) combined_path"

definition request_audited :: "bool \<Rightarrow> outside \<Rightarrow> session \<Rightarrow> app_state \<Rightarrow> app_state \<Rightarrow> bool" where
  "request_audited full x sid s s' \<longleftrightarrow>
     audited full (o_now x) sid (app_db s) (app_db s') \<and> w_writable (app_world s') = w_writable (app_world s)"

lemma request_audited_db:
  "audited full (o_now x) sid (app_db s) (snd (h (app_db s))) \<Longrightarrow> request_audited full x sid s (snd (on_db h s))"
  by (simp add: request_audited_def on_db_def app_db_def prod.case_eq_if)

lemma request_audited_world:
  "\<lbrakk>audited full (o_now x) sid (app_db s) (w_db (snd (h (app_world s))));
    w_writable (snd (h (app_world s))) = w_writable (app_world s)\<rbrakk> \<Longrightarrow>
   request_audited full x sid s (snd (on_world h s))"
  by (simp add: request_audited_def on_world_def app_db_def prod.case_eq_if)

lemma request_audited_aside:
  "request_audited full x sid s (snd (on_backups h2 s))"
  "request_audited full x sid s (snd (on_job h3 s))"
  "request_audited full x sid s (snd (on_warm h4 s))"
  by (auto simp: request_audited_def on_backups_def on_job_def on_warm_def app_db_def audited_refl
      split: prod.split option.split sum.split)

lemma request_audited_zones:
  "request_audited full x sid s (snd (on_zones (forward_zones_apply fail k tmp sid) s))"
  by (auto simp: request_audited_def on_zones_def app_db_def forward_zones_apply_def write_forward_zones_config_def
      audited_refl Let_def split: option.split prod.split bool.split)

lemmas quiet_handlers = settings_quiet clients_quiet resolve_quiet groups_quiet nodes_quiet

lemmas handlers_audited = same_policyI quiet_handlers blocklists_audited deletes_audited entries_and_zones_audited
  cache_audited rollback_audited blocking_audited

lemma nodes_delete_audited: "audited False now sid d (snd (nodes_delete sid i d))"
  by (auto simp: nodes_delete_def delete_node_def intro: audited_refl unrecordedI split: option.split)

lemma blocking_writable:
  "w_writable (snd (blocking_disable now sid w)) = w_writable w"
  "w_writable (snd (blocking_enable now sid w)) = w_writable w"
  "w_writable (snd (blocking_pause now sid n w)) = w_writable w"
  by (simp_all add: blocking_disable_def blocking_enable_def blocking_pause_def blocking_frame split: option.split)

lemma audited_weaken: "audited True now sid d d' \<Longrightarrow> audited full now sid d d'"
  by (auto simp: audited_def)

lemma request_audited_blocking:
  "request_audited (zone_writable s) x sid s (snd (on_world (blocking_disable (o_now x) sid) s))"
  "request_audited full x sid s (snd (on_world (blocking_enable (o_now x) sid) s))"
  "request_audited (zone_writable s) x sid s (snd (on_world (blocking_pause (o_now x) sid n) s))"
  "request_audited full x sid s (snd (on_world (blocklists_apply (o_fetch x) (o_now x) sid) s))"
  using blocking_audited [where now = "o_now x" and sid = sid and w = "app_world s"]
    apply_quiet [where w = "app_world s" and fetch = "o_fetch x" and now = "o_now x" and sid = sid]
  by (auto intro!: request_audited_world simp: app_db_def zone_writable_def blocking_writable same_policyI)

lemma request_audited_weaken: "request_audited full x sid s s' \<Longrightarrow> (full' \<Longrightarrow> full) \<Longrightarrow> request_audited full' x sid s s'"
  by (auto simp: request_audited_def audited_def)

lemma handle_ui_audited:
  assumes "\<forall>f y. a \<noteq> Ui_Backup_Restore f y"
  shows "request_audited (zone_writable s \<and> \<not> unrecorded a) x sid s (snd (handle_ui x sid a s))"
  using assms
  by (cases a) (simp_all add: unrecorded_def request_audited_db request_audited_aside request_audited_zones
      request_audited_blocking handlers_audited nodes_delete_audited)

section \<open>Calls of nodes\<close>

text \<open>
  What a call with the key of node \<open>i\<close> can reach: the node's row and commands, events and metrics
  added in its name, clients added or seen; nothing else.
\<close>

definition unseen :: "client \<Rightarrow> client" where
  "unseen c = c\<lparr>c_last_seen := None\<rparr>"

definition for_others :: "int \<Rightarrow> node_command \<Rightarrow> bool" where
  "for_others i c \<longleftrightarrow> nc_node_id c \<noteq> None \<and> nc_node_id c \<noteq> Some i"

definition extends :: "'a list \<Rightarrow> 'a list \<Rightarrow> ('a \<Rightarrow> bool) \<Rightarrow> bool" where
  "extends xs ys P \<longleftrightarrow> (\<exists>new. ys = xs @ new \<and> list_all P new)"

definition node_data :: "int \<Rightarrow> db \<Rightarrow> db \<Rightarrow> bool" where
  "node_data i d d' \<longleftrightarrow>
     filter (\<lambda>n. n_id n \<noteq> i) (rows (db_nodes d')) = filter (\<lambda>n. n_id n \<noteq> i) (rows (db_nodes d)) \<and>
     filter (for_others i) (rows (db_node_commands d')) = filter (for_others i) (rows (db_node_commands d)) \<and>
     extends (rows (db_events d)) (rows (db_events d')) (\<lambda>e. ev_node_id e = Some i) \<and>
     extends (rows (db_node_metrics d)) (rows (db_node_metrics d')) (\<lambda>m. nm_node_id m = i) \<and>
     extends (map unseen (rows (db_clients d))) (map unseen (rows (db_clients d'))) (\<lambda>c. c_group_id c = None)"

definition configuration_kept :: "db \<Rightarrow> db \<Rightarrow> bool" where
  "configuration_kept d d' \<longleftrightarrow>
     db_users d' = db_users d \<and> db_changes d' = db_changes d \<and> db_settings d' = db_settings d \<and>
     db_blocklists d' = db_blocklists d \<and> db_entries d' = db_entries d \<and> db_manual d' = db_manual d \<and>
     db_zones d' = db_zones d \<and> db_groups d' = db_groups d \<and> db_rules d' = db_rules d \<and> db_rollups d' = db_rollups d"

definition node_reach :: "int \<Rightarrow> db \<Rightarrow> db \<Rightarrow> bool" where
  "node_reach i d d' \<longleftrightarrow> configuration_kept d d' \<and> node_data i d d'"

lemma extends_refl [simp]: "extends xs xs P"
  by (simp add: extends_def)

lemma extends_append [simp]: "extends xs (xs @ ys) P = list_all P ys"
  by (simp add: extends_def)

lemma extends_trans: "extends xs ys P \<Longrightarrow> extends ys zs P \<Longrightarrow> extends xs zs P"
  by (auto simp: extends_def)

lemma node_reach_refl [simp]: "node_reach i d d"
  by (simp add: node_reach_def configuration_kept_def node_data_def)

lemma node_reach_trans: "node_reach i d d' \<Longrightarrow> node_reach i d' d'' \<Longrightarrow> node_reach i d d''"
  by (auto simp: node_reach_def configuration_kept_def node_data_def intro: extends_trans)

lemma node_reach_fold: "(\<And>x d. node_reach i d (f x d)) \<Longrightarrow> node_reach i d (fold f xs d)"
  by (induction xs arbitrary: d) (auto intro: node_reach_trans)

lemma filter_update_other:
  "(\<And>x. P x \<Longrightarrow> \<not> Q x \<and> \<not> Q (f x)) \<Longrightarrow> filter Q (map (\<lambda>x. if P x then f x else x) xs) = filter Q xs"
  by (induction xs) auto

lemma save_node_reach: "n_id n = i \<Longrightarrow> node_reach i d (save_node n d)"
  by (simp add: node_reach_def configuration_kept_def node_data_def save_node_def tbl_update_def filter_update_other)

lemma ensure_client_reach: "node_reach i d (ensure_client now ip d)"
  by (simp add: node_reach_def configuration_kept_def node_data_def ensure_client_def unseen_def)

lemma touch_client_reach: "node_reach i d (touch_client ip ts d)"
proof -
  have "map unseen (map (\<lambda>c. if c_ip c = ip then c\<lparr>c_last_seen := Some ts\<rparr> else c) cs) = map unseen cs" for cs
    by (simp add: unseen_def)
  then show ?thesis
    by (simp add: node_reach_def configuration_kept_def node_data_def touch_client_def tbl_update_def del: map_map list.map_comp)
qed

lemma insert_events_reach:
  assumes "\<And>e k. ev_node_id (mk e k) = Some i"
  shows "extends (rows t) (rows (snd (insert_events mk es (n, t)))) (\<lambda>e. ev_node_id e = Some i)"
proof (induction es arbitrary: n t)
  case (Cons e es)
  have "extends (rows t) (rows (tbl_insert (mk e) t)) (\<lambda>e. ev_node_id e = Some i)" by (simp add: assms)
  from extends_trans [OF this Cons.IH] Cons.IH show ?case by simp
qed simp

lemma events_reach:
  "extends (rows (db_events d)) (rows t) (\<lambda>e. ev_node_id e = Some i) \<Longrightarrow> node_reach i d (d\<lparr>db_events := t\<rparr>)"
  by (simp add: node_reach_def configuration_kept_def node_data_def)

lemma ingest_reach:
  assumes "get_node_from_api_key key d = Inr node" and "ingest now key es d = Inr ((n, name, ips), d')"
  shows "node_reach (n_id node) d d'"
proof -
  let ?i = "n_id node" and ?p = "List.map_filter id es"
  let ?d1 = "fold (ensure_client now) (fromkeys (map ie_client_ip ?p)) d"
  let ?d2 = "fold (\<lambda>ev. touch_client (ie_client_ip ev) (event_time now ev)) ?p ?d1"
  let ?e = "snd (insert_events (event_row now ?i (client_id_of ?d1)) ?p (0, db_events ?d2))"
  have "node_reach ?i d ?d1" by (rule node_reach_fold) (rule ensure_client_reach)
  moreover have "node_reach ?i ?d1 ?d2" by (rule node_reach_fold) (rule touch_client_reach)
  moreover have "node_reach ?i ?d2 (?d2\<lparr>db_events := ?e\<rparr>)"
    by (rule events_reach) (rule insert_events_reach, simp add: event_row_def)
  moreover have "node_reach ?i (?d2\<lparr>db_events := ?e\<rparr>) (save_node (seen_active now node) (?d2\<lparr>db_events := ?e\<rparr>))"
    by (rule save_node_reach) (simp add: seen_active_def)
  ultimately have "node_reach ?i d (save_node (seen_active now node) (?d2\<lparr>db_events := ?e\<rparr>))"
    by (blast intro: node_reach_trans)
  then show ?thesis using assms by (auto simp: ingest_def Let_def prod.case_eq_if split: if_splits)
qed

lemma metrics_reach: "node_reach i d (d\<lparr>db_node_metrics := tbl_insert (metrics_row now i p) t\<rparr>)" if "t = db_node_metrics d"
  using that by (simp add: node_reach_def configuration_kept_def node_data_def metrics_row_def)

lemma command_reach:
  assumes "table_wf nc_id (db_node_commands d)" and "tbl_find (\<lambda>c. nc_id c = k) (db_node_commands d) = Some cmd"
    and "\<not> for_others (n_id node) cmd"
  shows "node_reach (n_id node) d
    (d\<lparr>db_node_commands := tbl_update (\<lambda>c. nc_id c = k) (mark_executed now node p) (db_node_commands d)\<rparr>)"
proof -
  have unique: "c \<in> set (rows (db_node_commands d)) \<Longrightarrow> nc_id c = k \<Longrightarrow> c = cmd" for c
    using assms(1,2) by (auto simp: table_wf_def tbl_find_def find_Some_iff in_set_conv_nth distinct_conv_nth)
  have "filter (for_others (n_id node)) (map (\<lambda>c. if nc_id c = k then mark_executed now node p c else c) cs) =
      filter (for_others (n_id node)) cs" if "set cs \<subseteq> set (rows (db_node_commands d))" for cs
    using that unique assms(3) by (induction cs) (auto simp: for_others_def mark_executed_def)
  then show ?thesis by (simp add: node_reach_def configuration_kept_def node_data_def tbl_update_def)
qed

lemma heartbeat_status_id: "heartbeat_status now threshold n = Inr m \<Longrightarrow> n_id m = n_id n"
  by (auto simp: heartbeat_status_def Let_def split: if_splits option.splits sum.splits)

text \<open>The unique key of the table of commands, which every insertion keeps.\<close>

definition commands_keyed :: "app_state \<Rightarrow> bool" where
  "commands_keyed s \<longleftrightarrow> table_wf nc_id (db_node_commands (app_db s))"

definition same_surroundings :: "app_state \<Rightarrow> app_state \<Rightarrow> bool" where
  "same_surroundings s s' \<longleftrightarrow>
     w_files (app_world s') = w_files (app_world s) \<and> w_writable (app_world s') = w_writable (app_world s) \<and>
     app_backups s' = app_backups s"

lemma handle_node_surroundings: "same_surroundings s (snd (handle_node x key a s))"
  by (cases a) (auto simp: on_node_db_def same_surroundings_def heartbeat_def split: sum.split prod.split)

lemma handle_node_reach:
  assumes "get_node_from_api_key key (app_db s) = Inr node" and "(\<exists>p. a = Api_Command_Result p) \<longrightarrow> commands_keyed s"
  shows "node_reach (n_id node) (app_db s) (app_db (snd (handle_node x key a s)))"
proof -
  note parts = app_db_def on_node_db_def
  show ?thesis
  proof (cases a)
    case (Api_Register p)
    then show ?thesis using assms(1)
      by (auto simp: parts register_def seen_active_def intro: save_node_reach split: sum.split)
  next
    case (Api_Heartbeat p)
    then show ?thesis using assms(1)
      by (auto simp: parts heartbeat_def heartbeat_payload_def dest: heartbeat_status_id intro!: save_node_reach split: sum.splits)
  next
    case (Api_Ingest es)
    then show ?thesis using ingest_reach [OF assms(1)] by (auto simp: parts split: sum.split)
  next
    case (Api_Metrics p)
    have "node_reach (n_id node) (app_db s) (save_node (seen_active (o_now x) node) (app_db s))"
      by (rule save_node_reach) (simp add: seen_active_def)
    from node_reach_trans [OF this metrics_reach [OF refl]] show ?thesis
      using assms(1) Api_Metrics by (simp add: parts metrics_def Let_def)
  next
    case (Api_Command_Result p)
    then show ?thesis using assms
      by (auto simp: parts report_command_result_def commands_keyed_def for_others_def intro!: command_reach split: sum.splits option.split)
  qed
qed
lemma handle_node_kept: "configuration_kept (app_db s) (app_db (snd (handle_node x key a s)))"
proof (cases "get_node_from_api_key key (app_db s)")
  case (Inl e)
  then show ?thesis using handle_node_no_key [of key s e x a] by (simp add: app_db_def configuration_kept_def)
next
  case (Inr node)
  show ?thesis
  proof (cases "\<exists>p. a = Api_Command_Result p")
    case True
    then show ?thesis
      by (auto simp: app_db_def on_node_db_def report_command_result_def configuration_kept_def split: sum.split option.split)
  next
    case False
    with handle_node_reach [OF Inr, of a x] show ?thesis unfolding node_reach_def by blast
  qed
qed

section \<open>Runs of requests\<close>

definition records :: "web_request \<Rightarrow> bool" where
  "records r = (case wq_action r of Ui a \<Rightarrow> \<not> unrecorded a | Api a \<Rightarrow> True)"

lemma serve_cases:
  obtains "snd (serve r s) = s" | "carries_token r" and "serve r s = handle r s"
  by (cases "csrf_call exempt_paths (o_csrf_token (wq_outside r)) (http_of r)")
     (auto simp: serve_def dest: csrf_forwarded)

lemma handle_audited:
  assumes "\<not> restores r"
  shows "request_audited (zone_writable s \<and> records r) (wq_outside r) (wq_session r) s (snd (handle r s))"
proof (cases "wq_action r")
  case (Ui a)
  then have "\<forall>f y. a \<noteq> Ui_Backup_Restore f y" using assms by (auto simp: restores_def)
  from handle_ui_audited [OF this] Ui show ?thesis by (simp add: handle_def records_def)
next
  case (Api a)
  have "audited full now sid (app_db s) (app_db (snd (handle r s)))" for full now sid
    using handle_node_kept [of s "wq_outside r" "wq_api_key r" a]
    by (intro quietI policy_cong) (simp_all add: handle_def Api configuration_kept_def)
  moreover have "same_surroundings s (snd (handle r s))" by (simp add: handle_def Api handle_node_surroundings)
  ultimately show ?thesis by (simp add: request_audited_def same_surroundings_def)
qed

lemma serve_audited:
  assumes "\<not> restores r"
  shows "request_audited (zone_writable s \<and> records r) (wq_outside r) (wq_session r) s (snd (serve r s))"
  using handle_audited [OF assms, of s]
  by (rule_tac serve_cases [of r s]) (simp_all add: request_audited_def audited_refl)

lemma serve_users: "\<not> restores r \<Longrightarrow> db_users (w_db (app_world (snd (serve r s)))) = db_users (w_db (app_world s))"
  using serve_audited [of r s] by (simp add: request_audited_def audited_def app_db_def)

interpretation web_runs: stable_gate ui_allowed "\<lambda>r s. snd (serve r s)" "\<lambda>r. \<not> restores r"
  by unfold_locales (rule ui_allowed_cong, rule serve_users)

text \<open>
  C5: the requests to the pages without a logged-in user, or without the token of the cookie on a
  path that is not below \<open>/api/\<close>, might as well not have been sent.
\<close>

theorem unauthorised_requests_inert:
  assumes "list_all (\<lambda>r. \<not> restores r) rs"
  shows "serve_all rs s = serve_all (filter (\<lambda>r. is_api r \<or> authorised r s) rs) s"
  using web_runs.purge [OF assms, of s] by (simp add: serve_all_def ui_allowed_def)

lemma serve_adds_records:
  assumes "\<not> restores r"
  obtains added where "rows (db_changes (app_db (snd (serve r s)))) = rows (db_changes (app_db s)) @ added"
    and "list_all (recorded_by (o_now (wq_outside r)) (wq_session r)) added"
    and "added \<noteq> [] \<Longrightarrow> \<not> is_api r \<and> authorised r s"
    and "\<lbrakk>zone_writable s; records r; policy (app_db (snd (serve r s))) \<noteq> policy (app_db s)\<rbrakk> \<Longrightarrow> added \<noteq> []"
proof -
  from serve_audited [OF assms, of s] obtain added where
    added: "rows (db_changes (app_db (snd (serve r s)))) = rows (db_changes (app_db s)) @ added"
      "list_all (recorded_by (o_now (wq_outside r)) (wq_session r)) added"
      "zone_writable s \<and> records r \<longrightarrow> policy (app_db (snd (serve r s))) \<noteq> policy (app_db s) \<longrightarrow> added \<noteq> []"
    unfolding request_audited_def audited_def by blast
  have "\<not> is_api r \<and> authorised r s" if "added \<noteq> []"
  proof -
    from that added(1) have "snd (serve r s) \<noteq> s" by auto
    then have allowed: "ui_allowed r s" by (rule web.change_was_allowed)
    have "\<not> is_api r"
    proof
      assume "is_api r"
      then obtain a where a: "wq_action r = Api a" by (cases "wq_action r") (simp_all add: is_api_def)
      have "db_changes (app_db (snd (serve r s))) = db_changes (app_db s)"
        using handle_node_kept [of s "wq_outside r" "wq_api_key r" a]
        by (rule_tac serve_cases [of r s]) (simp_all add: handle_def a configuration_kept_def)
      with that added(1) show False by simp
    qed
    with allowed show ?thesis unfolding ui_allowed_def by blast
  qed
  with added that show thesis by blast
qed

lemma serve_all_snoc: "serve_all (rs @ [r]) s = snd (serve r (serve_all rs s))"
  by (simp add: serve_all_def)

lemma serve_all_frame:
  assumes "list_all (\<lambda>r. \<not> restores r) rs"
  shows "db_users (app_db (serve_all rs s)) = db_users (app_db s) \<and> (zone_writable (serve_all rs s) \<longleftrightarrow> zone_writable s)"
  using assms
proof (induction rs rule: rev_induct)
  case (snoc r rs)
  then show ?case using serve_audited [of r "serve_all rs s"]
    by (simp add: serve_all_snoc request_audited_def audited_def zone_writable_def)
qed (simp add: serve_all_def)

lemma authorised_throughout:
  "list_all (\<lambda>r. \<not> restores r) rs \<Longrightarrow> authorised r (serve_all rs s) = authorised r s"
  using serve_all_frame [of rs s] get_current_user_frame [of "app_db (serve_all rs s)" "app_db s" "wq_session r"]
  by (simp add: authorised_def app_db_def)

text \<open>The records a run has added, each by an authorised request, one at least for each that changed the policy.\<close>

definition audit_trail :: "web_request list \<Rightarrow> app_state \<Rightarrow> config_change list \<Rightarrow> bool" where
  "audit_trail rs s added \<longleftrightarrow>
     rows (db_changes (app_db (serve_all rs s))) = rows (db_changes (app_db s)) @ added \<and>
     (\<forall>c \<in> set added. \<exists>r \<in> set rs. \<not> is_api r \<and> authorised r s \<and> recorded_by (o_now (wq_outside r)) (wq_session r) c) \<and>
     (\<forall>before r after. rs = before @ r # after \<longrightarrow> records r \<longrightarrow>
        policy (app_db (serve_all (before @ [r]) s)) \<noteq> policy (app_db (serve_all before s)) \<longrightarrow>
        (\<exists>c \<in> set added. recorded_by (o_now (wq_outside r)) (wq_session r) c))"

lemma audit_trail_snoc:
  assumes r: "\<not> restores r" and rs: "list_all (\<lambda>r. \<not> restores r) rs" and "zone_writable s" and "audit_trail rs s old"
  shows "\<exists>added. audit_trail (rs @ [r]) s added"
proof -
  let ?t = "serve_all rs s"
  obtain new where
    new: "rows (db_changes (app_db (snd (serve r ?t)))) = rows (db_changes (app_db ?t)) @ new"
      "list_all (recorded_by (o_now (wq_outside r)) (wq_session r)) new"
      "new \<noteq> [] \<Longrightarrow> \<not> is_api r \<and> authorised r ?t"
      "\<lbrakk>zone_writable ?t; records r; policy (app_db (snd (serve r ?t))) \<noteq> policy (app_db ?t)\<rbrakk> \<Longrightarrow> new \<noteq> []"
    by (rule serve_adds_records [OF r, of ?t]) (rule that)
  have writable: "zone_writable ?t" using serve_all_frame [OF rs, of s] assms(3) by blast
  have mine: "recorded_by (o_now (wq_outside r)) (wq_session r) c \<and> \<not> is_api r \<and> authorised r s" if "c \<in> set new" for c
  proof -
    from that have "new \<noteq> []" by auto
    with new(3) authorised_throughout [OF rs, of r s] that new(2) show ?thesis by (simp add: list_all_iff)
  qed
  have "\<exists>c \<in> set (old @ new). recorded_by (o_now (wq_outside q)) (wq_session q) c"
    if "rs @ [r] = before @ q # after" "records q"
      "policy (app_db (serve_all (before @ [q]) s)) \<noteq> policy (app_db (serve_all before s))" for before q after
  proof (cases after rule: rev_cases)
    case Nil
    with that have "before = rs" "q = r" by simp_all
    with that(2,3) new(4) writable have "new \<noteq> []" by (simp add: serve_all_snoc)
    then show ?thesis using mine \<open>q = r\<close> by (cases new) auto
  next
    case (snoc after' y)
    with that(1) have "rs = before @ q # after'" by simp
    with that(2,3) assms(4) have "\<exists>c \<in> set old. recorded_by (o_now (wq_outside q)) (wq_session q) c"
      unfolding audit_trail_def by blast
    then show ?thesis by auto
  qed
  then have "audit_trail (rs @ [r]) s (old @ new)"
    using assms(4) mine unfolding audit_trail_def by (simp add: serve_all_snoc new(1)) blast
  then show ?thesis by blast
qed

lemma audit_trail_exists: "list_all (\<lambda>r. \<not> restores r) rs \<Longrightarrow> zone_writable s \<Longrightarrow> \<exists>added. audit_trail rs s added"
proof (induction rs rule: rev_induct)
  case Nil
  then show ?case by (simp add: audit_trail_def serve_all_def)
next
  case (snoc r rs)
  then show ?case using audit_trail_snoc [of r rs s] by auto
qed


section \<open>Isolation of the nodes\<close>

lemma key_kept_by_save:
  assumes "tbl_find (\<lambda>n. n_api_key n = k) t = Some node" and "n_id m = n_id node" and "n_api_key m = n_api_key node"
  shows "\<exists>node'. tbl_find (\<lambda>n. n_api_key n = k) (tbl_update (\<lambda>x. n_id x = n_id m) (\<lambda>_. m) t) = Some node' \<and> n_id node' = n_id node"
proof -
  have "find (\<lambda>n. n_api_key n = k) xs = Some node \<Longrightarrow>
      \<exists>node'. find (\<lambda>n. n_api_key n = k) (map (\<lambda>x. if n_id x = n_id m then m else x) xs) = Some node' \<and> n_id node' = n_id node" for xs
  proof (induction xs)
    case (Cons x xs)
    have "n_api_key node = k" using Cons.prems using find_Some_iff [THEN iffD1, OF Cons.prems] by auto
    then show ?case using Cons assms(2,3) by (cases "n_id x = n_id m") (auto split: if_splits)
  qed simp
  then show ?thesis using assms(1) by (simp add: tbl_find_def tbl_update_def)
qed

definition own_row :: "node \<Rightarrow> db \<Rightarrow> db \<Rightarrow> bool" where
  "own_row node d d' \<longleftrightarrow>
     db_nodes d' = db_nodes d \<or>
     (\<exists>m. n_id m = n_id node \<and> n_api_key m = n_api_key node \<and> db_nodes d' = db_nodes (save_node m d))"

lemma own_rowI:
  "n_id m = n_id node \<Longrightarrow> n_api_key m = n_api_key node \<Longrightarrow> db_nodes d' = db_nodes (save_node m d) \<Longrightarrow> own_row node d d'"
  unfolding own_row_def by blast

lemma own_row_same: "db_nodes d' = db_nodes d \<Longrightarrow> own_row node d d'"
  unfolding own_row_def by blast

lemma fold_frame: "(\<And>x d. g (f x d) = g d) \<Longrightarrow> g (fold f xs d) = g d"
  by (induction xs arbitrary: d) simp_all

lemma ingest_frame:
  "ingest now key es d = Inr ((n, name, ips), d') \<Longrightarrow> get_node_from_api_key key d = Inr node \<Longrightarrow>
   own_row node d d' \<and> db_node_commands d' = db_node_commands d"
proof -
  have "db_nodes (fold (ensure_client now) xs e) = db_nodes e" "db_node_commands (fold (ensure_client now) xs e) = db_node_commands e"
    for xs e by (rule fold_frame, simp add: ensure_client_def)+
  moreover have "db_nodes (fold (\<lambda>ev. touch_client (ie_client_ip ev) (event_time now ev)) xs e) = db_nodes e"
    "db_node_commands (fold (\<lambda>ev. touch_client (ie_client_ip ev) (event_time now ev)) xs e) = db_node_commands e"
    for xs e by (rule fold_frame, simp add: touch_client_def)+
  ultimately show "ingest now key es d = Inr ((n, name, ips), d') \<Longrightarrow> get_node_from_api_key key d = Inr node \<Longrightarrow> ?thesis"
    by (auto simp: ingest_def Let_def prod.case_eq_if save_node_def split: if_splits
        intro: own_row_same own_rowI [of "seen_active now node"] simp: seen_active_def)
qed

lemma heartbeat_status_key: "heartbeat_status now threshold n = Inr m \<Longrightarrow> n_api_key m = n_api_key n"
  by (auto simp: heartbeat_status_def Let_def split: if_splits option.splits sum.splits)

text \<open>A call rewrites the node's own row, under the same key, or no row at all.\<close>

lemma node_row_written:
  assumes "get_node_from_api_key key (app_db s) = Inr node"
  shows "own_row node (app_db s) (app_db (snd (handle_node x key a s)))"
proof (cases a)
  case (Api_Register p)
  then show ?thesis using assms
    by (auto simp: app_db_def on_node_db_def register_def seen_active_def split: sum.split
        intro: own_row_same own_rowI [OF _ _ refl])
next
  case (Api_Heartbeat p)
  then show ?thesis using assms
    by (auto simp: app_db_def heartbeat_def heartbeat_payload_def heartbeat_status_id heartbeat_status_key
        intro: own_row_same intro!: own_rowI [OF _ _ refl] split: sum.split)
next
  case (Api_Ingest es)
  then show ?thesis using assms ingest_frame [of "o_now x" key es "app_db s"]
    by (auto simp: app_db_def intro: own_row_same split: sum.split)
next
  case (Api_Metrics p)
  then show ?thesis using assms
    by (auto simp: app_db_def on_node_db_def metrics_def Let_def seen_active_def
        intro!: own_rowI [of "seen_active (o_now x) node"])
next
  case (Api_Command_Result p)
  then show ?thesis
    by (auto simp: app_db_def on_node_db_def report_command_result_def intro: own_row_same split: sum.split option.split)
qed

lemma node_row_kept:
  assumes "get_node_from_api_key key (app_db s) = Inr node"
  shows "\<exists>node'. get_node_from_api_key key (app_db (snd (handle_node x key a s))) = Inr node' \<and> n_id node' = n_id node"
proof -
  have find: "truthy key" "tbl_find (\<lambda>n. n_api_key n = the key) (db_nodes (app_db s)) = Some node"
    using assms by (auto simp: get_node_from_api_key_def split: if_splits option.splits)
  from node_row_written [OF assms, of x a] show ?thesis
  proof (unfold own_row_def, elim disjE exE conjE)
    assume "db_nodes (app_db (snd (handle_node x key a s))) = db_nodes (app_db s)"
    with find show ?thesis by (simp add: get_node_from_api_key_def)
  next
    fix m
    assume "n_id m = n_id node" "n_api_key m = n_api_key node"
      and "db_nodes (app_db (snd (handle_node x key a s))) = db_nodes (save_node m (app_db s))"
    with find key_kept_by_save [OF find(2), of m] show ?thesis by (auto simp: get_node_from_api_key_def save_node_def)
  qed
qed

lemma commands_stay_keyed:
  assumes "commands_keyed s"
  shows "commands_keyed (snd (handle_node x key a s))"
proof (cases "get_node_from_api_key key (app_db s)")
  case (Inl e)
  then show ?thesis using assms handle_node_no_key [of key s e x a] by (simp add: app_db_def)
next
  case (Inr node)
  then show ?thesis
    using assms ingest_frame [of "o_now x" key _ "app_db s"]
    by (cases a) (auto simp: commands_keyed_def app_db_def on_node_db_def register_def heartbeat_def metrics_def save_node_def
        Let_def report_command_result_def split: sum.split option.split intro: executed.update_wf)
qed

lemma serve_api:
  assumes "wq_action r = Api a"
  shows "serve r s = handle_node (wq_outside r) (wq_api_key r) a s"
proof -
  have "is_exempt exempt_paths (http_of r)" unfolding routes_exempt using assms by (cases a) simp_all
  then show ?thesis by (simp add: serve_def csrf_call_def Let_def handle_def assms)
qed

lemma api_actionE:
  assumes "is_api r"
  obtains a where "wq_action r = Api a"
  using assms by (cases "wq_action r") (simp_all add: is_api_def)

lemma serve_all_Cons: "serve_all (r # rs) s = serve_all rs (snd (serve r s))"
  by (simp add: serve_all_def)

lemma surroundings_trans: "same_surroundings s t \<Longrightarrow> same_surroundings t u \<Longrightarrow> same_surroundings s u"
  by (simp add: same_surroundings_def)

lemma unknown_key_run:
  assumes "list_all (\<lambda>r. is_api r \<and> wq_api_key r = key) rs" and "get_node_from_api_key key (app_db s) = Inl e"
  shows "serve_all rs s = s"
  using assms(1)
proof (induction rs)
  case (Cons r rs)
  then obtain a where "wq_action r = Api a" by (auto elim: api_actionE)
  then have "snd (serve r s) = s" using Cons.prems assms(2) handle_node_no_key [of key s e] by (simp add: serve_api app_db_def)
  then show ?case using Cons by (simp add: serve_all_Cons)
qed (simp add: serve_all_def)

lemma known_key_run:
  assumes "list_all (\<lambda>r. is_api r \<and> wq_api_key r = key) rs" and "commands_keyed s"
    and "get_node_from_api_key key (app_db s) = Inr node"
  shows "node_reach (n_id node) (app_db s) (app_db (serve_all rs s)) \<and> same_surroundings s (serve_all rs s)"
  using assms
proof (induction rs arbitrary: s node)
  case Nil
  then show ?case by (simp add: serve_all_def same_surroundings_def)
next
  case (Cons r rs)
  then obtain a where a: "wq_action r = Api a" "wq_api_key r = key" by (auto elim: api_actionE)
  let ?t = "snd (handle_node (wq_outside r) key a s)"
  from node_row_kept [OF Cons.prems(3)] obtain node' where
    node': "get_node_from_api_key key (app_db ?t) = Inr node'" "n_id node' = n_id node" by blast
  have "node_reach (n_id node) (app_db ?t) (app_db (serve_all rs ?t)) \<and> same_surroundings ?t (serve_all rs ?t)"
    using Cons.IH [OF _ commands_stay_keyed [OF Cons.prems(2)] node'(1)] Cons.prems(1) node'(2) by simp
  moreover have "node_reach (n_id node) (app_db s) (app_db ?t)" by (rule handle_node_reach [OF Cons.prems(3)]) (use Cons.prems(2) in simp)
  ultimately show ?case
    using handle_node_surroundings [of s "wq_outside r" key a]
    by (simp add: serve_all_Cons serve_api [OF a(1)] a(2)) (blast intro: node_reach_trans surroundings_trans)
qed


section \<open>What leaves no record\<close>

lemma preset_adds_unrecorded:
  assumes "get_current_user sid d = Some u" and "tbl_find (\<lambda>b. bl_url b = strip url) (db_blocklists d) = None"
  shows "db_changes (snd (blocklists_add_preset now sid name url fmt t d)) = db_changes d \<and>
    policy (snd (blocklists_add_preset now sid name url fmt t d)) \<noteq> policy d"
  using assms by (simp add: blocklists_add_preset_def insert_blocklist_def new_blocklist_def policy_def Let_def)

lemma node_deletion_unrecorded:
  assumes "get_current_user sid d = Some u" and "get_node d i = Some n" and "n_name n \<noteq> ''primary''"
    and "z \<in> set (rows (db_zones d))" and "fz_node_id z = Some i"
  shows "db_changes (snd (nodes_delete sid i d)) = db_changes d \<and> z \<notin> set (rows (db_zones (snd (nodes_delete sid i d))))"
  using assms by (simp add: nodes_delete_def delete_node_def tbl_delete_def)

text \<open>A switch that fails on the zone file: the state is stored, and there is no record of it.\<close>

lemma failed_switch_unrecorded:
  assumes "get_current_user sid (w_db w) = Some u" and "\<not> w_writable w combined_path"
  shows "fst (blocking_disable now sid w) = server_error \<and> get_blocking_state (w_db (snd (blocking_disable now sid w))) = ''disabled'' \<and>
    db_changes (w_db (snd (blocking_disable now sid w))) = db_changes (w_db w)"
  using assms by (simp add: blocking_disable_def stop_blocking_def write_emergency_rpz_def atomic_write_def
      set_blocking_state_def get_blocking_state_def setting_or_def kv.get_put)

section \<open>Concrete runs\<close>

definition sample_outside :: outside where
  "sample_outside =
     \<lparr>o_now = 7, o_fetch = (\<lambda>u. Inl ''unreachable''), o_flush = Flushed 0, o_float_str = (\<lambda>x. ''1.0''), o_zone_known = (\<lambda>z. True),
      o_resolve = (\<lambda>s p q. None), o_fail = None, o_partial = 0, o_tmp = ''/tmp/x'', o_api_key = ''k9'', o_pg_dump = TimedOut,
      o_timestamp = ''t'', o_pack = (\<lambda>m. Inr ''tar''), o_decode = Inr, o_psql = (\<lambda>q. Inr 0), o_psql_db = (\<lambda>q d. d),
      o_sha = (\<lambda>x. x), o_csrf_token = ''fresh''\<rparr>"

text \<open>A request of session \<open>sid\<close> with the cookie \<open>abc\<close> and, maybe, a token in the header.\<close>

definition sample_request :: "session \<Rightarrow> string option \<Rightarrow> string option \<Rightarrow> action \<Rightarrow> web_request" where
  "sample_request sid key header a =
     \<lparr>wq_session = sid, wq_api_key = key, wq_cookie = Some ''abc'', wq_header = header, wq_content_type = [], wq_body = None,
      wq_action = a, wq_outside = sample_outside\<rparr>"

definition stranger_pause :: web_request where
  "stranger_pause = sample_request None None None (Ui (Ui_Blocking_Pause 60))"

definition forged_delete :: web_request where
  "forged_delete = sample_request (Some 1) None None (Ui (Ui_Blocklists_Delete 1))"

definition own_toggle :: web_request where
  "own_toggle = sample_request (Some 1) None (Some ''abc'') (Ui (Ui_Blocklists_Toggle 1))"

definition sample_app :: "db \<Rightarrow> app_state" where
  "sample_app d = \<lparr>app_world = \<lparr>w_db = d, w_files = Map.empty, w_writable = (\<lambda>p. True)\<rparr>, app_backups = [], app_queue = []\<rparr>"

lemmas sample_run_defs = stranger_pause_def forged_delete_def own_toggle_def sample_request_def

lemma sample_run_authorised:
  "\<not> authorised stranger_pause (sample_app one_list_db)"
  "\<not> authorised forged_delete (sample_app one_list_db)"
  "authorised own_toggle (sample_app one_list_db)"
  by (simp_all add: authorised_def carries_token_def submitted_token_def expected_token_def http_of_def sample_run_defs
      sample_app_def one_list_facts get_current_user_def tbl_find_def one_list_defs)

lemma sample_run_plain:
  "\<not> restores stranger_pause" "\<not> restores forged_delete" "\<not> restores own_toggle"
  "\<not> is_api stranger_pause" "\<not> is_api forged_delete" "\<not> is_api own_toggle"
  by (simp_all add: restores_def is_api_def sample_run_defs)

lemma own_toggle_served:
  "app_db (serve_all [own_toggle] (sample_app one_list_db)) = snd (blocklists_toggle 7 (Some 1) 1 one_list_db)"
  by (simp add: serve_all_def serve_def csrf_call_def is_exempt_def exempt_paths_def SAFE_METHODS_def submitted_token_def
      http_of_def is_ascii_def sample_run_defs sample_app_def handle_def on_db_def prod.case_eq_if app_db_def
      sample_outside_def Let_def)

lemma own_toggle_effect:
  "map bl_enabled (rows (db_blocklists (snd (blocklists_toggle 7 (Some 1) 1 one_list_db)))) = [False]"
  by (simp add: blocklists_toggle_def edit_blocklist_def one_list_facts update_blocklist_def)
     (simp add: one_list_defs)

theorem unauthorised_requests_inert_witness:
  "serve_all [stranger_pause, forged_delete, own_toggle] (sample_app one_list_db) = serve_all [own_toggle] (sample_app one_list_db) \<and>
   map bl_enabled (rows (db_blocklists (app_db (serve_all [own_toggle] (sample_app one_list_db))))) = [False]"
  using unauthorised_requests_inert [of "[stranger_pause, forged_delete, own_toggle]" "sample_app one_list_db"]
  by (simp add: sample_run_authorised sample_run_plain own_toggle_served own_toggle_effect)


definition node_report_call :: web_request where
  "node_report_call = sample_request None (Some ''k1'') None (Api (Api_Command_Result \<lparr>cr_command_id = 1, cr_success = True, cr_result = None\<rparr>))"


end
