(* ===== verification/Propagation.thy ===== *)
theory Propagation
  imports Audit_Trail Sync_System
begin

text \<open>
  From the page to the recursor of a secondary: requests of an administrator to the web application,
  the zones they render, and a pass of the agent against the same primary.
\<close>

section \<open>What applying writes\<close>

definition wanted_allowed :: "fetcher \<Rightarrow> db \<Rightarrow> string set" where
  "wanted_allowed fetch d =
     manual_domains ''allow'' d \<union> (\<Union>bl \<in> {bl \<in> set (enabled_blocklists d). bl_list_type bl = ''allow''}. fetched fetch bl)"

definition wanted_blocked :: "fetcher \<Rightarrow> db \<Rightarrow> string set" where
  "wanted_blocked fetch d =
     (manual_domains ''block'' d \<union> (\<Union>bl \<in> {bl \<in> set (enabled_blocklists d). bl_list_type bl \<noteq> ''allow''}. fetched fetch bl))
     - wanted_allowed fetch d"

lemma finite_wanted [simp]: "finite (wanted_allowed fetch d)" "finite (wanted_blocked fetch d)"
  by (simp_all add: wanted_allowed_def wanted_blocked_def manual_domains_def)

text \<open>The tables that a node's pass reads, beside the files.\<close>

definition same_node_tables :: "db \<Rightarrow> db \<Rightarrow> bool" where
  "same_node_tables d d' \<longleftrightarrow>
     db_nodes d' = db_nodes d \<and> db_node_commands d' = db_node_commands d \<and> db_settings d' = db_settings d"

lemma apply_loop_nodes: "same_node_tables d (snd (snd (apply_loop fetch now bls (acc, to_add, d))))"
proof (induction bls arbitrary: acc to_add d)
  case (Cons bl bls)
  obtain blocked allow where acc: "acc = (blocked, allow)" by fastforce
  have mark: "same_node_tables e (update_blocklist i f (delete_entries j e))" "same_node_tables e (update_blocklist i f e)" for e i f j
    by (simp_all add: same_node_tables_def update_blocklist_def delete_entries_def)
  have trans: "same_node_tables a b \<Longrightarrow> same_node_tables b c \<Longrightarrow> same_node_tables a c" for a b c
    by (simp add: same_node_tables_def)
  show ?case by (auto simp: acc split: sum.split intro: trans [OF mark(1) Cons.IH] trans [OF mark(2) Cons.IH])
qed (simp add: same_node_tables_def)

lemma add_entry_nodes [simp]: "same_node_tables d (add_entry i dn e) = same_node_tables d e"
  by (simp add: same_node_tables_def add_entry_def)

lemma add_entries_nodes: "same_node_tables d (fold (\<lambda>(i, dn). add_entry i dn) xs e) = same_node_tables d e"
  by (induction xs arbitrary: e) (simp_all add: case_prod_beta)

lemma apply_outcome:
  assumes user: "get_current_user sid (w_db w) = Some u" and ok: "w_writable w combined_path" "w_writable w whitelist_path"
  shows "w_files (snd (blocklists_apply fetch now sid w)) =
      (w_files w)(combined_path \<mapsto> render_rpz_zone (now div 1000000) (wanted_blocked fetch (w_db w)) ''blocklist-combined'',
                  whitelist_path \<mapsto> render_rpz_whitelist (now div 1000000) (wanted_allowed fetch (w_db w)))"
    and "same_node_tables (w_db w) (w_db (snd (blocklists_apply fetch now sid w)))"
proof -
  let ?start = "((manual_domains ''block'' (w_db w), manual_domains ''allow'' (w_db w)), [], w_db w)"
  let ?run = "apply_loop fetch now (enabled_blocklists (w_db w)) ?start"
  let ?b = "manual_domains ''block'' (w_db w) \<union>
      (\<Union>bl \<in> {bl \<in> set (enabled_blocklists (w_db w)). bl_list_type bl \<noteq> ''allow''}. fetched fetch bl)"
  have "fst ?run = (?b, wanted_allowed fetch (w_db w))"
    by (simp only: apply_loop_sets collect_domains_eq wanted_allowed_def)
  then obtain to_add d' where loop: "?run = ((?b, wanted_allowed fetch (w_db w)), to_add, d')" by (cases ?run) auto
  have d': "same_node_tables (w_db w) d'" using apply_loop_nodes [of "w_db w" fetch now "enabled_blocklists (w_db w)" "fst ?start" "[]"] loop by simp
  show "w_files (snd (blocklists_apply fetch now sid w)) =
      (w_files w)(combined_path \<mapsto> render_rpz_zone (now div 1000000) (wanted_blocked fetch (w_db w)) ''blocklist-combined'',
                  whitelist_path \<mapsto> render_rpz_whitelist (now div 1000000) (wanted_allowed fetch (w_db w)))"
    using ok unfolding blocklists_apply_def user Let_def loop option.case
    by (simp add: write_rpz_def atomic_write_def Let_def wanted_blocked_def)
  show "same_node_tables (w_db w) (w_db (snd (blocklists_apply fetch now sid w)))"
    using ok d' unfolding blocklists_apply_def user Let_def loop option.case
    by (simp add: write_rpz_def atomic_write_def Let_def add_entries_nodes)
qed

section \<open>What the secondary reads\<close>

text \<open>The blocked names of the zone the agent installed, its line ends read as line breaks.\<close>

definition secondary_blocked :: "string \<Rightarrow> agent \<Rightarrow> string set" where
  "secondary_blocked rpz_dir a =
     (case ag_files a (local_path rpz_dir ''blocklist-combined.rpz'') of
        None \<Rightarrow> {}
      | Some z \<Rightarrow> zone_owners ''.'' (universal_newlines z))"

lemma host_name_no_cr: "host_name h \<Longrightarrow> carriage_return \<notin> set h"
  by (auto simp: host_name_def is_host_char_def)

lemma header_no_cr: "carriage_return \<notin> set c \<Longrightarrow> carriage_return \<notin> set (rpz_header n c)"
  using show_int_chars [of carriage_return n] by (auto simp: rpz_header_def is_digit_def)

lemma rendered_no_cr:
  assumes "finite D" and "\<forall>h \<in> D. host_name h"
  shows "universal_newlines (render_rpz_zone n D ''blocklist-combined'') = render_rpz_zone n D ''blocklist-combined''"
    and "universal_newlines (render_rpz_whitelist n D) = render_rpz_whitelist n D"
proof -
  have heads: "carriage_return \<notin> set (rpz_header n (''; policy: '' @ ''blocklist-combined''))"
    "carriage_return \<notin> set (rpz_header n ''; whitelist (rpz-passthru)'')" by (rule header_no_cr, simp)+
  show "universal_newlines (render_rpz_zone n D ''blocklist-combined'') = render_rpz_zone n D ''blocklist-combined''"
    using assms heads by (intro universal_newlines_id) (auto simp: render_rpz_zone_def dest: host_name_no_cr)
  show "universal_newlines (render_rpz_whitelist n D) = render_rpz_whitelist n D"
    using assms heads by (intro universal_newlines_id) (auto simp: render_rpz_whitelist_def dest: host_name_no_cr)
qed

lemma rendered_nonempty: "render_rpz_zone n D p \<noteq> []" "render_rpz_whitelist n D \<noteq> []"
  by (simp_all add: render_rpz_zone_def render_rpz_whitelist_def rpz_header_def)

lemma read_both:
  assumes "fs combined_path = Some z" and "fs whitelist_path = Some y" and "universal_newlines z = z" and "universal_newlines y = y"
  shows "read_rpz_files sha fs =
    [\<lparr>rf_filename = ''blocklist-combined.rpz'', rf_content = z, rf_checksum = take 16 (sha z)\<rparr>,
     \<lparr>rf_filename = ''whitelist.rpz'', rf_content = y, rf_checksum = take 16 (sha y)\<rparr>]"
  using assms by (simp add: read_rpz_files_def rpz_filenames_def rpz_path_def combined_path_def whitelist_path_def map_filter_simps Let_def)

section \<open>Requests that are admitted\<close>

text \<open>With a token as the middleware draws them the comparison cannot raise.\<close>

lemma admitted_served:
  assumes "carries_token r" and "is_token (expected_token r)"
  shows "serve r s = handle r s"
proof -
  have t: "expected_token r \<noteq> []" "is_ascii (expected_token r)"
    using is_token_facts(1,2) [OF assms(2)] .
  have e: "expected_token r = (if truthy (hr_cookie (http_of r)) then the (hr_cookie (http_of r)) else o_csrf_token (wq_outside r))"
    by (simp add: expected_token_def http_of_def)
  from assms(1) have "is_exempt exempt_paths (http_of r) \<or> submitted_token (http_of r) = Some (expected_token r)"
    by (simp add: carries_token_def routes_exempt)
  then show ?thesis using t by (auto simp: serve_def csrf_call_def Let_def e)
qed

definition admitted :: "web_request \<Rightarrow> app_state \<Rightarrow> bool" where
  "admitted r s \<longleftrightarrow> authorised r s \<and> is_token (expected_token r)"

lemma admitted_handle: "admitted r s \<Longrightarrow> serve r s = handle r s"
  by (simp add: admitted_def authorised_def admitted_served)

lemma admitted_user: "admitted r s \<Longrightarrow> \<exists>u. get_current_user (wq_session r) (app_db s) = Some u"
  by (auto simp: admitted_def authorised_def app_db_def)

section \<open>The two requests\<close>

lemma entry_request:
  assumes "admitted r s" and "wq_action r = Ui (Ui_Entries_Add x ''block'' comment referer)" and "host_name x"
    and "tbl_find (\<lambda>e. me_domain e = x) (db_manual (app_db s)) = None"
  shows "same_node_tables (app_db s) (app_db (snd (serve r s)))" and "x \<in> manual_domains ''block'' (app_db (snd (serve r s)))"
    and "app_world (snd (serve r s)) = (app_world s)\<lparr>w_db := app_db (snd (serve r s))\<rparr>"
    and "db_users (app_db (snd (serve r s))) = db_users (app_db s)"
proof -
  obtain u where u: "get_current_user (wq_session r) (w_db (app_world s)) = Some u" using admitted_user [OF assms(1)] by (auto simp: app_db_def)
  have x: "rstrip_by (\<lambda>c. c = CHR ''.'') (lower (strip x)) = x"
  proof -
    note tok = host_name_token [OF assms(3)]
    have "strip x = x" using tok(1) by (intro strip_no_space) simp
    moreover have "lower x = x" using tok(1) unfolding lower_def by (intro map_idI) simp
    ultimately show ?thesis using rstrip_by_last [OF tok(2)] tok(6) by simp
  qed
  note run = admitted_handle [OF assms(1)] handle_def assms(2) on_db_def entries_add_def u x Let_def
  show "same_node_tables (app_db s) (app_db (snd (serve r s)))" "x \<in> manual_domains ''block'' (app_db (snd (serve r s)))"
    "app_world (snd (serve r s)) = (app_world s)\<lparr>w_db := app_db (snd (serve r s))\<rparr>"
    "db_users (app_db (snd (serve r s))) = db_users (app_db s)"
    using assms(4) by (simp_all add: run app_db_def same_node_tables_def manual_domains_def tbl_select_def)
qed

lemma admitted_users:
  "db_users (app_db s') = db_users (app_db s) \<Longrightarrow> admitted r s' = admitted r s"
  using get_current_user_frame [of "app_db s'" "app_db s" "wq_session r"] by (simp add: admitted_def authorised_def app_db_def)

lemma apply_request:
  assumes "admitted r s" and "wq_action r = Ui Ui_Blocklists_Apply"
    and "w_writable (app_world s) combined_path" "w_writable (app_world s) whitelist_path"
  shows "w_files (app_world (snd (serve r s))) =
      (w_files (app_world s))(
        combined_path \<mapsto> render_rpz_zone (o_now (wq_outside r) div 1000000) (wanted_blocked (o_fetch (wq_outside r)) (app_db s)) ''blocklist-combined'',
        whitelist_path \<mapsto> render_rpz_whitelist (o_now (wq_outside r) div 1000000) (wanted_allowed (o_fetch (wq_outside r)) (app_db s)))"
    and "same_node_tables (app_db s) (app_db (snd (serve r s)))"
proof -
  obtain u where u: "get_current_user (wq_session r) (w_db (app_world s)) = Some u"
    using admitted_user [OF assms(1)] by (auto simp: app_db_def)
  note out = apply_outcome [OF u assms(3,4), of "o_fetch (wq_outside r)" "o_now (wq_outside r)"]
  have "app_world (snd (serve r s)) = snd (blocklists_apply (o_fetch (wq_outside r)) (o_now (wq_outside r)) (wq_session r) (app_world s))"
    by (simp add: admitted_handle [OF assms(1)] handle_def assms(2) on_world_def case_prod_beta)
  with out show "w_files (app_world (snd (serve r s))) =
      (w_files (app_world s))(
        combined_path \<mapsto> render_rpz_zone (o_now (wq_outside r) div 1000000) (wanted_blocked (o_fetch (wq_outside r)) (app_db s)) ''blocklist-combined'',
        whitelist_path \<mapsto> render_rpz_whitelist (o_now (wq_outside r) div 1000000) (wanted_allowed (o_fetch (wq_outside r)) (app_db s)))"
    and "same_node_tables (app_db s) (app_db (snd (serve r s)))" by (simp_all add: app_db_def)
qed

section \<open>The pass\<close>

text \<open>What a pass needs: a known node of a compatible version, a due sync, settings that read, and disks that work.\<close>

definition pass_ready ::
  "(string \<Rightarrow> write_outcome) \<Rightarrow> agent_conf \<Rightarrow> string \<Rightarrow> string option \<Rightarrow> string \<Rightarrow> instant \<Rightarrow> agent \<Rightarrow> db \<Rightarrow> bool" where
  "pass_ready sys cf pb key v now a d \<longleftrightarrow>
     (\<exists>n. get_node_from_api_key key d = Inr n \<and> n_version n = Some v) \<and>
     fst (check_version_compatibility (Some pb) (Some v)) \<noteq> BLOCK \<and> table_wf nc_id (db_node_commands d) \<and>
     seconds (ac_config_sync_interval cf) \<le> now - ag_last_config_sync a \<and>
     py_int (get_setting d ''precache_domain_count'') \<noteq> None \<and> (\<forall>p. written (sys p)) \<and>
     ac_fzones_path cf \<notin> local_path (ac_rpz_dir cf) ` set rpz_filenames"

text \<open>No file of the agent has the truncated checksum of a served zone without its content.\<close>

definition no_collision :: "(string \<Rightarrow> string) \<Rightarrow> agent_conf \<Rightarrow> agent \<Rightarrow> files \<Rightarrow> bool" where
  "no_collision sha cf a fs \<longleftrightarrow>
     (\<forall>f \<in> set (read_rpz_files sha fs). \<forall>e. ag_files a (local_path (ac_rpz_dir cf) (rf_filename f)) = Some e \<longrightarrow>
        take 16 (sha (universal_newlines e)) = take 16 (sha (rf_content f)) \<longrightarrow> universal_newlines e = rf_content f)"

lemma pass_ready_cong: "same_node_tables d d' \<Longrightarrow> pass_ready sys cf pb key v now a d' = pass_ready sys cf pb key v now a d"
  by (simp add: same_node_tables_def pass_ready_def get_node_from_api_key_def get_setting_def)

lemma pass_installs:
  assumes ready: "pass_ready sys cf pb key v now a (w_db w)" and clear: "no_collision sha cf a (w_files w)"
    and zones: "w_files w combined_path = Some (render_rpz_zone n B ''blocklist-combined'')" "w_files w whitelist_path = Some (render_rpz_whitelist n A)"
    and hosts: "finite B" "finite A" "\<forall>h \<in> B \<union> A. host_name h"
  shows "\<exists>a' w'. agent_cycle sha sys cf (primary_link sha pb key v flush now) now scraped resolve a w = Inr (a', w') \<and>
    secondary_blocked (ac_rpz_dir cf) a' = B"
proof -
  let ?z = "render_rpz_zone n B ''blocklist-combined''" and ?y = "render_rpz_whitelist n A"
  have plain: "universal_newlines ?z = ?z" "universal_newlines ?y = ?y" using hosts by (simp_all add: rendered_no_cr)
  note read = read_both [OF zones plain, of sha]
  from ready obtain m k where m: "get_node_from_api_key key (w_db w) = Inr m" "n_version m = Some v"
      "py_int (get_setting (w_db w) ''precache_domain_count'') = Some k" by (auto simp: pass_ready_def)
  have files: "\<forall>f \<in> set (read_rpz_files sha (w_files w)). rf_content f \<noteq> [] \<and>
      (\<forall>e. ag_files a (local_path (ac_rpz_dir cf) (rf_filename f)) = Some e \<longrightarrow>
        take 16 (sha (universal_newlines e)) = take 16 (sha (rf_content f)) \<longrightarrow> universal_newlines e = rf_content f)"
    using clear rendered_nonempty unfolding no_collision_def read by simp
  have r: "fst (check_version_compatibility (Some pb) (Some v)) \<noteq> BLOCK" "table_wf nc_id (db_node_commands (w_db w))"
      "seconds (ac_config_sync_interval cf) \<le> now - ag_last_config_sync a" "\<forall>p. written (sys p)"
      "ac_fzones_path cf \<notin> local_path (ac_rpz_dir cf) ` set rpz_filenames"
    using ready unfolding pass_ready_def by blast+
  obtain a' w' where pass: "agent_cycle sha sys cf (primary_link sha pb key v flush now) now scraped resolve a w = Inr (a', w')"
    and installed: "\<forall>f \<in> set (read_rpz_files sha (w_files w)).
       map_option universal_newlines (ag_files a' (local_path (ac_rpz_dir cf) (rf_filename f))) = Some (rf_content f)"
    using agent_cycle_converges [OF m(1,2) r(1,2,3) m(3) r(4) files r(5)] by blast
  have "\<forall>h \<in> B. zone_safe h" using hosts(3) host_name_zone_safe by blast
  then have "zone_owners ''.'' ?z = B" using zone_owners_render(1) [OF hosts(1) _ newline_policy_name] by blast
  moreover have "map_option universal_newlines (ag_files a' (local_path (ac_rpz_dir cf) ''blocklist-combined.rpz'')) = Some ?z"
    using installed unfolding read by simp
  then obtain e where "ag_files a' (local_path (ac_rpz_dir cf) ''blocklist-combined.rpz'') = Some e" "universal_newlines e = ?z"
    by (meson map_option_eq_Some)
  ultimately have "secondary_blocked (ac_rpz_dir cf) a' = B" by (simp only: secondary_blocked_def option.case)
  with pass show ?thesis by blast
qed

text \<open>
  C1: what an administrator blocks is blocked on a secondary.  After an admitted request to block a
  new host name, an admitted request to apply, and one pass of the agent of a secondary whose sync is
  due, the zone on the secondary blocks exactly the names of manual entries and downloaded lists that
  no allow entry or list lets through, the new name among them unless it is let through.
\<close>

theorem block_reaches_secondary:
  assumes "admitted add s" and "wq_action add = Ui (Ui_Entries_Add x ''block'' comment referer)"
    and "host_name x" and "tbl_find (\<lambda>e. me_domain e = x) (db_manual (app_db s)) = None"
    and "admitted app s" and "wq_action app = Ui Ui_Blocklists_Apply"
    and "w_writable (app_world s) combined_path" and "w_writable (app_world s) whitelist_path"
    and "d = app_db (serve_all [add] s)" and "fetch = o_fetch (wq_outside app)"
    and "\<forall>h \<in> wanted_blocked fetch d \<union> wanted_allowed fetch d. host_name h"
    and "pass_ready sys cf pb key v now a (app_db s)"
    and "no_collision sha cf a (w_files (app_world (serve_all [add, app] s)))"
  shows "\<exists>a' w'. agent_cycle sha sys cf (primary_link sha pb key v flush now) now scraped resolve a (app_world (serve_all [add, app] s)) = Inr (a', w') \<and>
    secondary_blocked (ac_rpz_dir cf) a' = wanted_blocked fetch d \<and>
    (x \<in> secondary_blocked (ac_rpz_dir cf) a' \<longleftrightarrow> x \<notin> wanted_allowed fetch d)"
proof -
  let ?s1 = "snd (serve add s)" and ?s2 = "serve_all [add, app] s"
  have s2: "?s2 = snd (serve app ?s1)" and d: "d = app_db ?s1" by (simp_all add: serve_all_def assms(9))
  note entry = entry_request [OF assms(1-4)]
  have app: "admitted app ?s1" using admitted_users [OF entry(4)] assms(5) by simp
  have writable: "w_writable (app_world ?s1) combined_path" "w_writable (app_world ?s1) whitelist_path"
    using assms(7,8) entry(3) by simp_all
  note applied = apply_request [OF app assms(6) writable, folded d assms(10)]
  have "pass_ready sys cf pb key v now a (w_db (app_world ?s2))"
    using assms(12) pass_ready_cong [OF entry(1)] pass_ready_cong [OF applied(2)] by (simp add: s2 d app_db_def)
  then have "\<exists>a' w'. agent_cycle sha sys cf (primary_link sha pb key v flush now) now scraped resolve a (app_world ?s2) = Inr (a', w') \<and>
      secondary_blocked (ac_rpz_dir cf) a' = wanted_blocked fetch d"
    by (rule pass_installs [OF _ assms(13)]) (use applied(1) assms(11) in \<open>auto simp: s2 combined_path_def whitelist_path_def\<close>)
  moreover have "x \<in> wanted_blocked fetch d \<longleftrightarrow> x \<notin> wanted_allowed fetch d"
    using entry(2) by (auto simp: wanted_blocked_def d)
  ultimately show ?thesis by metis
qed

definition linked_db :: db where
  "linked_db = sample_node_db\<lparr>db_nodes := \<lparr>rows = [sample_node\<lparr>n_version := Some ''1.2.0''\<rparr>], next_id = 2\<rparr>,
     db_users := \<lparr>rows = [\<lparr>u_id = 1, u_username = ''admin'', u_password_hash = []\<rparr>], next_id = 2\<rparr>\<rparr>"

definition add_entry_request :: web_request where
  "add_entry_request = sample_request (Some 1) None (Some ''abc'') (Ui (Ui_Entries_Add ''ads.example'' ''block'' [] []))"

definition apply_lists_request :: web_request where
  "apply_lists_request = sample_request (Some 1) None (Some ''abc'') (Ui Ui_Blocklists_Apply)"

lemma sample_admitted:
  "admitted add_entry_request (sample_app linked_db)" "admitted apply_lists_request (sample_app linked_db)"
  by (simp_all add: admitted_def authorised_def carries_token_def submitted_token_def expected_token_def http_of_def is_token_def
      add_entry_request_def apply_lists_request_def sample_request_def sample_app_def get_current_user_def tbl_find_def linked_db_def)

lemma sample_entry_added:
  "rows (db_manual (app_db (serve_all [add_entry_request] (sample_app linked_db)))) =
     [\<lparr>me_id = 1, me_domain = ''ads.example'', me_entry_type = ''block'', me_comment = None, me_created_at = 7\<rparr>] \<and>
   rows (db_blocklists (app_db (serve_all [add_entry_request] (sample_app linked_db)))) = []"
proof -
  have tidy: "rstrip_by (\<lambda>c. c = CHR ''.'') (lower (strip ''ads.example'')) = ''ads.example''" by code_simp
  have find: "get_current_user (Some 1) linked_db = Some \<lparr>u_id = 1, u_username = ''admin'', u_password_hash = []\<rparr>"
    by (simp add: get_current_user_def tbl_find_def linked_db_def)
  show ?thesis
    by (simp add: serve_all_def admitted_handle [OF sample_admitted(1)])
       (simp add: add_entry_request_def sample_request_def handle_def on_db_def sample_app_def app_db_def entries_add_def find tidy
          tbl_find_def sample_outside_def Let_def, simp add: linked_db_def sample_node_defs)
qed

theorem block_reaches_secondary_witness:
  "\<exists>a' w'. agent_cycle (\<lambda>s. s) (\<lambda>_. Replaced) agent_settings
       (primary_link (\<lambda>s. s) ''1.3.0'' (Some ''k1'') ''1.2.0'' (\<lambda>_. Flushed 7) (seconds 300)) (seconds 300) None (\<lambda>_. None)
       (start_agent Map.empty (ensure_db 604800)) (app_world (serve_all [add_entry_request, apply_lists_request] (sample_app linked_db))) = Inr (a', w') \<and>
     secondary_blocked ''/rpz'' a' = {''ads.example''}"
proof -
  let ?s = "sample_app linked_db" and ?a = "start_agent Map.empty (ensure_db 604800)"
  let ?d = "app_db (serve_all [add_entry_request] ?s)"
  have wanted: "wanted_allowed f ?d = {}" "wanted_blocked f ?d = {''ads.example''}" for f
    using sample_entry_added
    by (simp_all add: wanted_allowed_def wanted_blocked_def manual_domains_def enabled_blocklists_def tbl_select_def)
  have host: "host_name ''ads.example''" by (simp add: host_name_def is_host_char_def)
  have "get_setting linked_db ''precache_domain_count'' = ''5000''"
    by (simp add: get_setting_def tbl_find_def linked_db_def sample_node_defs DEFAULTS_def)
  moreover have "py_int ''5000'' = Some 5000"
    by (simp add: py_int_def strip_def rstrip_by_def lstrip_by_def is_space_def is_digit_def digit_value_def)
  moreover have "fst (check_version_compatibility (Some ''1.3.0'') (Some ''1.2.0'')) \<noteq> BLOCK" by code_simp
  moreover have "table_wf nc_id (db_node_commands linked_db)" by (simp add: linked_db_def sample_node_db_def table_wf_def)
  ultimately have ready: "pass_ready (\<lambda>_. Replaced) agent_settings ''1.3.0'' (Some ''k1'') ''1.2.0'' (seconds 300) ?a (app_db ?s)"
    by (simp add: pass_ready_def sample_app_def app_db_def agent_settings_def start_agent_def written_def local_path_def
        rpz_filenames_def get_node_from_api_key_def tbl_find_def linked_db_def sample_node_def)
  have clear: "no_collision (\<lambda>s. s) agent_settings ?a fs" for fs by (simp add: no_collision_def start_agent_def)
  have "tbl_find (\<lambda>e. me_domain e = ''ads.example'') (db_manual (app_db ?s)) = None"
    by (simp add: sample_app_def app_db_def linked_db_def sample_node_defs tbl_find_def)
  moreover have "w_writable (app_world ?s) p" for p by (simp add: sample_app_def)
  moreover have "wq_action add_entry_request = Ui (Ui_Entries_Add ''ads.example'' ''block'' [] [])" "wq_action apply_lists_request = Ui Ui_Blocklists_Apply"
    by (simp_all add: add_entry_request_def apply_lists_request_def sample_request_def)
  ultimately show ?thesis
    using block_reaches_secondary [OF sample_admitted(1) _ host _ sample_admitted(2) _ _ _ refl refl _ ready clear, of "[]" "[]" "\<lambda>_. Flushed 7" None "\<lambda>_. None"] host
    by (auto simp: wanted agent_settings_def)
qed

end
