(* ===== verification/Presets.thy ===== *)
theory Presets
  imports Blocking Blocklists
begin

text \<open>
  The table of ready-made blocklists (\<open>admin-ui/app/presets.py\<close>), which the pages offer and whose
  buttons post the form of \<open>blocklists_add_preset\<close>.
\<close>

section \<open>The table\<close>

record preset_list =
  pl_category :: string
  pl_name :: string
  pl_url :: string
  pl_format :: string
  pl_list_type :: string
  pl_description :: string

definition preset :: "string \<Rightarrow> string \<Rightarrow> string \<Rightarrow> string \<Rightarrow> string \<Rightarrow> preset_list" where
  "preset category name url fmt description =
     \<lparr>pl_category = category, pl_name = name, pl_url = url, pl_format = fmt, pl_list_type = ''block'', pl_description = description\<rparr>"

text \<open>The apostrophe of the third description is three bytes in UTF-8.\<close>

definition PRESET_LISTS :: "preset_list list" where
  "PRESET_LISTS =
     [preset ''Ads/Tracking'' ''StevenBlack Unified (ads+malware)''
        ''https://raw.githubusercontent.com/StevenBlack/hosts/master/hosts'' ''hosts''
        ''Popular consolidated hosts file. Good baseline with low maintenance.'',
      preset ''Ads/Tracking'' ''AdAway (ads)'' ''https://adaway.org/hosts.txt'' ''hosts''
        ''Conservative, well-maintained ad blocking hosts file.'',
      preset ''Ads/Tracking'' ''AdGuard DNS filter (hosts)'' ''https://v.firebog.net/hosts/AdguardDNS.txt'' ''hosts''
        (''AdGuard'' @ [CHR 0xE2, CHR 0x80, CHR 0x99] @ ''s DNS-focused blocklist in hosts format.''),
      preset ''Ads/Tracking'' ''Peter Lowe (ad/tracking)''
        ''https://pgl.yoyo.org/adservers/serverlist.php?hostformat=hosts&showintro=0&mimetype=plaintext'' ''hosts''
        ''Long-running ad server list (low breakage).'',
      preset ''Malware'' ''URLHaus (malware)'' ''https://urlhaus.abuse.ch/downloads/hostfile/'' ''hosts''
        ''Malware distribution domains (frequently updated).'',
      preset ''Malware'' ''ThreatFox (malware)'' ''https://threatfox.abuse.ch/downloads/hostfile/'' ''hosts''
        ''Threat intel feed for malware domains.'',
      preset ''Phishing/Scams'' ''Phishing Army (extended)''
        ''https://phishing.army/download/phishing_army_blocklist_extended.txt'' ''domains''
        ''Phishing and scam domains.'',
      preset ''Telemetry'' ''Windows telemetry (WindowsSpyBlocker)''
        ''https://raw.githubusercontent.com/crazy-max/WindowsSpyBlocker/master/data/hosts/spy.txt'' ''hosts''
        ''Blocks known Windows telemetry domains.'',
      preset ''Adult'' ''StevenBlack (porn extension)''
        ''https://raw.githubusercontent.com/StevenBlack/hosts/master/extensions/porn/hosts'' ''hosts''
        ''Adult content extension maintained by StevenBlack.'']"

section \<open>Adding presets\<close>

definition post_preset :: "instant \<Rightarrow> int option \<Rightarrow> preset_list \<Rightarrow> db \<Rightarrow> db" where
  "post_preset now sid p d = snd (blocklists_add_preset now sid (pl_name p) (pl_url p) (pl_format p) (pl_list_type p) d)"

definition add_presets :: "instant \<Rightarrow> int option \<Rightarrow> preset_list list \<Rightarrow> db \<Rightarrow> db" where
  "add_presets now sid ps d = fold (post_preset now sid) ps d"

definition known_url :: "db \<Rightarrow> string \<Rightarrow> bool" where
  "known_url d url \<longleftrightarrow> url \<in> set (map bl_url (rows (db_blocklists d)))"

definition preset_row :: "instant \<Rightarrow> preset_list \<Rightarrow> int \<Rightarrow> blocklist" where
  "preset_row now p =
     new_blocklist now (strip (pl_name p)) (strip (pl_url p)) (strip (pl_format p)) (strip (pl_list_type p)) True 24"

lemma find_url: "tbl_find (\<lambda>b. bl_url b = url) (db_blocklists d) = None \<longleftrightarrow> \<not> known_url d url"
  by (auto simp: tbl_find_def find_None_iff known_url_def)

lemma post_preset_cases:
  assumes "get_current_user sid d = Some u"
  shows "post_preset now sid p d =
    (if known_url d (strip (pl_url p)) then d else d\<lparr>db_blocklists := tbl_insert (preset_row now p) (db_blocklists d)\<rparr>)"
  using assms find_url [of "strip (pl_url p)" d]
  by (simp add: post_preset_def blocklists_add_preset_def insert_blocklist_def preset_row_def new_blocklist_def Let_def)

lemma preset_row_url [simp]: "bl_url (preset_row now p i) = strip (pl_url p)"
  by (simp add: preset_row_def new_blocklist_def)

lemma post_preset_urls:
  "get_current_user sid d = Some u \<Longrightarrow>
   known_url (post_preset now sid p d) url \<longleftrightarrow> known_url d url \<or> url = strip (pl_url p)"
  by (auto simp: post_preset_cases known_url_def)

lemma post_preset_user:
  "get_current_user sid d = Some u \<Longrightarrow> get_current_user sid (post_preset now sid p d) = Some u"
  using get_current_user_frame [of "post_preset now sid p d" d sid] by (simp add: post_preset_cases)

lemma add_presets_Cons: "add_presets now sid (p # ps) d = add_presets now sid ps (post_preset now sid p d)"
  by (simp add: add_presets_def)

lemma add_presets_known:
  "\<lbrakk>get_current_user sid d = Some u; \<forall>p \<in> set ps. known_url d (strip (pl_url p))\<rbrakk> \<Longrightarrow> add_presets now sid ps d = d"
  by (induction ps) (simp_all add: add_presets_Cons post_preset_cases add_presets_def)

lemma add_presets_urls:
  "get_current_user sid d = Some u \<Longrightarrow>
   get_current_user sid (add_presets now sid ps d) = Some u \<and>
   (known_url (add_presets now sid ps d) url \<longleftrightarrow> known_url d url \<or> url \<in> (\<lambda>p. strip (pl_url p)) ` set ps)"
proof (induction ps arbitrary: d)
  case (Cons p ps)
  then show ?case using Cons.IH [OF post_preset_user [OF Cons.prems]] post_preset_urls [OF Cons.prems]
    by (auto simp: add_presets_Cons)
qed (simp add: add_presets_def)

text \<open>The rows that are added: the unknown ones, in order, under consecutive ids.\<close>

fun preset_rows :: "instant \<Rightarrow> int \<Rightarrow> preset_list list \<Rightarrow> blocklist list" where
  "preset_rows now i [] = []"
| "preset_rows now i (p # ps) = preset_row now p i # preset_rows now (i + 1) ps"

lemma add_presets_rows:
  assumes "get_current_user sid d = Some u" and "distinct (map (\<lambda>p. strip (pl_url p)) ps)"
  shows "rows (db_blocklists (add_presets now sid ps d)) =
    rows (db_blocklists d) @ preset_rows now (next_id (db_blocklists d)) (filter (\<lambda>p. \<not> known_url d (strip (pl_url p))) ps)"
  using assms
proof (induction ps arbitrary: d)
  case (Cons p ps)
  have rest: "filter (\<lambda>q. \<not> known_url (post_preset now sid p d) (strip (pl_url q))) ps =
      filter (\<lambda>q. \<not> known_url d (strip (pl_url q))) ps"
    using Cons.prems by (intro filter_cong) (auto simp: post_preset_urls [OF Cons.prems(1)] image_iff)
  have "distinct (map (\<lambda>p. strip (pl_url p)) ps)" using Cons.prems(2) by simp
  from Cons.IH [OF post_preset_user [OF Cons.prems(1), of now p] this] show ?case
    unfolding add_presets_Cons rest by (simp add: post_preset_cases [OF Cons.prems(1)])
qed (simp add: add_presets_def)

section \<open>The table is in order\<close>

lemma preset_urls_distinct: "distinct (map (\<lambda>p. strip (pl_url p)) PRESET_LISTS)"
  by code_simp

lemma preset_formats: "list_all (\<lambda>p. strip (pl_format p) \<in> {''hosts'', ''domains''} \<and> strip (pl_list_type p) = ''block'') PRESET_LISTS"
  by code_simp

lemma preset_rows_fields:
  "b \<in> set (preset_rows now i ps) \<Longrightarrow> \<exists>p \<in> set ps. \<exists>k. b = preset_row now p k"
  by (induction ps arbitrary: i) auto

text \<open>
  A logged-in user who presses the button of every preset gets each list whose address was not
  there, enabled, as a block list in a format that the parser knows; what was there stays as it was,
  and pressing again changes nothing.
\<close>

theorem presets_install:
  assumes "get_current_user sid d = Some u"
  shows "let d' = add_presets now sid PRESET_LISTS d
    in (\<exists>new. rows (db_blocklists d') = rows (db_blocklists d) @ new \<and>
          list_all (\<lambda>b. bl_enabled b \<and> bl_list_type b = ''block'' \<and> bl_format b \<in> {''hosts'', ''domains''} \<and> \<not> known_url d (bl_url b)) new) \<and>
       list_all (\<lambda>p. known_url d' (strip (pl_url p))) PRESET_LISTS \<and>
       add_presets now' sid PRESET_LISTS d' = d'"
proof -
  let ?d = "add_presets now sid PRESET_LISTS d" and ?new = "filter (\<lambda>p. \<not> known_url d (strip (pl_url p))) PRESET_LISTS"
  have known: "\<forall>p \<in> set PRESET_LISTS. known_url ?d (strip (pl_url p))"
    using add_presets_urls [OF assms, of now PRESET_LISTS] by blast
  have user: "get_current_user sid ?d = Some u" using add_presets_urls [OF assms, of now PRESET_LISTS] by blast
  have "list_all (\<lambda>b. bl_enabled b \<and> bl_list_type b = ''block'' \<and> bl_format b \<in> {''hosts'', ''domains''} \<and> \<not> known_url d (bl_url b))
      (preset_rows now (next_id (db_blocklists d)) ?new)"
    using preset_formats by (auto simp: list_all_iff preset_row_def new_blocklist_def dest!: preset_rows_fields)
  with add_presets_rows [OF assms preset_urls_distinct, of now] known add_presets_known [OF user known]
  show ?thesis by (auto simp: Let_def list_all_iff)
qed

definition preset_db :: db where
  "preset_db = empty_db\<lparr>db_users := \<lparr>rows = [\<lparr>u_id = 1, u_username = ''admin'', u_password_hash = []\<rparr>], next_id = 2\<rparr>\<rparr>"

theorem presets_install_witness:
  "get_current_user (Some 1) preset_db \<noteq> None \<and> list_all (\<lambda>p. known_url (add_presets 5 (Some 1) PRESET_LISTS preset_db) (strip (pl_url p))) PRESET_LISTS"
proof -
  have user: "get_current_user (Some 1) preset_db = Some \<lparr>u_id = 1, u_username = ''admin'', u_password_hash = []\<rparr>"
    by (simp add: get_current_user_def preset_db_def tbl_find_def)
  from presets_install [OF user, of 5 6] user show ?thesis unfolding Let_def by simp
qed

end
