(* ===== verification/Page_Shell.thy ===== *)
theory Page_Shell
  imports Web_Security
begin

text \<open>
  What surrounds the pages: the wrapper around the framework's template response
  (\<open>admin-ui/app/template_utils.py\<close>), the help pages and the frame around Grafana
  (\<open>routers/help.py\<close>, \<open>routers/metrics_dashboard.py\<close>), the login form (\<open>routers/auth.py\<close>) and the
  proxy in front of Grafana (\<open>routers/grafana_proxy.py\<close>), with the HTTP client as a parameter.
\<close>

section \<open>Template responses\<close>

text \<open>Arguments as far as the wrapper looks at them; numbers name the other objects.\<close>

datatype pyobj = P_Request nat | P_Str string | P_Dict "(string \<times> pyobj) list" | P_None | P_Other nat

type_synonym call = "pyobj list \<times> (string \<times> pyobj) list"

text \<open>An argument by position fills its name, if the call did not give it by name.\<close>

definition fill :: "pyobj list \<Rightarrow> nat \<Rightarrow> string \<Rightarrow> (string \<times> pyobj) list \<Rightarrow> (string \<times> pyobj) list" where
  "fill args i name kwargs =
     (if i < length args \<and> map_of kwargs name = None then kwargs @ [(name, args ! i)] else kwargs)"

text \<open>
  The call of the framework's method that the wrapper makes, or the exception it raises.  A context
  given twice is refused by Python.
\<close>

definition template_response :: "pyobj list \<Rightarrow> (string \<times> pyobj) list \<Rightarrow> call py_result" where
  "template_response args kwargs =
     (case args of
        P_Str name # rest \<Rightarrow>
          (let (context, kwargs1) =
                 (case rest of
                    c # cs \<Rightarrow> (c, kwargs)
                  | [] \<Rightarrow> (case map_of kwargs ''context'' of
                            None \<Rightarrow> (P_None, kwargs)
                          | Some c \<Rightarrow> (c, AList.delete ''context'' kwargs)))
           in case context of
                P_Dict ctx \<Rightarrow>
                  (case map_of ctx ''request'' of
                     Some (P_Request r) \<Rightarrow>
                       (let kwargs2 = fill args 5 ''background'' (fill args 4 ''media_type''
                              (fill args 3 ''headers'' (fill args 2 ''status_code'' kwargs1)))
                        in if length args > 6 then Inl TypeError
                           else if map_of kwargs2 ''context'' \<noteq> None then Inl TypeError
                           else Inr ([P_Request r, P_Str name], (''context'', P_Dict ctx) # kwargs2))
                   | _ \<Rightarrow> Inl TypeError)
              | _ \<Rightarrow> Inr (args, kwargs1))
      | _ \<Rightarrow> Inr (args, kwargs))"

definition csrf_input :: "string option \<Rightarrow> string" where
  "csrf_input token = csrf_token_input (case token of None \<Rightarrow> [] | Some t \<Rightarrow> t)"

text \<open>A call in the new form goes through; one in the old form becomes one in the new form.\<close>

lemma new_form_unchanged: "template_response (P_Request r # args) kwargs = Inr (P_Request r # args, kwargs)"
  by (simp add: template_response_def)

lemma map_of_fill:
  "map_of (fill args i n kw) k = (if k = n \<and> i < length args \<and> map_of kw n = None then Some (args ! i) else map_of kw k)"
  by (cases "map_of kw k") (auto simp: fill_def map_add_def)

lemma fill_le: "map_of kw \<subseteq>\<^sub>m map_of (fill args i n kw)"
  by (auto simp: map_le_def map_of_fill)

lemma old_form_translated:
  assumes "map_of ctx ''request'' = Some (P_Request r)" and "length args \<le> 4" and "map_of kwargs ''context'' = None"
  shows "\<exists>kwargs'. template_response (P_Str name # P_Dict ctx # args) kwargs =
      Inr ([P_Request r, P_Str name], (''context'', P_Dict ctx) # kwargs') \<and> map_of kwargs \<subseteq>\<^sub>m map_of kwargs'"
proof -
  let ?as = "P_Str name # P_Dict ctx # args"
  let ?k = "fill ?as 5 ''background'' (fill ?as 4 ''media_type'' (fill ?as 3 ''headers'' (fill ?as 2 ''status_code'' kwargs)))"
  have "map_of ?k ''context'' = None" using assms(3) by (simp add: map_of_fill)
  then have "template_response ?as kwargs = Inr ([P_Request r, P_Str name], (''context'', P_Dict ctx) # ?k)"
    using assms(1,2) by (simp add: template_response_def)
  moreover have "map_of kwargs \<subseteq>\<^sub>m map_of ?k" by (intro map_le_trans [OF _ fill_le] fill_le)
  ultimately show ?thesis by blast
qed

section \<open>Help, dashboard, login\<close>

text \<open>A page by the name of its template, or an exception when there is no such template.\<close>

datatype 'c shell_response = ShellRedirect string | ShellPage string 'c | ShellRaised

definition help_index :: "int option \<Rightarrow> db \<Rightarrow> string option shell_response" where
  "help_index sid d =
     (case get_current_user sid d of
        None \<Rightarrow> ShellRedirect ''/login''
      | Some u \<Rightarrow> ShellPage ''help/index.html'' None)"

definition help_topic :: "(string \<Rightarrow> bool) \<Rightarrow> int option \<Rightarrow> string \<Rightarrow> db \<Rightarrow> string option shell_response" where
  "help_topic template_exists sid topic d =
     (case get_current_user sid d of
        None \<Rightarrow> ShellRedirect ''/login''
      | Some u \<Rightarrow>
          (let template = ''help/'' @ topic @ ''.html''
           in if template_exists template then ShellPage template (Some topic) else ShellRaised))"

definition advanced_metrics :: "int option \<Rightarrow> db \<Rightarrow> string shell_response" where
  "advanced_metrics sid d =
     (case get_current_user sid d of
        None \<Rightarrow> ShellRedirect ''/login''
      | Some u \<Rightarrow>
          (let dashboard_url = ''/grafana/d/powerblockade-analytics/query-analytics?orgId=1&kiosk&theme=dark''
           in ShellPage ''metrics_dashboard.html'' dashboard_url))"

definition login_get :: "string option shell_response" where
  "login_get = ShellPage ''login.html'' None"

section \<open>The proxy\<close>

text \<open>Header names of a request are in lower case; a name given twice counts once, the last one.\<close>

type_synonym headers = "(string \<times> string) list"

record proxied =
  px_method :: string
  px_url :: string
  px_headers :: headers
  px_content :: "string option"

text \<open>
  An upstream response: its content with the content encoding undone, its status and its headers,
  repeated names joined.
\<close>

record upstream =
  up_content :: string
  up_status :: int
  up_headers :: headers

definition GRAFANA_BASE :: "string \<Rightarrow> string" where
  "GRAFANA_BASE grafana_url = rstrip_by (\<lambda>c. c = CHR ''/'') grafana_url"

definition proxy_request :: "string \<Rightarrow> string \<Rightarrow> string \<Rightarrow> string \<Rightarrow> headers \<Rightarrow> string \<Rightarrow> proxied" where
  "proxy_request grafana_url method path query_params request_headers body =
     (let target_url = GRAFANA_BASE grafana_url @ ''/grafana/'' @ path;
          target_url1 = (if query_params = [] then target_url else target_url @ ''?'' @ query_params);
          hs = fold (\<lambda>(k, v). AList.update k v) request_headers [];
          hs1 = AList.delete ''content-length'' (AList.delete ''host'' hs)
      in \<lparr>px_method = method, px_url = target_url1, px_headers = hs1, px_content = (if body = [] then None else Some body)\<rparr>)"

definition excluded_headers :: "string list" where
  "excluded_headers = [''content-encoding'', ''transfer-encoding'', ''connection'']"

definition proxy_response :: "upstream \<Rightarrow> upstream" where
  "proxy_response r = r\<lparr>up_headers := filter (\<lambda>(k, v). lower k \<notin> set excluded_headers) (up_headers r)\<rparr>"

definition proxy_grafana ::
  "(proxied \<Rightarrow> string + upstream) \<Rightarrow> string \<Rightarrow> string \<Rightarrow> string \<Rightarrow> string \<Rightarrow> headers \<Rightarrow> string \<Rightarrow> string + upstream" where
  "proxy_grafana client grafana_url method path query_params request_headers body =
     map_sum id proxy_response (client (proxy_request grafana_url method path query_params request_headers body))"

lemma header_kept:
  "map_of (fold (\<lambda>(k, v). AList.update k v) hs acc) k =
   (case map_of (rev hs) k of None \<Rightarrow> map_of acc k | Some v \<Rightarrow> Some v)"
  by (induction hs arbitrary: acc) (auto simp: update_conv' map_add_def split: option.splits)

text \<open>Every header but two is passed on, the cookie with the administrator's session among them.\<close>

lemma proxy_forwards_headers:
  assumes "k \<noteq> ''host''" and "k \<noteq> ''content-length''"
  shows "map_of (px_headers (proxy_request grafana_url method path query_params hs body)) k = map_of (rev hs) k"
  using assms by (simp add: proxy_request_def Let_def delete_conv' header_kept split: option.split)

text \<open>The length the upstream gave for the encoded body is passed on with the decoded body.\<close>

lemma proxy_keeps_length:
  assumes "client (proxy_request grafana_url method path query_params hs body) = Inr r"
    and "map_of (up_headers r) ''content-length'' = Some n"
  shows "\<exists>r'. proxy_grafana client grafana_url method path query_params hs body = Inr r' \<and>
    up_content r' = up_content r \<and> map_of (up_headers r') ''content-length'' = Some n"
proof -
  have "map_of (filter (\<lambda>(k, v). lower k \<notin> set excluded_headers) xs) ''content-length'' = map_of xs ''content-length''" for xs :: headers
    by (induction xs) (auto simp: excluded_headers_def lower_def lower_char_def)
  then show ?thesis using assms by (simp add: proxy_grafana_def proxy_response_def)
qed

lemma proxy_drops_encoding:
  "proxy_grafana client grafana_url method path query_params hs body = Inr r \<Longrightarrow>
   (k, v) \<in> set (up_headers r) \<Longrightarrow> lower k \<notin> set excluded_headers"
  by (cases "client (proxy_request grafana_url method path query_params hs body)") (auto simp: proxy_grafana_def proxy_response_def)

end
