(* ===== verification/Warm_Probes.thy ===== *)
theory Warm_Probes
  imports Boot_Burst
begin

text \<open>
  Warm queries and readiness probes down to the network (\<open>admin-ui/app/services/precache.py\<close>,
  \<open>services/boot_burst.py\<close>): the system resolver, the DNS library and the HTTP client are parameters.
\<close>

section \<open>The network\<close>

text \<open>
  Whether a text is an IPv4 address for the system, the address of a host name if there is one, the
  query for a pair, or why it cannot be built, and what a query to a server and port comes back with.
\<close>

record 'q network =
  nw_inet_aton :: "string \<Rightarrow> bool"
  nw_gethostbyname :: "string \<Rightarrow> string option"
  nw_make_query :: "string \<Rightarrow> int \<Rightarrow> string + 'q"
  nw_udp :: "'q \<Rightarrow> string \<Rightarrow> int \<Rightarrow> dns_reply"

definition resolve_dns_server :: "'q network \<Rightarrow> string \<Rightarrow> string" where
  "resolve_dns_server nw dns_server =
     (if nw_inet_aton nw dns_server then dns_server
      else (case nw_gethostbyname nw dns_server of Some ip \<Rightarrow> ip | None \<Rightarrow> dns_server))"

definition build_warm_query :: "'q network \<Rightarrow> string \<Rightarrow> int \<Rightarrow> string + 'q" where
  "build_warm_query nw qname qtype = nw_make_query nw qname qtype"

text \<open>The query of \<open>warm_pair_ex\<close>, any exception on the way included.\<close>

definition ask_edge :: "'q network \<Rightarrow> string \<Rightarrow> int \<Rightarrow> string \<Rightarrow> int \<Rightarrow> dns_reply" where
  "ask_edge nw qname qtype dns_server dns_port =
     (case build_warm_query nw qname qtype of
        Inl e \<Rightarrow> Raised e
      | Inr query \<Rightarrow> nw_udp nw query (resolve_dns_server nw dns_server) dns_port)"

definition warm_pair :: "'q network \<Rightarrow> string \<Rightarrow> int \<Rightarrow> string \<Rightarrow> int \<Rightarrow> int option" where
  "warm_pair nw qname qtype dns_server dns_port = pw_ttl (warm_pair_ex (ask_edge nw qname qtype dns_server dns_port))"

section \<open>The probes\<close>

definition probe_dns_edge :: "'q network \<Rightarrow> string \<Rightarrow> int \<Rightarrow> bool" where
  "probe_dns_edge nw server dns_port =
     (case ask_edge nw ''.'' 2 server dns_port of Raised e \<Rightarrow> False | Response r \<Rightarrow> True)"

text \<open>An HTTP request is answered, answered with an error status, or fails.\<close>

datatype http_outcome = Answered | HTTPError nat | NoAnswer string

definition probe_recursor_api :: "(string \<Rightarrow> http_outcome) \<Rightarrow> string \<Rightarrow> bool" where
  "probe_recursor_api urlopen url =
     (if url = [] then True
      else (case urlopen (rstrip_by (\<lambda>c. c = CHR ''/'') url @ ''/metrics'') of
              Answered \<Rightarrow> True
            | HTTPError code \<Rightarrow> True
            | NoAnswer e \<Rightarrow> False))"

text \<open>The gate with its own probes; the network and the answers differ from round to round.\<close>

definition readiness_gate ::
  "(nat \<Rightarrow> 'q network) \<Rightarrow> (nat \<Rightarrow> string \<Rightarrow> http_outcome) \<Rightarrow> (nat \<Rightarrow> nat) \<Rightarrow> nat \<Rightarrow> string \<Rightarrow> string \<Rightarrow> int \<Rightarrow> bool \<times> nat" where
  "readiness_gate nw urlopen dur clock recursor_api_url dns_server dns_port =
     wait_for_dns_readiness (\<lambda>i. probe_dns_edge (nw i) dns_server dns_port)
       (\<lambda>i. probe_recursor_api (urlopen i) recursor_api_url) dur clock"

section \<open>The summary in the log\<close>

text \<open>
  Whether it is a warning, and its text.  \<open>fixed\<close> prints with the given number of decimals,
  \<open>general\<close> as Python's format \<open>g\<close>; \<open>show_pair\<close> prints the pair of a failure.
\<close>

definition log_summary ::
  "(nat \<Rightarrow> rat \<Rightarrow> string) \<Rightarrow> (rat \<Rightarrow> string) \<Rightarrow> (pair \<Rightarrow> string) \<Rightarrow> boot_burst_result \<Rightarrow> bool \<times> string" where
  "log_summary fixed general show_pair r =
     (let summary = ''Boot warm burst '' @ br_status r @ (if br_reason r = [] then [] else '' ('' @ br_reason r @ '')'') @ '': '' @
            show_nat (br_succeeded r) @ '' warmed / '' @ show_nat (br_failed r) @ '' failed / '' @
            show_nat (br_skipped_fresh r) @ '' skipped-fresh, '' @ show_nat (br_queries_sent r) @ '' queries sent '' @
            ''in '' @ fixed 1 (br_duration r) @ ''s (qps<='' @ general (br_qps r) @ '', workers='' @ show_int (br_concurrency r) @
            '', planned window ~'' @ fixed 0 (br_planned_window r) @ ''s)''
      in if br_failed r > 0
         then (True, summary @ ''; top failures: ['' @
                 join '', '' (map (\<lambda>(p, n, e). show_pair p) (take 5 (br_top_failures r))) @ '']'')
         else (False, summary))"

section \<open>Facts\<close>

text \<open>A pair counts as warmed exactly when the edge answers without an error code.\<close>

lemma warm_pair_iff:
  "warm_pair nw qname qtype server dns_port \<noteq> None \<longleftrightarrow>
   (\<exists>r. ask_edge nw qname qtype server dns_port = Response r \<and> dr_rcode r = 0)"
  by (cases "ask_edge nw qname qtype server dns_port") (auto simp: warm_pair_def split: option.splits)

text \<open>For the probe any answer will do, so the gate opens while every name fails to warm.\<close>

lemma servfail_is_ready:
  assumes "\<And>i. ask_edge (nw i) ''.'' 2 server dns_port = Response r"
  shows "readiness_gate nw urlopen dur clock [] server dns_port = (True, 1)"
proof -
  have "probe_dns_edge (nw 0) server dns_port" "probe_recursor_api (urlopen 0) []"
    by (simp_all add: probe_dns_edge_def probe_recursor_api_def assms)
  then show ?thesis by (simp add: readiness_gate_def wait_for_dns_readiness_def wait_from.simps)
qed

text \<open>An address that cannot be resolved is used as it is.\<close>

lemma resolve_dns_server_cases:
  "resolve_dns_server nw s = s \<or> (\<not> nw_inet_aton nw s \<and> nw_gethostbyname nw s = Some (resolve_dns_server nw s))"
  by (simp add: resolve_dns_server_def split: option.split)

end
