(* ===== verification/Log_Names.thy ===== *)
theory Log_Names
  imports Analytics
begin

text \<open>
  The names of the lists that block a set of domains, for the pages of the query log
  (\<open>admin-ui/app/routers/analytics.py\<close>).  The order of a Python set and of rows without an \<open>ORDER BY\<close>
  is unspecified; the orders of the list of domains and of the tables stand for them.
\<close>

definition norm_domain :: "string \<Rightarrow> string" where
  "norm_domain s = lower (rstrip_by (\<lambda>c. c = CHR ''.'') s)"

text \<open>The pairs of an entry's domain and the name of its list, for enabled lists.\<close>

definition listed_entries :: "string list \<Rightarrow> db \<Rightarrow> (string \<times> string) list" where
  "listed_entries names d =
     concat (map (\<lambda>e. map (\<lambda>b. (be_domain e, bl_name b))
         (tbl_select (\<lambda>b. bl_id b = be_blocklist_id e \<and> bl_enabled b) (db_blocklists d)))
       (tbl_select (\<lambda>e. lower (be_domain e) \<in> set names) (db_entries d)))"

definition note_list :: "(string \<times> string) list \<Rightarrow> string \<times> string \<Rightarrow> (string \<times> string) list \<Rightarrow> (string \<times> string) list" where
  "note_list normalized en result =
     (case map_of normalized (lower (fst en)) of
        None \<Rightarrow> result
      | Some original \<Rightarrow>
          if original \<noteq> [] \<and> map_of result original = None then AList.update original (snd en) result else result)"

definition note_manual :: "(string \<times> string) list \<Rightarrow> string \<Rightarrow> (string \<times> string) list \<Rightarrow> (string \<times> string) list" where
  "note_manual normalized dn result =
     (case map_of normalized (lower dn) of
        None \<Rightarrow> result
      | Some original \<Rightarrow> if original \<noteq> [] then AList.update original ''Manual'' result else result)"

definition get_blocklist_names :: "string list \<Rightarrow> db \<Rightarrow> (string \<times> string) list" where
  "get_blocklist_names domains d =
     (if domains = [] then []
      else
        (let normalized = fold (\<lambda>x. AList.update (norm_domain x) x) domains [];
             names = map fst normalized;
             result = fold (note_list normalized) (listed_entries names d) [];
             remaining = filter (\<lambda>n. case map_of normalized n of None \<Rightarrow> True | Some x \<Rightarrow> map_of result x = None) names;
             manual = map me_domain (tbl_select (\<lambda>m. lower (me_domain m) \<in> set remaining \<and> me_entry_type m = ''block'') (db_manual d))
         in if remaining = [] then result else fold (note_manual normalized) manual result))"

section \<open>Facts\<close>

lemma normalized_inverse:
  assumes "\<And>k x. map_of acc k = Some x \<Longrightarrow> norm_domain x = k \<and> x \<in> S" and "set xs \<subseteq> S"
  shows "map_of (fold (\<lambda>x. AList.update (norm_domain x) x) xs acc) k = Some x \<Longrightarrow> norm_domain x = k \<and> x \<in> S"
  using assms
proof (induction xs arbitrary: acc)
  case (Cons y ys)
  show ?case
  proof (rule Cons.IH)
    show "map_of (fold (\<lambda>x. AList.update (norm_domain x) x) ys (AList.update (norm_domain y) y acc)) k = Some x"
      using Cons.prems(1) by simp
    fix j z
    assume "map_of (AList.update (norm_domain y) y acc) j = Some z"
    then show "norm_domain z = j \<and> z \<in> S" using Cons.prems(2,3) by (auto simp: update_conv' split: if_splits)
  qed (use Cons.prems(3) in simp)
qed simp

text \<open>A name is that of an enabled list with an entry for the domain, or stands for a manual entry.\<close>

definition list_reason :: "db \<Rightarrow> string \<Rightarrow> string \<Rightarrow> bool" where
  "list_reason d x name \<longleftrightarrow>
     (\<exists>e \<in> set (rows (db_entries d)). \<exists>b \<in> set (rows (db_blocklists d)).
        lower (be_domain e) = norm_domain x \<and> bl_id b = be_blocklist_id e \<and> bl_enabled b \<and> bl_name b = name) \<or>
     name = ''Manual'' \<and> (\<exists>m \<in> set (rows (db_manual d)). lower (me_domain m) = norm_domain x \<and> me_entry_type m = ''block'')"

lemma fold_result:
  assumes "\<And>en res. en \<in> set ens \<Longrightarrow> (\<And>x n. map_of res x = Some n \<Longrightarrow> P x n) \<Longrightarrow> (\<And>x n. map_of (f en res) x = Some n \<Longrightarrow> P x n)"
    and "\<And>x n. map_of res x = Some n \<Longrightarrow> P x n"
  shows "map_of (fold f ens res) x = Some n \<Longrightarrow> P x n"
  using assms
proof (induction ens arbitrary: res)
  case (Cons en ens)
  show ?case
  proof (rule Cons.IH)
    show "map_of (fold f ens (f en res)) x = Some n" using Cons.prems(1) by simp
    show "map_of (f en' res') y = Some m \<Longrightarrow> P y m"
      if "en' \<in> set ens" "\<And>x n. map_of res' x = Some n \<Longrightarrow> P x n" for en' res' y m
      using Cons.prems(2) [of en' res'] that by simp
    show "map_of (f en res) y = Some m \<Longrightarrow> P y m" for y m
      using Cons.prems(2) [of en res] Cons.prems(3) by simp
  qed
qed simp

lemma blocklist_names_sound:
  assumes "map_of (get_blocklist_names domains d) x = Some name"
  shows "x \<in> set domains \<and> list_reason d x name"
proof -
  define nz where "nz = fold (\<lambda>x. AList.update (norm_domain x) x) domains []"
  have nz: "map_of nz k = Some y \<Longrightarrow> norm_domain y = k \<and> y \<in> set domains" for k y
    unfolding nz_def using normalized_inverse [of "[]" "set domains" domains k y] by simp
  let ?ens = "listed_entries (map fst nz) d" and ?P = "\<lambda>x n. x \<in> set domains \<and> list_reason d x n"
  define res where "res = fold (note_list nz) ?ens []"
  have lists: "?P y n" if "map_of res y = Some n" for y n
    using that unfolding res_def
  proof (rule fold_result [where P = ?P, rotated 2])
    show "?P z k" if en: "en \<in> set ?ens" and IH: "\<And>x n. map_of r x = Some n \<Longrightarrow> ?P x n"
      and z: "map_of (note_list nz en r) z = Some k" for en r z k
    proof (cases "map_of r z = Some k")
      case False
      with z have "map_of nz (lower (fst en)) = Some z" "k = snd en"
        by (auto simp: note_list_def update_conv' split: option.splits if_splits)
      moreover from en obtain e b where "e \<in> set (rows (db_entries d))" "b \<in> set (rows (db_blocklists d))"
          "bl_id b = be_blocklist_id e" "bl_enabled b" "en = (be_domain e, bl_name b)"
        by (auto simp: listed_entries_def tbl_select_def)
      ultimately show ?thesis using nz [of "lower (fst en)" z] unfolding list_reason_def by auto
    qed (rule IH)
  qed simp
  have manual: "?P y n" if "map_of (fold (note_manual nz) ms res) y = Some n"
    and "\<forall>m \<in> set ms. \<exists>e \<in> set (rows (db_manual d)). me_domain e = m \<and> me_entry_type e = ''block''" for ms y n
    using that(1)
  proof (rule fold_result [where P = ?P, rotated 2])
    show "?P z k" if en: "m \<in> set ms" and IH: "\<And>x n. map_of r x = Some n \<Longrightarrow> ?P x n"
      and z: "map_of (note_manual nz m r) z = Some k" for m r z k
    proof (cases "map_of r z = Some k")
      case False
      with z have "map_of nz (lower m) = Some z" "k = ''Manual''"
        by (auto simp: note_manual_def update_conv' split: option.splits if_splits)
      with nz en \<open>\<forall>m \<in> set ms. _ m\<close> show ?thesis by (fastforce simp: list_reason_def)
    qed (rule IH)
  qed (rule lists)
  let ?remaining = "filter (\<lambda>n. case map_of nz n of None \<Rightarrow> True | Some x \<Rightarrow> map_of res x = None) (map fst nz)"
  let ?ms = "map me_domain (tbl_select (\<lambda>m. lower (me_domain m) \<in> set ?remaining \<and> me_entry_type m = ''block'') (db_manual d))"
  have "\<forall>m \<in> set ?ms. \<exists>e \<in> set (rows (db_manual d)). me_domain e = m \<and> me_entry_type e = ''block''"
    by (auto simp: tbl_select_def)
  note by_hand = manual [OF _ this]
  have "get_blocklist_names domains d =
      (if domains = [] then [] else if ?remaining = [] then res else fold (note_manual nz) ?ms res)"
    unfolding get_blocklist_names_def Let_def nz_def res_def by (rule refl)
  then consider "get_blocklist_names domains d = []" | "get_blocklist_names domains d = res"
    | "get_blocklist_names domains d = fold (note_manual nz) ?ms res" by presburger
  then show ?thesis
  proof cases
    case 1
    with assms show ?thesis by simp
  next
    case 2
    from assms [unfolded 2] show ?thesis by (rule lists)
  next
    case 3
    from assms [unfolded 3] show ?thesis by (rule by_hand)
  qed
qed

end
