(* ===== verification/Spec2Isabelle.thy ===== *)
theory Spec2Isabelle
  imports Sync_System Boot_Burst Rollups Audit_Rollback Web_Security Clients Streaming System_Health Analytics Prometheus Backups Node_Package Migrations Precache_Pages Deployment Pages Startup Audit_Trail
    Propagation Presets Page_Shell Warm_Probes Log_Names
begin

text \<open>
  PowerBlockade: a DNS filter of a primary node and any number of secondary nodes.  The primary runs
  the admin interface (\<open>admin-ui/app\<close>, Python, FastAPI and SQLAlchemy over PostgreSQL), which downloads
  blocklists, renders them as response-policy zones for the recursor, ingests query events and shows
  statistics.  Every secondary runs an agent (\<open>sync-agent\<close>, Python) that registers with the primary,
  fetches its configuration, delivers metrics and executes commands.

  \<^bold>\<open>How the model reads.\<close>  Every function of the code that is modelled is a definition with the
  source's name, taking the database record \<open>db\<close> (one table per SQLAlchemy class), the clock as a
  number of microseconds and whatever the code asks of the outside as arguments, and returning the new
  state with the response.  An exception is a value: \<open>py_result\<close> is \<open>py_error + 'a\<close>.  A handler that
  raises leaves the database as it was, because its session is never committed; files already written
  stay.  Strings are lists of code points below 256, Python's integers are \<open>int\<close>, floats are exact
  rationals, IP addresses are words of 32 and 128 bits.

  \<^bold>\<open>Parameters.\<close>  Code outside the repository is an argument of the definitions that use it: the
  download of a list, HTTP requests between agent and primary where they are not composed, the DNS
  library (queries, reverse lookups), bcrypt and SHA-256, random tokens, the salted \<open>hash\<close>, system calls
  that may fail.  What a theorem needs of them is a named assumption, and its witness instantiates them.

  \<^bold>\<open>Theories, in the order they build on each other.\<close>
  \<^item> \<open>Prelude\<close>: Python strings, numbers as text, durations, errors; the collections \<open>pystr_simps\<close>,
    \<open>tbl_simps\<close>, \<open>inv_intros\<close>.
  \<^item> \<open>Store\<close>: tables with a key sequence and the operations queries use.  Locale \<open>key_preserving\<close>: an
    update that keeps the key keeps a table well-formed; interpreted for the commands of a node, the
    status of a node and the password of a user.
  \<^item> \<open>Models\<close>: \<open>models/*.py\<close>, one record per class.  \<open>Settings_Store\<close>: \<open>models/settings.py\<close> and the
    handlers that write settings (\<open>routers/settings.py\<close>, \<open>routers/precache.py\<close>); locale \<open>settings_kv\<close>.
  \<^item> \<open>Rpz\<close>: \<open>services/rpz.py\<close>, parsing of lists and rendering of zones, with a reader of zones as the
    specification.
  \<^item> \<open>Atomic_Write\<close>: \<open>services/atomic_write.py\<close> as runs of system calls that may fail at any point;
    locale \<open>whole_file_write\<close>.
  \<^item> \<open>Config_Audit\<close>: \<open>services/config_audit.py\<close>.  \<open>Forward_Zones\<close>: \<open>routers/\<close> and
    \<open>services/forward_zones.py\<close>.  \<open>Audit_Rollback\<close>: \<open>routers/audit.py\<close>.
  \<^item> \<open>Blocklists\<close>: \<open>services/blocklist_manager.py\<close>, \<open>services/blocklist_scheduler.py\<close>,
    \<open>routers/blocklists.py\<close>, \<open>routers/entries.py\<close> and the update job of \<open>services/scheduler.py\<close>.
    \<open>Blocking\<close>: \<open>routers/blocking.py\<close>.
  \<^item> \<open>Datetime_Text\<close>: \<open>isoformat\<close> and \<open>fromisoformat\<close>.  \<open>Ip_Address\<close>: Python's \<open>ipaddress\<close>; locale
    \<open>ip_version\<close>, interpreted for both versions of the protocol.
  \<^item> \<open>Node_Sync\<close> and \<open>Ingest\<close>: \<open>routers/node_sync.py\<close>; locale \<open>event_sink\<close>.  \<open>Node_Lifecycle\<close>:
    \<open>routers/nodes.py\<close>, the ageing job and the local metrics scrape of \<open>services/scheduler.py\<close>, and
    \<open>bootstrap_primary_node\<close>, with the step relation \<open>node_step\<close> and its reachable states.
  \<^item> \<open>Metrics_Buffer\<close>: \<open>sync-agent/buffer.py\<close>; locale \<open>metrics_queue\<close>.  \<open>Agent\<close>: the loop of
    \<open>sync-agent/agent.py\<close>.  \<open>Sync_System\<close>: that loop run against the primary's handlers.  \<open>Node_Package\<close>:
    \<open>services/node_generator.py\<close>, every file of the package of a secondary.  \<open>Deployment\<close>: the start of the
    agent in the container that the package describes, its registration and its first pass.
  \<^item> \<open>Precache\<close>: \<open>services/precache.py\<close>; locale \<open>ttl_store\<close>.  \<open>Boot_Burst\<close>: \<open>services/boot_burst.py\<close>
    and the advisory lock of \<open>services/scheduler.py\<close>; locale \<open>slot_pacer\<close>, interpreted for both gates.
    \<open>Warm_Probes\<close>: the queries and probes of both down to the network.  \<open>Precache_Pages\<close>: the page of
    \<open>routers/precache.py\<close> and warming on demand.
  \<^item> \<open>Rollups\<close>: \<open>services/rollups.py\<close> and \<open>services/retention.py\<close>; locale \<open>upsert_store\<close>.  \<open>Jobs\<close>: the
    table of jobs and the remaining jobs of \<open>services/scheduler.py\<close>, \<open>routers/jobs.py\<close>, with the relation
    \<open>operates\<close> of what happens to events and roll-ups over time.
    \<open>System_Health\<close>: \<open>routers/system.py\<close>.  \<open>Streaming\<close>: \<open>routers/streaming.py\<close>.
  \<^item> \<open>Analytics\<close>: \<open>routers/analytics.py\<close>, the query log and the charts; locale \<open>paged\<close>, interpreted for its
    pages and those of the audit log.  \<open>Prometheus\<close>: \<open>routers/metrics.py\<close> with a reader of the exposition
    format.  \<open>Pages\<close>: the listing pages of the routers and the filters of \<open>template_utils.py\<close>.  \<open>Log_Names\<close>: the lists
    behind a set of domains.  \<open>Presets\<close>: \<open>presets.py\<close>.  \<open>Page_Shell\<close>: the rest of \<open>template_utils.py\<close>,
    \<open>routers/help.py\<close>, \<open>routers/metrics_dashboard.py\<close> and \<open>routers/grafana_proxy.py\<close>.
  \<^item> \<open>Backups\<close>: \<open>routers/backup.py\<close>; locale \<open>framed_requests\<close>.  \<open>Migrations\<close>: \<open>alembic/versions\<close> as
    operations on a schema, and the tables the classes declare; locale \<open>reversible\<close>.
  \<^item> \<open>Clients\<close>: \<open>services/ptr_resolver.py\<close>, \<open>routers/client_resolver.py\<close>, \<open>routers/client_groups.py\<close>,
    with the step relation \<open>client_step\<close>.
  \<^item> \<open>Web_Security\<close>: \<open>csrf.py\<close>, \<open>security.py\<close>, login and logout of \<open>routers/auth.py\<close>, the checks and the
    administrator's account of \<open>main.py\<close>.  \<open>Startup\<close>: \<open>lifespan\<close> of \<open>main.py\<close>, \<open>settings.py\<close>.
  \<^item> \<open>Web_App\<close>: the application as \<open>main.py\<close> assembles it, every route that accepts a change (\<open>ui_action\<close>,
    \<open>node_action\<close>) dispatched by \<open>handle\<close> to the model of its handler, behind the CSRF middleware in
    \<open>serve\<close>; locales \<open>gate\<close> and \<open>stable_gate\<close>.  \<open>Audit_Trail\<close>: what runs of requests (\<open>serve_all\<close>) do to
    accounts, policy and audit log.  \<open>Propagation\<close>: requests of an administrator, the zones they write and a
    pass of an agent, end to end.

  \<^bold>\<open>What is shown.\<close>
  \<^item> \<^emph>\<open>Policy.\<close>  The zones that are written say exactly what the database holds; parsing keeps every host
    name and yields clean ones; rendered zones read back; a failed download never loses entries in the
    update job; schedules are enforced; a pause lasts as long as it was asked for.
  \<^item> \<^emph>\<open>Files.\<close>  An atomic write is the whole new file or nothing, also for a concurrent reader; the
    forward-zone file reads back.
  \<^item> \<^emph>\<open>Nodes.\<close>  Reachable states keep ids, names and keys of nodes unique; ageing depends on the time last
    seen only; deleting a node leaves no reference; bundles are version-checked and hold the effective
    zones; retransmitted events change nothing; commands reach the node they are for and no other;
    metrics are delivered without loss or repetition.  A generated package is complete, keeps its secrets
    in one file, and deploys its node: started in its container the agent registers under the name asked
    for, and its first pass ends with every served zone installed and no command pending.
  \<^item> \<^emph>\<open>Warming.\<close>  Rates and sizes are bounded, skipped pairs are fresh, the accounting of a burst adds up
    and its waiting ends.
  \<^item> \<^emph>\<open>Statistics.\<close>  Dashboard counts from roll-ups equal counts over raw events, after a backfill and in
    any operation with hourly roll-ups, ingest and retention; retention deletes the old rows only; the
    health page is silent exactly when all is well; the live stream is complete and in order; the pages of
    the query log and of the audit log are complete; the charts count every event; what a scraper reads
    from the metrics endpoint is what the database holds.
  \<^item> \<^emph>\<open>Administration.\<close>  Settings read back within their rails; an edit can be rolled back; forms need
    their token; the configured administrator can log in; subnet membership is agreement of leading
    bits; lookups are rate limited; groups are assigned by first match and never dangle; backups are
    confined to their directory and read back; the search names the list behind every blocked domain.
  \<^item> \<^emph>\<open>Requests.\<close>  Over any run of requests: those without a user or without their token change nothing; the
    audit log only grows, by records of authorised users, and covers every change of the policy but two kinds;
    a node's key reaches that node's data only.  A name blocked on a page and applied is blocked on a
    secondary after the next pass of its agent.
  \<^item> \<^emph>\<open>Schema and start.\<close>  The migrations apply, undo each other step by step and give the tables the
    classes declare, up to listed differences; the server comes up ready and a restart changes nothing.

  Theorems outside the manifest record behaviour that looks unintended: a list that fails to download is
  unblocked by the apply handler, the end of a pause restores nothing, the update job overrides the
  blocking switch, the last forward zone is never removed from a secondary, a returning node's heartbeat
  raises, distinct domains are counted twice across clients, the rollback of a deletion is partial, the
  blocking switch is outside the CSRF check, a stale heartbeat is hidden by the ageing job, the hour before
  is missing from the dashboard until its roll-up, the chart of a week skips every other hour, a quote in a
  node name breaks the metrics text, a line break in it the package, dumps hide configuration archives, a
  stale primary is not recovered by a restart, the time saved is negative without misses, adding a preset and
  deleting a node leave no record, nor does a failed switch, the proxy to Grafana passes the session on.

  \<^bold>\<open>Bounds and fuel.\<close>  All loops are structural recursions over lists or \<open>function\<close>s with a measure
  (the readiness wait by the remaining time, years and months of a date by the remaining days).  There
  is no fuel.  The agent's endless loop is modelled by its body, the stream's by the list of its rounds,
  and theorems quantify over all numbers of passes.

  \<^bold>\<open>Not modelled.\<close>  The HTML templates, the database session, the parsing of forms and payloads by the
  framework (a request carries its parsed form), the signing of the session cookie, what \<open>psql\<close> does to the
  database in a restore (a parameter, and excluded from the runs of \<open>Audit_Trail\<close>), the unused copy of the
  key check in \<open>node_auth.py\<close>, the runner of the migrations, the library that runs jobs at their times,
  threads, logging, and the Go and shell parts of the repository.
\<close>

end
